(* ===== verification/L4_Prelude.thy ===== *)
theory L4_Prelude
  imports Main "HOL-Library.Word"
begin

text \<open>
  Shared vocabulary of the development: fixed-width integers, C++ exceptions as values,
  computations that may throw and keep the state they changed before throwing, and the
  rules that carry invariants through such computations. Also the generic facts on lists,
  strings and words that several components use.
\<close>

section \<open>Machine integers and time\<close>

type_synonym u8 = "8 word"
type_synonym u16 = "16 word"
type_synonym u32 = "32 word"
type_synonym u64 = "64 word"

text \<open>
  A \<open>steady_clock\<close> time point or duration, counted in nanoseconds. The sources only
  compare time points and add constants to them.
\<close>

type_synonym time = int

abbreviation ms :: "int \<Rightarrow> time" where
  "ms n \<equiv> n * 1000000"

abbreviation seconds :: "int \<Rightarrow> time" where
  "seconds n \<equiv> ms (n * 1000)"

text \<open>Linux error numbers the sources distinguish.\<close>

type_synonym errno = nat

abbreviation (input) EPERM :: errno where "EPERM \<equiv> 1"
abbreviation (input) ENOENT :: errno where "ENOENT \<equiv> 2"
abbreviation (input) EINTR :: errno where "EINTR \<equiv> 4"
abbreviation (input) EIO :: errno where "EIO \<equiv> 5"
abbreviation (input) EBADF :: errno where "EBADF \<equiv> 9"
abbreviation (input) EAGAIN :: errno where "EAGAIN \<equiv> 11"
abbreviation (input) EWOULDBLOCK :: errno where "EWOULDBLOCK \<equiv> 11"
abbreviation (input) ENOMEM :: errno where "ENOMEM \<equiv> 12"
abbreviation (input) EACCES :: errno where "EACCES \<equiv> 13"
abbreviation (input) EFAULT :: errno where "EFAULT \<equiv> 14"
abbreviation (input) EINVAL :: errno where "EINVAL \<equiv> 22"
abbreviation (input) ENFILE :: errno where "ENFILE \<equiv> 23"
abbreviation (input) EMFILE :: errno where "EMFILE \<equiv> 24"
abbreviation (input) ENONET :: errno where "ENONET \<equiv> 64"
abbreviation (input) EPROTO :: errno where "EPROTO \<equiv> 71"
abbreviation (input) ENOTSOCK :: errno where "ENOTSOCK \<equiv> 88"
abbreviation (input) EMSGSIZE :: errno where "EMSGSIZE \<equiv> 90"
abbreviation (input) ENOPROTOOPT :: errno where "ENOPROTOOPT \<equiv> 92"
abbreviation (input) EOPNOTSUPP :: errno where "EOPNOTSUPP \<equiv> 95"
abbreviation (input) EADDRNOTAVAIL :: errno where "EADDRNOTAVAIL \<equiv> 99"
abbreviation (input) ENETDOWN :: errno where "ENETDOWN \<equiv> 100"
abbreviation (input) ENETUNREACH :: errno where "ENETUNREACH \<equiv> 101"
abbreviation (input) ECONNABORTED :: errno where "ECONNABORTED \<equiv> 103"
abbreviation (input) ECONNRESET :: errno where "ECONNRESET \<equiv> 104"
abbreviation (input) ENOBUFS :: errno where "ENOBUFS \<equiv> 105"
abbreviation (input) ETIMEDOUT :: errno where "ETIMEDOUT \<equiv> 110"
abbreviation (input) ECONNREFUSED :: errno where "ECONNREFUSED \<equiv> 111"
abbreviation (input) EHOSTDOWN :: errno where "EHOSTDOWN \<equiv> 112"
abbreviation (input) EHOSTUNREACH :: errno where "EHOSTUNREACH \<equiv> 113"
abbreviation (input) EINPROGRESS :: errno where "EINPROGRESS \<equiv> 115"

text \<open>The \<open>epoll\<close> event bits.\<close>

definition EPOLLIN :: u32 where "EPOLLIN = 1"

definition EPOLLOUT :: u32 where "EPOLLOUT = 4"

definition EPOLLERR :: u32 where "EPOLLERR = 8"

definition EPOLLHUP :: u32 where "EPOLLHUP = 16"

definition EPOLLRDHUP :: u32 where "EPOLLRDHUP = 8192"

section \<open>Lists\<close>

lemma nth_list_update_if:
  "xs[i := x] ! j = (if i = j \<and> j < length xs then x else xs ! j)"
  by (cases "i < length xs") (auto simp: nth_list_update list_update_beyond)

section \<open>Exceptions and computations\<close>

text \<open>
  The C++ exception classes the sources throw. \<open>ForeignException\<close> stands for whatever a
  caller-supplied callback throws; \<open>OutOfFuel\<close> is not an exception of the code but the
  mark of a bounded unfolding of a loop whose length only the environment decides.
\<close>

datatype exn =
    SystemError string errno
  | InvalidArgument string
  | LogicError string
  | RuntimeError string
  | OverflowError string
  | LengthError string
  | OutOfRange
  | SessionFailure string errno
  | RuntimePublishError string bool
  | RuntimeControlError string
  | ForeignException nat
  | OutOfFuel

text \<open>
  A computation maps a state to a result and the state it leaves behind. A throw keeps the
  changes made before it, as a C++ exception does.
\<close>

type_synonym ('s, 'a) comp = "'s \<Rightarrow> (exn + 'a) \<times> 's"

definition returnC :: "'a \<Rightarrow> ('s, 'a) comp" where
  "returnC a s = (Inr a, s)"

definition throwC :: "exn \<Rightarrow> ('s, 'a) comp" where
  "throwC e s = (Inl e, s)"

definition bindC :: "('s, 'a) comp \<Rightarrow> ('a \<Rightarrow> ('s, 'b) comp) \<Rightarrow> ('s, 'b) comp" where
  "bindC m f s = (case m s of (Inl e, t) \<Rightarrow> (Inl e, t) | (Inr a, t) \<Rightarrow> f a t)"

definition thenC :: "('s, 'a) comp \<Rightarrow> ('s, 'b) comp \<Rightarrow> ('s, 'b) comp" where
  "thenC m k = bindC m (\<lambda>_. k)"

definition getC :: "('s \<Rightarrow> 'a) \<Rightarrow> ('s, 'a) comp" where
  "getC f s = (Inr (f s), s)"

definition modifyC :: "('s \<Rightarrow> 's) \<Rightarrow> ('s, unit) comp" where
  "modifyC f s = (Inr (), f s)"

definition whenC :: "bool \<Rightarrow> ('s, unit) comp \<Rightarrow> ('s, unit) comp" where
  "whenC b m = (if b then m else returnC ())"

text \<open>\<open>try { m } catch (...) { h }\<close>: the handler sees the exception and the state at the throw.\<close>

definition catchC :: "('s, 'a) comp \<Rightarrow> (exn \<Rightarrow> ('s, 'a) comp) \<Rightarrow> ('s, 'a) comp" where
  "catchC m h s = (case m s of (Inl e, t) \<Rightarrow> h e t | (Inr a, t) \<Rightarrow> (Inr a, t))"

text \<open>\<open>try { m } catch (...) { if (!first) first = current }\<close>: run and remember the first failure.\<close>

definition attemptC :: "('s, unit) comp \<Rightarrow> exn option \<Rightarrow> ('s, exn option) comp" where
  "attemptC m first s =
     (case m s of (Inl e, t) \<Rightarrow> (Inr (case first of None \<Rightarrow> Some e | Some e0 \<Rightarrow> Some e0), t)
                | (Inr _, t) \<Rightarrow> (Inr first, t))"

definition rethrowC :: "exn option \<Rightarrow> ('s, unit) comp" where
  "rethrowC failure = (case failure of None \<Rightarrow> returnC () | Some e \<Rightarrow> throwC e)"

text \<open>A destructor at the end of a scope: it runs however the scope ends.\<close>

definition finallyC :: "('s, 'a) comp \<Rightarrow> ('s \<Rightarrow> 's) \<Rightarrow> ('s, 'a) comp" where
  "finallyC m f s = (case m s of (r, t) \<Rightarrow> (r, f t))"

fun forC :: "'i list \<Rightarrow> ('i \<Rightarrow> ('s, unit) comp) \<Rightarrow> ('s, unit) comp" where
  "forC [] body = returnC ()"
| "forC (i # is) body = thenC (body i) (forC is body)"

text \<open>A call on a part of a larger state, given by how the part is read and written back.\<close>

definition within :: "('w \<Rightarrow> 'v) \<Rightarrow> ('v \<Rightarrow> 'w \<Rightarrow> 'w) \<Rightarrow> ('v \<Rightarrow> 'a \<times> 'v) \<Rightarrow> 'w \<Rightarrow> 'a \<times> 'w" where
  "within get put f w = (case f (get w) of (a, v) \<Rightarrow> (a, put v w))"

lemma snd_within: "snd (within get put f w) = put (snd (f (get w))) w"
  by (simp add: within_def split: prod.split)

lemmas comp_defs = returnC_def throwC_def bindC_def thenC_def getC_def modifyC_def whenC_def
  catchC_def attemptC_def rethrowC_def

lemma thenC_assoc: "thenC m (thenC k l) = thenC (thenC m k) l"
  by (rule ext) (simp add: thenC_def bindC_def split: prod.split sum.split)

text \<open>Steps that cannot throw run straight through.\<close>

lemma bindC_run: "m s = (Inr a, u) \<Longrightarrow> bindC m g s = g a u"
  by (simp add: comp_defs)

lemma thenC_run: "m s = (Inr a, u) \<Longrightarrow> thenC m k s = k u"
  by (simp add: comp_defs)

lemma bindC_getC: "bindC (getC f) g s = g (f s) s"
  by (simp add: comp_defs)

lemma thenC_modifyC: "thenC (modifyC f) k s = k (f s)"
  by (simp add: comp_defs)

lemma bindC_returnC: "bindC (returnC a) g s = g a s"
  by (simp add: comp_defs)

lemma thenC_returnC: "thenC (returnC a) k s = k s"
  by (simp add: comp_defs)

lemma bindC_throwC: "bindC (throwC e) g s = (Inl e, s)"
  by (simp add: comp_defs)

lemma thenC_throwC: "thenC (throwC e) k s = (Inl e, s)"
  by (simp add: comp_defs)

lemmas run_simps = bindC_getC thenC_modifyC bindC_returnC thenC_returnC bindC_throwC thenC_throwC

section \<open>Reasoning about computations\<close>

text \<open>
  \<open>triple P m Q E\<close>: from a state satisfying \<open>P\<close>, a normal end of \<open>m\<close> with value \<open>a\<close>
  satisfies \<open>Q a\<close> and an exceptional end with \<open>e\<close> satisfies \<open>E e\<close>. \<open>preserves I m\<close> is
  the special case that \<open>m\<close> keeps \<open>I\<close> however it ends; a frame condition is
  \<open>preserves (\<lambda>s. f s = c) m\<close>.
\<close>

definition triple ::
  "('s \<Rightarrow> bool) \<Rightarrow> ('s, 'a) comp \<Rightarrow> ('a \<Rightarrow> 's \<Rightarrow> bool) \<Rightarrow> (exn \<Rightarrow> 's \<Rightarrow> bool) \<Rightarrow> bool" where
  "triple P m Q E \<longleftrightarrow>
     (\<forall>s. P s \<longrightarrow> (case m s of (Inr a, t) \<Rightarrow> Q a t | (Inl e, t) \<Rightarrow> E e t))"

definition preserves :: "('s \<Rightarrow> bool) \<Rightarrow> ('s, 'a) comp \<Rightarrow> bool" where
  "preserves I m \<longleftrightarrow> (\<forall>s. I s \<longrightarrow> I (snd (m s)))"

named_theorems preserves_rules
named_theorems triple_rules

lemma preservesI: "(\<And>s r t. I s \<Longrightarrow> m s = (r, t) \<Longrightarrow> I t) \<Longrightarrow> preserves I m"
  unfolding preserves_def by (metis prod.collapse)

lemma preservesD: "preserves I m \<Longrightarrow> I s \<Longrightarrow> m s = (r, t) \<Longrightarrow> I t"
  unfolding preserves_def by (metis snd_conv)

lemma preserves_snd: "preserves I m \<Longrightarrow> I s \<Longrightarrow> I (snd (m s))"
  by (simp add: preserves_def)

lemma preserves_conj:
  "preserves I m \<Longrightarrow> preserves J m \<Longrightarrow> preserves (\<lambda>s. I s \<and> J s) m"
  by (simp add: preserves_def)

lemma triple_preserves: "triple I m (\<lambda>_. I) (\<lambda>_. I) \<Longrightarrow> preserves I m"
  unfolding preserves_def triple_def by (fastforce split: prod.splits sum.splits)

lemma preserves_return [preserves_rules]: "preserves I (returnC a)"
  by (simp add: preserves_def returnC_def)

lemma preserves_throw [preserves_rules]: "preserves I (throwC e)"
  by (simp add: preserves_def throwC_def)

lemma preserves_get [preserves_rules]: "preserves I (getC f)"
  by (simp add: preserves_def getC_def)

lemma preserves_modify: "(\<And>s. I s \<Longrightarrow> I (f s)) \<Longrightarrow> preserves I (modifyC f)"
  by (simp add: preserves_def modifyC_def)

lemma preserves_bind [preserves_rules]:
  assumes "preserves I m" and "\<And>a. preserves I (f a)"
  shows "preserves I (bindC m f)"
proof (rule preservesI)
  fix s r t
  assume I: "I s" and run: "bindC m f s = (r, t)"
  obtain x u where m: "m s = (x, u)" by (cases "m s")
  with assms(1) I have "I u" by (rule preservesD)
  with assms(2) run m show "I t"
    by (cases x) (auto simp: bindC_def dest: preservesD)
qed

lemma preserves_then [preserves_rules]:
  "preserves I m \<Longrightarrow> preserves I k \<Longrightarrow> preserves I (thenC m k)"
  unfolding thenC_def by (rule preserves_bind)

lemma preserves_when [preserves_rules]:
  "(b \<Longrightarrow> preserves I m) \<Longrightarrow> preserves I (whenC b m)"
  by (simp add: whenC_def preserves_return)

lemma preserves_if [preserves_rules]:
  "(b \<Longrightarrow> preserves I m) \<Longrightarrow> (\<not> b \<Longrightarrow> preserves I k) \<Longrightarrow> preserves I (if b then m else k)"
  by simp

lemma preserves_catch [preserves_rules]:
  "preserves I m \<Longrightarrow> (\<And>e. preserves I (h e)) \<Longrightarrow> preserves I (catchC m h)"
  unfolding preserves_def catchC_def
  by (clarsimp split: prod.splits sum.splits) (metis snd_conv)

lemma preserves_finally [preserves_rules]:
  "preserves I m \<Longrightarrow> (\<And>s. I s \<Longrightarrow> I (f s)) \<Longrightarrow> preserves I (finallyC m f)"
  unfolding preserves_def finallyC_def by (auto split: prod.splits)

lemma preserves_attempt [preserves_rules]: "preserves I m \<Longrightarrow> preserves I (attemptC m first)"
  unfolding preserves_def attemptC_def
  by (clarsimp split: prod.splits sum.splits) (metis snd_conv)

lemma preserves_rethrow [preserves_rules]: "preserves I (rethrowC failure)"
  by (simp add: rethrowC_def preserves_return preserves_throw split: option.split)

lemma preserves_for [preserves_rules]:
  "(\<And>i. i \<in> set is \<Longrightarrow> preserves I (body i)) \<Longrightarrow> preserves I (forC is body)"
  by (induction "is") (auto intro: preserves_then preserves_return)

lemma preserves_case_option [preserves_rules]:
  "(x = None \<Longrightarrow> preserves I m) \<Longrightarrow> (\<And>a. x = Some a \<Longrightarrow> preserves I (f a)) \<Longrightarrow>
   preserves I (case x of None \<Rightarrow> m | Some a \<Rightarrow> f a)"
  by (cases x) auto

lemma preserves_case_sum [preserves_rules]:
  "(\<And>a. x = Inl a \<Longrightarrow> preserves I (f a)) \<Longrightarrow> (\<And>b. x = Inr b \<Longrightarrow> preserves I (g b)) \<Longrightarrow>
   preserves I (case x of Inl a \<Rightarrow> f a | Inr b \<Rightarrow> g b)"
  by (cases x) auto

lemma preserves_case_nat [preserves_rules]:
  "(n = 0 \<Longrightarrow> preserves I m) \<Longrightarrow> (\<And>k. n = Suc k \<Longrightarrow> preserves I (f k)) \<Longrightarrow>
   preserves I (case n of 0 \<Rightarrow> m | Suc k \<Rightarrow> f k)"
  by (cases n) auto

lemma preserves_case_prod [preserves_rules]:
  "(\<And>a b. x = (a, b) \<Longrightarrow> preserves I (f a b)) \<Longrightarrow> preserves I (case x of (a, b) \<Rightarrow> f a b)"
  by (cases x) auto

lemma tripleI:
  "(\<And>s a t. P s \<Longrightarrow> m s = (Inr a, t) \<Longrightarrow> Q a t) \<Longrightarrow>
   (\<And>s e t. P s \<Longrightarrow> m s = (Inl e, t) \<Longrightarrow> E e t) \<Longrightarrow> triple P m Q E"
  unfolding triple_def by (auto split: prod.splits sum.splits)

lemma triple_Inr: "triple P m Q E \<Longrightarrow> P s \<Longrightarrow> m s = (Inr a, t) \<Longrightarrow> Q a t"
  unfolding triple_def by fastforce

lemma triple_Inl: "triple P m Q E \<Longrightarrow> P s \<Longrightarrow> m s = (Inl e, t) \<Longrightarrow> E e t"
  unfolding triple_def by fastforce

lemma triple_bind:
  assumes "triple P m B E" and "\<And>a. triple (B a) (f a) Q E"
  shows "triple P (bindC m f) Q E"
  using assms unfolding triple_def bindC_def
  by (fastforce split: prod.splits sum.splits)

lemma triple_then:
  "triple P m (\<lambda>_. B) E \<Longrightarrow> triple B k Q E \<Longrightarrow> triple P (thenC m k) Q E"
  unfolding thenC_def by (rule triple_bind)

lemma triple_catch:
  assumes "triple P m Q B" and "\<And>e. triple (B e) (h e) Q E"
  shows "triple P (catchC m h) Q E"
  using assms unfolding triple_def catchC_def
  by (fastforce split: prod.splits sum.splits)

lemma triple_pre: "triple P m Q E \<Longrightarrow> (\<And>s. R s \<Longrightarrow> P s) \<Longrightarrow> triple R m Q E"
  by (auto simp: triple_def)

lemma triple_get_bind:
  "(\<And>a. triple (\<lambda>s. P s \<and> f s = a) (k a) Q E) \<Longrightarrow> triple P (bindC (getC f) k) Q E"
  by (auto simp: triple_def bindC_def getC_def)

lemma triple_preserves_weaken:
  "preserves J m \<Longrightarrow> (\<And>s. P s \<Longrightarrow> J s) \<Longrightarrow> (\<And>a s. J s \<Longrightarrow> Q a s) \<Longrightarrow> (\<And>e s. J s \<Longrightarrow> E e s) \<Longrightarrow>
   triple P m Q E"
  by (rule tripleI) (blast dest: preservesD)+

lemma triple_if [triple_rules]:
  "(b \<Longrightarrow> triple P m Q E) \<Longrightarrow> (\<not> b \<Longrightarrow> triple P k Q E) \<Longrightarrow> triple P (if b then m else k) Q E"
  by simp

lemma triple_case_option [triple_rules]:
  "(x = None \<Longrightarrow> triple P m Q E) \<Longrightarrow> (\<And>a. x = Some a \<Longrightarrow> triple P (f a) Q E) \<Longrightarrow>
   triple P (case x of None \<Rightarrow> m | Some a \<Rightarrow> f a) Q E"
  by (cases x) auto

lemma triple_case_sum [triple_rules]:
  "(\<And>a. x = Inl a \<Longrightarrow> triple P (f a) Q E) \<Longrightarrow> (\<And>b. x = Inr b \<Longrightarrow> triple P (g b) Q E) \<Longrightarrow>
   triple P (case x of Inl a \<Rightarrow> f a | Inr b \<Rightarrow> g b) Q E"
  by (cases x) auto

lemma triple_attempt: "triple P m (\<lambda>_. Q) (\<lambda>_. Q) \<Longrightarrow> triple P (attemptC m first) (\<lambda>_. Q) E"
  unfolding triple_def attemptC_def by (fastforce split: prod.splits sum.splits)

lemma triple_state: "(\<And>s0. P s0 \<Longrightarrow> triple (\<lambda>s. s = s0) m Q E) \<Longrightarrow> triple P m Q E"
  unfolding triple_def by simp

lemma triple_both:
  "triple P m (\<lambda>_. Q) (\<lambda>_. Q) \<Longrightarrow> triple P m (\<lambda>_. Q') (\<lambda>_. Q') \<Longrightarrow> triple P m (\<lambda>_ s. Q s \<and> Q' s) (\<lambda>_ s. Q s \<and> Q' s)"
  unfolding triple_def by (fastforce split: prod.splits sum.splits)

lemma triple_end: "triple P m (\<lambda>_. Q) (\<lambda>_. Q) \<Longrightarrow> P s \<Longrightarrow> m s = (r, t) \<Longrightarrow> Q t"
  by (cases r) (auto simp: triple_def)

text \<open>
  Computations that never throw one of \<open>E\<close>. The most used cases are that fuel never runs out
  and that nothing is thrown at all.
\<close>

definition avoids :: "exn set \<Rightarrow> ('s, 'a) comp \<Rightarrow> bool" where
  "avoids E m \<longleftrightarrow> (\<forall>s. \<forall>e\<in>E. fst (m s) \<noteq> Inl e)"

abbreviation fuelled :: "('s, 'a) comp \<Rightarrow> bool" where
  "fuelled \<equiv> avoids {OutOfFuel}"

named_theorems avoids_rules

lemma fuelled_def: "fuelled m \<longleftrightarrow> (\<forall>s. fst (m s) \<noteq> Inl OutOfFuel)"
  by (simp add: avoids_def)

lemma avoids_simple [avoids_rules]:
  "avoids E (returnC a)" "avoids E (getC f)" "avoids E (modifyC g)" "avoids E (rethrowC None)"
  by (simp_all add: avoids_def comp_defs)

lemma avoids_throw [avoids_rules]: "e \<notin> E \<Longrightarrow> avoids E (throwC e)"
  by (auto simp: avoids_def comp_defs)

lemma avoids_bind [avoids_rules]:
  assumes "avoids E m" and "\<And>a. avoids E (f a)"
  shows "avoids E (bindC m f)"
  unfolding avoids_def
proof (intro allI ballI)
  fix s e
  assume e: "e \<in> E"
  obtain r t where m: "m s = (r, t)" by (cases "m s")
  with assms(1) e have "r \<noteq> Inl e" unfolding avoids_def by (metis fst_conv)
  with m assms(2) e show "fst (bindC m f s) \<noteq> Inl e" unfolding avoids_def by (cases r) (auto simp: bindC_def)
qed

lemma avoids_then [avoids_rules]: "avoids E m \<Longrightarrow> avoids E k \<Longrightarrow> avoids E (thenC m k)"
  unfolding thenC_def by (rule avoids_bind)

lemma avoids_when [avoids_rules]: "avoids E m \<Longrightarrow> avoids E (whenC b m)"
  by (simp add: whenC_def avoids_simple)

lemma avoids_if [avoids_rules]:
  "(b \<Longrightarrow> avoids E m) \<Longrightarrow> (\<not> b \<Longrightarrow> avoids E k) \<Longrightarrow> avoids E (if b then m else k)"
  by simp

lemma avoids_case_option [avoids_rules]:
  "(x = None \<Longrightarrow> avoids E m) \<Longrightarrow> (\<And>a. x = Some a \<Longrightarrow> avoids E (f a)) \<Longrightarrow>
   avoids E (case x of None \<Rightarrow> m | Some a \<Rightarrow> f a)"
  by (cases x) auto

lemma avoids_case_sum [avoids_rules]:
  "(\<And>a. x = Inl a \<Longrightarrow> avoids E (f a)) \<Longrightarrow> (\<And>b. x = Inr b \<Longrightarrow> avoids E (g b)) \<Longrightarrow>
   avoids E (case x of Inl a \<Rightarrow> f a | Inr b \<Rightarrow> g b)"
  by (cases x) auto

lemma avoids_case_prod [avoids_rules]:
  "(\<And>a b. avoids E (f a b)) \<Longrightarrow> avoids E (case x of (a, b) \<Rightarrow> f a b)"
  by (cases x) auto

lemma avoids_for [avoids_rules]: "(\<And>i. avoids E (body i)) \<Longrightarrow> avoids E (forC is body)"
  by (induction "is") (auto intro: avoids_then avoids_simple)

lemma avoids_attempt: "avoids E (attemptC m first)"
  by (auto simp: avoids_def attemptC_def split: prod.splits sum.splits)

text \<open>A step that keeps a predicate and never throws can be passed over.\<close>

lemma silent_bind:
  assumes "preserves Q m" and "avoids UNIV m" and "\<And>a. triple Q (f a) X E"
  shows "triple Q (bindC m f) X E"
proof (rule triple_bind[where B = "\<lambda>_. Q"])
  show "triple Q m (\<lambda>_. Q) E"
    using assms(1,2) by (intro tripleI) (auto dest: preservesD simp: avoids_def, metis fst_conv)
qed (rule assms(3))

lemma silent_then:
  "preserves Q m \<Longrightarrow> avoids UNIV m \<Longrightarrow> triple Q k X E \<Longrightarrow> triple Q (thenC m k) X E"
  unfolding thenC_def by (rule silent_bind)

text \<open>A step that always returns \<open>a\<close>, and an attempt at a computation that never throws.\<close>

definition gives :: "'a \<Rightarrow> ('s, 'a) comp \<Rightarrow> bool" where
  "gives a m \<longleftrightarrow> (\<forall>s. fst (m s) = Inr a)"

lemma avoids_bind_gives:
  assumes "gives a m" and "avoids E (f a)"
  shows "avoids E (bindC m f)"
  unfolding avoids_def
proof (intro allI ballI)
  fix s e
  assume e: "e \<in> E"
  obtain t where "m s = (Inr a, t)" using assms(1) unfolding gives_def by (metis prod.collapse)
  with assms(2) e show "fst (bindC m f s) \<noteq> Inl e" by (simp add: avoids_def bindC_def)
qed

lemma gives_bind: "gives a m \<Longrightarrow> gives b (f a) \<Longrightarrow> gives b (bindC m f)"
  unfolding gives_def bindC_def by (auto split: prod.splits) (metis fst_conv sum.simps(6))

lemma gives_attempt: "avoids UNIV m \<Longrightarrow> gives f (attemptC m f)"
  unfolding gives_def avoids_def attemptC_def by (auto split: prod.splits sum.splits) (metis fst_conv)

lemma gives_unit: "avoids UNIV m \<Longrightarrow> gives () m"
  unfolding gives_def avoids_def by (metis (full_types) UNIV_I old.unit.exhaust sum.exhaust)

text \<open>Loops that shrink a budget, or else their fuel.\<close>

lemma budget_fuel_induct:
  assumes "\<And>fuel budget. (\<And>b f. b < budget \<Longrightarrow> P f b) \<Longrightarrow> (\<And>f. f < fuel \<Longrightarrow> P f budget) \<Longrightarrow> P fuel budget"
  shows "P (fuel :: nat) (budget :: nat)"
proof (induction budget arbitrary: fuel rule: less_induct)
  case (less budget)
  show ?case by (induction fuel rule: less_induct) (auto intro: assms less)
qed

text \<open>What a finished computation tells about its parts.\<close>

lemma bindC_Inr_iff [simp]:
  "bindC m f s = (Inr b, t) \<longleftrightarrow> (\<exists>a u. m s = (Inr a, u) \<and> f a u = (Inr b, t))"
  by (auto simp: bindC_def split: prod.splits sum.splits)

lemma thenC_Inr_iff [simp]:
  "thenC m k s = (Inr b, t) \<longleftrightarrow> (\<exists>a u. m s = (Inr a, u) \<and> k u = (Inr b, t))"
  by (simp add: thenC_def)

lemma returnC_iff [simp]: "returnC a s = (r, t) \<longleftrightarrow> r = Inr a \<and> t = s"
  by (auto simp: returnC_def)

lemma throwC_iff [simp]: "throwC e s = (r, t) \<longleftrightarrow> r = Inl e \<and> t = s"
  by (auto simp: throwC_def)

lemma getC_iff [simp]: "getC f s = (r, t) \<longleftrightarrow> r = Inr (f s) \<and> t = s"
  by (auto simp: getC_def)

lemma modifyC_iff [simp]: "modifyC f s = (r, t) \<longleftrightarrow> r = Inr () \<and> t = f s"
  by (auto simp: modifyC_def)

text \<open>
  A loop whose body at index \<open>i\<close> rewrites element \<open>i\<close> of a list according to \<open>R\<close> and leaves
  the others alone relates the lists before and after pointwise.
\<close>

lemma for_pointwise:
  assumes body: "\<And>i s t. I s \<Longrightarrow> i < length (xs s) \<Longrightarrow> body i s = (Inr (), t) \<Longrightarrow>
      I t \<and> (\<exists>x'. R (xs s ! i) x' \<and> xs t = (xs s)[i := x'])"
    and run: "forC is body s = (Inr (), t)"
    and init: "I s" "distinct is" "set is \<subseteq> {..<length (xs s)}"
  shows "length (xs t) = length (xs s) \<and>
    (\<forall>j < length (xs s). if j \<in> set is then R (xs s ! j) (xs t ! j) else xs t ! j = xs s ! j)"
  using run init
proof (induction "is" arbitrary: s)
  case Nil
  then show ?case by simp
next
  case (Cons i "is")
  from Cons.prems(1) obtain u where u: "body i s = (Inr (), u)" "forC is body u = (Inr (), t)"
    by auto
  from Cons.prems(4) have i: "i < length (xs s)" by simp
  with body[OF Cons.prems(2) _ u(1)] obtain x'
    where x': "R (xs s ! i) x'" "xs u = (xs s)[i := x']" and I: "I u" by blast
  with Cons.IH[OF u(2)] Cons.prems have IH: "length (xs t) = length (xs u)"
    "\<forall>j < length (xs u). if j \<in> set is then R (xs u ! j) (xs t ! j) else xs t ! j = xs u ! j"
    by auto
  show ?case
  proof (intro conjI allI impI)
    show "length (xs t) = length (xs s)" using IH(1) x'(2) by simp
    fix j assume "j < length (xs s)"
    then show "if j \<in> set (i # is) then R (xs s ! j) (xs t ! j) else xs t ! j = xs s ! j"
      using IH(2)[rule_format, of j] x' i Cons.prems(3)
      by (cases "j = i") (auto simp: nth_list_update_if split: if_splits)
  qed
qed

text \<open>A step that establishes a stronger invariant lets the rest run under it.\<close>

lemma preserves_then_stronger:
  assumes "triple I m (\<lambda>_. J) (\<lambda>_. I)" and "preserves J k" and "\<And>s. J s \<Longrightarrow> I s"
  shows "preserves I (thenC m k)"
proof (rule preservesI)
  fix s r t
  assume I: "I s" and run: "thenC m k s = (r, t)"
  obtain x u where m: "m s = (x, u)" by (cases "m s")
  show "I t"
  proof (cases x)
    case (Inl e)
    with triple_Inl[OF assms(1) I] m run show ?thesis by (simp add: comp_defs)
  next
    case (Inr a)
    with triple_Inr[OF assms(1) I] m have "J u" by simp
    with assms(2,3) run m Inr show ?thesis by (auto simp: comp_defs dest: preservesD)
  qed
qed

lemma preserves_weaken_post:
  "triple J m (\<lambda>_. I) (\<lambda>_. I) \<Longrightarrow> (\<And>s. I s \<Longrightarrow> J s) \<Longrightarrow> preserves I m"
  by (rule triple_preserves) (auto simp: triple_def)

section \<open>Strings\<close>

text \<open>\<open>std::string_view::find(char)\<close>: the first position, or \<open>None\<close> for \<open>npos\<close>.\<close>

fun find_char :: "char \<Rightarrow> string \<Rightarrow> nat option" where
  "find_char c [] = None"
| "find_char c (x # xs) = (if x = c then Some 0 else map_option Suc (find_char c xs))"

lemma find_char_None_iff: "find_char c s = None \<longleftrightarrow> c \<notin> set s"
  by (induction s) auto

lemma find_char_SomeD:
  "find_char c s = Some n \<Longrightarrow> n < length s \<and> s ! n = c \<and> c \<notin> set (take n s)"
  by (induction s arbitrary: n) (auto split: if_splits)

lemma find_char_append: "c \<notin> set s \<Longrightarrow> find_char c (s @ c # t) = Some (length s)"
  by (induction s) auto

lemma find_char_split:
  "find_char c s = Some n \<Longrightarrow> s = take n s @ c # drop (Suc n) s"
  by (metis find_char_SomeD id_take_nth_drop)

section \<open>Words\<close>

lemma unat_u8_less: "unat (w :: u8) < 256"
  using unsigned_less[of w, where 'a = nat] by simp

lemma unat_u16_less: "unat (w :: u16) < 65536"
  using unsigned_less[of w, where 'a = nat] by simp

lemma unat_u32_less: "unat (w :: u32) < 4294967296"
  using unsigned_less[of w, where 'a = nat] by simp

lemma unat_u64_less: "unat (w :: u64) < 18446744073709551616"
  using unsigned_less[of w, where 'a = nat] by simp

lemma unat_max_u64: "unat (- 1 :: u64) = 18446744073709551615"
  by (simp add: unsigned_minus_1_eq_mask mask_eq_exp_minus_1)

text \<open>Counters that stop before they wrap.\<close>

lemma word_inc_neq_0: "(w :: 'a::len word) \<noteq> - 1 \<Longrightarrow> w + 1 \<noteq> 0"
  by (metis add_eq_0_iff2)

lemma unat_inc: "(w :: 'a::len word) \<noteq> - 1 \<Longrightarrow> unat (w + 1) = Suc (unat w)"
  by (metis add.commute unatSuc word_inc_neq_0)

lemma word_le_inc: "(w :: 'a::len word) \<noteq> - 1 \<Longrightarrow> x < w + 1 \<longleftrightarrow> x \<le> w"
  by (simp add: word_less_nat_alt word_le_nat_alt unat_inc less_Suc_eq_le)

lemma unat_ucast_less:
  "unat (w :: 'a::len word) < 2 ^ LENGTH('b::len) \<Longrightarrow> unat (ucast w :: 'b word) = unat w"
  by (simp add: unsigned_ucast_eq take_bit_nat_eq_self)

lemma ucast_ucast_same:
  "LENGTH('a) \<le> LENGTH('b) \<Longrightarrow> ucast (ucast (w :: 'a::len word) :: 'b::len word) = w"
  by transfer (simp add: min_def)

section \<open>Results\<close>

text \<open>The values a computation can return.\<close>

named_theorems yields_rules

definition yields :: "('a \<Rightarrow> bool) \<Rightarrow> ('s, 'a) comp \<Rightarrow> bool" where
  "yields Q m \<longleftrightarrow> (\<forall>s a t. m s = (Inr a, t) \<longrightarrow> Q a)"

lemma yieldsD: "yields Q m \<Longrightarrow> m s = (Inr a, t) \<Longrightarrow> Q a"
  by (auto simp: yields_def)

lemma yields_return [yields_rules]: "Q a \<Longrightarrow> yields Q (returnC a)"
  by (simp add: yields_def returnC_def)

lemma yields_throw [yields_rules]: "yields Q (throwC e)"
  by (simp add: yields_def throwC_def)

lemma yields_bind [yields_rules]: "(\<And>a. yields Q (f a)) \<Longrightarrow> yields Q (bindC m f)"
  by (auto simp: yields_def bindC_def split: prod.splits sum.splits)

lemma yields_then [yields_rules]: "yields Q k \<Longrightarrow> yields Q (thenC m k)"
  unfolding thenC_def by (rule yields_bind)

lemma yields_bind_result: "yields Q m \<Longrightarrow> (\<And>a. Q a \<Longrightarrow> yields Q' (f a)) \<Longrightarrow> yields Q' (bindC m f)"
  by (fastforce simp: yields_def bindC_def split: prod.splits sum.splits)

lemma yields_catch [yields_rules]: "yields Q m \<Longrightarrow> (\<And>e. yields Q (h e)) \<Longrightarrow> yields Q (catchC m h)"
  by (auto simp: yields_def catchC_def split: prod.splits sum.splits)

lemma yields_finally [yields_rules]: "yields Q m \<Longrightarrow> yields Q (finallyC m f)"
  by (auto simp: yields_def finallyC_def split: prod.splits)

lemma yields_if [yields_rules]: "(b \<Longrightarrow> yields Q m) \<Longrightarrow> (\<not> b \<Longrightarrow> yields Q k) \<Longrightarrow> yields Q (if b then m else k)"
  by simp

lemma yields_case_sum [yields_rules]:
  "(\<And>a. x = Inl a \<Longrightarrow> yields Q (f a)) \<Longrightarrow> (\<And>b. x = Inr b \<Longrightarrow> yields Q (g b)) \<Longrightarrow> yields Q (case x of Inl a \<Rightarrow> f a | Inr b \<Rightarrow> g b)"
  by (cases x) auto

lemma yields_case_prod [yields_rules]: "(\<And>a b. x = (a, b) \<Longrightarrow> yields Q (f a b)) \<Longrightarrow> yields Q (case x of (a, b) \<Rightarrow> f a b)"
  by (cases x) auto

end
