(* ===== verification/Config.thy ===== *)
theory Config
  imports L4_Prelude
begin

text \<open>
  The user-space configuration: \<open>src/config/Config.h\<close> and \<open>src/config/Config.cpp\<close>.
  \<open>parseConfig\<close> is pure in the source and here; \<open>loadConfig\<close> reads a file through an
  abstract file interface. Diagnostic texts are Chinese string literals in the source; each
  literal is one constructor of \<open>config_message\<close>.
\<close>

section \<open>Data\<close>

type_synonym ipv4 = "u8 \<times> u8 \<times> u8 \<times> u8"

record Endpoint =
  ep_address :: ipv4
  ep_port :: u16

datatype Protocol = kTcp | kUdp
datatype MetricsKind = kOff | kStderr
datatype HealthCheck = kOff | kTcpConnect
datatype SchedulerKind = kRoundRobin

record Config =
  cfg_listen :: Endpoint
  cfg_backends :: "Endpoint list"
  cfg_protocol :: Protocol
  cfg_metrics :: MetricsKind
  cfg_healthCheck :: HealthCheck
  cfg_scheduler :: SchedulerKind

datatype ErrorKind = kFile | kSyntax | kField | kMissing

datatype file_reason = Errno errno | NotRegularFile | FileTooLarge

datatype config_message =
    MsgTextTooLarge
  | MsgForbiddenByte
  | MsgExactlyOneEquals
  | MsgEmptyKeyOrValue
  | MsgDuplicateKey string
  | MsgUnsupportedValue string
  | MsgUnknownKey
  | MsgInvalidEndpoint
  | MsgTooManyBackends
  | MsgDuplicateBackend
  | MsgListenAndBackendRequired
  | MsgFile string file_reason

record ConfigError =
  err_kind :: ErrorKind
  err_line :: nat
  err_eof :: bool
  err_message :: config_message

type_synonym ConfigResult = "ConfigError + Config"

definition kMaxConfigBytes :: nat where
  "kMaxConfigBytes = 65536"

definition default_endpoint :: Endpoint where
  "default_endpoint = \<lparr>ep_address = (0, 0, 0, 0), ep_port = 0\<rparr>"

definition default_config :: Config where
  "default_config = \<lparr>cfg_listen = default_endpoint, cfg_backends = [], cfg_protocol = kTcp,
     cfg_metrics = MetricsKind.kOff, cfg_healthCheck = HealthCheck.kOff,
     cfg_scheduler = kRoundRobin\<rparr>"

section \<open>Lexical helpers\<close>

definition makeConfigLineError :: "ErrorKind \<Rightarrow> nat \<Rightarrow> config_message \<Rightarrow> ConfigError" where
  "makeConfigLineError kind lineNumber message =
     \<lparr>err_kind = kind, err_line = lineNumber, err_eof = False, err_message = message\<rparr>"

definition makeConfigFileError :: "string \<Rightarrow> file_reason \<Rightarrow> ConfigError" where
  "makeConfigFileError path reason =
     \<lparr>err_kind = kFile, err_line = 0, err_eof = False, err_message = MsgFile path reason\<rparr>"

definition is_blank :: "char \<Rightarrow> bool" where
  "is_blank c \<longleftrightarrow> c = CHR '' '' \<or> c = CHR 0x09"

definition trimConfigWhitespace :: "string \<Rightarrow> string" where
  "trimConfigWhitespace value = rev (dropWhile is_blank (rev (dropWhile is_blank value)))"

definition is_digit :: "char \<Rightarrow> bool" where
  "is_digit c \<longleftrightarrow> of_char CHR ''0'' \<le> (of_char c :: nat) \<and> of_char c \<le> (of_char CHR ''9'' :: nat)"

definition digit_value :: "char \<Rightarrow> nat" where
  "digit_value c = of_char c - of_char CHR ''0''"

text \<open>The accumulation loop of \<open>parseUnsignedDecimal\<close>, on 32-bit \<open>unsigned\<close> arithmetic.\<close>

fun decimal_loop :: "u32 \<Rightarrow> string \<Rightarrow> u32 \<Rightarrow> u32 option" where
  "decimal_loop maximum [] result = Some result"
| "decimal_loop maximum (c # cs) result =
     (if \<not> is_digit c then None
      else let digit = of_nat (digit_value c) :: u32
           in if (maximum - digit) div 10 < result then None
              else decimal_loop maximum cs (result * 10 + digit))"

definition parseUnsignedDecimal :: "string \<Rightarrow> u32 \<Rightarrow> u32 option" where
  "parseUnsignedDecimal value maximum =
     (if value = [] \<or> (length value > 1 \<and> hd value = CHR ''0'') then None
      else case decimal_loop maximum value 0 of
             None \<Rightarrow> None
           | Some result \<Rightarrow> if maximum < result then None else Some result)"

text \<open>The four-octet loop of \<open>parseIpv4Endpoint\<close>, from octet \<open>i\<close> on.\<close>

function parse_octets :: "nat \<Rightarrow> string \<Rightarrow> u8 list option" where
  "parse_octets i address =
     (if 4 \<le> i then Some []
      else let dot = find_char CHR ''.'' address
           in if (i < 3) \<noteq> (dot \<noteq> None) then None
              else case parseUnsignedDecimal
                          (case dot of None \<Rightarrow> address | Some d \<Rightarrow> take d address) 255 of
                     None \<Rightarrow> None
                   | Some part \<Rightarrow>
                       map_option (\<lambda>rest. ucast part # rest)
                         (parse_octets (Suc i)
                            (case dot of None \<Rightarrow> address | Some d \<Rightarrow> drop (Suc d) address)))"
  by pat_completeness auto
termination
  by (relation "measure (\<lambda>(i, _). 4 - i)") auto

declare parse_octets.simps [simp del]

definition is_multicast :: "ipv4 \<Rightarrow> bool" where
  "is_multicast a \<longleftrightarrow> 224 \<le> fst a \<and> fst a \<le> 239"

definition parseIpv4Endpoint :: "string \<Rightarrow> bool \<Rightarrow> Endpoint option" where
  "parseIpv4Endpoint value backend =
     (case find_char CHR '':'' value of
        None \<Rightarrow> None
      | Some colon \<Rightarrow>
          (case parseUnsignedDecimal (drop (Suc colon) value) 65535 of
             None \<Rightarrow> None
           | Some port \<Rightarrow>
               if port = 0 then None
               else (case parse_octets 0 (take colon value) of
                       Some [a, b, c, d] \<Rightarrow>
                         (if is_multicast (a, b, c, d) \<or> (a, b, c, d) = (255, 255, 255, 255) \<or>
                             (backend \<and> (a, b, c, d) = (0, 0, 0, 0))
                          then None
                          else Some \<lparr>ep_address = (a, b, c, d), ep_port = ucast port\<rparr>)
                     | _ \<Rightarrow> None)))"

section \<open>The line parser\<close>

text \<open>The local variables of \<open>parseConfig\<close> that survive from one line to the next.\<close>

record config_scan =
  scan_config :: Config
  hasListen :: bool
  hasProtocol :: bool
  hasScheduler :: bool
  hasHealth :: bool
  hasMetrics :: bool

definition initial_scan :: config_scan where
  "initial_scan = \<lparr>scan_config = default_config, hasListen = False, hasProtocol = False,
     hasScheduler = False, hasHealth = False, hasMetrics = False\<rparr>"

fun contains_bom :: "string \<Rightarrow> bool" where
  "contains_bom (a # b # c # rest) =
     ((a = CHR 0xEF \<and> b = CHR 0xBB \<and> c = CHR 0xBF) \<or> contains_bom (b # c # rest))"
| "contains_bom _ = False"

definition set_endpoint_field ::
  "nat \<Rightarrow> string \<Rightarrow> string \<Rightarrow> config_scan \<Rightarrow> ConfigError + config_scan" where
  "set_endpoint_field lineNumber key value st =
     (if key \<noteq> ''listen'' \<and> key \<noteq> ''backend''
      then Inl (makeConfigLineError kField lineNumber MsgUnknownKey)
      else if key = ''listen'' \<and> hasListen st
      then Inl (makeConfigLineError kField lineNumber (MsgDuplicateKey ''listen''))
      else case parseIpv4Endpoint value (key = ''backend'') of
        None \<Rightarrow> Inl (makeConfigLineError kField lineNumber MsgInvalidEndpoint)
      | Some parsed \<Rightarrow>
          let config = scan_config st
          in if key = ''listen''
             then Inr (st\<lparr>scan_config := config\<lparr>cfg_listen := parsed\<rparr>, hasListen := True\<rparr>)
             else if length (cfg_backends config) = 256
             then Inl (makeConfigLineError kField lineNumber MsgTooManyBackends)
             else if parsed \<in> set (cfg_backends config)
             then Inl (makeConfigLineError kField lineNumber MsgDuplicateBackend)
             else Inr (st\<lparr>scan_config :=
                            config\<lparr>cfg_backends := cfg_backends config @ [parsed]\<rparr>\<rparr>))"

definition set_config_field ::
  "nat \<Rightarrow> string \<Rightarrow> string \<Rightarrow> config_scan \<Rightarrow> ConfigError + config_scan" where
  "set_config_field lineNumber key value st =
     (let config = scan_config st
      in if key = ''protocol'' then
           (if hasProtocol st
            then Inl (makeConfigLineError kField lineNumber (MsgDuplicateKey ''protocol''))
            else if value = ''tcp''
            then Inr (st\<lparr>scan_config := config\<lparr>cfg_protocol := kTcp\<rparr>, hasProtocol := True\<rparr>)
            else if value = ''udp''
            then Inr (st\<lparr>scan_config := config\<lparr>cfg_protocol := kUdp\<rparr>, hasProtocol := True\<rparr>)
            else Inl (makeConfigLineError kField lineNumber (MsgUnsupportedValue ''protocol'')))
         else if key = ''metrics'' then
           (if hasMetrics st
            then Inl (makeConfigLineError kField lineNumber (MsgDuplicateKey ''metrics''))
            else if value = ''off''
            then Inr (st\<lparr>scan_config := config\<lparr>cfg_metrics := MetricsKind.kOff\<rparr>,
                         hasMetrics := True\<rparr>)
            else if value = ''stderr''
            then Inr (st\<lparr>scan_config := config\<lparr>cfg_metrics := kStderr\<rparr>, hasMetrics := True\<rparr>)
            else Inl (makeConfigLineError kField lineNumber (MsgUnsupportedValue ''metrics'')))
         else if key = ''health_check'' then
           (if hasHealth st
            then Inl (makeConfigLineError kField lineNumber (MsgDuplicateKey ''health_check''))
            else if value = ''off''
            then Inr (st\<lparr>scan_config := config\<lparr>cfg_healthCheck := HealthCheck.kOff\<rparr>,
                         hasHealth := True\<rparr>)
            else if value = ''tcp_connect''
            then Inr (st\<lparr>scan_config := config\<lparr>cfg_healthCheck := kTcpConnect\<rparr>,
                         hasHealth := True\<rparr>)
            else Inl (makeConfigLineError kField lineNumber (MsgUnsupportedValue ''health_check'')))
         else if key = ''scheduler'' then
           (if hasScheduler st
            then Inl (makeConfigLineError kField lineNumber (MsgDuplicateKey ''scheduler''))
            else if value \<noteq> ''round_robin''
            then Inl (makeConfigLineError kField lineNumber (MsgUnsupportedValue ''scheduler''))
            else Inr (st\<lparr>scan_config := config\<lparr>cfg_scheduler := kRoundRobin\<rparr>,
                         hasScheduler := True\<rparr>))
         else set_endpoint_field lineNumber key value st)"

text \<open>The body of the \<open>while\<close> loop once the line has been cut off the text.\<close>

definition parse_config_line ::
  "nat \<Rightarrow> string \<Rightarrow> config_scan \<Rightarrow> ConfigError + config_scan" where
  "parse_config_line lineNumber rawLine st =
     (if CHR 0x00 \<in> set rawLine \<or> CHR 0x0D \<in> set rawLine \<or> contains_bom rawLine
      then Inl (makeConfigLineError kSyntax lineNumber MsgForbiddenByte)
      else let line = trimConfigWhitespace rawLine
           in if line = [] \<or> hd line = CHR ''#'' then Inr st
              else case find_char CHR ''='' line of
                None \<Rightarrow> Inl (makeConfigLineError kSyntax lineNumber MsgExactlyOneEquals)
              | Some equal \<Rightarrow>
                  if CHR ''='' \<in> set (drop (Suc equal) line)
                  then Inl (makeConfigLineError kSyntax lineNumber MsgExactlyOneEquals)
                  else let key = trimConfigWhitespace (take equal line);
                           value = trimConfigWhitespace (drop (Suc equal) line)
                       in if key = [] \<or> value = []
                          then Inl (makeConfigLineError kSyntax lineNumber MsgEmptyKeyOrValue)
                          else set_config_field lineNumber key value st)"

definition strip_cr :: "string \<Rightarrow> string" where
  "strip_cr line = (if line \<noteq> [] \<and> last line = CHR 0x0D then butlast line else line)"

text \<open>The loop itself: cut one line, number it, handle it; ends with the last line number.\<close>

function parse_config_lines ::
  "nat \<Rightarrow> string \<Rightarrow> config_scan \<Rightarrow> ConfigError + nat \<times> config_scan" where
  "parse_config_lines lineNumber text st =
     (if text = [] then Inr (lineNumber, st)
      else let newline = find_char CHR 0x0A text;
               line = (case newline of None \<Rightarrow> text | Some n \<Rightarrow> strip_cr (take n text));
               rest = (case newline of None \<Rightarrow> [] | Some n \<Rightarrow> drop (Suc n) text)
           in case parse_config_line (Suc lineNumber) line st of
                Inl e \<Rightarrow> Inl e
              | Inr st' \<Rightarrow> parse_config_lines (Suc lineNumber) rest st')"
  by pat_completeness auto
termination
  by (relation "measure (\<lambda>(_, text, _). length text)") (auto split: option.splits)

declare parse_config_lines.simps [simp del]

definition parseConfig :: "string \<Rightarrow> ConfigResult" where
  "parseConfig text =
     (if kMaxConfigBytes < length text
      then Inl \<lparr>err_kind = kFile, err_line = 0, err_eof = False, err_message = MsgTextTooLarge\<rparr>
      else case parse_config_lines 0 text initial_scan of
        Inl e \<Rightarrow> Inl e
      | Inr (lineNumber, st) \<Rightarrow>
          if \<not> hasListen st \<or> cfg_backends (scan_config st) = []
          then Inl \<lparr>err_kind = kMissing, err_line = lineNumber + 1, err_eof = True,
                    err_message = MsgListenAndBackendRequired\<rparr>
          else Inr (scan_config st))"

section \<open>Reading the file\<close>

text \<open>
  The system calls \<open>loadConfig\<close> makes, over an abstract world \<open>'w\<close>: \<open>open\<close>, \<open>fstat\<close> with
  \<open>S_ISREG\<close>, \<open>read\<close> of at most the given number of bytes (an empty result is end of file)
  and \<open>close\<close>, which \<open>~ConfigFileFd\<close> runs on every exit.
\<close>

record 'w config_file_ops =
  cf_open :: "string \<Rightarrow> 'w \<Rightarrow> (errno + nat) \<times> 'w"
  cf_isreg :: "nat \<Rightarrow> 'w \<Rightarrow> (errno + bool) \<times> 'w"
  cf_read :: "nat \<Rightarrow> nat \<Rightarrow> 'w \<Rightarrow> (errno + string) \<times> 'w"
  cf_close :: "nat \<Rightarrow> 'w \<Rightarrow> 'w"

function load_config_loop ::
  "'w config_file_ops \<Rightarrow> string \<Rightarrow> nat \<Rightarrow> string \<Rightarrow> 'w \<Rightarrow> ConfigResult \<times> 'w" where
  "load_config_loop ops path fd contents w =
     (if length contents \<le> kMaxConfigBytes then
        (case cf_read ops fd (min 4096 (kMaxConfigBytes + 1 - length contents)) w of
           (Inl e, w') \<Rightarrow> (Inl (makeConfigFileError path (Errno e)), w')
         | (Inr bytes, w') \<Rightarrow>
             if bytes = [] then (parseConfig contents, w')
             else load_config_loop ops path fd (contents @ bytes) w')
      else (Inl (makeConfigFileError path FileTooLarge), w))"
  by pat_completeness auto
termination
  by (relation "measure (\<lambda>(_, _, _, contents, _). Suc kMaxConfigBytes - length contents)")
     (auto simp: diff_less_mono2)

declare load_config_loop.simps [simp del]

definition loadConfig :: "'w config_file_ops \<Rightarrow> string \<Rightarrow> 'w \<Rightarrow> ConfigResult \<times> 'w" where
  "loadConfig ops path w =
     (case cf_open ops path w of
        (Inl e, w1) \<Rightarrow> (Inl (makeConfigFileError path (Errno e)), w1)
      | (Inr fd, w1) \<Rightarrow>
          (let (result, w2) =
             (case cf_isreg ops fd w1 of
                (Inl e, w2) \<Rightarrow> (Inl (makeConfigFileError path (Errno e)), w2)
              | (Inr False, w2) \<Rightarrow> (Inl (makeConfigFileError path NotRegularFile), w2)
              | (Inr True, w2) \<Rightarrow> load_config_loop ops path fd [] w2)
           in (result, cf_close ops fd w2)))"

section \<open>Printing endpoints\<close>

text \<open>\<open>std::to_string\<close> on unsigned values, and the \<open>formatEndpoint\<close> of the two services.\<close>

definition digit_char :: "nat \<Rightarrow> char" where
  "digit_char d = char_of (of_char CHR ''0'' + d)"

fun dec_string :: "nat \<Rightarrow> string" where
  "dec_string n =
     (if n < 10 then [digit_char n] else dec_string (n div 10) @ [digit_char (n mod 10)])"

declare dec_string.simps [simp del]

definition formatAddress :: "ipv4 \<Rightarrow> string" where
  "formatAddress address =
     (case address of (a, b, c, d) \<Rightarrow>
        dec_string (unat a) @ ''.'' @ dec_string (unat b) @ ''.'' @ dec_string (unat c) @ ''.'' @
        dec_string (unat d))"

definition formatEndpoint :: "Endpoint \<Rightarrow> string" where
  "formatEndpoint e = formatAddress (ep_address e) @ '':'' @ dec_string (unat (ep_port e))"

section \<open>Decimal numbers\<close>

fun dec_acc :: "nat \<Rightarrow> string \<Rightarrow> nat" where
  "dec_acc r [] = r"
| "dec_acc r (c # cs) = dec_acc (r * 10 + digit_value c) cs"

definition canonical_decimal :: "string \<Rightarrow> bool" where
  "canonical_decimal s \<longleftrightarrow>
     s \<noteq> [] \<and> list_all is_digit s \<and> (length s > 1 \<longrightarrow> hd s \<noteq> CHR ''0'')"

lemma digit_value_less: "is_digit c \<Longrightarrow> digit_value c < 10"
  unfolding is_digit_def digit_value_def by auto

lemma dec_acc_ge: "r \<le> dec_acc r s"
proof (induction s arbitrary: r)
  case (Cons c s)
  have "r \<le> r * 10 + digit_value c" by simp
  also have "\<dots> \<le> dec_acc (r * 10 + digit_value c) s" by (rule Cons.IH)
  finally show ?case by simp
qed simp

lemma dec_acc_append: "dec_acc r (s @ t) = dec_acc (dec_acc r s) t"
  by (induction s arbitrary: r) auto

lemma word10_step:
  fixes r m d :: u32
  assumes "unat d < 10" and "9 \<le> unat m" and "unat r \<le> unat m"
  shows "(m - d) div 10 < r \<longleftrightarrow> unat m < unat r * 10 + unat d"
    and "\<not> (m - d) div 10 < r \<Longrightarrow> unat (r * 10 + d) = unat r * 10 + unat d"
proof -
  have d: "d \<le> m" using assms by (simp add: word_le_nat_alt)
  have "unat ((m - d) div 10) = (unat m - unat d) div 10"
    by (simp add: unat_div unat_sub[OF d])
  then have *: "(m - d) div 10 < r \<longleftrightarrow> (unat m - unat d) div 10 < unat r"
    by (simp add: word_less_nat_alt)
  then show 1: "(m - d) div 10 < r \<longleftrightarrow> unat m < unat r * 10 + unat d"
    using assms by (simp add: less_mult_imp_div_less) linarith
  assume "\<not> (m - d) div 10 < r"
  with 1 have le: "unat r * 10 + unat d \<le> unat m" by simp
  then have "unat r * 10 + unat d < 2 ^ 32"
    using unat_u32_less[of m] by simp
  then show "unat (r * 10 + d) = unat r * 10 + unat d"
    by (simp add: unat_word_ariths)
qed

lemma decimal_loop_eq:
  assumes "9 \<le> unat m" and "unat r \<le> unat m"
  shows "decimal_loop m s r =
    (if list_all is_digit s \<and> dec_acc (unat r) s \<le> unat m
     then Some (of_nat (dec_acc (unat r) s)) else None)"
  using assms(2)
proof (induction s arbitrary: r)
  case Nil
  then show ?case by simp
next
  case (Cons c s)
  show ?case
  proof (cases "is_digit c")
    case False
    then show ?thesis by simp
  next
    case True
    let ?d = "of_nat (digit_value c) :: u32"
    have d: "unat ?d = digit_value c" and d10: "unat ?d < 10"
      using digit_value_less[OF True] by (simp_all add: unat_of_nat)
    note step = word10_step[OF d10 assms(1) Cons.prems]
    show ?thesis
    proof (cases "(m - ?d) div 10 < r")
      case True
      with step(1) have "unat m < unat r * 10 + digit_value c" using d by simp
      then have "unat m < dec_acc (unat r * 10 + digit_value c) s"
        using dec_acc_ge less_le_trans by blast
      with True show ?thesis by (simp add: Let_def)
    next
      case False
      with step d have eq: "unat (r * 10 + ?d) = unat r * 10 + digit_value c"
        and le: "unat (r * 10 + ?d) \<le> unat m" by auto
      from Cons.IH[OF le] False True show ?thesis
        by (simp add: Let_def eq)
    qed
  qed
qed

lemma parseUnsignedDecimal_value:
  assumes "9 \<le> unat m"
  shows "parseUnsignedDecimal s m = Some v \<longleftrightarrow>
    canonical_decimal s \<and> dec_acc 0 s = unat v \<and> v \<le> m"
proof -
  have "dec_acc 0 s \<le> unat m \<Longrightarrow> unat (of_nat (dec_acc 0 s) :: u32) = dec_acc 0 s"
    using unat_u32_less[of m] by (simp add: unat_of_nat)
  then show ?thesis
    by (auto simp: parseUnsignedDecimal_def decimal_loop_eq[OF assms] canonical_decimal_def
        word_le_nat_alt word_less_nat_alt split: if_splits)
qed

lemma is_digit_digit_char: "d < 10 \<Longrightarrow> is_digit (digit_char d)"
  by (simp add: is_digit_def digit_char_def)

lemma digit_value_digit_char: "d < 10 \<Longrightarrow> digit_value (digit_char d) = d"
  by (simp add: digit_value_def digit_char_def)

lemma digit_char_digit_value: "is_digit c \<Longrightarrow> digit_char (digit_value c) = c"
  by (simp add: digit_value_def digit_char_def is_digit_def)

lemma digit_char_0: "digit_char 0 = CHR ''0''"
  by code_simp

lemma dec_string_digits: "list_all is_digit (dec_string n)"
  by (induction n rule: dec_string.induct)
     (subst dec_string.simps, auto simp: is_digit_digit_char)

lemma dec_string_nonempty [simp]: "dec_string n \<noteq> []"
  by (subst dec_string.simps) simp

lemma dec_acc_dec_string: "dec_acc 0 (dec_string n) = n"
  by (induction n rule: dec_string.induct)
     (subst dec_string.simps, auto simp: dec_acc_append digit_value_digit_char)

lemma dec_string_head: "0 < n \<Longrightarrow> hd (dec_string n) \<noteq> CHR ''0''"
proof (induction n rule: dec_string.induct)
  case (1 n)
  show ?case
  proof (cases "n < 10")
    case True
    have "digit_value (digit_char n) \<noteq> digit_value CHR ''0''"
      using "1.prems" True by (simp add: digit_value_digit_char) (simp add: digit_value_def)
    with True show ?thesis by (subst dec_string.simps) auto
  next
    case False
    with 1 have "hd (dec_string (n div 10)) \<noteq> CHR ''0''" by simp
    with False show ?thesis by (subst dec_string.simps) simp
  qed
qed

lemma canonical_dec_string: "canonical_decimal (dec_string n)"
proof (cases "n < 10")
  case True
  then show ?thesis
    by (simp add: canonical_decimal_def dec_string_digits) (subst dec_string.simps, simp)
next
  case False
  then show ?thesis by (simp add: canonical_decimal_def dec_string_digits dec_string_head)
qed

lemma dec_string_dec_acc: "canonical_decimal s \<Longrightarrow> dec_string (dec_acc 0 s) = s"
proof (induction s rule: rev_induct)
  case Nil
  then show ?case by (simp add: canonical_decimal_def)
next
  case (snoc c s)
  then have c: "is_digit c" by (simp add: canonical_decimal_def)
  note v = digit_value_less[OF c] digit_char_digit_value[OF c]
  show ?case
  proof (cases "s = []")
    case True
    with v show ?thesis by (simp add: dec_string.simps)
  next
    case False
    with snoc.prems have can: "canonical_decimal s" and nz: "hd s \<noteq> CHR ''0''"
      by (auto simp: canonical_decimal_def)
    from snoc.IH[OF can] have IH: "dec_string (dec_acc 0 s) = s" .
    have "0 < dec_acc 0 s"
    proof (rule ccontr)
      assume "\<not> 0 < dec_acc 0 s"
      with IH have "s = [digit_char 0]" by (simp add: dec_string.simps)
      with nz show False by (simp add: digit_char_0)
    qed
    then have "\<not> dec_acc 0 s * 10 + digit_value c < 10" by simp
    then have "dec_string (dec_acc 0 s * 10 + digit_value c) =
        dec_string (dec_acc 0 s) @ [digit_char (digit_value c)]"
      using v by (subst dec_string.simps) simp
    with IH v show ?thesis by (simp add: dec_acc_append)
  qed
qed

lemma parse_dec_iff:
  assumes "9 \<le> unat m"
  shows "parseUnsignedDecimal s m = Some v \<longleftrightarrow> s = dec_string (unat v) \<and> v \<le> m"
  using parseUnsignedDecimal_value[OF assms] canonical_dec_string dec_acc_dec_string
    dec_string_dec_acc by metis

lemma dec_string_no_sep: "\<not> is_digit c \<Longrightarrow> c \<notin> set (dec_string n)"
  using dec_string_digits[of n] by (auto simp: list_all_iff)

lemma sep_not_digit [simp]:
  "\<not> is_digit CHR ''.''" "\<not> is_digit CHR '':''" "\<not> is_digit CHR '' ''" "\<not> is_digit CHR ''=''"
  by (simp_all add: is_digit_def)

lemma ucast_octet:
  "(\<exists>v. (v :: u32) \<le> 255 \<and> ucast v = (p :: u8) \<and> P (unat v)) \<longleftrightarrow> P (unat p)"
proof
  assume "\<exists>v. (v :: u32) \<le> 255 \<and> ucast v = p \<and> P (unat v)"
  then obtain v :: u32 where v: "v \<le> 255" "ucast v = p" "P (unat v)" by blast
  then have "unat v < 256" by (simp add: word_le_nat_alt)
  then have "unat (ucast v :: u8) = unat v" by (simp add: unat_ucast_less)
  with v show "P (unat p)" by simp
next
  assume "P (unat p)"
  moreover have "unat (ucast p :: u32) = unat p"
    using unat_u8_less[of p] by (simp add: unat_ucast_less)
  ultimately show "\<exists>v. (v :: u32) \<le> 255 \<and> ucast v = p \<and> P (unat v)"
    using unat_u8_less[of p] by (intro exI[of _ "ucast p"]) (simp add: word_le_nat_alt ucast_ucast_same)
qed

lemma ucast_port:
  "(\<exists>v. (v :: u32) \<le> 65535 \<and> v \<noteq> 0 \<and> ucast v = (p :: u16) \<and> P (unat v)) \<longleftrightarrow> p \<noteq> 0 \<and> P (unat p)"
proof
  assume "\<exists>v. (v :: u32) \<le> 65535 \<and> v \<noteq> 0 \<and> ucast v = p \<and> P (unat v)"
  then obtain v :: u32 where v: "v \<le> 65535" "v \<noteq> 0" "ucast v = p" "P (unat v)" by blast
  then have "unat v < 65536" by (simp add: word_le_nat_alt)
  then have "unat (ucast v :: u16) = unat v" by (simp add: unat_ucast_less)
  with v show "p \<noteq> 0 \<and> P (unat p)" by (auto simp: unat_eq_zero)
next
  assume "p \<noteq> 0 \<and> P (unat p)"
  moreover have "unat (ucast p :: u32) = unat p"
    using unat_u16_less[of p] by (simp add: unat_ucast_less)
  ultimately show "\<exists>v. (v :: u32) \<le> 65535 \<and> v \<noteq> 0 \<and> ucast v = p \<and> P (unat v)"
    using unat_u16_less[of p]
    by (intro exI[of _ "ucast p"]) (auto simp: word_le_nat_alt ucast_ucast_same unat_eq_zero[symmetric])
qed

section \<open>Endpoints\<close>

lemma parse_octets_step:
  assumes "i < 3"
  shows "parse_octets i s = Some l \<longleftrightarrow>
    (\<exists>p t l'. s = dec_string (unat p) @ ''.'' @ t \<and> l = p # l' \<and> parse_octets (Suc i) t = Some l')"
    (is "?L \<longleftrightarrow> ?R")
proof
  assume ?L
  then obtain d v l' where d: "find_char CHR ''.'' s = Some d"
    and v: "parseUnsignedDecimal (take d s) 255 = Some v"
    and l: "parse_octets (Suc i) (drop (Suc d) s) = Some l'" "l = ucast v # l'"
    using assms by (subst (asm) parse_octets.simps) (auto simp: Let_def split: if_splits option.splits)
  have "take d s = dec_string (unat v)" and "v \<le> 255"
    using v by (simp_all add: parse_dec_iff)
  then have "take d s = dec_string (unat (ucast v :: u8))"
    using ucast_octet[of "ucast v" "\<lambda>n. take d s = dec_string n"] by blast
  with find_char_split[OF d] l show ?R by auto
next
  assume ?R
  then obtain p t l' where s: "s = dec_string (unat p) @ ''.'' @ t" and l: "l = p # l'"
    and t: "parse_octets (Suc i) t = Some l'" by blast
  have f: "find_char CHR ''.'' s = Some (length (dec_string (unat p)))"
    using s dec_string_no_sep by (simp add: find_char_append)
  obtain v :: u32 where "v \<le> 255" "ucast v = p" "dec_string (unat p) = dec_string (unat v)"
    using ucast_octet[of p "\<lambda>n. dec_string (unat p) = dec_string n"] by blast
  then have "parseUnsignedDecimal (dec_string (unat p)) 255 = Some v"
    by (simp add: parse_dec_iff)
  with f s t l assms \<open>ucast v = p\<close> show ?L
    by (subst parse_octets.simps) (simp add: Let_def)
qed

lemma octet_text:
  "s = dec_string (unat (p :: u8)) \<longleftrightarrow>
     (\<exists>v. (v :: u32) \<le> 255 \<and> ucast v = p \<and> s = dec_string (unat v))"
  using ucast_octet[of p "\<lambda>n. s = dec_string n"] by simp

lemma parse_octets_last:
  "parse_octets 3 s = Some l \<longleftrightarrow> (\<exists>p. s = dec_string (unat p) \<and> l = [p])"
proof -
  have 4: "parse_octets 4 t = Some []" for t
    by (subst parse_octets.simps) simp
  have "parse_octets 3 s = Some l \<longleftrightarrow>
    find_char CHR ''.'' s = None \<and> (\<exists>v. parseUnsignedDecimal s 255 = Some v \<and> l = [ucast v])"
    by (subst parse_octets.simps) (auto simp: Let_def 4 split: option.splits)
  also have "\<dots> \<longleftrightarrow> find_char CHR ''.'' s = None \<and>
      (\<exists>v. (v :: u32) \<le> 255 \<and> s = dec_string (unat v) \<and> l = [ucast v])"
    by (auto simp: parse_dec_iff)
  also have "\<dots> \<longleftrightarrow> find_char CHR ''.'' s = None \<and> (\<exists>p. s = dec_string (unat p) \<and> l = [p])"
    unfolding octet_text by blast
  also have "\<dots> \<longleftrightarrow> (\<exists>p. s = dec_string (unat p) \<and> l = [p])"
    using dec_string_no_sep by (auto simp: find_char_None_iff)
  finally show ?thesis .
qed

lemma parse_octets_iff:
  "parse_octets 0 s = Some l \<longleftrightarrow> (\<exists>a b c d. l = [a, b, c, d] \<and> s = formatAddress (a, b, c, d))"
proof -
  have n: "Suc (Suc (Suc 0)) = 3" by simp
  show ?thesis
    by (auto simp: parse_octets_step parse_octets_last n formatAddress_def)
qed

definition valid_listen_endpoint :: "Endpoint \<Rightarrow> bool" where
  "valid_listen_endpoint e \<longleftrightarrow>
     ep_port e \<noteq> 0 \<and> \<not> is_multicast (ep_address e) \<and> ep_address e \<noteq> (255, 255, 255, 255)"

definition valid_backend_endpoint :: "Endpoint \<Rightarrow> bool" where
  "valid_backend_endpoint e \<longleftrightarrow> valid_listen_endpoint e \<and> ep_address e \<noteq> (0, 0, 0, 0)"

definition valid_endpoint :: "bool \<Rightarrow> Endpoint \<Rightarrow> bool" where
  "valid_endpoint backend e \<longleftrightarrow>
     (if backend then valid_backend_endpoint e else valid_listen_endpoint e)"

lemma formatAddress_no_colon: "CHR '':'' \<notin> set (formatAddress a)"
  by (cases a) (simp add: formatAddress_def dec_string_no_sep)

lemma parseIpv4Endpoint_iff:
  "parseIpv4Endpoint s backend = Some e \<longleftrightarrow> s = formatEndpoint e \<and> valid_endpoint backend e"
  (is "?L \<longleftrightarrow> ?R")
proof
  assume ?L
  then obtain n v a b c d where n: "find_char CHR '':'' s = Some n"
    and v: "parseUnsignedDecimal (drop (Suc n) s) 65535 = Some v" "v \<noteq> 0"
    and o: "parse_octets 0 (take n s) = Some [a, b, c, d]"
    and ok: "\<not> is_multicast (a, b, c, d)" "(a, b, c, d) \<noteq> (255, 255, 255, 255)"
      "backend \<Longrightarrow> (a, b, c, d) \<noteq> (0, 0, 0, 0)"
    and e: "e = \<lparr>ep_address = (a, b, c, d), ep_port = ucast v\<rparr>"
    by (auto simp: parseIpv4Endpoint_def split: option.splits if_splits list.splits)
  have "ucast v \<noteq> (0 :: u16) \<and> drop (Suc n) s = dec_string (unat (ucast v :: u16))"
    using v ucast_port[of "ucast v" "\<lambda>k. drop (Suc n) s = dec_string k"]
    by (auto simp: parse_dec_iff)
  with o ok e find_char_split[OF n] show ?R
    by (auto simp: parse_octets_iff formatEndpoint_def valid_endpoint_def
        valid_backend_endpoint_def valid_listen_endpoint_def)
next
  assume R: ?R
  obtain a b c d where abcd: "ep_address e = (a, b, c, d)" by (cases "ep_address e") auto
  from R have s: "s = formatAddress (a, b, c, d) @ '':'' @ dec_string (unat (ep_port e))"
    and p: "ep_port e \<noteq> 0"
    by (auto simp: formatEndpoint_def abcd valid_endpoint_def valid_backend_endpoint_def
        valid_listen_endpoint_def split: if_splits)
  obtain v :: u32 where v: "v \<le> 65535" "v \<noteq> 0" "ucast v = ep_port e"
    "dec_string (unat (ep_port e)) = dec_string (unat v)"
    using ucast_port[of "ep_port e" "\<lambda>k. dec_string (unat (ep_port e)) = dec_string k"] p by blast
  have "find_char CHR '':'' s = Some (length (formatAddress (a, b, c, d)))"
    using s formatAddress_no_colon by (simp add: find_char_append)
  moreover have "parseUnsignedDecimal (dec_string (unat (ep_port e))) 65535 = Some v"
    using v by (simp add: parse_dec_iff)
  moreover have "parse_octets 0 (formatAddress (a, b, c, d)) = Some [a, b, c, d]"
    by (simp add: parse_octets_iff)
  moreover have "e = \<lparr>ep_address = (a, b, c, d), ep_port = ucast v\<rparr>"
    using v abcd by simp
  moreover have "\<not> (is_multicast (a, b, c, d) \<or> (a, b, c, d) = (255, 255, 255, 255) \<or>
      (backend \<and> (a, b, c, d) = (0, 0, 0, 0)))"
    using R abcd unfolding valid_endpoint_def valid_backend_endpoint_def valid_listen_endpoint_def
    by (metis (full_types))
  ultimately show ?L
    using v(2) unfolding parseIpv4Endpoint_def by (simp add: s)
qed

section \<open>Well-formed configurations\<close>

definition config_wf :: "Config \<Rightarrow> bool" where
  "config_wf cfg \<longleftrightarrow>
     valid_listen_endpoint (cfg_listen cfg) \<and>
     1 \<le> length (cfg_backends cfg) \<and> length (cfg_backends cfg) \<le> 256 \<and>
     distinct (cfg_backends cfg) \<and> list_all valid_backend_endpoint (cfg_backends cfg)"

definition scan_ok :: "config_scan \<Rightarrow> bool" where
  "scan_ok st \<longleftrightarrow>
     (hasListen st \<longrightarrow> valid_listen_endpoint (cfg_listen (scan_config st))) \<and>
     length (cfg_backends (scan_config st)) \<le> 256 \<and>
     distinct (cfg_backends (scan_config st)) \<and>
     list_all valid_backend_endpoint (cfg_backends (scan_config st))"

lemma scan_ok_initial: "scan_ok initial_scan"
  by (simp add: scan_ok_def initial_scan_def default_config_def)

lemma set_endpoint_field_ok:
  assumes "scan_ok st" and "set_endpoint_field n key value st = Inr st'"
  shows "scan_ok st'"
  using assms
  by (auto simp: set_endpoint_field_def scan_ok_def Let_def parseIpv4Endpoint_iff
      valid_endpoint_def split: if_splits option.splits)

lemma set_config_field_ok:
  "scan_ok st \<Longrightarrow> set_config_field n key value st = Inr st' \<Longrightarrow> scan_ok st'"
  unfolding set_config_field_def Let_def
  by (auto simp: scan_ok_def split: if_splits dest: set_endpoint_field_ok[unfolded scan_ok_def, rotated])

lemma parse_config_line_ok:
  "scan_ok st \<Longrightarrow> parse_config_line n line st = Inr st' \<Longrightarrow> scan_ok st'"
  by (auto simp: parse_config_line_def Let_def split: if_splits option.splits
      dest: set_config_field_ok)

section \<open>The loop as a fold over the lines\<close>

function config_lines :: "string \<Rightarrow> string list" where
  "config_lines text =
     (if text = [] then []
      else case find_char CHR 0x0A text of
             None \<Rightarrow> [text]
           | Some n \<Rightarrow> strip_cr (take n text) # config_lines (drop (Suc n) text))"
  by pat_completeness auto
termination
  by (relation "measure length") auto

declare config_lines.simps [simp del]

fun fold_config_lines ::
  "nat \<Rightarrow> string list \<Rightarrow> config_scan \<Rightarrow> ConfigError + nat \<times> config_scan" where
  "fold_config_lines n [] st = Inr (n, st)"
| "fold_config_lines n (l # ls) st =
     (case parse_config_line (Suc n) l st of
        Inl e \<Rightarrow> Inl e
      | Inr st' \<Rightarrow> fold_config_lines (Suc n) ls st')"

lemma config_lines_Nil [simp]: "config_lines [] = []"
  by (simp add: config_lines.simps)

lemma config_lines_newline:
  "CHR 0x0A \<notin> set l \<Longrightarrow> config_lines (l @ CHR 0x0A # rest) = strip_cr l # config_lines rest"
  by (subst config_lines.simps) (simp add: find_char_append)

lemma parse_config_lines_fold:
  "parse_config_lines n text st = fold_config_lines n (config_lines text) st"
proof (induction n "text" st rule: parse_config_lines.induct)
  case (1 n tx st)
  show ?case
  proof (cases "tx = []")
    case True
    then show ?thesis by (simp add: parse_config_lines.simps)
  next
    case False
    show ?thesis
    proof (cases "find_char CHR 0x0A tx")
      case None
      with False show ?thesis
        by (simp add: parse_config_lines.simps[of n tx] config_lines.simps[of tx]
            parse_config_lines.simps[of _ "[]"] split: sum.splits)
    next
      case (Some k)
      with False "1.IH"[OF False refl refl refl] show ?thesis
        by (simp add: parse_config_lines.simps[of n tx] config_lines.simps[of tx]
            split: sum.splits)
    qed
  qed
qed

lemma fold_config_lines_ok:
  "scan_ok st \<Longrightarrow> fold_config_lines n ls st = Inr (k, st') \<Longrightarrow> scan_ok st' \<and> k = n + length ls"
  by (induction n ls st rule: fold_config_lines.induct)
     (auto split: sum.splits dest: parse_config_line_ok)

definition line_error :: "nat \<Rightarrow> ConfigError + 'a \<Rightarrow> bool" where
  "line_error n r \<longleftrightarrow>
     (\<forall>e. r = Inl e \<longrightarrow> err_line e = n \<and> err_kind e \<in> {kSyntax, kField} \<and> \<not> err_eof e)"

lemma line_error_Inr [simp]: "line_error n (Inr x)"
  by (simp add: line_error_def)

lemma line_error_make [simp]:
  "line_error n (Inl (makeConfigLineError kField n m))"
  "line_error n (Inl (makeConfigLineError kSyntax n m))"
  by (simp_all add: line_error_def makeConfigLineError_def)

lemma set_endpoint_field_error: "line_error n (set_endpoint_field n key value st)"
  unfolding set_endpoint_field_def Let_def by (simp split: option.split)

lemma set_config_field_error: "line_error n (set_config_field n key value st)"
  unfolding set_config_field_def Let_def by (simp add: set_endpoint_field_error)

lemma parse_config_line_error:
  "parse_config_line n line st = Inl e \<Longrightarrow>
     err_line e = n \<and> err_kind e \<in> {kSyntax, kField} \<and> \<not> err_eof e"
proof -
  have "line_error n (parse_config_line n line st)"
    unfolding parse_config_line_def Let_def by (simp add: set_config_field_error split: option.split)
  then show "parse_config_line n line st = Inl e \<Longrightarrow> ?thesis"
    by (simp add: line_error_def)
qed

lemma fold_config_lines_error:
  assumes "fold_config_lines n ls st = Inl e"
  shows "\<exists>k < length ls. err_line e = n + Suc k \<and> err_kind e \<in> {kSyntax, kField} \<and> \<not> err_eof e \<and>
    (\<forall>ls'. take (Suc k) ls' = take (Suc k) ls \<longrightarrow> fold_config_lines n ls' st = Inl e)"
  using assms
proof (induction n ls st rule: fold_config_lines.induct)
  case (1 n st)
  then show ?case by simp
next
  case (2 n l ls st)
  show ?case
  proof (cases "parse_config_line (Suc n) l st")
    case (Inl e')
    with "2.prems" have "e' = e" by simp
    with Inl have "fold_config_lines n ls' st = Inl e" if "take 1 ls' = [l]" for ls'
      using that by (cases ls') auto
    with parse_config_line_error[OF Inl] \<open>e' = e\<close> show ?thesis
      by (intro exI[of _ 0]) auto
  next
    case (Inr st')
    with 2 obtain k where k: "k < length ls" "err_line e = Suc n + Suc k"
      "err_kind e \<in> {kSyntax, kField}" "\<not> err_eof e"
      "\<forall>ls'. take (Suc k) ls' = take (Suc k) ls \<longrightarrow> fold_config_lines (Suc n) ls' st' = Inl e"
      by auto
    have "fold_config_lines n ls' st = Inl e"
      if "take (Suc (Suc k)) ls' = l # take (Suc k) ls" for ls'
      using that Inr k(5) by (cases ls') auto
    with k show ?thesis by (intro exI[of _ "Suc k"]) auto
  qed
qed

section \<open>A canonical text for every well-formed configuration\<close>

definition render_lines :: "Config \<Rightarrow> string list" where
  "render_lines cfg =
     [''protocol='' @ (case cfg_protocol cfg of kTcp \<Rightarrow> ''tcp'' | kUdp \<Rightarrow> ''udp''),
      ''metrics='' @ (case cfg_metrics cfg of MetricsKind.kOff \<Rightarrow> ''off'' | kStderr \<Rightarrow> ''stderr''),
      ''health_check='' @
        (case cfg_healthCheck cfg of HealthCheck.kOff \<Rightarrow> ''off'' | kTcpConnect \<Rightarrow> ''tcp_connect''),
      ''scheduler=round_robin'',
      ''listen='' @ formatEndpoint (cfg_listen cfg)] @
     map (\<lambda>b. ''backend='' @ formatEndpoint b) (cfg_backends cfg)"

definition render_config :: "Config \<Rightarrow> string" where
  "render_config cfg = concat (map (\<lambda>l. l @ [CHR 0x0A]) (render_lines cfg))"

text \<open>Characters that keep a token intact under every lexical step.\<close>

definition plain_char :: "char \<Rightarrow> bool" where
  "plain_char c \<longleftrightarrow> c \<notin> {CHR ''='', CHR '' '', CHR ''#'', CHR 0x00, CHR 0x09, CHR 0x0A, CHR 0x0D, CHR 0xEF}"

lemma trim_no_blank:
  assumes "\<forall>c \<in> set s. \<not> is_blank c"
  shows "trimConfigWhitespace s = s"
proof -
  have *: "dropWhile is_blank t = t" if "\<forall>c \<in> set t. \<not> is_blank c" for t
    using that by (cases t) auto
  show ?thesis using assms by (simp add: trimConfigWhitespace_def *)
qed

lemma plain_no_blank: "list_all plain_char s \<Longrightarrow> \<forall>c \<in> set s. \<not> is_blank c"
  by (auto simp: list_all_iff plain_char_def is_blank_def)

lemma no_bom: "CHR 0xEF \<notin> set s \<Longrightarrow> \<not> contains_bom s"
  by (induction s rule: contains_bom.induct) auto

lemma parse_config_line_field:
  assumes "list_all plain_char key" "key \<noteq> []" "list_all plain_char value" "value \<noteq> []"
  shows "parse_config_line n (key @ ''='' @ value) st = set_config_field n key value st"
proof -
  let ?line = "key @ ''='' @ value"
  have "\<forall>c \<in> set ?line. \<not> is_blank c"
    using plain_no_blank assms(1,3) by (auto simp: is_blank_def)
  then have trim: "trimConfigWhitespace ?line = ?line"
    by (rule trim_no_blank)
  have "CHR ''='' \<notin> set key" and eqv: "CHR ''='' \<notin> set value" and hash: "hd key \<noteq> CHR ''#''"
    using assms by (auto simp: list_all_iff plain_char_def)
  then have find: "find_char CHR ''='' ?line = Some (length key)"
    using find_char_append by simp
  have "\<not> contains_bom ?line"
    using assms(1,3) by (intro no_bom) (auto simp: list_all_iff plain_char_def)
  moreover have "CHR 0x00 \<notin> set ?line" "CHR 0x0D \<notin> set ?line"
    using assms(1,3) by (auto simp: list_all_iff plain_char_def)
  ultimately show ?thesis
    using assms trim find eqv hash
    by (simp add: parse_config_line_def trim_no_blank plain_no_blank)
qed

lemma digit_plain: "is_digit c \<Longrightarrow> plain_char c"
  by (auto simp: is_digit_def plain_char_def)

lemma dec_string_plain: "list_all plain_char (dec_string n)"
  using dec_string_digits[of n] digit_plain by (auto simp: list_all_iff)

lemma formatEndpoint_plain: "list_all plain_char (formatEndpoint e)"
  by (cases "ep_address e")
     (simp add: formatEndpoint_def formatAddress_def dec_string_plain plain_char_def)

lemma formatEndpoint_nonempty [simp]: "formatEndpoint e \<noteq> []"
  by (simp add: formatEndpoint_def)

lemma length_dec_string: "n < 10 ^ Suc k \<Longrightarrow> length (dec_string n) \<le> Suc k"
proof (induction k arbitrary: n)
  case 0
  then show ?case by (simp add: dec_string.simps)
next
  case (Suc k)
  then have "length (dec_string (n div 10)) \<le> Suc k" by simp
  then show ?case by (subst dec_string.simps) simp
qed

lemma length_formatEndpoint: "length (formatEndpoint e) \<le> 21"
proof -
  have o: "length (dec_string (unat (a :: u8))) \<le> 3" for a
    using length_dec_string[of "unat a" 2] unat_u8_less[of a] by simp
  have p: "length (dec_string (unat (ep_port e))) \<le> 5"
    using length_dec_string[of "unat (ep_port e)" 4] unat_u16_less[of "ep_port e"] by simp
  obtain a b c d where "ep_address e = (a, b, c, d)" by (cases "ep_address e") auto
  then show ?thesis
    using o[of a] o[of b] o[of c] o[of d] p by (simp add: formatEndpoint_def formatAddress_def)
qed

lemma config_lines_render:
  "\<forall>l \<in> set ls. CHR 0x0A \<notin> set l \<and> CHR 0x0D \<notin> set l \<Longrightarrow>
   config_lines (concat (map (\<lambda>l. l @ [CHR 0x0A]) ls)) = ls"
proof (induction ls)
  case (Cons l ls)
  then have "strip_cr l = l" by (simp add: strip_cr_def) (metis last_in_set)
  with Cons show ?case by (simp add: config_lines_newline)
qed simp

lemma fold_backend_lines:
  assumes "list_all valid_backend_endpoint bs"
    and "distinct (cfg_backends (scan_config st) @ bs)"
    and "length (cfg_backends (scan_config st)) + length bs \<le> 256"
  shows "fold_config_lines n (map (\<lambda>b. ''backend='' @ formatEndpoint b) bs) st =
    Inr (n + length bs,
         st\<lparr>scan_config := (scan_config st)\<lparr>cfg_backends := cfg_backends (scan_config st) @ bs\<rparr>\<rparr>)"
  using assms
proof (induction bs arbitrary: n st)
  case (Cons b bs)
  let ?cfg = "scan_config st"
  let ?st = "st\<lparr>scan_config := ?cfg\<lparr>cfg_backends := cfg_backends ?cfg @ [b]\<rparr>\<rparr>"
  have "parseIpv4Endpoint (formatEndpoint b) True = Some b"
    using Cons.prems(1) by (simp add: parseIpv4Endpoint_iff valid_endpoint_def)
  then have "set_config_field (Suc n) ''backend'' (formatEndpoint b) st = Inr ?st"
    using Cons.prems by (simp add: set_config_field_def set_endpoint_field_def Let_def)
  moreover have "parse_config_line (Suc n) (''backend'' @ ''='' @ formatEndpoint b) st =
      set_config_field (Suc n) ''backend'' (formatEndpoint b) st"
    by (rule parse_config_line_field) (simp_all add: formatEndpoint_plain plain_char_def)
  ultimately have "parse_config_line (Suc n) (''backend='' @ formatEndpoint b) st = Inr ?st"
    by simp
  with Cons.IH[of ?st "Suc n"] Cons.prems show ?case by simp
qed simp

lemma render_lines_plain:
  "\<forall>l \<in> set (render_lines cfg). CHR 0x0A \<notin> set l \<and> CHR 0x0D \<notin> set l"
proof -
  have "CHR 0x0A \<notin> set (formatEndpoint e) \<and> CHR 0x0D \<notin> set (formatEndpoint e)" for e
    using formatEndpoint_plain[of e] by (auto simp: list_all_iff plain_char_def)
  then show ?thesis
    by (auto simp: render_lines_def split: Protocol.split MetricsKind.split HealthCheck.split)
qed

lemma length_render_config:
  assumes "length (cfg_backends cfg) \<le> 256"
  shows "length (render_config cfg) \<le> kMaxConfigBytes"
proof -
  have "sum_list (map (\<lambda>b. length (formatEndpoint b)) bs) \<le> 21 * length bs" for bs
    by (induction bs) (use length_formatEndpoint in \<open>auto intro: add_mono\<close>)
  from this[of "cfg_backends cfg"] assms length_formatEndpoint[of "cfg_listen cfg"]
  show ?thesis
    by (cases "cfg_protocol cfg"; cases "cfg_metrics cfg"; cases "cfg_healthCheck cfg")
       (simp_all add: render_config_def render_lines_def kMaxConfigBytes_def length_concat
         comp_def sum_list_Suc)
qed

lemma parse_field_protocol:
  "\<not> hasProtocol st \<Longrightarrow>
   parse_config_line n (''protocol='' @ (case p of kTcp \<Rightarrow> ''tcp'' | kUdp \<Rightarrow> ''udp'')) st =
   Inr (st\<lparr>scan_config := (scan_config st)\<lparr>cfg_protocol := p\<rparr>, hasProtocol := True\<rparr>)"
  using parse_config_line_field[of "''protocol''" "case p of kTcp \<Rightarrow> ''tcp'' | kUdp \<Rightarrow> ''udp''" n st]
  by (cases p) (simp_all add: plain_char_def set_config_field_def Let_def)

lemma parse_field_metrics:
  "\<not> hasMetrics st \<Longrightarrow>
   parse_config_line n (''metrics='' @ (case p of MetricsKind.kOff \<Rightarrow> ''off'' | kStderr \<Rightarrow> ''stderr'')) st =
   Inr (st\<lparr>scan_config := (scan_config st)\<lparr>cfg_metrics := p\<rparr>, hasMetrics := True\<rparr>)"
  using parse_config_line_field[of "''metrics''"
      "case p of MetricsKind.kOff \<Rightarrow> ''off'' | kStderr \<Rightarrow> ''stderr''" n st]
  by (cases p) (simp_all add: plain_char_def set_config_field_def Let_def)

lemma parse_field_health:
  "\<not> hasHealth st \<Longrightarrow>
   parse_config_line n
     (''health_check='' @ (case p of HealthCheck.kOff \<Rightarrow> ''off'' | kTcpConnect \<Rightarrow> ''tcp_connect'')) st =
   Inr (st\<lparr>scan_config := (scan_config st)\<lparr>cfg_healthCheck := p\<rparr>, hasHealth := True\<rparr>)"
  using parse_config_line_field[of "''health_check''"
      "case p of HealthCheck.kOff \<Rightarrow> ''off'' | kTcpConnect \<Rightarrow> ''tcp_connect''" n st]
  by (cases p) (simp_all add: plain_char_def set_config_field_def Let_def)

lemma parse_field_scheduler:
  "\<not> hasScheduler st \<Longrightarrow>
   parse_config_line n ''scheduler=round_robin'' st =
   Inr (st\<lparr>scan_config := (scan_config st)\<lparr>cfg_scheduler := kRoundRobin\<rparr>, hasScheduler := True\<rparr>)"
  using parse_config_line_field[of "''scheduler''" "''round_robin''" n st]
  by (simp add: plain_char_def set_config_field_def Let_def)

lemma parse_field_listen:
  "\<not> hasListen st \<Longrightarrow> valid_listen_endpoint e \<Longrightarrow>
   parse_config_line n (''listen='' @ formatEndpoint e) st =
   Inr (st\<lparr>scan_config := (scan_config st)\<lparr>cfg_listen := e\<rparr>, hasListen := True\<rparr>)"
  using parse_config_line_field[of "''listen''" "formatEndpoint e" n st]
    parseIpv4Endpoint_iff[of "formatEndpoint e" False e]
  by (simp add: plain_char_def formatEndpoint_plain set_config_field_def set_endpoint_field_def
      Let_def valid_endpoint_def)

lemmas parse_fields =
  parse_field_protocol [unfolded append_Cons append_Nil]
  parse_field_metrics [unfolded append_Cons append_Nil]
  parse_field_health [unfolded append_Cons append_Nil]
  parse_field_scheduler
  parse_field_listen [unfolded append_Cons append_Nil]

lemma parse_render_config:
  assumes "config_wf cfg"
  shows "parseConfig (render_config cfg) = Inr cfg"
proof -
  have lines: "config_lines (render_config cfg) = render_lines cfg"
    unfolding render_config_def by (rule config_lines_render[OF render_lines_plain])
  have len: "length (render_config cfg) \<le> kMaxConfigBytes"
    using assms length_render_config by (simp add: config_wf_def)
  let ?n = "Suc (Suc (Suc (Suc (Suc 0))))"
  let ?st = "\<lparr>scan_config = cfg\<lparr>cfg_backends := []\<rparr>, hasListen = True, hasProtocol = True,
     hasScheduler = True, hasHealth = True, hasMetrics = True\<rparr>"
  have cfg: "cfg\<lparr>cfg_backends := []\<rparr> = \<lparr>cfg_listen = cfg_listen cfg, cfg_backends = [],
      cfg_protocol = cfg_protocol cfg, cfg_metrics = cfg_metrics cfg,
      cfg_healthCheck = cfg_healthCheck cfg, cfg_scheduler = kRoundRobin\<rparr>"
    by (cases cfg; cases "cfg_scheduler cfg") simp
  have "fold_config_lines 0 (render_lines cfg) initial_scan =
      fold_config_lines ?n (map (\<lambda>b. ''backend='' @ formatEndpoint b) (cfg_backends cfg)) ?st"
    using assms
    by (simp add: render_lines_def parse_fields initial_scan_def default_config_def config_wf_def cfg)
  also have "\<dots> = Inr (?n + length (cfg_backends cfg), ?st\<lparr>scan_config := cfg\<rparr>)"
    using assms fold_backend_lines[of "cfg_backends cfg" ?st ?n] by (simp add: config_wf_def)
  finally show ?thesis
    using assms len
    by (cases "cfg_backends cfg")
       (simp_all add: parseConfig_def parse_config_lines_fold lines config_wf_def)
qed

definition sample_config :: Config where
  "sample_config = default_config\<lparr>cfg_listen := \<lparr>ep_address = (127, 0, 0, 1), ep_port = 8080\<rparr>,
     cfg_backends := [\<lparr>ep_address = (127, 0, 0, 1), ep_port = 9001\<rparr>,
                      \<lparr>ep_address = (127, 0, 0, 1), ep_port = 9002\<rparr>]\<rparr>"

lemma sample_config_wf: "config_wf sample_config"
  by (simp add: config_wf_def sample_config_def default_config_def valid_listen_endpoint_def
      valid_backend_endpoint_def is_multicast_def)

section \<open>Properties of the configuration parser\<close>

text \<open>
  A number text is accepted exactly when it is the canonical decimal notation
  (digits only, no leading zero) of a value within the limit, and the value returned is that
  number: the 32-bit accumulation never wraps.
\<close>

theorem parseUnsignedDecimal_exact:
  assumes "9 \<le> unat maximum"
  shows "parseUnsignedDecimal s maximum = Some v \<longleftrightarrow> s = dec_string (unat v) \<and> v \<le> maximum"
  by (rule parse_dec_iff[OF assms])

theorem parseUnsignedDecimal_exact_witness:
  "parseUnsignedDecimal ''65535'' 65535 = Some 65535 \<and> parseUnsignedDecimal ''65536'' 65535 = None
   \<and> (''65535'' = dec_string (unat (65535 :: u32)))"
proof -
  have "parseUnsignedDecimal ''65535'' 65535 = Some 65535" by code_simp
  moreover from this have "''65535'' = dec_string (unat (65535 :: u32))"
    using parseUnsignedDecimal_exact[of 65535 "''65535''" 65535] by simp
  moreover have "parseUnsignedDecimal ''65536'' 65535 = None" by code_simp
  ultimately show ?thesis by blast
qed

text \<open>
  Parsing and printing endpoints are inverse: a text is accepted as a listen or
  backend endpoint exactly when it is the printed form of a valid endpoint (port not 0, no
  multicast or broadcast address, for backends not 0.0.0.0), and it yields that endpoint.
\<close>

theorem parseIpv4Endpoint_formatEndpoint:
  "parseIpv4Endpoint s backend = Some e \<longleftrightarrow> s = formatEndpoint e \<and> valid_endpoint backend e"
  by (rule parseIpv4Endpoint_iff)

text \<open>
  Claim C26. Whatever the text, a configuration that \<open>parseConfig\<close> returns is well formed: a
  valid listen endpoint and 1 to 256 pairwise distinct valid backends.
\<close>

theorem parseConfig_well_formed:
  assumes "parseConfig text = Inr cfg"
  shows "config_wf cfg"
proof (cases "fold_config_lines 0 (config_lines text) initial_scan")
  case (Inl e)
  with assms show ?thesis by (simp add: parseConfig_def parse_config_lines_fold split: if_split_asm)
next
  case (Inr p)
  obtain n st where p: "p = (n, st)" by (cases p)
  with Inr assms have st: "hasListen st" "cfg_backends (scan_config st) \<noteq> []" "cfg = scan_config st"
    by (simp_all add: parseConfig_def parse_config_lines_fold split: if_split_asm)
  from fold_config_lines_ok[OF scan_ok_initial] Inr p have "scan_ok st" by blast
  with st show ?thesis
    by (cases "cfg_backends (scan_config st)") (simp_all add: scan_ok_def config_wf_def)
qed

theorem parseConfig_well_formed_witness:
  "parseConfig (render_config sample_config) = Inr sample_config \<and> config_wf sample_config"
  using parse_render_config[OF sample_config_wf] parseConfig_well_formed by blast

text \<open>
  Claim C29. The first offending line decides the error: a line error names a line of the
  text, is a syntax or field error, and every other text whose lines agree up to that line
  gets the same error, whatever follows.
\<close>

theorem parseConfig_first_error:
  assumes "parseConfig text = Inl e" and "\<not> err_eof e" and "length text \<le> kMaxConfigBytes"
  shows "1 \<le> err_line e \<and> err_line e \<le> length (config_lines text) \<and>
    err_kind e \<in> {kSyntax, kField} \<and>
    (\<forall>other. length other \<le> kMaxConfigBytes \<longrightarrow>
       take (err_line e) (config_lines other) = take (err_line e) (config_lines text) \<longrightarrow>
       parseConfig other = Inl e)"
proof -
  have "fold_config_lines 0 (config_lines text) initial_scan = Inl e"
    using assms by (auto simp: parseConfig_def parse_config_lines_fold split: sum.splits if_splits)
  from fold_config_lines_error[OF this] obtain k where k: "k < length (config_lines text)"
    "err_line e = Suc k" "err_kind e \<in> {kSyntax, kField}"
    "\<forall>ls. take (Suc k) ls = take (Suc k) (config_lines text) \<longrightarrow>
       fold_config_lines 0 ls initial_scan = Inl e"
    by auto
  then show ?thesis
    by (auto simp: parseConfig_def parse_config_lines_fold)
qed

theorem parseConfig_first_error_witness:
  "\<exists>e. parseConfig (''listen'' @ [CHR 0x0A] @ ''backend=10.0.0.1:90'') = Inl e \<and>
     err_line e = 1 \<and> parseConfig ''listen'' = Inl e"
proof -
  let ?t = "''listen'' @ [CHR 0x0A] @ ''backend=10.0.0.1:90''"
  let ?e = "makeConfigLineError kSyntax 1 MsgExactlyOneEquals"
  have "parse_config_line (Suc 0) ''listen'' st = Inl ?e" for st
    by (simp add: parse_config_line_def trimConfigWhitespace_def is_blank_def)
  then have e: "parseConfig ?t = Inl ?e"
    by (simp add: parseConfig_def kMaxConfigBytes_def parse_config_lines_fold strip_cr_def
        config_lines.simps[of "CHR ''l'' # _"])
  have "\<not> err_eof ?e" and line: "err_line ?e = 1" by (simp_all add: makeConfigLineError_def)
  moreover have "length ?t \<le> kMaxConfigBytes" by (simp add: kMaxConfigBytes_def)
  moreover have "take 1 (config_lines ''listen'') = take 1 (config_lines ?t)"
    by (simp add: config_lines.simps[of "CHR ''l'' # _"] strip_cr_def)
  moreover have "length ''listen'' \<le> kMaxConfigBytes" by (simp add: kMaxConfigBytes_def)
  ultimately have "parseConfig ''listen'' = Inl ?e"
    using parseConfig_first_error[OF e] by simp
  with e line show ?thesis by blast
qed

text \<open>
  Claim C27. Every well-formed configuration has a text that \<open>parseConfig\<close> reads back to
  exactly that configuration, backends in order: the parser rejects nothing it should accept.
\<close>

theorem parseConfig_render_config:
  assumes "config_wf cfg"
  shows "parseConfig (render_config cfg) = Inr cfg"
  by (rule parse_render_config[OF assms])

theorem parseConfig_render_config_witness:
  "config_wf sample_config \<and> parseConfig (render_config sample_config) = Inr sample_config"
proof -
  show ?thesis using sample_config_wf parseConfig_render_config by blast
qed

text \<open>
  What \<open>loadConfig\<close> relies on from \<open>read\<close> on a regular file whose unread content is
  \<open>rest w\<close>: a non-empty prefix of at most the requested size, empty only at the end.
\<close>

definition reads_content :: "'w config_file_ops \<Rightarrow> nat \<Rightarrow> ('w \<Rightarrow> string) \<Rightarrow> bool" where
  "reads_content ops fd rest \<longleftrightarrow>
     (\<forall>n w. 0 < n \<longrightarrow> (\<exists>bytes w'. cf_read ops fd n w = (Inr bytes, w') \<and>
        rest w = bytes @ rest w' \<and> length bytes \<le> n \<and> (bytes = [] \<longrightarrow> rest w = [])))"

lemma load_config_loop_content:
  assumes "reads_content ops fd rest" and "length contents \<le> Suc kMaxConfigBytes"
  shows "fst (load_config_loop ops path fd contents w) =
    (if length (contents @ rest w) \<le> kMaxConfigBytes then parseConfig (contents @ rest w)
     else Inl (makeConfigFileError path FileTooLarge))"
  using assms
proof (induction ops path fd contents w rule: load_config_loop.induct)
  case (1 ops path fd contents w)
  show ?case
  proof (cases "length contents \<le> kMaxConfigBytes")
    case False
    then show ?thesis by (simp add: load_config_loop.simps[of ops])
  next
    case True
    let ?n = "min 4096 (kMaxConfigBytes + 1 - length contents)"
    have "0 < ?n" using True by simp
    with "1.prems"(1) obtain bytes w' where r: "cf_read ops fd ?n w = (Inr bytes, w')"
      and c: "rest w = bytes @ rest w'" "length bytes \<le> ?n" "bytes = [] \<longrightarrow> rest w = []"
      unfolding reads_content_def by meson
    show ?thesis
    proof (cases "bytes = []")
      case True
      with \<open>length contents \<le> kMaxConfigBytes\<close> r c show ?thesis
        by (simp add: load_config_loop.simps[of ops])
    next
      case False
      have "length (contents @ bytes) \<le> Suc kMaxConfigBytes"
        using c(2) \<open>length contents \<le> kMaxConfigBytes\<close> by (simp add: min_def split: if_splits)
      with "1.IH"[OF True r[symmetric] refl False] "1.prems"(1) True False r c show ?thesis
        by (simp add: load_config_loop.simps[of ops path fd contents])
    qed
  qed
qed

text \<open>
  \<open>loadConfig\<close> of a regular file reads it whole: the result is \<open>parseConfig\<close> of
  the full content when that is at most 65536 bytes, the too-large file error otherwise,
  however \<open>read\<close> splits the content; and the descriptor is closed.
\<close>

theorem loadConfig_reads_whole_file:
  assumes "cf_open ops path w = (Inr fd, w1)" and "cf_isreg ops fd w1 = (Inr True, w2)"
    and "reads_content ops fd rest"
  shows "\<exists>w3. loadConfig ops path w =
    (if length (rest w2) \<le> kMaxConfigBytes then parseConfig (rest w2)
     else Inl (makeConfigFileError path FileTooLarge), cf_close ops fd w3)"
proof -
  obtain w3 where "load_config_loop ops path fd [] w2 =
      (fst (load_config_loop ops path fd [] w2), w3)" by (metis prod.collapse)
  with assms(1,2) load_config_loop_content[OF assms(3), of "[]" path w2] show ?thesis
    by (auto simp: loadConfig_def split: prod.splits)
qed

definition string_file_ops :: "string config_file_ops" where
  "string_file_ops = \<lparr>cf_open = (\<lambda>_ w. (Inr 3, w)), cf_isreg = (\<lambda>_ w. (Inr True, w)),
     cf_read = (\<lambda>_ n w. (Inr (take n w), drop n w)), cf_close = (\<lambda>_ w. w)\<rparr>"

theorem loadConfig_reads_whole_file_witness:
  "\<exists>w3. loadConfig string_file_ops ''l4lb.conf'' (render_config sample_config) =
     (Inr sample_config, cf_close string_file_ops 3 w3)"
proof -
  let ?w = "render_config sample_config"
  have "cf_open string_file_ops ''l4lb.conf'' ?w = (Inr 3, ?w)"
    and "cf_isreg string_file_ops 3 ?w = (Inr True, ?w)"
    by (simp_all add: string_file_ops_def)
  moreover have "reads_content string_file_ops 3 id"
    by (auto simp: reads_content_def string_file_ops_def)
  ultimately obtain w3 where "loadConfig string_file_ops ''l4lb.conf'' ?w =
    (if length (id ?w) \<le> kMaxConfigBytes then parseConfig (id ?w)
     else Inl (makeConfigFileError ''l4lb.conf'' FileTooLarge), cf_close string_file_ops 3 w3)"
    using loadConfig_reads_whole_file[of string_file_ops "''l4lb.conf''" ?w 3 ?w ?w id] by blast
  moreover have "length ?w \<le> kMaxConfigBytes"
    using sample_config_wf length_render_config by (simp add: config_wf_def)
  moreover have "parseConfig ?w = Inr sample_config"
    by (rule parse_render_config[OF sample_config_wf])
  ultimately show ?thesis by auto
qed

end
