(* ===== verification/Statistics.thy ===== *)
theory Statistics
  imports L4_Prelude
begin

text \<open>
  The facts the data planes report: \<open>src/net/Statistics.h\<close>. They carry no text and are counted by
  the metrics collector.
\<close>

datatype StatKind =
    kCreated | kClosed | kBytesC2b | kBytesB2c | kDatagramC2b | kDatagramB2c
  | kRejected | kDropped | kError | kTimeout

record StatEvent =
  se_kind :: StatKind
  se_amount :: u64

end
