(* ===== verification/Alists.thy ===== *)
theory Alists
  imports L4_Prelude "HOL-Library.AList"
begin

text \<open>
  \<open>std::unordered_map\<close> as an association list: \<open>find\<close> is \<open>map_of\<close>, \<open>erase\<close> is
  \<open>AList.delete\<close>, in-place change through a reference is \<open>AList.map_entry\<close>. The order in which
  the code walks a table is a parameter of the components.
\<close>

text \<open>\<open>std::unordered_map::emplace\<close> keeps an entry that is already there.\<close>

definition emplace :: "'k \<Rightarrow> 'v \<Rightarrow> ('k \<times> 'v) list \<Rightarrow> ('k \<times> 'v) list" where
  "emplace k v al = (if map_of al k = None then AList.update k v al else al)"

lemma length_update_new: "map_of al k = None \<Longrightarrow> length (AList.update k v al) = Suc (length al)"
  by (induction al) (auto split: if_splits)

lemma length_delete_Some:
  "map_of al k = Some v \<Longrightarrow> length (AList.delete k al) < length al"
  by (induction al) (auto split: if_splits intro: le_imp_less_Suc length_delete_le)

lemma length_delete_distinct:
  "map_of al k = Some v \<Longrightarrow> distinct (map fst al) \<Longrightarrow> length al = Suc (length (AList.delete k al))"
  by (induction al) (auto split: if_splits simp: delete_id map_of_eq_None_iff)

lemma map_of_map_entry_if:
  "map_of (AList.map_entry k g al) x = (if x = k then map_option g (map_of al x) else map_of al x)"
  by (auto simp: map_of_map_entry split: option.splits)

lemma length_map_entry [simp]: "length (AList.map_entry k g al) = length al"
  by (induction al) auto

lemma map_fst_map_entry [simp]: "map fst (AList.map_entry k g al) = map fst al"
  by (induction al) auto

lemma map_of_emplace: "map_of (emplace k v al) = (if map_of al k = None then (map_of al)(k \<mapsto> v) else map_of al)"
  by (simp add: emplace_def update_conv')

lemma set_map_entry: "(i, x) \<in> set (AList.map_entry k f al) \<Longrightarrow> \<exists>y. (i, y) \<in> set al \<and> (x = y \<or> x = f y)"
  by (induction al) (auto split: if_splits)

lemma set_update: "set (AList.update k v al) \<subseteq> insert (k, v) (set al)"
  by (induction al) auto

lemma attemptC_Inr: "attemptC m first s = (r, t) \<Longrightarrow> \<exists>failure x. r = Inr failure \<and> m s = (x, t)"
  by (auto simp: attemptC_def split: prod.splits sum.splits)

end
