(* ===== verification/TcpState.thy ===== *)
theory TcpState
  imports Alists
begin

text \<open>
  \<open>src/net/TcpState.h\<close>: the ring buffer between the two sockets of a session, the idle
  deadline and the endpoint tokens. The ring buffer is shown to be a byte queue, through an
  interface that the relay of the TCP reactor uses.
\<close>

section \<open>The ring buffer\<close>

definition kBufferLimit :: nat where "kBufferLimit = 64 * 1024"

definition kLowWater :: nat where "kLowWater = 32 * 1024"

record TcpPendingBuffer =
  pb_bytes :: "u8 list"
  pb_readOffset :: nat
  pb_size :: nat

definition newPendingBuffer :: TcpPendingBuffer where
  "newPendingBuffer = \<lparr>pb_bytes = replicate kBufferLimit 0, pb_readOffset = 0, pb_size = 0\<rparr>"

definition room :: "TcpPendingBuffer \<Rightarrow> nat" where
  "room b = kBufferLimit - pb_size b"

definition writeOffset :: "TcpPendingBuffer \<Rightarrow> nat" where
  "writeOffset b = (pb_readOffset b + pb_size b) mod kBufferLimit"

definition readableBytes :: "TcpPendingBuffer \<Rightarrow> nat" where
  "readableBytes b = min (pb_size b) (kBufferLimit - pb_readOffset b)"

definition writableBytes :: "TcpPendingBuffer \<Rightarrow> nat" where
  "writableBytes b = min (room b) (kBufferLimit - writeOffset b)"

text \<open>The first \<open>n\<close> bytes from \<open>data()\<close> on, as \<open>send\<close> reads them.\<close>

definition buffer_data :: "TcpPendingBuffer \<Rightarrow> nat \<Rightarrow> u8 list" where
  "buffer_data b n = take n (drop (pb_readOffset b) (pb_bytes b))"

text \<open>The memory from \<open>writable()\<close> on after \<open>recv\<close> has stored \<open>d\<close> there.\<close>

definition writable_store :: "TcpPendingBuffer \<Rightarrow> u8 list \<Rightarrow> TcpPendingBuffer" where
  "writable_store b d = b\<lparr>pb_bytes := take (writeOffset b) (pb_bytes b) @
     take (length (pb_bytes b) - writeOffset b) d @ drop (writeOffset b + length d) (pb_bytes b)\<rparr>"

definition commitWrittenBytes :: "nat \<Rightarrow> TcpPendingBuffer \<Rightarrow> exn + TcpPendingBuffer" where
  "commitWrittenBytes writtenBytes b =
     (if writableBytes b < writtenBytes then Inl (LogicError ''buffer write span overflow'')
      else Inr (b\<lparr>pb_size := pb_size b + writtenBytes\<rparr>))"

definition consumeReadableBytes :: "nat \<Rightarrow> TcpPendingBuffer \<Rightarrow> exn + TcpPendingBuffer" where
  "consumeReadableBytes consumedBytes b =
     (if pb_size b < consumedBytes then Inl (LogicError ''buffer underflow'')
      else Inr (if pb_size b - consumedBytes = 0
                then b\<lparr>pb_readOffset := 0, pb_size := pb_size b - consumedBytes\<rparr>
                else b\<lparr>pb_readOffset := (pb_readOffset b + consumedBytes) mod kBufferLimit,
                       pb_size := pb_size b - consumedBytes\<rparr>))"

text \<open>What \<open>recv\<close> into \<open>writable()\<close> and \<open>commitWrittenBytes\<close> do together.\<close>

definition receive_into :: "u8 list \<Rightarrow> TcpPendingBuffer \<Rightarrow> exn + TcpPendingBuffer" where
  "receive_into d b = commitWrittenBytes (length d) (writable_store b d)"

section \<open>Byte queues\<close>

text \<open>
  A sequence of fills and drains on a buffer, with the bytes taken in and given out so far; it
  stops at the first operation that is refused.
\<close>

fun relay ::
  "(u8 list \<Rightarrow> 'b \<Rightarrow> exn + 'b) \<Rightarrow> ('b \<Rightarrow> nat) \<Rightarrow> ('b \<Rightarrow> nat \<Rightarrow> u8 list) \<Rightarrow> (nat \<Rightarrow> 'b \<Rightarrow> exn + 'b) \<Rightarrow>
   (u8 list + nat) list \<Rightarrow> 'b \<Rightarrow> u8 list \<times> u8 list \<Rightarrow> ('b \<times> u8 list \<times> u8 list) option" where
  "relay fill readable front drain [] b (i, out) = Some (b, i, out)"
| "relay fill readable front drain (Inl d # ops) b (i, out) =
     (case fill d b of Inl _ \<Rightarrow> None | Inr c \<Rightarrow> relay fill readable front drain ops c (i @ d, out))"
| "relay fill readable front drain (Inr n # ops) b (i, out) =
     (if readable b < n then None
      else case drain n b of
        Inl _ \<Rightarrow> None
      | Inr c \<Rightarrow> relay fill readable front drain ops c (i, out @ front b n))"

text \<open>
  What the relay needs of a buffer: taking in bytes appends them, giving out bytes removes
  them from the front, and neither span is empty before the queue is full or empty.
\<close>

locale byte_queue =
  fixes inv :: "'b \<Rightarrow> bool" and queued :: "'b \<Rightarrow> u8 list" and capacity :: nat
    and window :: "'b \<Rightarrow> nat" and fill :: "u8 list \<Rightarrow> 'b \<Rightarrow> exn + 'b"
    and readable :: "'b \<Rightarrow> nat" and front :: "'b \<Rightarrow> nat \<Rightarrow> u8 list" and drain :: "nat \<Rightarrow> 'b \<Rightarrow> exn + 'b"
  assumes queued_le: "inv b \<Longrightarrow> length (queued b) \<le> capacity"
    and window_le: "inv b \<Longrightarrow> length (queued b) + window b \<le> capacity"
    and window_pos: "inv b \<Longrightarrow> length (queued b) < capacity \<Longrightarrow> 0 < window b"
    and fill_ok: "inv b \<Longrightarrow> length d \<le> window b \<Longrightarrow> \<exists>c. fill d b = Inr c \<and> inv c \<and> queued c = queued b @ d"
    and fill_over: "inv b \<Longrightarrow> window b < length d \<Longrightarrow> \<exists>e. fill d b = Inl e"
    and readable_le: "inv b \<Longrightarrow> readable b \<le> length (queued b)"
    and readable_pos: "inv b \<Longrightarrow> queued b \<noteq> [] \<Longrightarrow> 0 < readable b"
    and front_take: "inv b \<Longrightarrow> n \<le> readable b \<Longrightarrow> front b n = take n (queued b)"
    and drain_ok: "inv b \<Longrightarrow> n \<le> length (queued b) \<Longrightarrow> \<exists>c. drain n b = Inr c \<and> inv c \<and> queued c = drop n (queued b)"
    and drain_over: "inv b \<Longrightarrow> length (queued b) < n \<Longrightarrow> \<exists>e. drain n b = Inl e"
begin

lemma fill_Inr:
  assumes "inv b" and "fill d b = Inr c"
  shows "inv c \<and> queued c = queued b @ d \<and> length d \<le> window b"
proof -
  have le: "length d \<le> window b" using fill_over[OF assms(1), of d] assms(2) by (metis Inl_Inr_False not_less)
  with fill_ok[OF assms(1)] assms(2) show ?thesis by force
qed

lemma drain_Inr:
  assumes "inv b" and "drain n b = Inr c"
  shows "inv c \<and> queued c = drop n (queued b) \<and> n \<le> length (queued b)"
proof -
  have le: "n \<le> length (queued b)" using drain_over[OF assms(1), of n] assms(2) by (metis Inl_Inr_False not_less)
  with drain_ok[OF assms(1)] assms(2) show ?thesis by force
qed

lemma relay_fifo:
  assumes "relay fill readable front drain ops b (i, out) = Some (c, i', out')" and "inv b" and "i = out @ queued b"
  shows "inv c \<and> i' = out' @ queued c"
  using assms
proof (induction ops arbitrary: b i out)
  case Nil
  then show ?case by auto
next
  case (Cons op ops)
  show ?case
  proof (cases op)
    case (Inl d)
    with Cons.prems(1) obtain c' where f: "fill d b = Inr c'"
      and r: "relay fill readable front drain ops c' (i @ d, out) = Some (c, i', out')" by (auto split: sum.splits)
    from fill_Inr[OF Cons.prems(2) f] have "inv c'" "queued c' = queued b @ d" by auto
    with Cons.IH[OF r] Cons.prems(3) show ?thesis by simp
  next
    case (Inr n)
    with Cons.prems(1) obtain c' where n: "n \<le> readable b" and d: "drain n b = Inr c'"
      and r: "relay fill readable front drain ops c' (i, out @ front b n) = Some (c, i', out')"
      by (auto split: if_splits sum.splits)
    from drain_Inr[OF Cons.prems(2) d] have c': "inv c'" "queued c' = drop n (queued b)" by auto
    with Cons.prems(2,3) front_take[OF _ n] have "i = (out @ front b n) @ queued c'" by simp
    with Cons.IH[OF r] c'(1) show ?thesis by simp
  qed
qed

end

text \<open>The queued bytes of a ring: from the read offset, around the end of the array.\<close>

definition buffer_inv :: "TcpPendingBuffer \<Rightarrow> bool" where
  "buffer_inv b \<longleftrightarrow> length (pb_bytes b) = kBufferLimit \<and> pb_readOffset b < kBufferLimit \<and>
     pb_size b \<le> kBufferLimit \<and> (pb_size b = 0 \<longrightarrow> pb_readOffset b = 0)"

definition ring_contents :: "TcpPendingBuffer \<Rightarrow> u8 list" where
  "ring_contents b = map (\<lambda>i. pb_bytes b ! ((pb_readOffset b + i) mod kBufferLimit)) [0..<pb_size b]"

lemma kBufferLimit_pos [simp]: "0 < kBufferLimit"
  by (simp add: kBufferLimit_def)

lemma length_ring_contents [simp]: "length (ring_contents b) = pb_size b"
  by (simp add: ring_contents_def)

lemma buffer_inv_new: "buffer_inv newPendingBuffer" "ring_contents newPendingBuffer = []"
  by (simp_all add: buffer_inv_def newPendingBuffer_def ring_contents_def)

lemma mod_limit_less: "x < 2 * kBufferLimit \<Longrightarrow> x mod kBufferLimit = (if x < kBufferLimit then x else x - kBufferLimit)"
  by (simp add: mod_if)

lemma receive_contents:
  assumes "buffer_inv b" and "length d \<le> writableBytes b"
  shows "buffer_inv (writable_store b d) \<and>
    ring_contents ((writable_store b d)\<lparr>pb_size := pb_size b + length d\<rparr>) = ring_contents b @ d"
proof -
  let ?w = "writeOffset b"
  have len: "length (pb_bytes b) = kBufferLimit" "pb_readOffset b < kBufferLimit" "pb_size b \<le> kBufferLimit"
    using assms(1) by (simp_all add: buffer_inv_def)
  have d: "length d \<le> kBufferLimit - pb_size b" "length d \<le> kBufferLimit - ?w"
    using assms(2) by (simp_all add: writableBytes_def room_def)
  have w: "?w < kBufferLimit" by (simp add: writeOffset_def)
  define bs where "bs = take ?w (pb_bytes b) @ d @ drop (?w + length d) (pb_bytes b)"
  have store: "writable_store b d = b\<lparr>pb_bytes := bs\<rparr>" using d(2) len(1) by (simp add: writable_store_def bs_def)
  have bs: "bs ! j = (if ?w \<le> j \<and> j < ?w + length d then d ! (j - ?w) else pb_bytes b ! j)" if "j < kBufferLimit" for j
    using that len(1) w d(2) by (auto simp: nth_append bs_def)
  have wo: "?w = (if pb_readOffset b + pb_size b < kBufferLimit then pb_readOffset b + pb_size b
      else pb_readOffset b + pb_size b - kBufferLimit)"
    unfolding writeOffset_def using len by (intro mod_limit_less) linarith
  have "bs ! ((pb_readOffset b + i) mod kBufferLimit) = (ring_contents b @ d) ! i"
    if i: "i < pb_size b + length d" for i
  proof -
    let ?j = "(pb_readOffset b + i) mod kBufferLimit"
    have j: "?j = (if pb_readOffset b + i < kBufferLimit then pb_readOffset b + i else pb_readOffset b + i - kBufferLimit)"
      using len d(1) i by (intro mod_limit_less) linarith
    show ?thesis
    proof (cases "i < pb_size b")
      case True
      then have "\<not> (?w \<le> ?j \<and> ?j < ?w + length d)" using len d unfolding j wo by (auto split: if_splits)
      then have "bs ! ?j = pb_bytes b ! ?j" using bs[of ?j] by auto
      with True show ?thesis by (simp add: nth_append) (simp add: ring_contents_def)
    next
      case False
      then have "?j = ?w + (i - pb_size b)" using i len d unfolding j wo by (auto split: if_splits)
      moreover have "?w + (i - pb_size b) < kBufferLimit" using False i d w by linarith
      ultimately have "bs ! ?j = d ! (i - pb_size b)" using bs[of "?w + (i - pb_size b)"] False i by auto
      with False show ?thesis by (simp add: nth_append)
    qed
  qed
  then have "ring_contents (b\<lparr>pb_bytes := bs, pb_size := pb_size b + length d\<rparr>) = ring_contents b @ d"
    by (intro nth_equalityI) (simp_all add: ring_contents_def)
  moreover have "buffer_inv (b\<lparr>pb_bytes := bs\<rparr>)" using assms(1) d len w by (auto simp: buffer_inv_def bs_def)
  ultimately show ?thesis using store by simp
qed

lemma consume_contents:
  assumes "buffer_inv b" and "n \<le> pb_size b"
  shows "\<exists>c. consumeReadableBytes n b = Inr c \<and> buffer_inv c \<and> ring_contents c = drop n (ring_contents b)"
proof (cases "pb_size b - n = 0")
  case True
  with assms show ?thesis
    by (auto simp: consumeReadableBytes_def buffer_inv_def ring_contents_def)
next
  case False
  have "ring_contents (b\<lparr>pb_readOffset := (pb_readOffset b + n) mod kBufferLimit, pb_size := pb_size b - n\<rparr>)
      = drop n (ring_contents b)"
    by (intro nth_equalityI) (auto simp: ring_contents_def mod_add_left_eq add.assoc nth_upt)
  with False assms show ?thesis by (auto simp: consumeReadableBytes_def buffer_inv_def)
qed

interpretation ring: byte_queue buffer_inv ring_contents kBufferLimit writableBytes receive_into
  readableBytes buffer_data consumeReadableBytes
proof (unfold_locales, goal_cases)
  case (1 b)
  then show ?case by (simp add: buffer_inv_def)
next
  case (2 b)
  then show ?case by (auto simp: buffer_inv_def writableBytes_def room_def)
next
  case (3 b)
  then show ?case by (simp add: writableBytes_def room_def writeOffset_def)
next
  case (4 b d)
  have same: "writableBytes (writable_store b d) = writableBytes b" "pb_size (writable_store b d) = pb_size b"
    "pb_readOffset (writable_store b d) = pb_readOffset b" for d
    by (simp_all add: writable_store_def writableBytes_def room_def writeOffset_def)
  have "pb_size b + length d \<le> kBufferLimit" using 4 by (auto simp: buffer_inv_def writableBytes_def room_def)
  with receive_contents[OF 4] 4(2) show ?case
    by (auto simp: receive_into_def commitWrittenBytes_def same buffer_inv_def)
next
  case (5 b d)
  then show ?case
    by (simp add: receive_into_def commitWrittenBytes_def writable_store_def writableBytes_def room_def writeOffset_def)
next
  case (6 b)
  then show ?case by (simp add: readableBytes_def)
next
  case (7 b)
  then show ?case by (auto simp: readableBytes_def buffer_inv_def ring_contents_def)
next
  case (8 b n)
  then have "(pb_readOffset b + i) mod kBufferLimit = pb_readOffset b + i" if "i < n" for i
    using that by (auto simp: readableBytes_def)
  with 8 show ?case
    by (intro nth_equalityI) (auto simp: buffer_data_def readableBytes_def buffer_inv_def ring_contents_def)
next
  case (9 b n)
  then show ?case using consume_contents by simp
next
  case (10 b n)
  then show ?case by (simp add: consumeReadableBytes_def)
qed

section \<open>The idle deadline\<close>

record TcpIdleDeadline =
  lastIoTime :: time

definition recordIoProgress :: "time \<Rightarrow> nat \<Rightarrow> TcpIdleDeadline \<Rightarrow> TcpIdleDeadline" where
  "recordIoProgress now n d = (if n \<noteq> 0 then d\<lparr>lastIoTime := now\<rparr> else d)"

definition tcp_expired :: "TcpIdleDeadline \<Rightarrow> time \<Rightarrow> time \<Rightarrow> bool" where
  "tcp_expired d now duration \<longleftrightarrow> duration \<le> now - lastIoTime d"

section \<open>Endpoint tokens\<close>

record Target =
  tg_sessionId :: u64
  tg_side :: nat

record EndpointTokens =
  et_nextToken :: u64
  et_entries :: "(u64 \<times> Target) list"

definition newEndpointTokens :: EndpointTokens where
  "newEndpointTokens = \<lparr>et_nextToken = 3, et_entries = []\<rparr>"

definition registerEndpoint :: "u64 \<Rightarrow> nat \<Rightarrow> EndpointTokens \<Rightarrow> exn + (u64 \<times> EndpointTokens)" where
  "registerEndpoint sessionId side t =
     (if et_nextToken t = - 1 then Inl (OverflowError ''endpoint token exhausted'')
      else Inr (et_nextToken t, t\<lparr>et_nextToken := et_nextToken t + 1,
        et_entries := emplace (et_nextToken t) \<lparr>tg_sessionId = sessionId, tg_side = side\<rparr> (et_entries t)\<rparr>))"

definition findEndpoint :: "u64 \<Rightarrow> EndpointTokens \<Rightarrow> Target option" where
  "findEndpoint token t = map_of (et_entries t) token"

definition unregisterEndpoint :: "u64 \<Rightarrow> EndpointTokens \<Rightarrow> EndpointTokens" where
  "unregisterEndpoint token t = t\<lparr>et_entries := AList.delete token (et_entries t)\<rparr>"

text \<open>Tokens in use are below the next one; a token is found exactly between its registration and removal.\<close>

definition tokens_inv :: "EndpointTokens \<Rightarrow> bool" where
  "tokens_inv t \<longleftrightarrow> distinct (map fst (et_entries t)) \<and> 3 \<le> et_nextToken t \<and>
     (\<forall>token tg. findEndpoint token t = Some tg \<longrightarrow> 3 \<le> token \<and> token < et_nextToken t)"

lemma tokens_inv_new: "tokens_inv newEndpointTokens"
  by (simp add: tokens_inv_def newEndpointTokens_def findEndpoint_def)

lemma registerEndpoint_Inr:
  assumes inv: "tokens_inv t" and reg: "registerEndpoint sid side t = Inr (token, u)"
  shows "tokens_inv u \<and> findEndpoint token t = None \<and> et_nextToken u = et_nextToken t + 1 \<and>
    et_nextToken t < et_nextToken u \<and> token = et_nextToken t \<and> 3 \<le> token \<and>
    findEndpoint x u = (if x = token then Some \<lparr>tg_sessionId = sid, tg_side = side\<rparr> else findEndpoint x t)"
proof -
  from reg have n: "et_nextToken t \<noteq> - 1" and tok: "token = et_nextToken t"
    and u: "u = t\<lparr>et_nextToken := et_nextToken t + 1,
        et_entries := emplace (et_nextToken t) \<lparr>tg_sessionId = sid, tg_side = side\<rparr> (et_entries t)\<rparr>"
    by (auto simp: registerEndpoint_def split: if_splits)
  have lt: "y < et_nextToken t + 1 \<longleftrightarrow> y \<le> et_nextToken t" for y by (rule word_le_inc[OF n])
  have fresh: "findEndpoint token t = None"
    using inv tok unfolding tokens_inv_def by (metis not_None_eq order_less_irrefl)
  then have find: "findEndpoint y u = (if y = token then Some \<lparr>tg_sessionId = sid, tg_side = side\<rparr> else findEndpoint y t)" for y
    by (simp add: u tok findEndpoint_def map_of_emplace)
  have "distinct (map fst (et_entries u))"
    using inv by (simp add: u emplace_def tokens_inv_def distinct_update)
  moreover have "3 \<le> et_nextToken t" using inv by (simp add: tokens_inv_def)
  ultimately have "tokens_inv u"
    using inv lt unfolding tokens_inv_def find
    by (auto simp: u tok dest: less_imp_le intro: order_trans split: if_splits)
  with find fresh lt tok inv show ?thesis by (simp add: u tokens_inv_def)
qed

lemma findEndpoint_unregister: "findEndpoint x (unregisterEndpoint token t) = (if x = token then None else findEndpoint x t)"
  by (simp add: findEndpoint_def unregisterEndpoint_def delete_conv)

lemma tokens_inv_unregister: "tokens_inv t \<Longrightarrow> tokens_inv (unregisterEndpoint token t)"
  unfolding tokens_inv_def findEndpoint_unregister
  by (auto simp: unregisterEndpoint_def distinct_delete split: if_splits)

lemma et_nextToken_unregister [simp]: "et_nextToken (unregisterEndpoint token t) = et_nextToken t"
  by (simp add: unregisterEndpoint_def)

section \<open>Properties\<close>

text \<open>
  The ring buffer is a first-in first-out byte queue of \<open>kBufferLimit\<close> bytes: whatever
  sequence of received chunks and sent spans it has accepted, across any number of wraps, the
  bytes taken in are the bytes given out followed by the bytes still pending.
\<close>

theorem pending_buffer_fifo:
  assumes "relay receive_into readableBytes buffer_data consumeReadableBytes ops newPendingBuffer ([], [])
      = Some (b, taken, given)"
  shows "taken = given @ ring_contents b \<and> length (ring_contents b) \<le> kBufferLimit"
  using ring.relay_fifo[OF assms buffer_inv_new(1)] ring.queued_le[of b] by (simp add: buffer_inv_new(2))

theorem pending_buffer_fifo_witness:
  "\<exists>b. relay receive_into readableBytes buffer_data consumeReadableBytes [Inl [1, 2, 3], Inr 2]
      newPendingBuffer ([], []) = Some (b, [1, 2, 3], [1, 2]) \<and> ring_contents b = [3]"
proof -
  have "length [1, 2, 3 :: u8] \<le> writableBytes newPendingBuffer"
    by (simp add: writableBytes_def room_def writeOffset_def newPendingBuffer_def kBufferLimit_def)
  then obtain c where c: "receive_into [1, 2, 3] newPendingBuffer = Inr c" "buffer_inv c" "ring_contents c = [1, 2, 3]"
    using ring.fill_ok[OF buffer_inv_new(1), of "[1, 2, 3]"] by (auto simp: buffer_inv_new(2))
  have off: "pb_readOffset c = 0" "pb_size c = 3"
    using c(1) by (auto simp: receive_into_def commitWrittenBytes_def writable_store_def newPendingBuffer_def split: if_splits)
  then have two: "2 \<le> readableBytes c" by (simp add: readableBytes_def kBufferLimit_def)
  obtain d where d: "consumeReadableBytes 2 c = Inr d" using ring.drain_ok[OF c(2), of 2] c(3) by auto
  have run: "relay receive_into readableBytes buffer_data consumeReadableBytes [Inl [1, 2, 3], Inr 2]
      newPendingBuffer ([], []) = Some (d, [1, 2, 3], [1, 2])"
    using c d two ring.front_take[OF c(2) two] by simp
  from pending_buffer_fifo[OF this] run show ?thesis by auto
qed

end
