(* ===== verification/TcpReactor.thy ===== *)
theory TcpReactor
  imports Config Statistics TcpState
begin

unbundle bit_operations_syntax

text \<open>
  The TCP data plane: \<open>src/net/TcpReactor.h\<close> and \<open>src/net/TcpReactor.cpp\<close>. A \<open>Session&\<close> of the
  source is the identifier of an entry of the session table. System calls, the clock and the
  callbacks are parameters over an abstract world; callbacks may throw. The loops that retry
  after \<open>EINTR\<close> carry \<open>te_fuel\<close> retries; running out is the exception \<open>OutOfFuel\<close>. Calls made
  between a failing call and the read of \<open>errno\<close> are taken to leave \<open>errno\<close> alone. Exhausted
  memory is not modelled.
\<close>

section \<open>Data\<close>

text \<open>Arrays of two, indexed by the side: 0 is the client, 1 the backend.\<close>

definition at2 :: "'a \<times> 'a \<Rightarrow> nat \<Rightarrow> 'a" where
  "at2 p i = (if i = 0 then fst p else snd p)"

definition put2 :: "nat \<Rightarrow> 'a \<Rightarrow> 'a \<times> 'a \<Rightarrow> 'a \<times> 'a" where
  "put2 i v p = (if i = 0 then (v, snd p) else (fst p, v))"

record EndpointState =
  es_fd :: "nat option"
  es_token :: u64
  es_registered :: bool
  es_eof :: bool
  es_shutdown :: bool
  es_paused :: bool
  es_interest :: u32
  es_deferred :: time

definition newEndpointState :: "nat option \<Rightarrow> EndpointState" where
  "newEndpointState fd = \<lparr>es_fd = fd, es_token = 0, es_registered = False, es_eof = False,
     es_shutdown = False, es_paused = False, es_interest = 0, es_deferred = 0\<rparr>"

record Session =
  ss_id :: u64
  ss_backend :: Endpoint
  ss_ends :: "EndpointState \<times> EndpointState"
  ss_pending :: "TcpPendingBuffer \<times> TcpPendingBuffer"
  ss_connecting :: bool
  ss_deadline :: TcpIdleDeadline
  ss_sent :: "u64 \<times> u64"

record SessionEvent =
  sv_id :: u64
  sv_backend :: Endpoint
  sv_accepted :: bool
  sv_reason :: string
  sv_error :: errno
  sv_sent :: "u64 \<times> u64"

record Observation =
  ob_kind :: string
  ob_session :: u64
  ob_side :: int
  ob_value :: u64
  ob_sessions :: nat
  ob_tokens :: nat

record StopEvent =
  sp_pending :: "u64 \<times> u64"
  sp_deadlineNs :: time

record 'w TcpReactor =
  tr_tokens :: EndpointTokens
  tr_sessions :: "(u64 \<times> Session) list"
  tr_nextSessionId :: u64
  tr_listenerRetryTime :: time
  tr_drainDeadline :: time
  tr_stopReason :: string
  tr_listenerDeferred :: bool
  tr_resourceWarning :: bool
  tr_stopRequested :: bool
  tr_draining :: bool
  tr_masked :: bool
  tr_signalFd :: "nat option"
  tr_epollFd :: "nat option"
  tr_listenerFd :: "nat option"
  tr_world :: 'w

datatype epoll_op = EPOLL_CTL_ADD | EPOLL_CTL_MOD | EPOLL_CTL_DEL

record 'w tcp_env =
  te_maxSessions :: nat
  te_connectTimeout :: time
  te_idleTimeout :: time
  te_drainTimeout :: time
  te_fuel :: nat
  te_now :: "'w \<Rightarrow> time \<times> 'w"
  te_order :: "u64 list \<Rightarrow> u64 list"
  te_selector :: "('w \<Rightarrow> (exn + Endpoint option) \<times> 'w) option"
  te_maintenance :: "('w \<Rightarrow> exn option \<times> 'w) option"
  te_ready :: "('w \<Rightarrow> exn option \<times> 'w) option"
  te_statistics :: "(StatEvent \<Rightarrow> 'w \<Rightarrow> exn option \<times> 'w) option"
  te_observation :: "(Observation \<Rightarrow> 'w \<Rightarrow> exn option \<times> 'w) option"
  te_stopping :: "(StopEvent \<Rightarrow> 'w \<Rightarrow> exn option \<times> 'w) option"
  te_session :: "(SessionEvent \<Rightarrow> 'w \<Rightarrow> exn option \<times> 'w) option"
  te_diagnostic :: "(string \<Rightarrow> errno \<Rightarrow> 'w \<Rightarrow> exn option \<times> 'w) option"
  te_sigmask :: "'w \<Rightarrow> errno option \<times> 'w"
  te_sigrestore :: "'w \<Rightarrow> 'w"
  te_open :: "string \<Rightarrow> 'w \<Rightarrow> (errno + nat) \<times> 'w"
  te_setup :: "string \<Rightarrow> 'w \<Rightarrow> errno option \<times> 'w"
  te_epollCtl :: "epoll_op \<Rightarrow> nat option \<Rightarrow> u64 \<Rightarrow> u32 \<Rightarrow> 'w \<Rightarrow> errno option \<times> 'w"
  te_close :: "nat \<Rightarrow> 'w \<Rightarrow> 'w"
  te_accept :: "nat option \<Rightarrow> 'w \<Rightarrow> (errno + nat) \<times> 'w"
  te_connect :: "nat option \<Rightarrow> Endpoint \<Rightarrow> 'w \<Rightarrow> errno option \<times> 'w"
  te_socketError :: "nat option \<Rightarrow> 'w \<Rightarrow> (errno + errno) \<times> 'w"
  te_send :: "nat option \<Rightarrow> u8 list \<Rightarrow> 'w \<Rightarrow> (errno + nat) \<times> 'w"
  te_recv :: "nat option \<Rightarrow> nat \<Rightarrow> 'w \<Rightarrow> (errno + u8 list) \<times> 'w"
  te_shutdown :: "nat option \<Rightarrow> 'w \<Rightarrow> errno option \<times> 'w"
  te_signalRead :: "'w \<Rightarrow> (errno + nat) \<times> 'w"
  te_epollWait :: "int \<Rightarrow> 'w \<Rightarrow> (errno + (u64 \<times> u32) list) \<times> 'w"

section \<open>Calls of the environment\<close>

definition sysR :: "('w \<Rightarrow> 'a \<times> 'w) \<Rightarrow> ('w TcpReactor, 'a) comp" where
  "sysR f s = (case f (tr_world s) of (a, w) \<Rightarrow> (Inr a, s\<lparr>tr_world := w\<rparr>))"

definition actR :: "('w \<Rightarrow> 'w) \<Rightarrow> ('w TcpReactor, unit) comp" where
  "actR f = modifyC (\<lambda>s. s\<lparr>tr_world := f (tr_world s)\<rparr>)"

definition closeFdR :: "'w tcp_env \<Rightarrow> nat option \<Rightarrow> ('w TcpReactor, unit) comp" where
  "closeFdR env fd = (case fd of None \<Rightarrow> returnC () | Some n \<Rightarrow> actR (te_close env n))"

text \<open>A callback the source tests before calling, and one it calls without a test.\<close>

definition callbackR :: "('w \<Rightarrow> exn option \<times> 'w) option \<Rightarrow> ('w TcpReactor, unit) comp" where
  "callbackR callback = (case callback of None \<Rightarrow> returnC () | Some f \<Rightarrow> bindC (sysR f) rethrowC)"

definition requiredR :: "('w \<Rightarrow> exn option \<times> 'w) option \<Rightarrow> ('w TcpReactor, unit) comp" where
  "requiredR callback = (case callback of
     None \<Rightarrow> throwC (LogicError ''bad_function_call'') | Some f \<Rightarrow> bindC (sysR f) rethrowC)"

definition reportStatEvent :: "'w tcp_env \<Rightarrow> StatKind \<Rightarrow> u64 \<Rightarrow> ('w TcpReactor, unit) comp" where
  "reportStatEvent env kind amount =
     callbackR (map_option (\<lambda>f. f \<lparr>se_kind = kind, se_amount = amount\<rparr>) (te_statistics env))"

definition reportObservation :: "'w tcp_env \<Rightarrow> string \<Rightarrow> u64 \<Rightarrow> int \<Rightarrow> u64 \<Rightarrow> ('w TcpReactor, unit) comp" where
  "reportObservation env kind session side v =
     bindC (getC (\<lambda>s. (length (tr_sessions s), length (et_entries (tr_tokens s))))) (\<lambda>(sessions, tokens).
       callbackR (map_option (\<lambda>f. f \<lparr>ob_kind = kind, ob_session = session, ob_side = side, ob_value = v,
         ob_sessions = sessions, ob_tokens = tokens\<rparr>) (te_observation env)))"

definition diagnosticR :: "'w tcp_env \<Rightarrow> string \<Rightarrow> errno \<Rightarrow> ('w TcpReactor, unit) comp" where
  "diagnosticR env what error = callbackR (map_option (\<lambda>f. f what error) (te_diagnostic env))"

text \<open>\<open>sessions_.at(sid)\<close>, and a change through the reference it gives.\<close>

definition theSession :: "u64 \<Rightarrow> ('w TcpReactor, Session) comp" where
  "theSession sid = bindC (getC (\<lambda>s. map_of (tr_sessions s) sid)) (\<lambda>found.
     case found of None \<Rightarrow> throwC OutOfRange | Some session \<Rightarrow> returnC session)"

definition modSession :: "u64 \<Rightarrow> (Session \<Rightarrow> Session) \<Rightarrow> ('w TcpReactor, unit) comp" where
  "modSession sid f = modifyC (\<lambda>s. s\<lparr>tr_sessions := AList.map_entry sid f (tr_sessions s)\<rparr>)"

definition modEnd :: "u64 \<Rightarrow> nat \<Rightarrow> (EndpointState \<Rightarrow> EndpointState) \<Rightarrow> ('w TcpReactor, unit) comp" where
  "modEnd sid side f = modSession sid (\<lambda>ss. ss\<lparr>ss_ends := put2 side (f (at2 (ss_ends ss) side)) (ss_ends ss)\<rparr>)"

section \<open>Stopping\<close>

text \<open>The first stop signal: close the listener, set the deadline, announce what is queued.\<close>

definition pending_total :: "nat \<Rightarrow> (u64 \<times> Session) list \<Rightarrow> u64" where
  "pending_total side sessions = of_nat (sum_list (map (\<lambda>(_, ss). pb_size (at2 (ss_pending ss) side)) sessions))"

definition beginDrain :: "'w tcp_env \<Rightarrow> ('w TcpReactor, unit) comp" where
  "beginDrain env =
     thenC (modifyC (\<lambda>s. s\<lparr>tr_draining := True\<rparr>))
    (bindC (sysR (te_now env)) (\<lambda>now.
     thenC (modifyC (\<lambda>s. s\<lparr>tr_drainDeadline := now + te_drainTimeout env\<rparr>))
    (bindC (getC (\<lambda>s. (tr_listenerDeferred s, tr_listenerFd s))) (\<lambda>(deferred, listenerFd).
     bindC (if deferred then returnC None else sysR (te_epollCtl env EPOLL_CTL_DEL listenerFd 0 0)) (\<lambda>detachError.
     thenC (closeFdR env listenerFd)
    (thenC (modifyC (\<lambda>s. s\<lparr>tr_listenerFd := None, tr_listenerDeferred := False\<rparr>))
    (bindC (getC (\<lambda>s. \<lparr>sp_pending = (pending_total 0 (tr_sessions s), pending_total 1 (tr_sessions s)),
                       sp_deadlineNs = tr_drainDeadline s\<rparr>)) (\<lambda>event.
     thenC (reportObservation env ''draining'' 0 (- 1) 0)
    (thenC (callbackR (map_option (\<lambda>f. f event) (te_stopping env)))
     (case detachError of
        None \<Rightarrow> returnC ()
      | Some e \<Rightarrow> diagnosticR env ''stop listener DEL'' e))))))))))"

text \<open>The read loop of \<open>consumeStopSignals\<close>; true when a second signal forced the stop.\<close>

fun signal_loop :: "'w tcp_env \<Rightarrow> nat \<Rightarrow> ('w TcpReactor, bool) comp" where
  "signal_loop env 0 = throwC OutOfFuel"
| "signal_loop env (Suc fuel) =
     bindC (sysR (te_signalRead env)) (\<lambda>count.
     case count of
       Inr n \<Rightarrow>
         if n = 128 then
           bindC (getC tr_draining) (\<lambda>draining.
           if draining then
             thenC (modifyC (\<lambda>s. s\<lparr>tr_stopRequested := True, tr_stopReason := ''service-stop-forced''\<rparr>))
            (thenC (reportObservation env ''stop-forced'' 0 (- 1) 0) (returnC True))
           else thenC (beginDrain env) (signal_loop env fuel))
         else throwC (SystemError ''read signalfd'' EIO)
     | Inl e \<Rightarrow>
         if e = EINTR then signal_loop env fuel
         else if e = EAGAIN then returnC False
         else throwC (SystemError ''read signalfd'' e))"

definition consumeStopSignals :: "'w tcp_env \<Rightarrow> ('w TcpReactor, bool) comp" where
  "consumeStopSignals env =
     bindC (getC tr_stopRequested) (\<lambda>stop.
     if stop then returnC True else
     bindC (signal_loop env (te_fuel env + 3)) (\<lambda>forced.
     if forced then returnC True else
     bindC (getC (\<lambda>s. (tr_draining s, tr_drainDeadline s))) (\<lambda>(draining, deadline).
     if \<not> draining then returnC False else
     bindC (sysR (te_now env)) (\<lambda>now.
     if deadline \<le> now
     then thenC (modifyC (\<lambda>s. s\<lparr>tr_stopRequested := True, tr_stopReason := ''service-stop-deadline''\<rparr>))
         (thenC (reportObservation env ''stop-deadline'' 0 (- 1) 0) (returnC True))
     else returnC True))))"

section \<open>Closing sessions\<close>

definition updateEpollRegistration ::
  "'w tcp_env \<Rightarrow> epoll_op \<Rightarrow> nat option \<Rightarrow> u64 \<Rightarrow> u32 \<Rightarrow> ('w TcpReactor, unit) comp" where
  "updateEpollRegistration env operation fd token bits =
     bindC (sysR (te_epollCtl env operation fd token bits)) (\<lambda>r.
     case r of None \<Rightarrow> returnC () | Some e \<Rightarrow> throwC (SystemError ''epoll_ctl'' e))"

text \<open>The error of the removal, and what it leaves of the endpoint.\<close>

definition detachEndpointFromEpoll :: "'w tcp_env \<Rightarrow> EndpointState \<Rightarrow> ('w TcpReactor, errno) comp" where
  "detachEndpointFromEpoll env e =
     bindC (if es_registered e then sysR (te_epollCtl env EPOLL_CTL_DEL (es_fd e) 0 0) else returnC None) (\<lambda>r.
     returnC (case r of None \<Rightarrow> 0 | Some code \<Rightarrow> if code \<noteq> ENOENT \<and> code \<noteq> EBADF then code else 0))"

definition detached :: "EndpointState \<Rightarrow> EndpointState" where
  "detached e = e\<lparr>es_registered := False, es_interest := 0\<rparr>"

definition removeEndpoint :: "'w tcp_env \<Rightarrow> u64 \<Rightarrow> nat \<Rightarrow> ('w TcpReactor, unit) comp" where
  "removeEndpoint env sid side =
     bindC (theSession sid) (\<lambda>ss.
     bindC (detachEndpointFromEpoll env (at2 (ss_ends ss) side)) (\<lambda>error.
     thenC (modEnd sid side detached)
       (whenC (error \<noteq> 0)
         (thenC (reportStatEvent env kError 1) (diagnosticR env ''epoll_ctl DEL'' error)))))"

fun report_close_errors :: "'w tcp_env \<Rightarrow> errno list \<Rightarrow> exn option \<Rightarrow> ('w TcpReactor, exn option) comp" where
  "report_close_errors env [] failure = returnC failure"
| "report_close_errors env (code # codes) failure =
     (if code = 0 then report_close_errors env codes failure
      else bindC (attemptC (reportStatEvent env kError 1) failure) (\<lambda>f1.
           bindC (attemptC (diagnosticR env ''epoll_ctl DEL'' code) f1) (report_close_errors env codes)))"

text \<open>The reports of a close keep what the first of them to fail threw.\<close>

definition attemptSessionEventReport :: "'w tcp_env \<Rightarrow> Session \<Rightarrow> string \<Rightarrow> errno \<Rightarrow> exn option \<Rightarrow> ('w TcpReactor, exn option) comp" where
  "attemptSessionEventReport env session reason error firstFailure =
     attemptC (callbackR (map_option (\<lambda>f. f \<lparr>sv_id = ss_id session, sv_backend = ss_backend session,
       sv_accepted = False, sv_reason = reason, sv_error = error, sv_sent = ss_sent session\<rparr>)
       (te_session env))) firstFailure"

definition attemptClosedStatReport :: "'w tcp_env \<Rightarrow> exn option \<Rightarrow> ('w TcpReactor, exn option) comp" where
  "attemptClosedStatReport env firstFailure = attemptC (reportStatEvent env kClosed 1) firstFailure"

definition attemptClosedObservationReport :: "'w tcp_env \<Rightarrow> exn option \<Rightarrow> ('w TcpReactor, exn option) comp" where
  "attemptClosedObservationReport env firstFailure = attemptC (reportObservation env ''closed'' 0 (- 1) 0) firstFailure"

definition closeSession :: "'w tcp_env \<Rightarrow> u64 \<Rightarrow> string \<Rightarrow> errno \<Rightarrow> ('w TcpReactor, unit) comp" where
  "closeSession env sid reason error =
     bindC (getC (\<lambda>s. map_of (tr_sessions s) sid)) (\<lambda>found.
     case found of
       None \<Rightarrow> returnC ()
     | Some session \<Rightarrow>
         thenC (modifyC (\<lambda>s. s\<lparr>tr_sessions := AList.delete sid (tr_sessions s),
           tr_tokens := unregisterEndpoint (es_token (snd (ss_ends session)))
             (unregisterEndpoint (es_token (fst (ss_ends session))) (tr_tokens s))\<rparr>))
        (bindC (detachEndpointFromEpoll env (fst (ss_ends session))) (\<lambda>error0.
         thenC (closeFdR env (es_fd (fst (ss_ends session))))
        (bindC (detachEndpointFromEpoll env (snd (ss_ends session))) (\<lambda>error1.
         thenC (closeFdR env (es_fd (snd (ss_ends session))))
        (bindC (report_close_errors env [error0, error1] None) (\<lambda>failure1.
         bindC (attemptSessionEventReport env session reason error failure1) (\<lambda>failure2.
         bindC (attemptClosedStatReport env failure2) (\<lambda>failure3.
         bindC (attemptClosedObservationReport env failure3) rethrowC)))))))))"

lemmas closeSession_unfold = closeSession_def attemptSessionEventReport_def attemptClosedStatReport_def
  attemptClosedObservationReport_def

text \<open>\<open>while (!sessions_.empty())\<close>, on fuel: every pass closes the session the table starts with.\<close>

fun closeSessionsLoop :: "'w tcp_env \<Rightarrow> string \<Rightarrow> nat \<Rightarrow> exn option \<Rightarrow> ('w TcpReactor, unit) comp" where
  "closeSessionsLoop env reason fuel failure =
     bindC (getC (\<lambda>s. te_order env (map fst (tr_sessions s)))) (\<lambda>ids.
     case ids of
       [] \<Rightarrow> rethrowC failure
     | sid # _ \<Rightarrow> (case fuel of
         0 \<Rightarrow> throwC OutOfFuel
       | Suc n \<Rightarrow> bindC (attemptC (closeSession env sid reason 0) failure) (closeSessionsLoop env reason n)))"

declare closeSessionsLoop.simps [simp del]

definition closeAllSessions :: "'w tcp_env \<Rightarrow> string \<Rightarrow> ('w TcpReactor, unit) comp" where
  "closeAllSessions env reason =
     bindC (getC (\<lambda>s. length (tr_sessions s))) (\<lambda>n. closeSessionsLoop env reason n None)"

text \<open>\<open>catch (const SessionFailure& error)\<close>: count an error and close the session.\<close>

definition onSessionFailure :: "'w tcp_env \<Rightarrow> u64 \<Rightarrow> ('w TcpReactor, unit) comp \<Rightarrow> ('w TcpReactor, unit) comp" where
  "onSessionFailure env sid m = catchC m (\<lambda>e. case e of
     SessionFailure operation error \<Rightarrow>
       thenC (reportStatEvent env kError 1) (closeSession env sid operation error)
   | _ \<Rightarrow> throwC e)"

section \<open>Relaying bytes\<close>

definition readSocketError :: "'w tcp_env \<Rightarrow> nat option \<Rightarrow> ('w TcpReactor, errno) comp" where
  "readSocketError env fd = bindC (sysR (te_socketError env fd)) (\<lambda>r.
     case r of Inl e \<Rightarrow> throwC (SessionFailure ''getsockopt SO_ERROR'' e) | Inr code \<Rightarrow> returnC code)"

text \<open>The interest of one side of \<open>updateSessionInterests\<close>.\<close>

definition interest_mask :: "bool \<Rightarrow> Session \<Rightarrow> nat \<Rightarrow> u32" where
  "interest_mask draining ss side =
     (if draining then (if pb_size (at2 (ss_pending ss) (1 - side)) \<noteq> 0 then EPOLLOUT else 0)
      else if ss_connecting ss then (if side = 1 then EPOLLOUT else EPOLLRDHUP)
      else (if \<not> es_eof (at2 (ss_ends ss) side) \<and> \<not> es_paused (at2 (ss_ends ss) side)
            then EPOLLIN OR EPOLLRDHUP else 0) OR
           (if pb_size (at2 (ss_pending ss) (1 - side)) \<noteq> 0 then EPOLLOUT else 0))"

definition updateSideInterest :: "'w tcp_env \<Rightarrow> u64 \<Rightarrow> nat \<Rightarrow> ('w TcpReactor, unit) comp" where
  "updateSideInterest env sid side =
     bindC (theSession sid) (\<lambda>ss.
     bindC (sysR (te_now env)) (\<lambda>now.
     if now < es_deferred (at2 (ss_ends ss) side) then removeEndpoint env sid side else
     bindC (getC tr_draining) (\<lambda>draining.
     let e = at2 (ss_ends ss) side; bits = interest_mask draining ss side in
     thenC (whenC (es_paused e) (reportObservation env ''read-suspended'' sid (int side) (ucast bits)))
       (if bits = 0 then removeEndpoint env sid side
        else if es_registered e \<and> es_interest e = bits then returnC ()
        else
        bindC (sysR (te_epollCtl env (if es_registered e then EPOLL_CTL_MOD else EPOLL_CTL_ADD) (es_fd e)
                 (es_token e) bits)) (\<lambda>r.
        case r of
          Some code \<Rightarrow> throwC (SessionFailure ''epoll_ctl session'' code)
        | None \<Rightarrow>
            thenC (modEnd sid side (\<lambda>x. x\<lparr>es_registered := True, es_interest := bits\<rparr>))
                  (reportObservation env ''interest'' sid (int side) (ucast bits)))))))"

definition updateSessionInterests :: "'w tcp_env \<Rightarrow> u64 \<Rightarrow> ('w TcpReactor, unit) comp" where
  "updateSessionInterests env sid = forC [0, 1] (updateSideInterest env sid)"

text \<open>
  The send loop of \<open>writeBufferedDirection\<close>; it returns the budget that is left, which the
  source updates through a reference. Only a retry after \<open>EINTR\<close> uses up fuel.
\<close>

function write_loop :: "'w tcp_env \<Rightarrow> nat \<Rightarrow> u64 \<Rightarrow> nat \<Rightarrow> nat \<Rightarrow> ('w TcpReactor, nat) comp" where
  "write_loop env fuel sid source budget =
     bindC (theSession sid) (\<lambda>ss0.
     if pb_size (at2 (ss_pending ss0) source) = 0 \<or> budget = 0 then returnC budget else
     thenC (consumeStopSignals env)
    (bindC (getC tr_stopRequested) (\<lambda>stop.
     if stop then returnC budget else
     bindC (theSession sid) (\<lambda>ss.
     let buffer = at2 (ss_pending ss) source; n = min (readableBytes buffer) budget in
     bindC (sysR (te_send env (es_fd (at2 (ss_ends ss) (1 - source))) (buffer_data buffer n))) (\<lambda>result.
     case result of
       Inl e \<Rightarrow>
         if e = EINTR then (case fuel of 0 \<Rightarrow> throwC OutOfFuel | Suc k \<Rightarrow> write_loop env k sid source budget)
         else if e = EAGAIN \<or> e = EWOULDBLOCK
         then thenC (reportObservation env ''send-eagain'' sid (int source) 0) (returnC budget)
         else throwC (SessionFailure ''send'' e)
     | Inr sentBytes \<Rightarrow>
         if sentBytes = 0 then throwC (SessionFailure ''send zero'' EIO) else
         thenC (whenC (sentBytes < n)
                  (reportObservation env ''short-send'' sid (int source) (of_nat sentBytes)))
        (case consumeReadableBytes sentBytes buffer of
           Inl e \<Rightarrow> throwC e
         | Inr rest \<Rightarrow>
             thenC (modSession sid (\<lambda>x. x\<lparr>ss_pending := put2 source rest (ss_pending x),
                 ss_sent := put2 source (at2 (ss_sent x) source + of_nat sentBytes) (ss_sent x)\<rparr>))
            (thenC (reportStatEvent env (if source = 0 then kBytesC2b else kBytesB2c) (of_nat sentBytes))
            (bindC (sysR (te_now env)) (\<lambda>now.
             thenC (modSession sid (\<lambda>x. x\<lparr>ss_deadline := recordIoProgress now sentBytes (ss_deadline x)\<rparr>))
                   (write_loop env fuel sid source (budget - sentBytes)))))))))))"
  by pat_completeness auto

termination
  by (relation "measures [\<lambda>(env, fuel, sid, source, budget). budget, \<lambda>(env, fuel, sid, source, budget). fuel]") auto

declare write_loop.simps [simp del]

definition writeBufferedDirection ::
  "'w tcp_env \<Rightarrow> u64 \<Rightarrow> nat \<Rightarrow> nat \<Rightarrow> ('w TcpReactor, nat) comp" where
  "writeBufferedDirection env sid source budget =
     bindC (write_loop env (te_fuel env) sid source budget) (\<lambda>left.
     bindC (theSession sid) (\<lambda>ss.
     bindC (getC tr_draining) (\<lambda>draining.
     let bytes = pb_size (at2 (ss_pending ss) source) in
     thenC (whenC (\<not> draining \<and> es_paused (at2 (ss_ends ss) source) \<and> bytes \<le> kLowWater)
              (thenC (modEnd sid source (\<lambda>x. x\<lparr>es_paused := False\<rparr>))
                     (reportObservation env ''resume'' sid (int source) (of_nat bytes))))
           (returnC left))))"

function read_loop :: "'w tcp_env \<Rightarrow> nat \<Rightarrow> u64 \<Rightarrow> nat \<Rightarrow> nat \<Rightarrow> ('w TcpReactor, unit) comp" where
  "read_loop env fuel sid source budget =
     bindC (theSession sid) (\<lambda>ss0.
     if es_eof (at2 (ss_ends ss0) source) \<or> es_paused (at2 (ss_ends ss0) source) \<or> budget = 0 then returnC () else
     bindC (consumeStopSignals env) (\<lambda>stop.
     if stop then returnC () else
     bindC (theSession sid) (\<lambda>ss.
     let buffer = at2 (ss_pending ss) source; n = min (writableBytes buffer) budget in
     if n = 0 then returnC () else
     bindC (sysR (te_recv env (es_fd (at2 (ss_ends ss) source)) n)) (\<lambda>result.
     case result of
       Inl e \<Rightarrow>
         if e = EINTR then (case fuel of 0 \<Rightarrow> throwC OutOfFuel | Suc k \<Rightarrow> read_loop env k sid source budget)
         else if e = EAGAIN \<or> e = EWOULDBLOCK then returnC ()
         else throwC (SessionFailure ''recv'' e)
     | Inr received \<Rightarrow>
         if received = [] then
           thenC (modEnd sid source (\<lambda>x. x\<lparr>es_eof := True\<rparr>)) (reportObservation env ''eof'' sid (int source) 0)
         else
         (case receive_into received buffer of
            Inl e \<Rightarrow> throwC e
          | Inr filled \<Rightarrow>
              thenC (modSession sid (\<lambda>x. x\<lparr>ss_pending := put2 source filled (ss_pending x)\<rparr>))
             (bindC (sysR (te_now env)) (\<lambda>now.
              thenC (modSession sid (\<lambda>x. x\<lparr>ss_deadline := recordIoProgress now (length received) (ss_deadline x)\<rparr>))
             (thenC (reportObservation env ''buffer'' sid (int source) (of_nat (pb_size filled)))
             (thenC (whenC (pb_size filled = kBufferLimit)
                       (thenC (modEnd sid source (\<lambda>x. x\<lparr>es_paused := True\<rparr>))
                              (reportObservation env ''pause'' sid (int source) (of_nat (pb_size filled)))))
                    (read_loop env fuel sid source (budget - length received))))))))))) "
  by pat_completeness auto

termination
  by (relation "measures [\<lambda>(env, fuel, sid, source, budget). budget, \<lambda>(env, fuel, sid, source, budget). fuel]") auto

declare read_loop.simps [simp del]

definition readSessionDirection :: "'w tcp_env \<Rightarrow> u64 \<Rightarrow> nat \<Rightarrow> ('w TcpReactor, unit) comp" where
  "readSessionDirection env sid source = read_loop env (te_fuel env) sid source kBufferLimit"

text \<open>\<open>do shutdown while EINTR and not stopping\<close>: the result of the last call.\<close>

fun shutdown_loop :: "'w tcp_env \<Rightarrow> nat \<Rightarrow> nat option \<Rightarrow> ('w TcpReactor, errno option) comp" where
  "shutdown_loop env fuel fd =
     bindC (sysR (te_shutdown env fd)) (\<lambda>result.
     if result = Some EINTR then
       bindC (consumeStopSignals env) (\<lambda>stop.
       if stop then returnC result
       else (case fuel of 0 \<Rightarrow> throwC OutOfFuel | Suc k \<Rightarrow> shutdown_loop env k fd))
     else returnC result)"

declare shutdown_loop.simps [simp del]

definition shutdownTarget :: "'w tcp_env \<Rightarrow> u64 \<Rightarrow> nat \<Rightarrow> ('w TcpReactor, unit) comp" where
  "shutdownTarget env sid side =
     bindC (theSession sid) (\<lambda>ss.
     whenC (es_eof (at2 (ss_ends ss) side) \<and> pb_size (at2 (ss_pending ss) side) = 0 \<and>
            \<not> es_shutdown (at2 (ss_ends ss) (1 - side)))
       (bindC (shutdown_loop env (te_fuel env) (es_fd (at2 (ss_ends ss) (1 - side)))) (\<lambda>result.
        case result of
          Some e \<Rightarrow> throwC (SessionFailure ''shutdown SHUT_WR'' e)
        | None \<Rightarrow>
            thenC (modEnd sid (1 - side) (\<lambda>x. x\<lparr>es_shutdown := True\<rparr>))
                  (reportObservation env ''shutdown'' sid (int (1 - side)) 0))))"

definition advanceSessionIo :: "'w tcp_env \<Rightarrow> u64 \<Rightarrow> ('w TcpReactor, bool) comp" where
  "advanceSessionIo env sid =
     bindC (writeBufferedDirection env sid 0 kBufferLimit) (\<lambda>budget0.
     bindC (writeBufferedDirection env sid 1 kBufferLimit) (\<lambda>budget1.
     thenC (readSessionDirection env sid 0)
    (thenC (readSessionDirection env sid 1)
    (thenC (writeBufferedDirection env sid 0 budget0)
    (thenC (writeBufferedDirection env sid 1 budget1)
    (bindC (getC tr_draining) (\<lambda>draining.
     if draining then
       bindC (theSession sid) (\<lambda>ss. returnC (pb_size (fst (ss_pending ss)) = 0 \<and> pb_size (snd (ss_pending ss)) = 0))
     else
     thenC (forC [0, 1] (shutdownTarget env sid))
    (bindC (theSession sid) (\<lambda>ss.
     returnC (es_eof (fst (ss_ends ss)) \<and> es_eof (snd (ss_ends ss)) \<and>
              es_shutdown (fst (ss_ends ss)) \<and> es_shutdown (snd (ss_ends ss))))))))))))"

section \<open>Accepting\<close>

definition registerSide :: "u64 \<Rightarrow> nat \<Rightarrow> ('w TcpReactor, unit) comp" where
  "registerSide sid side =
     bindC (getC tr_tokens) (\<lambda>tokens.
     case registerEndpoint sid side tokens of
       Inl e \<Rightarrow> throwC e
     | Inr (token, tokens') \<Rightarrow>
         thenC (modifyC (\<lambda>s. s\<lparr>tr_tokens := tokens'\<rparr>)) (modEnd sid side (\<lambda>x. x\<lparr>es_token := token\<rparr>)))"

definition connectSessionBackend :: "'w tcp_env \<Rightarrow> u64 \<Rightarrow> ('w TcpReactor, unit) comp" where
  "connectSessionBackend env sid =
     bindC (sysR (te_open env ''socket backend'')) (\<lambda>opened.
     case opened of
       Inl e \<Rightarrow> throwC (SessionFailure ''socket backend'' e)
     | Inr fd \<Rightarrow>
         thenC (modEnd sid 1 (\<lambda>x. x\<lparr>es_fd := Some fd\<rparr>))
        (thenC (forC [0, 1] (registerSide sid))
        (bindC (theSession sid) (\<lambda>ss.
         bindC (sysR (te_connect env (Some fd) (ss_backend ss))) (\<lambda>connectResult.
         thenC (case connectResult of
                  None \<Rightarrow>
                    bindC (sysR (te_now env)) (\<lambda>now.
                    thenC (modSession sid (\<lambda>x. x\<lparr>ss_connecting := False, ss_deadline := \<lparr>lastIoTime = now\<rparr>\<rparr>))
                          (reportObservation env ''connect-immediate'' sid (- 1) 0))
                | Some e \<Rightarrow>
                    if e = EINPROGRESS then reportObservation env ''connect-inprogress'' sid (- 1) 0
                    else throwC (SessionFailure ''connect'' e))
               (updateSessionInterests env sid))))))"

definition newSession :: "u64 \<Rightarrow> Endpoint \<Rightarrow> nat \<Rightarrow> time \<Rightarrow> Session" where
  "newSession sid backend front now = \<lparr>ss_id = sid, ss_backend = backend,
     ss_ends = (newEndpointState (Some front), newEndpointState None),
     ss_pending = (newPendingBuffer, newPendingBuffer), ss_connecting = True,
     ss_deadline = \<lparr>lastIoTime = now\<rparr>, ss_sent = (0, 0)\<rparr>"

text \<open>The session of an accepted client and its selected backend.\<close>

definition startSession :: "'w tcp_env \<Rightarrow> nat \<Rightarrow> Endpoint \<Rightarrow> ('w TcpReactor, unit) comp" where
  "startSession env front backend =
     bindC (sysR (te_now env)) (\<lambda>now.
     bindC (getC tr_nextSessionId) (\<lambda>sid.
     thenC (modifyC (\<lambda>s. if map_of (tr_sessions s) sid = None
              then s\<lparr>tr_nextSessionId := sid + 1,
                     tr_sessions := emplace sid (newSession sid backend front now) (tr_sessions s)\<rparr>
              else s\<lparr>tr_nextSessionId := sid + 1, tr_world := te_close env front (tr_world s)\<rparr>))
    (thenC (reportStatEvent env kCreated 1)
    (bindC (theSession sid) (\<lambda>ss.
     thenC (requiredR (map_option (\<lambda>f. f \<lparr>sv_id = sid, sv_backend = ss_backend ss, sv_accepted = True,
              sv_reason = ''accepted'', sv_error = 0, sv_sent = (0, 0)\<rparr>) (te_session env)))
           (onSessionFailure env sid (connectSessionBackend env sid)))))))"

text \<open>One accepted client socket: rejected and closed, or made a session.\<close>

definition acceptClient :: "'w tcp_env \<Rightarrow> nat \<Rightarrow> ('w TcpReactor, unit) comp" where
  "acceptClient env front =
     bindC (getC (\<lambda>s. length (tr_sessions s))) (\<lambda>count.
     let scoped = (\<lambda>m. finallyC m (\<lambda>s. s\<lparr>tr_world := te_close env front (tr_world s)\<rparr>)) in
     if te_maxSessions env \<le> count
     then scoped (thenC (reportStatEvent env kRejected 1) (reportObservation env ''capacity-reject'' 0 (- 1) 0))
     else
     (case te_selector env of
        None \<Rightarrow> scoped (throwC (LogicError ''bad_function_call''))
      | Some f \<Rightarrow> bindC (sysR f) (\<lambda>selected. case selected of
          Inl e \<Rightarrow> scoped (throwC e)
        | Inr None \<Rightarrow> scoped (reportStatEvent env kRejected 1)
        | Inr (Some backend) \<Rightarrow> startSession env front backend)))"

definition isTransientAcceptError :: "errno \<Rightarrow> bool" where
  "isTransientAcceptError e \<longleftrightarrow> e = ECONNABORTED \<or> e = EPROTO \<or> e = ENETDOWN \<or> e = ENOPROTOOPT \<or>
     e = EHOSTDOWN \<or> e = ENONET \<or> e = EHOSTUNREACH \<or> e = EOPNOTSUPP \<or> e = ENETUNREACH"

definition isAcceptResourceError :: "errno \<Rightarrow> bool" where
  "isAcceptResourceError e \<longleftrightarrow> e = EMFILE \<or> e = ENFILE \<or> e = ENOBUFS \<or> e = ENOMEM"

definition acceptBackoff :: "'w tcp_env \<Rightarrow> errno \<Rightarrow> ('w TcpReactor, unit) comp" where
  "acceptBackoff env e =
     thenC (reportStatEvent env kError 1)
    (bindC (getC (\<lambda>s. (tr_resourceWarning s, tr_listenerFd s))) (\<lambda>(warned, listenerFd).
     thenC (whenC (\<not> warned)
              (requiredR (map_option (\<lambda>f. f ''accept4 resource backoff'' e) (te_diagnostic env))))
    (thenC (modifyC (\<lambda>s. s\<lparr>tr_resourceWarning := True\<rparr>))
    (thenC (updateEpollRegistration env EPOLL_CTL_DEL listenerFd 1 0)
    (thenC (modifyC (\<lambda>s. s\<lparr>tr_listenerDeferred := True\<rparr>))
    (bindC (sysR (te_now env)) (\<lambda>now.
     thenC (modifyC (\<lambda>s. s\<lparr>tr_listenerRetryTime := now + ms 100\<rparr>))
           (reportObservation env ''listener-backoff'' 0 (- 1) 0))))))))"

text \<open>At most 64 clients per event; an interrupted \<open>accept4\<close> does not count, so it uses fuel.\<close>

function accept_loop :: "'w tcp_env \<Rightarrow> nat \<Rightarrow> nat \<Rightarrow> ('w TcpReactor, unit) comp" where
  "accept_loop env fuel attempts =
     (if attempts = 0 then returnC () else
     bindC (consumeStopSignals env) (\<lambda>stop.
     if stop then returnC () else
     bindC (getC tr_listenerFd) (\<lambda>listenerFd.
     bindC (sysR (te_accept env listenerFd)) (\<lambda>accepted.
     case accepted of
       Inl e \<Rightarrow>
         if e = EAGAIN \<or> e = EWOULDBLOCK then returnC ()
         else if e = EINTR then (case fuel of 0 \<Rightarrow> throwC OutOfFuel | Suc k \<Rightarrow> accept_loop env k attempts)
         else if isTransientAcceptError e
         then thenC (reportStatEvent env kError 1) (accept_loop env fuel (attempts - 1))
         else if isAcceptResourceError e then acceptBackoff env e
         else throwC (SystemError ''accept4'' e)
     | Inr front \<Rightarrow>
         thenC (modifyC (\<lambda>s. s\<lparr>tr_resourceWarning := False\<rparr>))
        (thenC (acceptClient env front) (accept_loop env fuel (attempts - 1)))))))"
  by pat_completeness auto

termination
  by (relation "measures [\<lambda>(env, fuel, attempts). attempts, \<lambda>(env, fuel, attempts). fuel]") auto

declare accept_loop.simps [simp del]

definition acceptClientSessions :: "'w tcp_env \<Rightarrow> ('w TcpReactor, unit) comp" where
  "acceptClientSessions env = accept_loop env (te_fuel env) 64"

section \<open>Endpoint events\<close>

definition close_reason :: "'w TcpReactor \<Rightarrow> string" where
  "close_reason s = (if tr_stopRequested s then tr_stopReason s
     else if tr_draining s then ''service-stop-drained'' else ''drained'')"

text \<open>\<open>SO_ERROR\<close> of a failed or just connected endpoint.\<close>

definition endpoint_error :: "'w tcp_env \<Rightarrow> u64 \<Rightarrow> nat \<Rightarrow> u32 \<Rightarrow> bool \<Rightarrow> ('w TcpReactor, unit) comp" where
  "endpoint_error env sid side events connectingEvent =
     thenC (reportObservation env ''error-event'' sid (int side) (ucast events))
    (bindC (theSession sid) (\<lambda>ss.
     bindC (readSocketError env (es_fd (at2 (ss_ends ss) side))) (\<lambda>error.
     thenC (reportObservation env ''so-error'' sid (int side) (of_nat error))
       (if error \<noteq> 0 then throwC (SessionFailure ''SO_ERROR'' error)
        else whenC connectingEvent
          (bindC (sysR (te_now env)) (\<lambda>now.
           modSession sid (\<lambda>x. x\<lparr>ss_connecting := False, ss_deadline := \<lparr>lastIoTime = now\<rparr>\<rparr>)))))))"

text \<open>Both ways of \<open>if (!session.connecting && advanceSessionIo(session)) closeSession(...)\<close>.\<close>

definition advance_or_close ::
  "'w tcp_env \<Rightarrow> u64 \<Rightarrow> ('w TcpReactor, unit) comp \<Rightarrow> ('w TcpReactor, unit) comp" where
  "advance_or_close env sid otherwise =
     bindC (theSession sid) (\<lambda>ss.
     bindC (if ss_connecting ss then returnC False else advanceSessionIo env sid) (\<lambda>finished.
     if finished then bindC (getC close_reason) (\<lambda>reason. closeSession env sid reason 0)
     else otherwise))"

definition endpoint_event :: "'w tcp_env \<Rightarrow> u64 \<Rightarrow> nat \<Rightarrow> u32 \<Rightarrow> ('w TcpReactor, unit) comp" where
  "endpoint_event env sid side events =
     bindC (theSession sid) (\<lambda>ss.
     bindC (getC tr_draining) (\<lambda>draining.
     if draining \<and> ss_connecting ss then closeSession env sid ''service-stop-connecting'' 0 else
     let connectingEvent = ss_connecting ss \<and> side = 1 \<and> events AND (EPOLLOUT OR EPOLLERR OR EPOLLHUP) \<noteq> 0 in
     thenC (whenC (connectingEvent \<or> events AND EPOLLERR \<noteq> 0)
              (endpoint_error env sid side events connectingEvent))
    (bindC (theSession sid) (\<lambda>ss1.
     advance_or_close env sid
      (bindC (theSession sid) (\<lambda>ss2.
       thenC (whenC (events AND (EPOLLHUP OR EPOLLRDHUP) \<noteq> 0 \<and>
                     lastIoTime (ss_deadline ss2) = lastIoTime (ss_deadline ss1))
                (bindC (sysR (te_now env)) (\<lambda>now.
                 thenC (modEnd sid side (\<lambda>x. x\<lparr>es_deferred := now + ms 100\<rparr>))
                (thenC (reportObservation env ''hup-defer'' sid (int side) 0) (removeEndpoint env sid side)))))
             (updateSessionInterests env sid)))))))"

definition dispatchEndpointEvent :: "'w tcp_env \<Rightarrow> u64 \<Rightarrow> u32 \<Rightarrow> ('w TcpReactor, unit) comp" where
  "dispatchEndpointEvent env token events =
     bindC (getC (\<lambda>s. findEndpoint token (tr_tokens s))) (\<lambda>target.
     case target of
       None \<Rightarrow> reportObservation env ''stale-token'' 0 (- 1) 0
     | Some tg \<Rightarrow>
         bindC (theSession (tg_sessionId tg)) (\<lambda>_.
         onSessionFailure env (tg_sessionId tg) (endpoint_event env (tg_sessionId tg) (tg_side tg) events)))"

section \<open>Deadlines and draining\<close>

definition deferred_due :: "time \<Rightarrow> EndpointState \<Rightarrow> bool" where
  "deferred_due now e \<longleftrightarrow> es_deferred e \<noteq> 0 \<and> es_deferred e \<le> now"

definition processSession :: "'w tcp_env \<Rightarrow> time \<Rightarrow> u64 \<Rightarrow> ('w TcpReactor, unit) comp" where
  "processSession env now sid =
     bindC (theSession sid) (\<lambda>ss.
     if tcp_expired (ss_deadline ss) now (if ss_connecting ss then te_connectTimeout env else te_idleTimeout env)
     then thenC (reportStatEvent env kTimeout 1)
           (closeSession env sid (if ss_connecting ss then ''connect-timeout'' else ''idle-timeout'') ETIMEDOUT)
     else
     let due = (\<lambda>side. deferred_due now (at2 (ss_ends ss) side));
         clear = (\<lambda>side. whenC (due side) (modEnd sid side (\<lambda>x. x\<lparr>es_deferred := 0\<rparr>))) in
     thenC (forC [0, 1] clear)
       (if \<not> due 0 \<and> \<not> due 1 then returnC ()
        else onSessionFailure env sid
          (thenC (reportObservation env ''hup-retry'' sid (- 1) 0)
                 (advance_or_close env sid (updateSessionInterests env sid)))))"

fun deadline_pass :: "'w tcp_env \<Rightarrow> time \<Rightarrow> u64 list \<Rightarrow> ('w TcpReactor, unit) comp" where
  "deadline_pass env now [] = returnC ()"
| "deadline_pass env now (sid # ids) =
     bindC (getC (\<lambda>s. tr_draining s \<or> tr_stopRequested s)) (\<lambda>stopping.
     if stopping then returnC ()
     else thenC (processSession env now sid) (deadline_pass env now ids))"

definition processSessionDeadlines :: "'w tcp_env \<Rightarrow> ('w TcpReactor, unit) comp" where
  "processSessionDeadlines env =
     bindC (getC (\<lambda>s. tr_draining s \<or> tr_stopRequested s)) (\<lambda>stopping.
     if stopping then returnC () else
     bindC (sysR (te_now env)) (\<lambda>now.
     bindC (getC (\<lambda>s. (tr_listenerDeferred s \<and> tr_listenerRetryTime s \<le> now, tr_listenerFd s))) (\<lambda>(rearm, listenerFd).
     thenC (whenC rearm
              (thenC (updateEpollRegistration env EPOLL_CTL_ADD listenerFd 1 EPOLLIN)
                     (modifyC (\<lambda>s. s\<lparr>tr_listenerDeferred := False\<rparr>))))
    (bindC (getC (\<lambda>s. te_order env (map fst (tr_sessions s)))) (deadline_pass env now)))))"

definition drainSession :: "'w tcp_env \<Rightarrow> u64 \<Rightarrow> ('w TcpReactor, unit) comp" where
  "drainSession env sid =
     bindC (theSession sid) (\<lambda>ss.
     if ss_connecting ss then closeSession env sid ''service-stop-connecting'' 0 else
     thenC (forC [0, 1] (\<lambda>side. bindC (sysR (te_now env)) (\<lambda>now.
              modEnd sid side (\<lambda>x. if es_deferred x \<le> now then x\<lparr>es_deferred := 0\<rparr> else x))))
           (dispatchEndpointEvent env (es_token (fst (ss_ends ss))) 0))"

fun drain_pass :: "'w tcp_env \<Rightarrow> u64 list \<Rightarrow> ('w TcpReactor, unit) comp" where
  "drain_pass env [] = returnC ()"
| "drain_pass env (sid # ids) =
     thenC (consumeStopSignals env)
    (bindC (getC tr_stopRequested) (\<lambda>stop.
     if stop then returnC () else thenC (drainSession env sid) (drain_pass env ids)))"

definition advanceStopDrain :: "'w tcp_env \<Rightarrow> ('w TcpReactor, unit) comp" where
  "advanceStopDrain env = bindC (getC (\<lambda>s. te_order env (map fst (tr_sessions s)))) (drain_pass env)"

section \<open>The event loop\<close>

definition dispatchReadyEvent :: "'w tcp_env \<Rightarrow> bool \<Rightarrow> u64 \<Rightarrow> u32 \<Rightarrow> ('w TcpReactor, unit) comp" where
  "dispatchReadyEvent env draining token events =
     (if token = 1 then
        (if draining then returnC ()
         else if events AND (EPOLLERR OR EPOLLHUP) \<noteq> 0 then throwC (SystemError ''listener epoll'' EIO)
         else bindC (sysR (te_now env)) (\<lambda>now.
              bindC (getC tr_listenerRetryTime) (\<lambda>retryTime.
              whenC (retryTime \<le> now) (acceptClientSessions env))))
      else if token \<noteq> 2 then dispatchEndpointEvent env token events
      else returnC ())"

fun dispatchTcpReadyEvents :: "'w tcp_env \<Rightarrow> (u64 \<times> u32) list \<Rightarrow> ('w TcpReactor, unit) comp" where
  "dispatchTcpReadyEvents env [] = returnC ()"
| "dispatchTcpReadyEvents env ((token, events) # rest) =
     thenC (consumeStopSignals env)
    (bindC (getC (\<lambda>s. (tr_stopRequested s, tr_draining s))) (\<lambda>(stop, draining).
     if stop then returnC ()
     else thenC (dispatchReadyEvent env draining token events) (dispatchTcpReadyEvents env rest)))"

text \<open>Milliseconds to wait: 100, or what is left of the drain time, rounded up.\<close>

definition poll_timeout :: "'w tcp_env \<Rightarrow> ('w TcpReactor, int) comp" where
  "poll_timeout env =
     bindC (getC (\<lambda>s. (tr_draining s, tr_drainDeadline s))) (\<lambda>(draining, deadline).
     if \<not> draining then returnC 100
     else bindC (sysR (te_now env)) (\<lambda>now. returnC (max 0 (min 100 (- ((now - deadline) div 1000000))))))"

definition maintain :: "'w tcp_env \<Rightarrow> ('w TcpReactor, unit) comp" where
  "maintain env =
     bindC (getC tr_draining) (\<lambda>draining.
     if draining then returnC () else
     thenC (processSessionDeadlines env)
    (bindC (getC tr_draining) (\<lambda>draining. if draining then returnC () else callbackR (te_maintenance env))))"

text \<open>\<open>for (;;)\<close>, on fuel: how often it turns is up to the signals.\<close>

fun tcp_loop :: "'w tcp_env \<Rightarrow> nat \<Rightarrow> ('w TcpReactor, int) comp" where
  "tcp_loop env 0 = throwC OutOfFuel"
| "tcp_loop env (Suc fuel) =
     thenC (consumeStopSignals env)
    (bindC (getC (\<lambda>s. (tr_stopRequested s, tr_stopReason s, tr_draining s))) (\<lambda>(stop, reason, draining).
     if stop then thenC (closeAllSessions env reason) (returnC 0) else
     thenC (if draining then advanceStopDrain env else processSessionDeadlines env)
    (bindC (getC (\<lambda>s. draining \<and> tr_sessions s = [])) (\<lambda>drained.
     if drained then returnC 0 else
     bindC (poll_timeout env) (\<lambda>timeout.
     thenC (reportObservation env ''poll'' 0 (- 1) (of_int timeout))
    (bindC (sysR (te_epollWait env timeout)) (\<lambda>waited.
     case waited of
       Inl e \<Rightarrow> if e = EINTR then tcp_loop env fuel else throwC (SystemError ''epoll_wait'' e)
     | Inr ready \<Rightarrow>
         thenC (consumeStopSignals env)
        (bindC (getC tr_stopRequested) (\<lambda>stop2.
         if stop2 then tcp_loop env fuel
         else thenC (maintain env)
             (thenC (dispatchTcpReadyEvents env ready) (tcp_loop env fuel)))))))))))"

definition runTcpEventLoop :: "'w tcp_env \<Rightarrow> nat \<Rightarrow> ('w TcpReactor, int) comp" where
  "runTcpEventLoop env fuel = thenC (requiredR (te_ready env)) (tcp_loop env fuel)"

section \<open>Construction and destruction\<close>

definition emptyTcpReactor :: "'w \<Rightarrow> 'w TcpReactor" where
  "emptyTcpReactor w = \<lparr>tr_tokens = newEndpointTokens, tr_sessions = [], tr_nextSessionId = 1,
     tr_listenerRetryTime = 0, tr_drainDeadline = 0, tr_stopReason = ''service-stop-deadline'',
     tr_listenerDeferred = False, tr_resourceWarning = False, tr_stopRequested = False, tr_draining = False,
     tr_masked = False, tr_signalFd = None, tr_epollFd = None, tr_listenerFd = None, tr_world = w\<rparr>"

definition opened :: "errno + nat \<Rightarrow> nat option" where
  "opened r = (case r of Inl _ \<Rightarrow> None | Inr fd \<Rightarrow> Some fd)"

definition required_fd :: "string \<Rightarrow> errno + nat \<Rightarrow> ('w TcpReactor, unit) comp" where
  "required_fd operation r = (case r of Inl e \<Rightarrow> throwC (SystemError operation e) | Inr _ \<Rightarrow> returnC ())"

definition setup_listener :: "'w tcp_env \<Rightarrow> string \<Rightarrow> ('w TcpReactor, unit) comp" where
  "setup_listener env operation = bindC (sysR (te_setup env operation)) (\<lambda>r.
     case r of None \<Rightarrow> returnC () | Some e \<Rightarrow> throwC (SystemError operation e))"

definition blockSignals :: "'w tcp_env \<Rightarrow> ('w TcpReactor, unit) comp" where
  "blockSignals env = bindC (sysR (te_sigmask env)) (\<lambda>r. case r of
     Some e \<Rightarrow> throwC (SystemError ''sigprocmask'' e)
   | None \<Rightarrow> modifyC (\<lambda>s. s\<lparr>tr_masked := True\<rparr>))"

definition constructTcpReactor :: "'w tcp_env \<Rightarrow> ('w TcpReactor, unit) comp" where
  "constructTcpReactor env =
     thenC (blockSignals env)
    (bindC (sysR (te_open env ''signalfd'')) (\<lambda>signalFd.
     bindC (sysR (te_open env ''epoll_create1'')) (\<lambda>epollFd.
     bindC (sysR (te_open env ''socket listener'')) (\<lambda>listenerFd.
     thenC (modifyC (\<lambda>s. s\<lparr>tr_signalFd := opened signalFd, tr_epollFd := opened epollFd,
              tr_listenerFd := opened listenerFd\<rparr>))
    (thenC (required_fd ''signalfd'' signalFd)
    (thenC (required_fd ''epoll_create1'' epollFd)
    (thenC (required_fd ''socket listener'' listenerFd)
    (thenC (forC [''setsockopt SO_REUSEADDR'', ''bind'', ''listen''] (setup_listener env))
    (thenC (updateEpollRegistration env EPOLL_CTL_ADD (opened listenerFd) 1 EPOLLIN)
           (updateEpollRegistration env EPOLL_CTL_ADD (opened signalFd) 2 EPOLLIN))))))))))"

text \<open>The destructor's body, and then the members in reverse order.\<close>

definition destroyTcpReactor :: "'w tcp_env \<Rightarrow> 'w TcpReactor \<Rightarrow> 'w TcpReactor" where
  "destroyTcpReactor env s = snd (closeAllSessions env ''service-error'' s)"

definition close_opt :: "'w tcp_env \<Rightarrow> nat option \<Rightarrow> 'w \<Rightarrow> 'w" where
  "close_opt env fd = (case fd of None \<Rightarrow> (\<lambda>w. w) | Some n \<Rightarrow> te_close env n)"

definition destroyMembers :: "'w tcp_env \<Rightarrow> 'w TcpReactor \<Rightarrow> 'w TcpReactor" where
  "destroyMembers env s = s\<lparr>tr_listenerFd := None, tr_epollFd := None, tr_signalFd := None, tr_masked := False,
     tr_world := (if tr_masked s then te_sigrestore env else (\<lambda>w. w))
       (close_opt env (tr_signalFd s) (close_opt env (tr_epollFd s) (close_opt env (tr_listenerFd s) (tr_world s))))\<rparr>"

definition runTcpReactor :: "'w tcp_env \<Rightarrow> nat \<Rightarrow> ('w TcpReactor, int) comp" where
  "runTcpReactor env fuel =
     (if te_drainTimeout env \<le> 0 \<or> ms 2147483647 < te_drainTimeout env
      then throwC (InvalidArgument ''invalid TCP drain timeout'')
      else finallyC (thenC (constructTcpReactor env) (finallyC (runTcpEventLoop env fuel) (destroyTcpReactor env)))
             (destroyMembers env))"

end
