(* ===== verification/TcpSessions.thy ===== *)
theory TcpSessions
  imports TcpReactor
begin

text \<open>
  The session and token tables of the TCP reactor: tokens and endpoints name each other, the
  buffers are well formed, the capacity holds, a session keeps its backend and a token is
  never reissued, through every operation of the reactor and however it ends. The rules come in
  two layers: what any predicate needs to survive each operation (\<open>calm\<close>, \<open>stable\<close>, the locale
  \<open>tcp_family\<close> for the event loop), and the invariant as one such predicate.
\<close>

section \<open>The invariant\<close>

definition buffers_ok :: "Session \<Rightarrow> bool" where
  "buffers_ok ss \<longleftrightarrow> buffer_inv (fst (ss_pending ss)) \<and> buffer_inv (snd (ss_pending ss))"

definition session_tokens :: "Session \<Rightarrow> u64 \<times> u64" where
  "session_tokens ss = (es_token (fst (ss_ends ss)), es_token (snd (ss_ends ss)))"

definition session_ok :: "EndpointTokens \<Rightarrow> u64 \<Rightarrow> Session \<Rightarrow> bool" where
  "session_ok tokens sid ss \<longleftrightarrow> ss_id ss = sid \<and> buffers_ok ss \<and>
     (\<forall>side. side < 2 \<longrightarrow> at2 (session_tokens ss) side \<noteq> 0 \<longrightarrow>
        findEndpoint (at2 (session_tokens ss) side) tokens = Some \<lparr>tg_sessionId = sid, tg_side = side\<rparr>)"

definition tcp_inv :: "'w tcp_env \<Rightarrow> 'w TcpReactor \<Rightarrow> bool" where
  "tcp_inv env s \<longleftrightarrow>
     tokens_inv (tr_tokens s) \<and> distinct (map fst (tr_sessions s)) \<and>
     length (tr_sessions s) \<le> te_maxSessions env \<and>
     (\<forall>sid ss. map_of (tr_sessions s) sid = Some ss \<longrightarrow> session_ok (tr_tokens s) sid ss \<and> sid < tr_nextSessionId s) \<and>
     (\<forall>token tg. findEndpoint token (tr_tokens s) = Some tg \<longrightarrow> tg_side tg < 2 \<and>
        (\<exists>ss. map_of (tr_sessions s) (tg_sessionId tg) = Some ss \<and> at2 (session_tokens ss) (tg_side tg) = token))"

text \<open>Seen from an earlier state: issued tokens and sessions still name the same thing or nothing.\<close>

definition owners_kept :: "'w TcpReactor \<Rightarrow> 'w TcpReactor \<Rightarrow> bool" where
  "owners_kept s0 s \<longleftrightarrow> et_nextToken (tr_tokens s0) \<le> et_nextToken (tr_tokens s) \<and>
     tr_nextSessionId s0 \<le> tr_nextSessionId s \<and>
     (\<forall>token tg. token < et_nextToken (tr_tokens s0) \<longrightarrow> findEndpoint token (tr_tokens s) = Some tg \<longrightarrow>
        findEndpoint token (tr_tokens s0) = Some tg) \<and>
     (\<forall>sid ss. sid < tr_nextSessionId s0 \<longrightarrow> map_of (tr_sessions s) sid = Some ss \<longrightarrow>
        (\<exists>ss0. map_of (tr_sessions s0) sid = Some ss0 \<and> ss_backend ss = ss_backend ss0))"

text \<open>Session identifiers are not checked against wrap-around: \<open>k\<close> more may be given out.\<close>

definition sessions_good :: "'w tcp_env \<Rightarrow> 'w TcpReactor \<Rightarrow> nat \<Rightarrow> 'w TcpReactor \<Rightarrow> bool" where
  "sessions_good env s0 k s \<longleftrightarrow>
     tcp_inv env s \<and> owners_kept s0 s \<and> unat (tr_nextSessionId s) + k < 18446744073709551616"

section \<open>Predicates on the tables\<close>

abbreviation drop_session :: "u64 \<Rightarrow> Session \<Rightarrow> 'w TcpReactor \<Rightarrow> 'w TcpReactor" where
  "drop_session sid ss s \<equiv> s\<lparr>tr_sessions := AList.delete sid (tr_sessions s),
     tr_tokens := unregisterEndpoint (es_token (snd (ss_ends ss)))
       (unregisterEndpoint (es_token (fst (ss_ends ss))) (tr_tokens s))\<rparr>"

text \<open>Changes of a session that keep its identity, its tokens and the form of its buffers.\<close>

definition benign :: "(Session \<Rightarrow> Session) \<Rightarrow> bool" where
  "benign f \<longleftrightarrow> (\<forall>ss. ss_id (f ss) = ss_id ss \<and> ss_backend (f ss) = ss_backend ss \<and>
     session_tokens (f ss) = session_tokens ss \<and> (buffers_ok ss \<longrightarrow> buffers_ok (f ss)))"

text \<open>
  What the calls of the environment do to the world. The choice of a backend and the reports that a
  session was created or closed are left out: they belong to a change of the session table.
\<close>

inductive_set tcp_calls :: "'w tcp_env \<Rightarrow> ('w \<Rightarrow> 'w) set" for env where
  now: "snd \<circ> te_now env \<in> tcp_calls env"
| sigmask: "snd \<circ> te_sigmask env \<in> tcp_calls env"
| sigrestore: "te_sigrestore env \<in> tcp_calls env"
| open_fd: "snd \<circ> te_open env operation \<in> tcp_calls env"
| set_up: "snd \<circ> te_setup env operation \<in> tcp_calls env"
| epollCtl: "snd \<circ> te_epollCtl env op fd token bits \<in> tcp_calls env"
| close_fd: "te_close env n \<in> tcp_calls env"
| accept: "snd \<circ> te_accept env fd \<in> tcp_calls env"
| connect: "snd \<circ> te_connect env fd e \<in> tcp_calls env"
| socketError: "snd \<circ> te_socketError env fd \<in> tcp_calls env"
| send: "snd \<circ> te_send env fd bytes \<in> tcp_calls env"
| recv: "snd \<circ> te_recv env fd n \<in> tcp_calls env"
| shutdown: "snd \<circ> te_shutdown env fd \<in> tcp_calls env"
| signalRead: "snd \<circ> te_signalRead env \<in> tcp_calls env"
| epollWait: "snd \<circ> te_epollWait env timeout \<in> tcp_calls env"
| maintenance: "te_maintenance env = Some f \<Longrightarrow> snd \<circ> f \<in> tcp_calls env"
| ready: "te_ready env = Some f \<Longrightarrow> snd \<circ> f \<in> tcp_calls env"
| observation: "te_observation env = Some h \<Longrightarrow> snd \<circ> h ob \<in> tcp_calls env"
| stopping: "te_stopping env = Some h' \<Longrightarrow> snd \<circ> h' ev \<in> tcp_calls env"
| session: "te_session env = Some h'' \<Longrightarrow> snd \<circ> h'' sv \<in> tcp_calls env"
| diagnostic: "te_diagnostic env = Some d \<Longrightarrow> snd \<circ> d what e \<in> tcp_calls env"
| statistics: "te_statistics env = Some c \<Longrightarrow> kind \<noteq> kCreated \<Longrightarrow> kind \<noteq> kClosed \<Longrightarrow>
    snd \<circ> c \<lparr>se_kind = kind, se_amount = n\<rparr> \<in> tcp_calls env"

text \<open>
  Predicates that no flag of the loop and no such call can break; predicates that do not look at
  the world at all; and predicates that closing and changing sessions keep as well.
\<close>

definition calm :: "'w tcp_env \<Rightarrow> ('w TcpReactor \<Rightarrow> bool) \<Rightarrow> bool" where
  "calm env P \<longleftrightarrow> (\<forall>s. P s \<longrightarrow>
     (\<forall>f \<in> tcp_calls env. P (s\<lparr>tr_world := f (tr_world s)\<rparr>)) \<and> P (s\<lparr>tr_draining := True\<rparr>) \<and>
     (\<forall>d. P (s\<lparr>tr_drainDeadline := d\<rparr>)) \<and> P (s\<lparr>tr_listenerFd := None, tr_listenerDeferred := False\<rparr>) \<and>
     (\<forall>r. P (s\<lparr>tr_stopRequested := True, tr_stopReason := r\<rparr>)) \<and>
     (\<forall>b. P (s\<lparr>tr_listenerDeferred := b\<rparr>)) \<and> (\<forall>b. P (s\<lparr>tr_resourceWarning := b\<rparr>)) \<and>
     (\<forall>t. P (s\<lparr>tr_listenerRetryTime := t\<rparr>)))"

definition unworldly :: "('w TcpReactor \<Rightarrow> bool) \<Rightarrow> bool" where
  "unworldly P \<longleftrightarrow> (\<forall>s w. P s \<longrightarrow> P (s\<lparr>tr_world := w\<rparr>))"

definition stable :: "'w tcp_env \<Rightarrow> ('w TcpReactor \<Rightarrow> bool) \<Rightarrow> bool" where
  "stable env P \<longleftrightarrow> calm env P \<and>
     (\<forall>s sid ss. P s \<longrightarrow> map_of (tr_sessions s) sid = Some ss \<longrightarrow> buffers_ok ss) \<and>
     (\<forall>sid reason error. preserves P (closeSession env sid reason error)) \<and>
     (\<forall>s sid f. P s \<longrightarrow> benign f \<longrightarrow> P (s\<lparr>tr_sessions := AList.map_entry sid f (tr_sessions s)\<rparr>))"

lemma good_frame:
  assumes eq: "tr_sessions t = tr_sessions s" "tr_tokens t = tr_tokens s" "tr_nextSessionId t = tr_nextSessionId s"
    and good: "sessions_good env s0 k s"
  shows "sessions_good env s0 k t"
  using good unfolding sessions_good_def tcp_inv_def owners_kept_def eq .

lemma calm_good: "calm env' (sessions_good env s0 k)"
  unfolding calm_def by (intro allI ballI impI conjI; erule good_frame[rotated 3]; simp)

lemma unworldly_good: "unworldly (sessions_good env s0 k)"
  unfolding unworldly_def by (intro allI impI; erule good_frame[rotated 3]; simp)

lemma stable_calm: "stable env P \<Longrightarrow> calm env P"
  by (simp add: stable_def)

lemma at2_simps [simp]: "at2 (a, b) 0 = a" "at2 (a, b) (Suc 0) = b" "at2 (a, b) 1 = b"
  by (simp_all add: at2_def)

lemma at2_put2: "i < 2 \<Longrightarrow> j < 2 \<Longrightarrow> at2 (put2 i v p) j = (if i = j then v else at2 p j)"
  by (auto simp: at2_def put2_def)

lemma session_ok_benign: "benign f \<Longrightarrow> session_ok tokens sid ss \<Longrightarrow> session_ok tokens sid (f ss)"
  by (simp add: session_ok_def benign_def)

lemma tcp_inv_target:
  "tcp_inv env s \<Longrightarrow> findEndpoint token (tr_tokens s) = Some tg \<Longrightarrow>
   tg_side tg < 2 \<and> (\<exists>ss. map_of (tr_sessions s) (tg_sessionId tg) = Some ss \<and> at2 (session_tokens ss) (tg_side tg) = token)"
  unfolding tcp_inv_def by blast

lemma good_benign:
  assumes good: "sessions_good env s0 k s" and f: "benign f"
  shows "sessions_good env s0 k (s\<lparr>tr_sessions := AList.map_entry sid f (tr_sessions s)\<rparr>)"
proof -
  have eq: "session_tokens (f ss) = session_tokens ss" "ss_backend (f ss) = ss_backend ss" for ss
    using f by (simp_all add: benign_def)
  have "tcp_inv env (s\<lparr>tr_sessions := AList.map_entry sid f (tr_sessions s)\<rparr>)"
    using good session_ok_benign[OF f] unfolding sessions_good_def tcp_inv_def
    by (auto simp: map_of_map_entry_if eq split: if_splits) (metis eq(1) option.simps(9))+
  moreover have "owners_kept s0 (s\<lparr>tr_sessions := AList.map_entry sid f (tr_sessions s)\<rparr>)"
    using good unfolding sessions_good_def owners_kept_def
    by (auto simp: map_of_map_entry_if eq split: if_splits)
  ultimately show ?thesis using good by (simp add: sessions_good_def)
qed

lemma good_drop:
  assumes good: "sessions_good env s0 k s" and ss: "map_of (tr_sessions s) sid = Some ss"
  shows "sessions_good env s0 k (drop_session sid ss s)"
proof -
  let ?t = "drop_session sid ss s"
  have find: "findEndpoint x (tr_tokens ?t) =
      (if x = fst (session_tokens ss) \<or> x = snd (session_tokens ss) then None else findEndpoint x (tr_tokens s))" for x
    by (simp add: findEndpoint_unregister session_tokens_def)
  have inv: "tcp_inv env s" using good by (simp add: sessions_good_def)
  have own: "findEndpoint (at2 (session_tokens ss) side) (tr_tokens s) = Some \<lparr>tg_sessionId = sid, tg_side = side\<rparr>"
    if "side < 2" "at2 (session_tokens ss) side \<noteq> 0" for side
    using inv ss that by (simp add: tcp_inv_def session_ok_def)
  have zero: "findEndpoint 0 (tr_tokens s) = None"
    using inv by (cases "findEndpoint 0 (tr_tokens s)") (auto simp: tcp_inv_def tokens_inv_def)
  have other: "x \<noteq> fst (session_tokens ss) \<and> x \<noteq> snd (session_tokens ss)"
    if "findEndpoint x (tr_tokens s) = Some tg" "tg_sessionId tg \<noteq> sid" for x tg
  proof (intro conjI notI)
    show False if "x = fst (session_tokens ss)"
      using own[of 0] that zero \<open>findEndpoint x (tr_tokens s) = Some tg\<close> \<open>tg_sessionId tg \<noteq> sid\<close>
      by (cases "x = 0") (auto simp: at2_def)
    show False if "x = snd (session_tokens ss)"
      using own[of 1] that zero \<open>findEndpoint x (tr_tokens s) = Some tg\<close> \<open>tg_sessionId tg \<noteq> sid\<close>
      by (cases "x = 0") (auto simp: at2_def)
  qed
  have mine: "findEndpoint x (tr_tokens ?t) = None"
    if "findEndpoint x (tr_tokens s) = Some tg" "tg_sessionId tg = sid" for x tg
  proof -
    from inv that ss have "tg_side tg < 2" "at2 (session_tokens ss) (tg_side tg) = x"
      unfolding tcp_inv_def by fastforce+
    then show ?thesis unfolding find by (auto simp: at2_def split: if_splits)
  qed
  have "session_ok (tr_tokens ?t) i x \<and> i < tr_nextSessionId s"
    if "map_of (AList.delete sid (tr_sessions s)) i = Some x" for i x
  proof -
    from that have i: "i \<noteq> sid" "map_of (tr_sessions s) i = Some x" by (auto simp: delete_conv split: if_splits)
    with inv have ok: "session_ok (tr_tokens s) i x" "i < tr_nextSessionId s" by (auto simp: tcp_inv_def)
    have "findEndpoint (at2 (session_tokens x) side) (tr_tokens ?t) = Some \<lparr>tg_sessionId = i, tg_side = side\<rparr>"
      if side: "side < 2" "at2 (session_tokens x) side \<noteq> 0" for side
    proof -
      from ok side have f: "findEndpoint (at2 (session_tokens x) side) (tr_tokens s) =
          Some \<lparr>tg_sessionId = i, tg_side = side\<rparr>" by (simp add: session_ok_def)
      from other[OF f] i(1) f show ?thesis unfolding find by simp
    qed
    with ok show ?thesis by (simp add: session_ok_def)
  qed
  moreover have "tg_side tg < 2 \<and> (\<exists>x. map_of (AList.delete sid (tr_sessions s)) (tg_sessionId tg) = Some x \<and>
      at2 (session_tokens x) (tg_side tg) = token)" if "findEndpoint token (tr_tokens ?t) = Some tg" for token tg
  proof -
    from that have f: "findEndpoint token (tr_tokens s) = Some tg" unfolding find by (auto split: if_splits)
    with mine[OF f] that have "tg_sessionId tg \<noteq> sid" by fastforce
    with tcp_inv_target[OF inv f] show ?thesis by (auto simp: delete_conv)
  qed
  moreover have "tokens_inv (tr_tokens ?t)" using inv by (simp add: tcp_inv_def tokens_inv_unregister)
  moreover have "length (AList.delete sid (tr_sessions s)) \<le> te_maxSessions env"
    using inv length_delete_le[of sid "tr_sessions s"] by (simp add: tcp_inv_def)
  ultimately have "tcp_inv env ?t" using inv by (simp add: tcp_inv_def distinct_delete)
  moreover have "owners_kept s0 ?t"
    using good unfolding sessions_good_def owners_kept_def
    by (auto simp: findEndpoint_unregister delete_conv split: if_splits)
  ultimately show ?thesis using good by (simp add: sessions_good_def)
qed

section \<open>Operations that leave the tables alone\<close>

lemma sysR_iff [simp]:
  "sysR f s = (r, t) \<longleftrightarrow> (\<exists>a w. f (tr_world s) = (a, w) \<and> r = Inr a \<and> t = s\<lparr>tr_world := w\<rparr>)"
  by (auto simp: sysR_def split: prod.splits)

lemma calm_world: "calm env P \<Longrightarrow> f \<in> tcp_calls env \<Longrightarrow> P s \<Longrightarrow> P (s\<lparr>tr_world := f (tr_world s)\<rparr>)"
  by (simp add: calm_def)

lemma unworldlyD: "unworldly P \<Longrightarrow> P s \<Longrightarrow> P (s\<lparr>tr_world := w\<rparr>)"
  by (simp add: unworldly_def)

lemma calm_flags:
  assumes "calm env P"
  shows "preserves P (modifyC (\<lambda>s. s\<lparr>tr_draining := True\<rparr>))"
    and "preserves P (modifyC (\<lambda>s. s\<lparr>tr_drainDeadline := d\<rparr>))"
    and "preserves P (modifyC (\<lambda>s. s\<lparr>tr_listenerFd := None, tr_listenerDeferred := False\<rparr>))"
    and "preserves P (modifyC (\<lambda>s. s\<lparr>tr_stopRequested := True, tr_stopReason := r\<rparr>))"
    and "preserves P (modifyC (\<lambda>s. s\<lparr>tr_listenerDeferred := b\<rparr>))"
    and "preserves P (modifyC (\<lambda>s. s\<lparr>tr_resourceWarning := b\<rparr>))"
    and "preserves P (modifyC (\<lambda>s. s\<lparr>tr_listenerRetryTime := t\<rparr>))"
  using assms by (simp_all add: calm_def preserves_modify)

lemma preserves_sysR: "calm env P \<Longrightarrow> snd \<circ> f \<in> tcp_calls env \<Longrightarrow> preserves P (sysR f)"
  by (rule preservesI) (auto dest: calm_world[where f = "snd \<circ> f"])

lemma preserves_actR: "calm env P \<Longrightarrow> f \<in> tcp_calls env \<Longrightarrow> preserves P (actR f)"
  unfolding actR_def by (rule preserves_modify) (rule calm_world)

lemma preserves_calls:
  assumes "calm env P"
  shows "preserves P (sysR (te_now env))" and "preserves P (sysR (te_sigmask env))" and "preserves P (sysR (te_open env operation))"
    and "preserves P (sysR (te_setup env operation))" and "preserves P (sysR (te_epollCtl env op fd token bits))"
    and "preserves P (actR (te_close env n))" and "preserves P (sysR (te_accept env fd))"
    and "preserves P (sysR (te_connect env fd endpoint))" and "preserves P (sysR (te_socketError env fd))"
    and "preserves P (sysR (te_send env fd bytes))" and "preserves P (sysR (te_recv env fd n))"
    and "preserves P (sysR (te_shutdown env fd))" and "preserves P (sysR (te_signalRead env))"
    and "preserves P (sysR (te_epollWait env timeout))"
  by (rule preserves_sysR[OF assms] preserves_actR[OF assms], rule tcp_calls.intros)+

lemma preserves_closeFdR: "calm env P \<Longrightarrow> preserves P (closeFdR env fd)"
  unfolding closeFdR_def by (intro preserves_rules preserves_calls)

lemma preserves_callbackR:
  "calm env P \<Longrightarrow> (\<And>g. c = Some g \<Longrightarrow> snd \<circ> g \<in> tcp_calls env) \<Longrightarrow> preserves P (callbackR c)"
  unfolding callbackR_def by (cases c) (auto intro!: preserves_rules preserves_sysR)

lemma preserves_requiredR:
  "calm env P \<Longrightarrow> (\<And>g. c = Some g \<Longrightarrow> snd \<circ> g \<in> tcp_calls env) \<Longrightarrow> preserves P (requiredR c)"
  unfolding requiredR_def by (cases c) (auto intro!: preserves_rules preserves_sysR)

lemma preserves_plain_stat:
  "calm env P \<Longrightarrow> kind \<noteq> kCreated \<Longrightarrow> kind \<noteq> kClosed \<Longrightarrow> preserves P (reportStatEvent env kind amount)"
  unfolding reportStatEvent_def by (rule preserves_callbackR) (auto intro: tcp_calls.statistics)

lemma preserves_stat:
  assumes "calm env P"
  shows "preserves P (reportStatEvent env kError amount)" and "preserves P (reportStatEvent env kRejected amount)"
    and "preserves P (reportStatEvent env kTimeout amount)"
    and "preserves P (reportStatEvent env (if b then kBytesC2b else kBytesB2c) amount)"
  by (rule preserves_plain_stat[OF assms]; simp)+

lemma preserves_callbacks:
  assumes "calm env P"
  shows "preserves P (callbackR (te_maintenance env))" and "preserves P (requiredR (te_ready env))"
    and "preserves P (callbackR (map_option (\<lambda>f. f stop) (te_stopping env)))"
    and "preserves P (callbackR (map_option (\<lambda>f. f event) (te_session env)))"
    and "preserves P (requiredR (map_option (\<lambda>f. f event) (te_session env)))"
    and "preserves P (requiredR (map_option (\<lambda>f. f what error) (te_diagnostic env)))"
  by (rule preserves_callbackR[OF assms] preserves_requiredR[OF assms], auto intro: tcp_calls.intros)+

lemma preserves_obs: "calm env P \<Longrightarrow> preserves P (reportObservation env kind sid side v)"
  unfolding reportObservation_def case_prod_unfold
  by (rule preserves_bind[OF preserves_get], rule preserves_callbackR) (auto intro: tcp_calls.observation)

lemma preserves_diagnosticR: "calm env P \<Longrightarrow> preserves P (diagnosticR env what error)"
  unfolding diagnosticR_def by (rule preserves_callbackR) (auto intro: tcp_calls.diagnostic)

lemma preserves_epollReg: "calm env P \<Longrightarrow> preserves P (updateEpollRegistration env op fd token bits)"
  unfolding updateEpollRegistration_def by (intro preserves_rules preserves_calls)

lemma preserves_detach: "calm env P \<Longrightarrow> preserves P (detachEndpointFromEpoll env e)"
  unfolding detachEndpointFromEpoll_def by (intro preserves_rules preserves_calls)

lemma preserves_readSocketError: "calm env P \<Longrightarrow> preserves P (readSocketError env fd)"
  unfolding readSocketError_def by (intro preserves_rules preserves_calls)

lemmas calm_rules = preserves_calls preserves_closeFdR preserves_callbacks preserves_stat preserves_obs preserves_diagnosticR
  preserves_epollReg preserves_detach preserves_readSocketError

text \<open>A predicate that does not look at the world is kept by any call.\<close>

lemma unworldly_rules:
  assumes "unworldly P"
  shows "preserves P (sysR f)" and "preserves P (callbackR c)" and "preserves P (requiredR c)"
    and "preserves P (reportStatEvent env kind amount)"
proof -
  have call: "preserves P (sysR f)" for f :: "'a \<Rightarrow> 'b \<times> 'a"
    by (rule preservesI) (auto simp: unworldlyD[OF assms])
  have callback: "preserves P (sysR f)" for f :: "'a \<Rightarrow> exn option \<times> 'a"
    by (rule preservesI) (auto simp: unworldlyD[OF assms])
  show "preserves P (sysR f)" by (rule call)
  show "preserves P (callbackR c)" "preserves P (requiredR c)" "preserves P (reportStatEvent env kind amount)"
    unfolding reportStatEvent_def callbackR_def requiredR_def by (intro preserves_rules callback)+
qed

lemma preserves_beginDrain:
  assumes "calm env P"
  shows "preserves P (beginDrain env)"
proof -
  note flags = calm_flags[OF assms]
  show ?thesis
    unfolding beginDrain_def case_prod_unfold
    by (intro preserves_rules calm_rules assms flags)
qed

lemma preserves_signal_loop: "calm env P \<Longrightarrow> preserves P (signal_loop env fuel)"
proof (induction fuel)
  case 0
  show ?case by (simp add: preserves_throw)
next
  case (Suc n)
  note flags = calm_flags[OF Suc.prems]
  show ?case
    unfolding signal_loop.simps
    by (intro preserves_rules calm_rules Suc preserves_beginDrain flags)
qed

lemma preserves_consume:
  assumes "calm env P"
  shows "preserves P (consumeStopSignals env)"
proof -
  note flags = calm_flags[OF assms]
  show ?thesis
    unfolding consumeStopSignals_def case_prod_unfold
    by (intro preserves_rules calm_rules assms preserves_signal_loop flags)
qed

lemma preserves_poll_timeout: "calm env P \<Longrightarrow> preserves P (poll_timeout env)"
  unfolding poll_timeout_def case_prod_unfold by (intro preserves_rules calm_rules)

lemma preserves_shutdown_loop: "calm env P \<Longrightarrow> preserves P (shutdown_loop env fuel fd)"
proof (induction fuel)
  case 0
  then show ?case
    by (subst shutdown_loop.simps) (intro preserves_rules calm_rules preserves_consume, simp_all add: preserves_throw)
next
  case (Suc n)
  then show ?case
    by (subst shutdown_loop.simps) (intro preserves_rules calm_rules preserves_consume, simp_all)
qed

section \<open>Operations on one session\<close>

lemma preserves_theSession_bind:
  assumes "stable env P" and "\<And>ss. buffers_ok ss \<Longrightarrow> preserves P (k ss)"
  shows "preserves P (bindC (theSession sid) k)"
proof (rule preservesI)
  fix s r t
  assume P: "P s" and run: "bindC (theSession sid) k s = (r, t)"
  show "P t"
  proof (cases "map_of (tr_sessions s) sid")
    case None
    with run P show ?thesis by (simp add: theSession_def bindC_def getC_def throwC_def)
  next
    case (Some ss)
    with run have "k ss s = (r, t)" by (simp add: theSession_def bindC_def getC_def returnC_def)
    moreover have "buffers_ok ss" using assms(1) P Some by (auto simp: stable_def)
    ultimately show ?thesis using assms(2) P by (blast dest: preservesD)
  qed
qed

lemma preserves_modSession: "stable env P \<Longrightarrow> benign f \<Longrightarrow> preserves P (modSession sid f)"
  unfolding modSession_def by (rule preserves_modify) (simp add: stable_def)

lemma preserves_modEnd:
  assumes "stable env P" and "\<And>e. es_token (f e) = es_token e"
  shows "preserves P (modEnd sid side f)"
  unfolding modEnd_def
  by (rule preserves_modSession[OF assms(1)])
     (auto simp: benign_def session_tokens_def buffers_ok_def put2_def at2_def assms(2))

lemma preserves_report_close_errors: "calm env P \<Longrightarrow> preserves P (report_close_errors env codes failure)"
proof (induction codes arbitrary: failure)
  case (Cons c cs)
  then show ?case unfolding report_close_errors.simps by (intro preserves_rules calm_rules) simp_all
qed (simp add: preserves_return)

lemma preserves_closeSession: "stable env P \<Longrightarrow> preserves P (closeSession env sid reason error)"
  by (simp add: stable_def)

lemma closeSession_after_drop:
  assumes P: "unworldly P" and calm: "calm env P" and found: "map_of (tr_sessions s) sid = Some ss"
    and drop: "P (drop_session sid ss s)" and run: "closeSession env sid reason error s = (r, t)"
  shows "P t"
proof -
  have "preserves P (bindC (detachEndpointFromEpoll env (fst (ss_ends ss))) (\<lambda>error0.
         thenC (closeFdR env (es_fd (fst (ss_ends ss))))
        (bindC (detachEndpointFromEpoll env (snd (ss_ends ss))) (\<lambda>error1.
         thenC (closeFdR env (es_fd (snd (ss_ends ss))))
        (bindC (report_close_errors env [error0, error1] None) (\<lambda>failure1.
         bindC (attemptC (callbackR (map_option (\<lambda>f. f \<lparr>sv_id = ss_id ss, sv_backend = ss_backend ss,
             sv_accepted = False, sv_reason = reason, sv_error = error, sv_sent = ss_sent ss\<rparr>)
             (te_session env))) failure1) (\<lambda>failure2.
         bindC (attemptC (reportStatEvent env kClosed 1) failure2) (\<lambda>failure3.
         bindC (attemptC (reportObservation env ''closed'' 0 (- 1) 0) failure3) rethrowC))))))))"
    by (intro preserves_rules calm_rules preserves_report_close_errors calm unworldly_rules P)
  from preservesD[OF this drop] run found show ?thesis by (simp add: closeSession_unfold run_simps)
qed

text \<open>Stability of a predicate on the tables alone.\<close>

lemma stable_unworldly:
  assumes P: "unworldly P" and calm: "calm env P"
    and drop: "\<And>s sid ss. P s \<Longrightarrow> map_of (tr_sessions s) sid = Some ss \<Longrightarrow> buffers_ok ss \<and> P (drop_session sid ss s)"
    and benign: "\<And>s sid f. P s \<Longrightarrow> benign f \<Longrightarrow> P (s\<lparr>tr_sessions := AList.map_entry sid f (tr_sessions s)\<rparr>)"
  shows "stable env P"
proof -
  have "preserves P (closeSession env sid reason error)" for sid reason error
  proof (rule preservesI)
    fix s r t
    assume s: "P s" and run: "closeSession env sid reason error s = (r, t)"
    show "P t"
    proof (cases "map_of (tr_sessions s) sid")
      case None
      with run s show ?thesis by (simp add: closeSession_unfold run_simps)
    next
      case (Some ss)
      with drop[OF s Some] closeSession_after_drop[OF P calm Some] run show ?thesis by blast
    qed
  qed
  with assms show ?thesis unfolding stable_def by blast
qed

lemma stable_good: "stable env' (sessions_good env s0 k)"
proof (rule stable_unworldly[OF unworldly_good calm_good])
  show "buffers_ok ss \<and> sessions_good env s0 k (drop_session sid ss s)"
    if "sessions_good env s0 k s" "map_of (tr_sessions s) sid = Some ss" for s sid ss
    using that(1)[unfolded sessions_good_def tcp_inv_def session_ok_def] that(2) good_drop[OF that] by blast
qed (rule good_benign)

lemma preserves_closeSessionsLoop:
  assumes "stable env P"
  shows "preserves P (closeSessionsLoop env reason fuel failure)"
proof (induction fuel arbitrary: failure)
  case 0
  show ?case
    by (subst closeSessionsLoop.simps) (auto intro!: preserves_rules split: list.split)
next
  case (Suc n)
  have "preserves P (case ids of [] \<Rightarrow> rethrowC failure
      | sid # _ \<Rightarrow> bindC (attemptC (closeSession env sid reason 0) failure) (closeSessionsLoop env reason n))" for ids
    by (cases ids) (auto intro!: preserves_rules preserves_closeSession assms Suc)
  then show ?case by (subst closeSessionsLoop.simps) (auto intro!: preserves_bind preserves_get)
qed

lemma preserves_closeAllSessions: "stable env P \<Longrightarrow> preserves P (closeAllSessions env reason)"
  unfolding closeAllSessions_def by (intro preserves_rules preserves_closeSessionsLoop)

lemma preserves_onSessionFailure:
  assumes "stable env P" and "preserves P m"
  shows "preserves P (onSessionFailure env sid m)"
  unfolding onSessionFailure_def
proof (intro preserves_rules assms(2))
  show "preserves P (case e of
     SessionFailure operation error \<Rightarrow>
       thenC (reportStatEvent env kError 1) (closeSession env sid operation error) | _ \<Rightarrow> throwC e)" for e
    by (cases e) (auto intro!: preserves_rules calm_rules preserves_closeSession stable_calm assms(1))
qed

lemma preserves_removeEndpoint: "stable env P \<Longrightarrow> preserves P (removeEndpoint env sid side)"
  unfolding removeEndpoint_def
  by (intro preserves_theSession_bind preserves_rules calm_rules stable_calm preserves_modEnd)
     (simp_all add: detached_def)

lemma preserves_updateSideInterest: "stable env P \<Longrightarrow> preserves P (updateSideInterest env sid side)"
  unfolding updateSideInterest_def Let_def
  by (intro preserves_theSession_bind preserves_rules calm_rules stable_calm preserves_modEnd
        preserves_removeEndpoint) simp_all

lemma preserves_updateInterests: "stable env P \<Longrightarrow> preserves P (updateSessionInterests env sid)"
  unfolding updateSessionInterests_def by (intro preserves_rules preserves_updateSideInterest)

lemma buffers_ok_at2: "buffers_ok ss \<Longrightarrow> buffer_inv (at2 (ss_pending ss) source)"
  by (simp add: buffers_ok_def at2_def)

lemma benign_pending:
  "buffer_inv b \<Longrightarrow> benign (\<lambda>x. x\<lparr>ss_pending := put2 source b (ss_pending x)\<rparr>)"
  "buffer_inv b \<Longrightarrow> benign (\<lambda>x. x\<lparr>ss_pending := put2 source b (ss_pending x), ss_sent := g x\<rparr>)"
  by (auto simp: benign_def buffers_ok_def put2_def session_tokens_def)

lemma benign_other:
  "benign (\<lambda>x. x\<lparr>ss_deadline := h x\<rparr>)" "benign (\<lambda>x. x\<lparr>ss_connecting := c, ss_deadline := h x\<rparr>)"
  by (auto simp: benign_def buffers_ok_def session_tokens_def)

lemmas session_rules = preserves_theSession_bind preserves_modSession preserves_modEnd preserves_consume
  preserves_closeSession preserves_removeEndpoint preserves_updateInterests preserves_onSessionFailure stable_calm
  benign_other

lemma preserves_write_loop:
  assumes "stable env P"
  shows "preserves P (write_loop env fuel sid source budget)"
proof (induction fuel budget rule: budget_fuel_induct)
  case (1 fuel budget)
  have consume: "buffer_inv rest" if "buffers_ok ss" "consumeReadableBytes n (at2 (ss_pending ss) source) = Inr rest" for ss n rest
    using ring.drain_Inr[OF buffers_ok_at2[OF that(1)] that(2)] by blast
  show ?case
    by (subst write_loop.simps, unfold Let_def)
       (intro preserves_theSession_bind[OF assms] preserves_modSession[OF assms] preserves_modEnd[OF assms] session_rules
          preserves_rules calm_rules assms benign_pending 1; (auto dest: consume; fail)?)
qed

lemma preserves_read_loop:
  assumes "stable env P"
  shows "preserves P (read_loop env fuel sid source budget)"
proof (induction fuel budget rule: budget_fuel_induct)
  case (1 fuel budget)
  have receive: "buffer_inv filled" if "buffers_ok ss" "receive_into d (at2 (ss_pending ss) source) = Inr filled" for ss d filled
    using ring.fill_Inr[OF buffers_ok_at2[OF that(1)] that(2)] by blast
  show ?case
    by (subst read_loop.simps, unfold Let_def)
       (intro preserves_theSession_bind[OF assms] preserves_modSession[OF assms] preserves_modEnd[OF assms] session_rules
          preserves_rules calm_rules assms benign_pending 1; (auto dest: receive; fail)?)
qed

lemma preserves_writeDirection: "stable env P \<Longrightarrow> preserves P (writeBufferedDirection env sid source budget)"
  unfolding writeBufferedDirection_def Let_def
  by (intro session_rules preserves_rules calm_rules preserves_write_loop; (simp; fail)?)

lemma preserves_shutdownTarget: "stable env P \<Longrightarrow> preserves P (shutdownTarget env sid side)"
  unfolding shutdownTarget_def
  by (intro session_rules preserves_rules calm_rules preserves_shutdown_loop; (simp; fail)?)

lemma preserves_advanceSessionIo: "stable env P \<Longrightarrow> preserves P (advanceSessionIo env sid)"
  unfolding advanceSessionIo_def readSessionDirection_def
  by (intro session_rules preserves_rules preserves_writeDirection preserves_read_loop preserves_shutdownTarget)

lemma preserves_advance_or_close:
  "stable env P \<Longrightarrow> preserves P m \<Longrightarrow> preserves P (advance_or_close env sid m)"
  unfolding advance_or_close_def
  by (intro session_rules preserves_rules preserves_advanceSessionIo)

lemma preserves_endpoint_error: "stable env P \<Longrightarrow> preserves P (endpoint_error env sid side events c)"
  unfolding endpoint_error_def by (intro session_rules preserves_rules calm_rules)

lemma preserves_endpoint_event: "stable env P \<Longrightarrow> preserves P (endpoint_event env sid side events)"
  unfolding endpoint_event_def Let_def
  by (intro preserves_advance_or_close session_rules preserves_rules calm_rules preserves_endpoint_error; (simp; fail)?)

lemma preserves_theSession: "preserves P (theSession sid)"
  unfolding theSession_def by (intro preserves_rules)

lemma preserves_dispatchEndpointEvent: "stable env P \<Longrightarrow> preserves P (dispatchEndpointEvent env token events)"
  unfolding dispatchEndpointEvent_def
  by (intro session_rules preserves_rules calm_rules preserves_endpoint_event)

lemma preserves_processSession: "stable env P \<Longrightarrow> preserves P (processSession env now sid)"
  unfolding processSession_def Let_def
  by (intro preserves_advance_or_close session_rules preserves_rules calm_rules; (simp; fail)?)

lemma preserves_deadline_pass: "stable env P \<Longrightarrow> preserves P (deadline_pass env now ids)"
proof (induction ids)
  case (Cons sid ids)
  then show ?case by (simp, intro preserves_rules preserves_processSession)
qed (simp add: preserves_return)

lemma preserves_deadlines: "stable env P \<Longrightarrow> preserves P (processSessionDeadlines env)"
proof -
  assume P: "stable env P"
  note flags = calm_flags[OF stable_calm[OF P]]
  show ?thesis
    unfolding processSessionDeadlines_def
    by (intro preserves_rules calm_rules stable_calm preserves_deadline_pass flags P)
qed

lemma preserves_drainSession: "stable env P \<Longrightarrow> preserves P (drainSession env sid)"
  unfolding drainSession_def
  by (intro session_rules preserves_rules calm_rules preserves_dispatchEndpointEvent; (simp; fail)?)

lemma preserves_drain_pass: "stable env P \<Longrightarrow> preserves P (drain_pass env ids)"
proof (induction ids)
  case (Cons sid ids)
  then show ?case by (simp, intro preserves_rules preserves_consume stable_calm preserves_drainSession)
qed (simp add: preserves_return)

lemma preserves_advanceStopDrain: "stable env P \<Longrightarrow> preserves P (advanceStopDrain env)"
  unfolding advanceStopDrain_def by (intro preserves_rules preserves_drain_pass)

lemma preserves_maintain: "stable env P \<Longrightarrow> preserves P (maintain env)"
  unfolding maintain_def by (intro preserves_rules calm_rules stable_calm preserves_deadlines)

section \<open>Accepting\<close>

lemma good_mono: "sessions_good env s0 k s \<Longrightarrow> j \<le> k \<Longrightarrow> sessions_good env s0 j s"
  by (simp add: sessions_good_def)

lemma good_new:
  assumes good: "sessions_good env s0 (Suc k) s" and room: "length (tr_sessions s) < te_maxSessions env"
    and sid: "sid = tr_nextSessionId s"
  shows "sessions_good env s0 k (s\<lparr>tr_nextSessionId := sid + 1,
      tr_sessions := emplace sid (newSession sid backend front now) (tr_sessions s)\<rparr>)"
    and "map_of (tr_sessions s) sid = None"
proof -
  let ?t = "s\<lparr>tr_nextSessionId := sid + 1,
      tr_sessions := emplace sid (newSession sid backend front now) (tr_sessions s)\<rparr>"
  have inv: "tcp_inv env s" "owners_kept s0 s" and k: "unat sid + Suc k < 18446744073709551616"
    using good sid by (simp_all add: sessions_good_def)
  then have wrap: "sid \<noteq> - 1" by (auto simp: unat_max_u64)
  note lt = word_le_inc[OF wrap]
  show fresh: "map_of (tr_sessions s) sid = None"
    using inv(1) sid unfolding tcp_inv_def by (metis not_None_eq order_less_irrefl)
  have conv: "map_of (tr_sessions ?t) = (map_of (tr_sessions s))(sid \<mapsto> newSession sid backend front now)"
    using fresh by (simp add: map_of_emplace)
  have new: "session_ok (tr_tokens s) sid (newSession sid backend front now)"
    by (auto simp: session_ok_def newSession_def buffers_ok_def buffer_inv_new session_tokens_def newEndpointState_def at2_def)
  have old: "session_ok (tr_tokens s) i x \<and> i \<le> sid" if "map_of (tr_sessions s) i = Some x" for i x
    using inv(1) sid that unfolding tcp_inv_def by (auto intro: less_imp_le)
  have tgt: "tg_side tg < 2 \<and> (\<exists>ss. map_of (tr_sessions ?t) (tg_sessionId tg) = Some ss \<and>
      at2 (session_tokens ss) (tg_side tg) = token)" if "findEndpoint token (tr_tokens s) = Some tg" for token tg
    using tcp_inv_target[OF inv(1) that] fresh unfolding conv by (auto split: if_splits)
  have "distinct (map fst (tr_sessions ?t))" "length (tr_sessions ?t) \<le> te_maxSessions env"
    using inv(1) room fresh by (simp_all add: emplace_def tcp_inv_def distinct_update length_update_new)
  moreover have "session_ok (tr_tokens s) i x \<and> i < sid + 1" if "map_of (tr_sessions ?t) i = Some x" for i x
    using that new old[of i x] unfolding conv lt by (auto split: if_splits)
  ultimately have "tcp_inv env ?t" using inv(1) tgt unfolding tcp_inv_def by simp
  moreover have "owners_kept s0 ?t"
    using inv(2) sid lt[of sid] unfolding owners_kept_def conv by (auto split: if_splits dest: order_trans less_imp_le)
  moreover have "unat (sid + 1) = Suc (unat sid)" by (rule unat_inc[OF wrap])
  ultimately show "sessions_good env s0 k ?t" using k by (simp add: sessions_good_def)
qed

text \<open>A session that has no token yet on some side.\<close>

definition tokenless :: "u64 \<Rightarrow> nat list \<Rightarrow> 'w TcpReactor \<Rightarrow> bool" where
  "tokenless sid sides s \<longleftrightarrow> (\<exists>ss. map_of (tr_sessions s) sid = Some ss \<and>
     (\<forall>side \<in> set sides. at2 (session_tokens ss) side = 0))"

lemma session_tokens_put:
  "side < 2 \<Longrightarrow> session_tokens (ss\<lparr>ss_ends := put2 side ((at2 (ss_ends ss) side)\<lparr>es_token := token\<rparr>) (ss_ends ss)\<rparr>)
     = put2 side token (session_tokens ss)"
  by (auto simp: session_tokens_def put2_def at2_def)

lemma good_register:
  assumes good: "sessions_good env s0 k s" and ss: "map_of (tr_sessions s) sid = Some ss"
    and side: "side < 2" "at2 (session_tokens ss) side = 0"
    and reg: "registerEndpoint sid side (tr_tokens s) = Inr (token, u)"
    and f: "f = (\<lambda>x. x\<lparr>ss_ends := put2 side ((at2 (ss_ends x) side)\<lparr>es_token := token\<rparr>) (ss_ends x)\<rparr>)"
  shows "sessions_good env s0 k (s\<lparr>tr_tokens := u, tr_sessions := AList.map_entry sid f (tr_sessions s)\<rparr>)"
proof -
  let ?t = "s\<lparr>tr_tokens := u, tr_sessions := AList.map_entry sid f (tr_sessions s)\<rparr>"
  have inv: "tcp_inv env s" "owners_kept s0 s" using good by (simp_all add: sessions_good_def)
  have ti: "tokens_inv (tr_tokens s)" using inv(1) by (simp add: tcp_inv_def)
  note r = registerEndpoint_Inr[OF ti reg]
  have find: "findEndpoint x u = (if x = token then Some \<lparr>tg_sessionId = sid, tg_side = side\<rparr>
      else findEndpoint x (tr_tokens s))" for x using r by blast
  have fresh: "findEndpoint token (tr_tokens s) = None" "3 \<le> token" using r by blast+
  have tok: "session_tokens (f x) = put2 side token (session_tokens x)" for x
    using side(1) by (simp add: f session_tokens_put)
  have same: "ss_id (f x) = ss_id x" "buffers_ok (f x) = buffers_ok x" "ss_backend (f x) = ss_backend x" for x
    by (simp_all add: f buffers_ok_def)
  have keep: "findEndpoint x u = Some tg" if "findEndpoint x (tr_tokens s) = Some tg" for x tg
    using that fresh by (auto simp: find)
  have ok: "session_ok u i x" if i: "map_of (tr_sessions ?t) i = Some x" for i x
  proof (cases "i = sid")
    case True
    with i ss have x: "x = f ss" by (simp add: map_of_map_entry_if)
    have old: "session_ok (tr_tokens s) sid ss" using inv(1) ss by (simp add: tcp_inv_def)
    have "findEndpoint (at2 (put2 side token (session_tokens ss)) sd) u = Some \<lparr>tg_sessionId = sid, tg_side = sd\<rparr>"
      if sd: "sd < 2" "at2 (put2 side token (session_tokens ss)) sd \<noteq> 0" for sd
    proof (cases "sd = side")
      case False
      with sd side old have "findEndpoint (at2 (session_tokens ss) sd) (tr_tokens s) =
          Some \<lparr>tg_sessionId = sid, tg_side = sd\<rparr>" by (simp add: session_ok_def at2_put2)
      from keep[OF this] False sd(1) side(1) show ?thesis by (simp add: at2_put2)
    qed (simp add: at2_put2 find side(1))
    with old True show ?thesis unfolding session_ok_def x tok same by simp
  next
    case False
    with i inv(1) have "session_ok (tr_tokens s) i x" by (simp add: tcp_inv_def map_of_map_entry_if)
    with keep show ?thesis by (simp add: session_ok_def)
  qed
  have below: "i < tr_nextSessionId s" if "map_of (tr_sessions ?t) i = Some x" for i x
    using that inv(1) ss by (cases "i = sid") (auto simp: tcp_inv_def map_of_map_entry_if)
  have tgt: "tg_side tg < 2 \<and> (\<exists>x. map_of (tr_sessions ?t) (tg_sessionId tg) = Some x \<and>
      at2 (session_tokens x) (tg_side tg) = tk)" if fd: "findEndpoint tk u = Some tg" for tk tg
  proof (cases "tk = token")
    case True
    with fd have "tg = \<lparr>tg_sessionId = sid, tg_side = side\<rparr>" by (simp add: find)
    with True ss side(1) show ?thesis by (auto simp: map_of_map_entry_if tok at2_put2)
  next
    case False
    with fd have fs: "findEndpoint tk (tr_tokens s) = Some tg" by (simp add: find)
    from tcp_inv_target[OF inv(1) fs] obtain x where x: "map_of (tr_sessions s) (tg_sessionId tg) = Some x"
      "at2 (session_tokens x) (tg_side tg) = tk" "tg_side tg < 2" by blast
    have nz: "tk \<noteq> 0" using ti fs by (auto simp: tokens_inv_def)
    show ?thesis
    proof (cases "tg_sessionId tg = sid")
      case True
      with x ss side nz have "tg_side tg \<noteq> side" by auto
      with True x ss side(1) show ?thesis by (auto simp: map_of_map_entry_if tok at2_put2)
    next
      case False
      with x show ?thesis by (auto simp: map_of_map_entry_if)
    qed
  qed
  have "tcp_inv env ?t"
    using inv(1) r ok below tgt unfolding tcp_inv_def by simp
  moreover have "owners_kept s0 ?t"
  proof -
    have nx: "et_nextToken (tr_tokens s0) \<le> et_nextToken (tr_tokens s)" using inv(2) by (simp add: owners_kept_def)
    with r have "et_nextToken (tr_tokens s0) \<le> et_nextToken u" by (meson less_imp_le order_trans)
    moreover have "findEndpoint x (tr_tokens s0) = Some tg"
      if "x < et_nextToken (tr_tokens s0)" "findEndpoint x u = Some tg" for x tg
      using that nx r inv(2) by (auto simp: find owners_kept_def split: if_splits)
    moreover have "\<exists>ss0. map_of (tr_sessions s0) i = Some ss0 \<and> ss_backend x = ss_backend ss0"
      if "i < tr_nextSessionId s0" "map_of (tr_sessions ?t) i = Some x" for i x
      using that ss inv(2) by (cases "i = sid") (auto simp: map_of_map_entry_if same owners_kept_def)
    ultimately show ?thesis using inv(2) unfolding owners_kept_def by simp
  qed
  ultimately show ?thesis using good by (simp add: sessions_good_def)
qed

lemma triple_registerSide:
  assumes "side < 2" and "side \<notin> set sides" and "set sides \<subseteq> {0, 1}"
  shows "triple (\<lambda>s. sessions_good env s0 k s \<and> tokenless sid (side # sides) s) (registerSide sid side)
    (\<lambda>_ s. sessions_good env s0 k s \<and> tokenless sid sides s) (\<lambda>_. sessions_good env s0 k)"
proof (rule tripleI)
  fix s t r
  assume P: "sessions_good env s0 k s \<and> tokenless sid (side # sides) s" and run: "registerSide sid side s = (Inr r, t)"
  from P obtain ss where ss: "map_of (tr_sessions s) sid = Some ss" "at2 (session_tokens ss) side = 0"
    "\<forall>x \<in> set sides. at2 (session_tokens ss) x = 0" by (auto simp: tokenless_def)
  from run obtain token u where reg: "registerEndpoint sid side (tr_tokens s) = Inr (token, u)"
    and t: "t = s\<lparr>tr_tokens := u, tr_sessions := AList.map_entry sid
      (\<lambda>x. x\<lparr>ss_ends := put2 side ((at2 (ss_ends x) side)\<lparr>es_token := token\<rparr>) (ss_ends x)\<rparr>) (tr_sessions s)\<rparr>"
    by (auto simp: registerSide_def modEnd_def modSession_def run_simps split: sum.splits)
  have "sessions_good env s0 k t"
    unfolding t using good_register[OF _ ss(1) assms(1) ss(2) reg refl] P by blast
  moreover have "tokenless sid sides t"
    using ss(1,3) assms by (auto simp: tokenless_def t map_of_map_entry_if session_tokens_put at2_put2)
  ultimately show "sessions_good env s0 k t \<and> tokenless sid sides t" by simp
next
  fix s t e
  assume "sessions_good env s0 k s \<and> tokenless sid (side # sides) s" and "registerSide sid side s = (Inl e, t)"
  then show "sessions_good env s0 k t"
    by (cases "registerEndpoint sid side (tr_tokens s)")
       (auto simp: registerSide_def modEnd_def modSession_def run_simps split: prod.splits)
qed

lemma unworldly_tables:
  shows "unworldly (tokenless sid sides)" and "unworldly (\<lambda>s. length (tr_sessions s) < n)"
  by (simp_all add: unworldly_def tokenless_def)

lemma unworldly_conj: "unworldly P \<Longrightarrow> unworldly Q \<Longrightarrow> unworldly (\<lambda>s. P s \<and> Q s)"
  by (simp add: unworldly_def)

lemma triple_sysR_bind:
  "unworldly P \<Longrightarrow> (\<And>a. triple P (f a) Q E) \<Longrightarrow> triple P (bindC (sysR g) f) Q E"
  by (rule triple_bind[where B = "\<lambda>_. P"], rule tripleI) (auto simp: unworldlyD)

lemma triple_connect:
  "triple (\<lambda>s. sessions_good env s0 k s \<and> tokenless sid [0, 1] s) (connectSessionBackend env sid)
    (\<lambda>_. sessions_good env s0 k) (\<lambda>_. sessions_good env s0 k)"
proof -
  let ?ok = "\<lambda>_. sessions_good env s0 k"
  let ?new = "\<lambda>sides s. sessions_good env s0 k s \<and> tokenless sid sides s"
  have calm: "unworldly (?new sides)" for sides
    by (intro unworldly_conj unworldly_good unworldly_tables)
  note stable = stable_good[of env env s0 k]
  have fd: "triple (?new [0, 1]) (modEnd sid 1 (\<lambda>x. x\<lparr>es_fd := Some fd\<rparr>)) (\<lambda>_. ?new [0, 1]) ?ok" for fd
  proof (rule triple_preserves_weaken)
    show "preserves (?new [0, 1]) (modEnd sid 1 (\<lambda>x. x\<lparr>es_fd := Some fd\<rparr>))"
    proof (rule preserves_conj[OF preserves_modEnd[OF stable]])
      show "preserves (tokenless sid [0, 1]) (modEnd sid 1 (\<lambda>x. x\<lparr>es_fd := Some fd\<rparr>))"
        unfolding modEnd_def modSession_def
        by (rule preserves_modify) (auto simp: tokenless_def map_of_map_entry_if session_tokens_def put2_def at2_def)
    qed simp
  qed auto
  have reg: "triple (?new [0, 1]) (forC [0, 1] (registerSide sid)) ?ok ?ok"
    unfolding forC.simps
  proof (rule triple_then[where B = "?new [1]"])
    show "triple (?new [0, 1]) (registerSide sid 0) (\<lambda>_. ?new [1]) ?ok"
      by (rule triple_registerSide) simp_all
    have "triple (?new [1]) (registerSide sid 1) (\<lambda>_. ?new []) ?ok"
      by (rule triple_registerSide) simp_all
    then show "triple (?new [1]) (thenC (registerSide sid 1) (returnC ())) ?ok ?ok"
      by (rule triple_then) (auto intro!: tripleI)
  qed
  have rest: "preserves (sessions_good env s0 k) (bindC (theSession sid) (\<lambda>ss.
         bindC (sysR (te_connect env (Some fd) (ss_backend ss))) (\<lambda>connectResult.
         thenC (case connectResult of
                  None \<Rightarrow>
                    bindC (sysR (te_now env)) (\<lambda>now.
                    thenC (modSession sid (\<lambda>x. x\<lparr>ss_connecting := False, ss_deadline := \<lparr>lastIoTime = now\<rparr>\<rparr>))
                          (reportObservation env ''connect-immediate'' sid (- 1) 0))
                | Some e \<Rightarrow>
                    if e = EINPROGRESS then reportObservation env ''connect-inprogress'' sid (- 1) 0
                    else throwC (SessionFailure ''connect'' e))
               (updateSessionInterests env sid))))" for fd
    by (intro preserves_theSession_bind[OF stable] preserves_modSession[OF stable] session_rules preserves_rules calm_rules stable)
  show ?thesis
    unfolding connectSessionBackend_def
  proof (intro triple_sysR_bind calm triple_case_sum)
    show "triple (?new [0, 1]) (throwC (SessionFailure ''socket backend'' e)) ?ok ?ok" for e
      by (auto intro!: tripleI)
  qed (rule triple_then[OF fd], rule triple_then[OF reg], rule triple_preserves_weaken[OF rest])
qed

lemma triple_startSession:
  "triple (\<lambda>s. sessions_good env s0 (Suc k) s \<and> length (tr_sessions s) < te_maxSessions env)
    (startSession env front backend) (\<lambda>_. sessions_good env s0 k) (\<lambda>_. sessions_good env s0 k)"
proof -
  let ?ok = "\<lambda>_. sessions_good env s0 k"
  let ?room = "\<lambda>s. sessions_good env s0 (Suc k) s \<and> length (tr_sessions s) < te_maxSessions env"
  let ?new = "\<lambda>sid s. sessions_good env s0 k s \<and> tokenless sid [0, 1] s"
  have calm: "unworldly ?room" "unworldly (?new sid)" for sid
    by (intro unworldly_conj unworldly_good unworldly_tables)+
  note stable = stable_good[of env env s0 k]
  have insert: "triple (\<lambda>s. ?room s \<and> tr_nextSessionId s = sid)
      (modifyC (\<lambda>s. if map_of (tr_sessions s) sid = None
              then s\<lparr>tr_nextSessionId := sid + 1,
                     tr_sessions := emplace sid (newSession sid backend front now) (tr_sessions s)\<rparr>
              else s\<lparr>tr_nextSessionId := sid + 1, tr_world := te_close env front (tr_world s)\<rparr>))
      (\<lambda>_. ?new sid) ?ok" for sid now
  proof (rule tripleI)
    fix s r t
    assume P: "?room s \<and> tr_nextSessionId s = sid"
    have fresh: "map_of (tr_sessions s) sid = None"
      by (rule good_new(2)[of env s0 k s sid]) (use P in auto)
    assume "modifyC (\<lambda>s. if map_of (tr_sessions s) sid = None
              then s\<lparr>tr_nextSessionId := sid + 1,
                     tr_sessions := emplace sid (newSession sid backend front now) (tr_sessions s)\<rparr>
              else s\<lparr>tr_nextSessionId := sid + 1, tr_world := te_close env front (tr_world s)\<rparr>) s = (Inr r, t)"
    with fresh have t: "t = s\<lparr>tr_nextSessionId := sid + 1,
        tr_sessions := emplace sid (newSession sid backend front now) (tr_sessions s)\<rparr>" by simp
    have "sessions_good env s0 k t" unfolding t by (rule good_new(1)) (use P in auto)
    moreover have "tokenless sid [0, 1] t"
      using fresh by (simp add: t tokenless_def map_of_emplace newSession_def session_tokens_def newEndpointState_def)
    ultimately show "?new sid t" by simp
  qed simp
  have connect: "triple (?new sid) (onSessionFailure env sid (connectSessionBackend env sid)) ?ok ?ok" for sid
    unfolding onSessionFailure_def
  proof (rule triple_catch[OF triple_connect], rule triple_preserves_weaken)
    show "preserves (sessions_good env s0 k) (case e of
       SessionFailure operation error \<Rightarrow>
         thenC (reportStatEvent env kError 1) (closeSession env sid operation error) | _ \<Rightarrow> throwC e)" for e
      by (cases e) (auto intro!: preserves_rules calm_rules preserves_closeSession stable_calm stable)
  qed
  have keep: "triple (?new sid) m (\<lambda>_. ?new sid) ?ok" if "preserves (?new sid) m" for sid and m :: "('a TcpReactor, unit) comp"
    by (rule triple_preserves_weaken[OF that]) auto
  have the: "triple (?new sid) (bindC (theSession sid) f) ?ok ?ok" if "\<And>ss. triple (?new sid) (f ss) ?ok ?ok" for sid f
    unfolding theSession_def
    by (rule triple_bind[where B = "\<lambda>_. ?new sid"])
       (use that in \<open>auto intro!: tripleI simp: run_simps bindC_def getC_def throwC_def returnC_def split: option.splits\<close>)
  show ?thesis
    unfolding startSession_def
    by (intro triple_sysR_bind triple_get_bind calm, rule triple_then[OF insert],
        rule triple_then[OF keep[OF unworldly_rules(4)[OF calm(2)]]], rule the,
        rule triple_then[OF keep[OF unworldly_rules(3)[OF calm(2)]]], rule connect)
qed

lemma triple_acceptClient:
  "triple (sessions_good env s0 (Suc k)) (acceptClient env front)
    (\<lambda>_. sessions_good env s0 k) (\<lambda>_. sessions_good env s0 k)"
proof -
  let ?ok = "\<lambda>_. sessions_good env s0 k"
  let ?room = "\<lambda>s. sessions_good env s0 (Suc k) s \<and> length (tr_sessions s) < te_maxSessions env"
  have calm: "unworldly ?room" by (intro unworldly_conj unworldly_good unworldly_tables)
  have less: "sessions_good env s0 k s" if "sessions_good env s0 (Suc k) s" for s
    using good_mono[OF that] by simp
  have leaf: "triple P (finallyC m (\<lambda>s. s\<lparr>tr_world := te_close env front (tr_world s)\<rparr>)) ?ok ?ok"
    if "preserves (sessions_good env s0 (Suc k)) m" "\<And>s. P s \<Longrightarrow> sessions_good env s0 (Suc k) s"
    for P and m :: "('a TcpReactor, unit) comp"
    by (rule triple_preserves_weaken[OF preserves_finally[OF that(1)]])
       (auto simp: that(2) less unworldlyD[OF unworldly_good])
  show ?thesis
    unfolding acceptClient_def Let_def
  proof (intro triple_get_bind triple_if, goal_cases)
    case (1 count)
    show ?case by (rule leaf, intro preserves_rules calm_rules calm_good) simp
  next
    case (2 count)
    show ?case
      by (rule triple_pre[where P = ?room], intro triple_case_option triple_sysR_bind calm triple_case_sum)
         (use 2 in \<open>auto intro!: leaf triple_startSession preserves_rules calm_rules calm_good\<close>)
  qed
qed

lemma preserves_acceptBackoff:
  assumes "calm env P"
  shows "preserves P (acceptBackoff env e)"
proof -
  note flags = calm_flags[OF assms]
  show ?thesis
    unfolding acceptBackoff_def by (intro preserves_rules calm_rules assms flags)
qed

section \<open>The event loop\<close>

text \<open>
  A family of state predicates counted by the clients that may still be accepted: accepting one
  uses up one, and everything else the loop does keeps every member of the family. Then the loop,
  which accepts at most 64 clients for each of at most 128 events of a turn, ends in the family.
\<close>

locale tcp_family =
  fixes env :: "'w tcp_env" and G :: "nat \<Rightarrow> 'w TcpReactor \<Rightarrow> bool"
  assumes mono: "G k s \<Longrightarrow> j \<le> k \<Longrightarrow> G j s"
    and accept: "triple (G (Suc k)) (acceptClient env front) (\<lambda>_. G k) (\<lambda>_. G k)"
    and clock: "preserves (G k) (sysR (te_now env))"
    and accept_call: "preserves (G k) (sysR (te_accept env fd))"
    and wait_call: "G k s \<Longrightarrow> te_epollWait env timeout (tr_world s) = (r, w) \<Longrightarrow> G k (s\<lparr>tr_world := w\<rparr>)"
    and stat: "preserves (G k) (reportStatEvent env kError 1)"
    and observation: "preserves (G k) (reportObservation env what sid side v)"
    and backoff: "preserves (G k) (acceptBackoff env e)"
    and warning: "preserves (G k) (modifyC (\<lambda>s. s\<lparr>tr_resourceWarning := False\<rparr>))"
    and signals: "preserves (G k) (consumeStopSignals env)"
    and ready: "preserves (G k) (requiredR (te_ready env))"
    and endpoint: "preserves (G k) (dispatchEndpointEvent env token events)"
    and closing: "preserves (G k) (closeAllSessions env reason)"
    and draining: "preserves (G k) (advanceStopDrain env)"
    and deadlines: "preserves (G k) (processSessionDeadlines env)"
    and timeout: "preserves (G k) (poll_timeout env)"
    and maintenance: "preserves (G k) (maintain env)"
begin

lemma family_leaf:
  "preserves (G k) m \<Longrightarrow> j \<le> k \<Longrightarrow> triple (G k) m (\<lambda>_. G j) (\<lambda>_. G j)"
  by (erule triple_preserves_weaken) (auto intro: mono)

lemma family_bind:
  "preserves (G k) m \<Longrightarrow> j \<le> k \<Longrightarrow> (\<And>a. triple (G k) (f a) Q (\<lambda>_. G j)) \<Longrightarrow>
   triple (G k) (bindC m f) Q (\<lambda>_. G j)"
  by (rule triple_bind[where B = "\<lambda>_. G k"], erule triple_preserves_weaken) (auto intro: mono)

lemma family_then:
  "preserves (G k) m \<Longrightarrow> j \<le> k \<Longrightarrow> triple (G k) l Q (\<lambda>_. G j) \<Longrightarrow> triple (G k) (thenC m l) Q (\<lambda>_. G j)"
  unfolding thenC_def by (rule family_bind)

lemma family_weaken:
  assumes "triple (G k) m (\<lambda>_. G j) (\<lambda>_. G j)" and "k \<le> k'" and "i \<le> j" and "i' \<le> j"
  shows "triple (G k') m (\<lambda>_. G i) (\<lambda>_. G i')"
  by (rule tripleI) (use assms(2-) triple_Inr[OF assms(1)] triple_Inl[OF assms(1)] in \<open>blast intro: mono\<close>)+

lemmas kept = accept_call clock stat observation backoff signals ready endpoint closing draining deadlines
  timeout maintenance warning

lemma triple_accept_loop:
  "triple (G (attempts + k)) (accept_loop env fuel attempts)
    (\<lambda>_. G k) (\<lambda>_. G k)"
proof (induction fuel attempts rule: budget_fuel_induct)
  case (1 fuel attempts)
  show ?case
  proof (cases attempts)
    case 0
    then show ?thesis by (subst accept_loop.simps) (auto intro!: family_leaf preserves_return)
  next
    case (Suc a)
    have again: "triple (G (attempts + k)) (accept_loop env fuel (attempts - 1))
        (\<lambda>_. G k) (\<lambda>_. G k)"
    proof -
      have "attempts - 1 = a" using Suc by simp
      then show ?thesis
        using triple_pre[OF 1(1)[of a fuel], of "G (attempts + k)"] Suc by (simp add: mono)
    qed
    have retry: "triple (G (attempts + k))
        (case fuel of 0 \<Rightarrow> throwC OutOfFuel | Suc n \<Rightarrow> accept_loop env n attempts)
        (\<lambda>_. G k) (\<lambda>_. G k)"
      using 1(2) by (cases fuel) (auto intro!: family_leaf preserves_throw)
    have one: "triple (G (attempts + k))
        (thenC (acceptClient env front) (accept_loop env fuel (attempts - 1)))
        (\<lambda>_. G k) (\<lambda>_. G k)" for front
    proof (rule triple_then)
      show "triple (G (attempts + k)) (acceptClient env front)
          (\<lambda>_. G (a + k)) (\<lambda>_. G k)"
        by (rule family_weaken[OF accept[of "a + k"]]) (simp_all add: Suc)
      show "triple (G (a + k)) (accept_loop env fuel (attempts - 1))
        (\<lambda>_. G k) (\<lambda>_. G k)"
        using 1(1)[of a fuel] Suc by simp
    qed
    show ?thesis
      by (subst accept_loop.simps)
         (intro triple_if triple_case_sum family_bind family_then preserves_get kept again retry one
            family_leaf preserves_return preserves_throw; (simp; fail)?)
  qed
qed

lemma triple_dispatchReady:
  "triple (G (64 + k)) (dispatchReadyEvent env draining token events)
    (\<lambda>_. G k) (\<lambda>_. G k)"
  unfolding dispatchReadyEvent_def whenC_def acceptClientSessions_def
  by (intro triple_if family_bind kept preserves_get triple_accept_loop family_leaf preserves_return preserves_throw;
      (simp; fail)?)

lemma triple_dispatchEvents:
  "triple (G (64 * length es + k)) (dispatchTcpReadyEvents env es)
    (\<lambda>_. G k) (\<lambda>_. G k)"
proof (induction es)
  case Nil
  show ?case by (simp add: family_leaf preserves_return)
next
  case (Cons e es)
  obtain token events where e: "e = (token, events)" by (cases e)
  let ?k = "64 * length es + k"
  have one: "triple (G (64 + ?k)) (thenC (dispatchReadyEvent env d token events)
      (dispatchTcpReadyEvents env es)) (\<lambda>_. G k) (\<lambda>_. G k)" for d
  proof (rule triple_then[OF _ Cons.IH])
    show "triple (G (64 + ?k)) (dispatchReadyEvent env d token events)
        (\<lambda>_. G ?k) (\<lambda>_. G k)"
      by (rule family_weaken[OF triple_dispatchReady[where k = ?k]]) simp_all
  qed
  have "triple (G (64 + ?k)) (dispatchTcpReadyEvents env (e # es))
      (\<lambda>_. G k) (\<lambda>_. G k)"
    unfolding e dispatchTcpReadyEvents.simps case_prod_unfold
    by (intro family_then family_bind triple_if kept preserves_get one family_leaf preserves_return; (simp; fail)?)
  then show ?case by (simp add: add.assoc)
qed

lemma triple_tcp_loop:
  assumes batch: "\<And>timeout w es w'. te_epollWait env timeout w = (Inr es, w') \<Longrightarrow> length es \<le> 128"
  shows "triple (G (8192 * fuel + k)) (tcp_loop env fuel)
    (\<lambda>_. G k) (\<lambda>_. G k)"
proof (induction fuel)
  case 0
  show ?case by (simp add: family_leaf preserves_throw)
next
  case (Suc fuel)
  let ?n = "8192 * fuel + k"
  let ?m = "8192 + ?n"
  have again: "triple (G ?m) (tcp_loop env fuel)
      (\<lambda>_. G k) (\<lambda>_. G k)"
    by (rule triple_pre[OF Suc.IH]) (auto intro: mono)
  have dispatch: "triple (G ?m) (thenC (dispatchTcpReadyEvents env es) (tcp_loop env fuel))
      (\<lambda>_. G k) (\<lambda>_. G k)" if "length es \<le> 128" for es
  proof (rule triple_then[OF _ Suc.IH])
    show "triple (G ?m) (dispatchTcpReadyEvents env es)
        (\<lambda>_. G ?n) (\<lambda>_. G k)"
      by (rule family_weaken[OF triple_dispatchEvents[where k = ?n]]) (use that in simp_all)
  qed
  have wait: "triple (G ?m) (bindC (sysR (te_epollWait env timeout)) f)
      (\<lambda>_. G k) (\<lambda>_. G k)"
    if "\<And>r. (\<And>es. r = Inr es \<Longrightarrow> length es \<le> 128) \<Longrightarrow>
      triple (G ?m) (f r) (\<lambda>_. G k) (\<lambda>_. G k)"
    for timeout and f :: "errno + (u64 \<times> u32) list \<Rightarrow> ('w TcpReactor, int) comp"
  proof (rule triple_bind[where B = "\<lambda>r s. G ?m s \<and> (\<forall>es. r = Inr es \<longrightarrow> length es \<le> 128)"])
    show "triple (G ?m) (sysR (te_epollWait env timeout))
        (\<lambda>r s. G ?m s \<and> (\<forall>es. r = Inr es \<longrightarrow> length es \<le> 128)) (\<lambda>_. G k)"
      by (rule tripleI) (auto intro: wait_call dest: batch)
  qed (use that in \<open>auto simp: triple_def\<close>)
  have "triple (G ?m) (tcp_loop env (Suc fuel))
      (\<lambda>_. G k) (\<lambda>_. G k)"
    unfolding tcp_loop.simps case_prod_unfold
    by (intro wait triple_if triple_case_sum again dispatch family_then family_bind kept preserves_rules family_leaf;
        (simp; fail)?)
  then show ?case by (simp add: add.assoc)
qed

lemma triple_event_loop:
  assumes "\<And>timeout w es w'. te_epollWait env timeout w = (Inr es, w') \<Longrightarrow> length es \<le> 128"
  shows "triple (G (8192 * fuel)) (runTcpEventLoop env fuel) (\<lambda>_. G 0) (\<lambda>_. G 0)"
  using family_then[OF ready le0 triple_tcp_loop[OF assms, where k = 0]] by (simp add: runTcpEventLoop_def)

end

text \<open>The sessions of the reactor are such a family.\<close>

interpretation good_family: tcp_family env "sessions_good env s0" for env s0
  by unfold_locales
    (auto intro: good_mono triple_acceptClient calm_rules calm_good stable_good preserves_acceptBackoff preserves_consume
      preserves_dispatchEndpointEvent preserves_closeAllSessions preserves_advanceStopDrain preserves_deadlines
      preserves_poll_timeout preserves_maintain calm_flags unworldlyD[OF unworldly_good])

end
