(* ===== verification/TcpRelay.thy ===== *)
theory TcpRelay
  imports TcpSessions
begin

text \<open>
  What one pass of input and output does to the byte streams of a session: in each direction
  the bytes sent are the bytes received, in order, none lost, none invented, none twice. The
  observers \<open>rx\<close> and \<open>tx\<close> tell what has been received from and sent to a socket so far.
\<close>

section \<open>Laws of the sockets\<close>

definition quiet :: "('w \<Rightarrow> nat option \<Rightarrow> u8 list) \<Rightarrow> ('w \<Rightarrow> nat option \<Rightarrow> u8 list) \<Rightarrow> ('w \<Rightarrow> 'a \<times> 'w) \<Rightarrow> bool" where
  "quiet rx tx f \<longleftrightarrow> (\<forall>w a w'. f w = (a, w') \<longrightarrow> rx w' = rx w \<and> tx w' = tx w)"

definition quiet_callback where
  "quiet_callback rx tx callback \<longleftrightarrow> (\<forall>f x. callback = Some f \<longrightarrow> quiet rx tx (f x))"

definition stream_laws ::
  "'w tcp_env \<Rightarrow> ('w \<Rightarrow> nat option \<Rightarrow> u8 list) \<Rightarrow> ('w \<Rightarrow> nat option \<Rightarrow> u8 list) \<Rightarrow> bool" where
  "stream_laws env rx tx \<longleftrightarrow>
     (\<forall>fd n w d w'. te_recv env fd n w = (Inr d, w') \<longrightarrow>
        length d \<le> n \<and> rx w' = (rx w)(fd := rx w fd @ d) \<and> tx w' = tx w) \<and>
     (\<forall>fd n w e w'. te_recv env fd n w = (Inl e, w') \<longrightarrow> rx w' = rx w \<and> tx w' = tx w) \<and>
     (\<forall>fd d w k w'. te_send env fd d w = (Inr k, w') \<longrightarrow>
        k \<le> length d \<and> tx w' = (tx w)(fd := tx w fd @ take k d) \<and> rx w' = rx w) \<and>
     (\<forall>fd d w e w'. te_send env fd d w = (Inl e, w') \<longrightarrow> rx w' = rx w \<and> tx w' = tx w) \<and>
     quiet rx tx (te_now env) \<and> quiet rx tx (te_signalRead env) \<and> (\<forall>fd. quiet rx tx (te_shutdown env fd)) \<and>
     (\<forall>op fd token bits. quiet rx tx (te_epollCtl env op fd token bits)) \<and>
     (\<forall>n w. rx (te_close env n w) = rx w \<and> tx (te_close env n w) = tx w) \<and>
     quiet_callback rx tx (te_statistics env) \<and> quiet_callback rx tx (te_observation env) \<and>
     quiet_callback rx tx (te_stopping env) \<and>
     (\<forall>f what e. te_diagnostic env = Some f \<longrightarrow> quiet rx tx (f what e))"

section \<open>The relation of a pass\<close>

definition relayed_direction ::
  "('w \<Rightarrow> nat option \<Rightarrow> u8 list) \<Rightarrow> ('w \<Rightarrow> nat option \<Rightarrow> u8 list) \<Rightarrow> 'w \<Rightarrow> 'w \<Rightarrow> Session \<Rightarrow> Session \<Rightarrow> nat \<Rightarrow> bool" where
  "relayed_direction rx tx w0 w ss0 ss source \<longleftrightarrow>
     (\<exists>received sent.
        rx w (es_fd (at2 (ss_ends ss0) source)) = rx w0 (es_fd (at2 (ss_ends ss0) source)) @ received \<and>
        tx w (es_fd (at2 (ss_ends ss0) (1 - source))) = tx w0 (es_fd (at2 (ss_ends ss0) (1 - source))) @ sent \<and>
        ring_contents (at2 (ss_pending ss0) source) @ received = sent @ ring_contents (at2 (ss_pending ss) source))"

definition relayed ::
  "('w \<Rightarrow> nat option \<Rightarrow> u8 list) \<Rightarrow> ('w \<Rightarrow> nat option \<Rightarrow> u8 list) \<Rightarrow> 'w \<Rightarrow> u64 \<Rightarrow> Session \<Rightarrow> 'w TcpReactor \<Rightarrow> bool" where
  "relayed rx tx w0 sid ss0 s \<longleftrightarrow> (\<exists>ss. map_of (tr_sessions s) sid = Some ss \<and> buffers_ok ss \<and>
     (\<forall>i < 2. es_fd (at2 (ss_ends ss) i) = es_fd (at2 (ss_ends ss0) i)) \<and>
     (\<forall>i < 2. relayed_direction rx tx w0 (tr_world s) ss0 ss i))"

lemma relayed_start:
  "map_of (tr_sessions s) sid = Some ss \<Longrightarrow> buffers_ok ss \<Longrightarrow> relayed rx tx (tr_world s) sid ss s"
  by (auto simp: relayed_def relayed_direction_def)

text \<open>What a predicate has to bear for the calls around the relay.\<close>

definition hushed ::
  "('w \<Rightarrow> nat option \<Rightarrow> u8 list) \<Rightarrow> ('w \<Rightarrow> nat option \<Rightarrow> u8 list) \<Rightarrow> ('w TcpReactor \<Rightarrow> bool) \<Rightarrow> bool" where
  "hushed rx tx P \<longleftrightarrow> (\<forall>s. P s \<longrightarrow>
     (\<forall>w. rx w = rx (tr_world s) \<longrightarrow> tx w = tx (tr_world s) \<longrightarrow> P (s\<lparr>tr_world := w\<rparr>)) \<and>
     P (s\<lparr>tr_draining := True\<rparr>) \<and> (\<forall>d. P (s\<lparr>tr_drainDeadline := d\<rparr>)) \<and>
     P (s\<lparr>tr_listenerFd := None, tr_listenerDeferred := False\<rparr>) \<and>
     (\<forall>r. P (s\<lparr>tr_stopRequested := True, tr_stopReason := r\<rparr>)))"

lemma hushed_relayed: "hushed rx tx (relayed rx tx w0 sid ss0)"
  by (simp add: hushed_def relayed_def relayed_direction_def)

lemma hushed_flags:
  assumes "hushed rx tx P"
  shows "preserves P (modifyC (\<lambda>s. s\<lparr>tr_draining := True\<rparr>))"
    and "preserves P (modifyC (\<lambda>s. s\<lparr>tr_drainDeadline := d\<rparr>))"
    and "preserves P (modifyC (\<lambda>s. s\<lparr>tr_listenerFd := None, tr_listenerDeferred := False\<rparr>))"
    and "preserves P (modifyC (\<lambda>s. s\<lparr>tr_stopRequested := True, tr_stopReason := r\<rparr>))"
  using assms by (simp_all add: hushed_def preserves_modify)

lemma hushed_sysR: "hushed rx tx P \<Longrightarrow> quiet rx tx f \<Longrightarrow> preserves P (sysR f)"
  by (rule preservesI) (auto simp: hushed_def quiet_def)

lemma hushed_callbackR:
  assumes "hushed rx tx P" and "\<And>f. c = Some f \<Longrightarrow> quiet rx tx f"
  shows "preserves P (callbackR c)"
  unfolding callbackR_def by (intro preserves_rules hushed_sysR[OF assms(1)] assms(2))

lemma hushed_calls:
  assumes "hushed rx tx P" and laws: "stream_laws env rx tx"
  shows "preserves P (reportStatEvent env kind amount)" and "preserves P (reportObservation env k sid side v)"
    and "preserves P (diagnosticR env what e)" and "preserves P (sysR (te_now env))"
    and "preserves P (sysR (te_signalRead env))" and "preserves P (sysR (te_shutdown env fd))"
    and "preserves P (sysR (te_epollCtl env op fd token bits))" and "preserves P (closeFdR env fd)"
    and "preserves P (callbackR (map_option (\<lambda>f. f event) (te_stopping env)))"
proof -
  note sys = hushed_sysR[OF assms(1)] hushed_callbackR[OF assms(1)]
  show "preserves P (sysR (te_now env))" "preserves P (sysR (te_signalRead env))"
    "preserves P (sysR (te_shutdown env fd))" "preserves P (sysR (te_epollCtl env op fd token bits))"
    by (rule sys(1), use laws in \<open>simp add: stream_laws_def\<close>)+
  show "preserves P (reportStatEvent env kind amount)" "preserves P (diagnosticR env what e)"
    "preserves P (callbackR (map_option (\<lambda>f. f event) (te_stopping env)))"
    unfolding reportStatEvent_def diagnosticR_def
    by (rule sys(2), use laws in \<open>auto simp: stream_laws_def quiet_callback_def\<close>)+
  show "preserves P (reportObservation env k sid side v)"
    unfolding reportObservation_def case_prod_unfold
    by (intro preserves_rules sys(2)) (use laws in \<open>auto simp: stream_laws_def quiet_callback_def\<close>)
  show "preserves P (closeFdR env fd)"
    unfolding closeFdR_def actR_def
    by (intro preserves_rules preserves_modify)
       (use assms in \<open>auto simp: hushed_def stream_laws_def\<close>)
qed

lemma hushed_signal_loop:
  assumes "hushed rx tx P" and "stream_laws env rx tx"
  shows "preserves P (signal_loop env fuel)"
proof (induction fuel)
  case 0
  show ?case by (simp add: preserves_throw)
next
  case (Suc n)
  note calls = hushed_calls[OF assms] hushed_flags[OF assms(1)]
  show ?case
    unfolding signal_loop.simps beginDrain_def case_prod_unfold by (intro preserves_rules calls Suc)
qed

lemma hushed_consume:
  assumes "hushed rx tx P" and "stream_laws env rx tx"
  shows "preserves P (consumeStopSignals env)"
proof -
  note calls = hushed_calls[OF assms] hushed_flags[OF assms(1)] hushed_signal_loop[OF assms]
  show ?thesis
    unfolding consumeStopSignals_def case_prod_unfold by (intro preserves_rules calls)
qed

lemma hushed_shutdown_loop:
  assumes "hushed rx tx P" and "stream_laws env rx tx"
  shows "preserves P (shutdown_loop env fuel fd)"
proof (induction fuel)
  case 0
  note calls = hushed_calls[OF assms] hushed_consume[OF assms]
  show ?case by (subst shutdown_loop.simps) (intro preserves_rules calls, simp_all add: preserves_throw)
next
  case (Suc n)
  note calls = hushed_calls[OF assms] hushed_consume[OF assms]
  show ?case by (subst shutdown_loop.simps) (intro preserves_rules calls, use Suc in auto)
qed

text \<open>Changes of the session that touch neither its sockets nor its buffers.\<close>

lemma relayed_modSession:
  assumes "\<And>ss. ss_pending (f ss) = ss_pending ss \<and> (\<forall>i < 2. es_fd (at2 (ss_ends (f ss)) i) = es_fd (at2 (ss_ends ss) i))"
  shows "preserves (relayed rx tx w0 sid ss0) (modSession sid f)"
  unfolding modSession_def
  using assms by (intro preserves_modify) (auto simp: relayed_def relayed_direction_def map_of_map_entry_if buffers_ok_def)

lemma relayed_modEnd:
  assumes "\<And>e. es_fd (f e) = es_fd e"
  shows "preserves (relayed rx tx w0 sid ss0) (modEnd sid side f)"
  unfolding modEnd_def
  by (rule relayed_modSession) (auto simp: put2_def at2_def assms)

section \<open>One send and one receive\<close>

text \<open>The state a pending change of the session will lead to is already relayed.\<close>

definition relayed_after ::
  "('w \<Rightarrow> nat option \<Rightarrow> u8 list) \<Rightarrow> ('w \<Rightarrow> nat option \<Rightarrow> u8 list) \<Rightarrow> 'w \<Rightarrow> u64 \<Rightarrow> Session \<Rightarrow>
   (Session \<Rightarrow> Session) \<Rightarrow> 'w TcpReactor \<Rightarrow> bool" where
  "relayed_after rx tx w0 sid ss0 f s \<longleftrightarrow>
     relayed rx tx w0 sid ss0 (s\<lparr>tr_sessions := AList.map_entry sid f (tr_sessions s)\<rparr>)"

lemma hushed_relayed_after: "hushed rx tx (relayed_after rx tx w0 sid ss0 f)"
  by (simp add: hushed_def relayed_after_def relayed_def relayed_direction_def)

lemma two_sides: "(\<forall>i < (2 :: nat). Q i) \<longleftrightarrow> Q 0 \<and> Q 1"
  by (auto simp: less_2_cases_iff)

lemma send_step:
  assumes laws: "stream_laws env rx tx" and R: "relayed rx tx w0 sid ss0 s"
    and ss: "map_of (tr_sessions s) sid = Some ss" and source: "source < 2"
    and fds: "es_fd (at2 (ss_ends ss0) 0) \<noteq> es_fd (at2 (ss_ends ss0) 1)"
    and n: "n \<le> readableBytes (at2 (ss_pending ss) source)"
    and send: "te_send env (es_fd (at2 (ss_ends ss) (1 - source))) (buffer_data (at2 (ss_pending ss) source) n) (tr_world s)
      = (Inr k, w)"
    and rest: "consumeReadableBytes k (at2 (ss_pending ss) source) = Inr rest"
  shows "relayed_after rx tx w0 sid ss0
    (\<lambda>x. x\<lparr>ss_pending := put2 source rest (ss_pending x), ss_sent := g x\<rparr>) (s\<lparr>tr_world := w\<rparr>)"
proof -
  let ?b = "at2 (ss_pending ss) source" and ?fd = "\<lambda>i. es_fd (at2 (ss_ends ss0) i)"
  have ok: "buffers_ok ss" using R ss by (auto simp: relayed_def)
  have fd: "es_fd (at2 (ss_ends ss) i) = ?fd i" and dir: "relayed_direction rx tx w0 (tr_world s) ss0 ss i" if "i < 2" for i
    using that R ss by (auto simp: relayed_def)
  note inv = buffers_ok_at2[OF ok, of source]
  have data: "buffer_data ?b n = take n (ring_contents ?b)" by (rule ring.front_take[OF inv n])
  have rest': "buffer_inv rest" "ring_contents rest = drop k (ring_contents ?b)"
    using ring.drain_Inr[OF inv rest] by auto
  have tgt: "es_fd (at2 (ss_ends ss) (1 - source)) = ?fd (1 - source)" using fd source by auto
  have k: "k \<le> length (buffer_data ?b n)" and rxw: "rx w = rx (tr_world s)"
    and txw: "tx w = (tx (tr_world s))(?fd (1 - source) := tx (tr_world s) (?fd (1 - source)) @ take k (buffer_data ?b n))"
    using laws send tgt unfolding stream_laws_def by metis+
  have took: "take k (buffer_data ?b n) = take k (ring_contents ?b)" using k by (simp add: data)
  have "relayed_direction rx tx w0 w ss0 (ss\<lparr>ss_pending := put2 source rest (ss_pending ss), ss_sent := g ss\<rparr>) i"
    if i: "i < 2" for i
  proof (cases "i = source")
    case True
    from dir[OF source] obtain received sent where
      "rx (tr_world s) (?fd source) = rx w0 (?fd source) @ received"
      "tx (tr_world s) (?fd (1 - source)) = tx w0 (?fd (1 - source)) @ sent"
      "ring_contents (at2 (ss_pending ss0) source) @ received = sent @ ring_contents ?b"
      unfolding relayed_direction_def by blast
    with True source show ?thesis
      unfolding relayed_direction_def rxw txw took
      by (intro exI[of _ received] exI[of _ "sent @ take k (ring_contents ?b)"]) (simp add: at2_put2 rest')
  next
    case False
    then have "?fd (1 - i) \<noteq> ?fd (1 - source)" "at2 (put2 source rest (ss_pending ss)) i = at2 (ss_pending ss) i"
      using fds i source by (auto simp: less_2_cases_iff at2_put2)
    with dir[OF i] show ?thesis unfolding relayed_direction_def rxw txw by simp
  qed
  moreover have "buffers_ok (ss\<lparr>ss_pending := put2 source rest (ss_pending ss), ss_sent := g ss\<rparr>)"
    using ok rest'(1) by (simp add: buffers_ok_def put2_def)
  ultimately show ?thesis
    using ss fd by (auto simp: relayed_after_def relayed_def map_of_map_entry_if)
qed

lemma recv_step:
  assumes laws: "stream_laws env rx tx" and R: "relayed rx tx w0 sid ss0 s"
    and ss: "map_of (tr_sessions s) sid = Some ss" and source: "source < 2"
    and fds: "es_fd (at2 (ss_ends ss0) 0) \<noteq> es_fd (at2 (ss_ends ss0) 1)"
    and recv: "te_recv env (es_fd (at2 (ss_ends ss) source)) n (tr_world s) = (Inr d, w)"
    and filled: "receive_into d (at2 (ss_pending ss) source) = Inr filled"
  shows "relayed_after rx tx w0 sid ss0 (\<lambda>x. x\<lparr>ss_pending := put2 source filled (ss_pending x)\<rparr>) (s\<lparr>tr_world := w\<rparr>)"
proof -
  let ?b = "at2 (ss_pending ss) source" and ?fd = "\<lambda>i. es_fd (at2 (ss_ends ss0) i)"
  have ok: "buffers_ok ss" using R ss by (auto simp: relayed_def)
  have fd: "es_fd (at2 (ss_ends ss) i) = ?fd i" and dir: "relayed_direction rx tx w0 (tr_world s) ss0 ss i" if "i < 2" for i
    using that R ss by (auto simp: relayed_def)
  note inv = buffers_ok_at2[OF ok, of source]
  have new: "buffer_inv filled" "ring_contents filled = ring_contents ?b @ d" using ring.fill_Inr[OF inv filled] by auto
  have txw: "tx w = tx (tr_world s)"
    and rxw: "rx w = (rx (tr_world s))(?fd source := rx (tr_world s) (?fd source) @ d)"
    using laws recv fd[OF source] unfolding stream_laws_def by metis+
  have "relayed_direction rx tx w0 w ss0 (ss\<lparr>ss_pending := put2 source filled (ss_pending ss)\<rparr>) i" if i: "i < 2" for i
  proof (cases "i = source")
    case True
    from dir[OF source] obtain received sent where
      "rx (tr_world s) (?fd source) = rx w0 (?fd source) @ received"
      "tx (tr_world s) (?fd (1 - source)) = tx w0 (?fd (1 - source)) @ sent"
      "ring_contents (at2 (ss_pending ss0) source) @ received = sent @ ring_contents ?b"
      unfolding relayed_direction_def by blast
    with True source show ?thesis
      unfolding relayed_direction_def rxw txw
      by (intro exI[of _ "received @ d"] exI[of _ sent]) (simp add: at2_put2 new flip: append_assoc)
  next
    case False
    then have "?fd i \<noteq> ?fd source" "at2 (put2 source filled (ss_pending ss)) i = at2 (ss_pending ss) i"
      using fds i source by (auto simp: less_2_cases_iff at2_put2)
    with dir[OF i] show ?thesis unfolding relayed_direction_def rxw txw by simp
  qed
  moreover have "buffers_ok (ss\<lparr>ss_pending := put2 source filled (ss_pending ss)\<rparr>)"
    using ok new(1) by (simp add: buffers_ok_def put2_def)
  ultimately show ?thesis
    using ss fd by (auto simp: relayed_after_def relayed_def map_of_map_entry_if)
qed

section \<open>The loops\<close>

lemma triple_quiet_then:
  "preserves P m \<Longrightarrow> triple P k Q (\<lambda>_ _. True) \<Longrightarrow> triple P (thenC m k) Q (\<lambda>_ _. True)"
  by (rule triple_then[where B = P], erule triple_preserves_weaken) auto

lemma triple_quiet_bind:
  "preserves P m \<Longrightarrow> (\<And>a. triple P (f a) Q (\<lambda>_ _. True)) \<Longrightarrow> triple P (bindC m f) Q (\<lambda>_ _. True)"
  by (rule triple_bind[where B = "\<lambda>_. P"], erule triple_preserves_weaken) auto

lemma triple_quiet_leaf: "preserves P m \<Longrightarrow> triple P m (\<lambda>_. P) (\<lambda>_ _. True)"
  by (erule triple_preserves_weaken) auto

lemma triple_theSession_bind:
  assumes "\<And>ss. triple (\<lambda>s. P s \<and> map_of (tr_sessions s) sid = Some ss) (k ss) Q (\<lambda>_ _. True)"
  shows "triple P (bindC (theSession sid) k) Q (\<lambda>_ _. True)"
  unfolding theSession_def
  by (rule triple_bind[where B = "\<lambda>ss s. P s \<and> map_of (tr_sessions s) sid = Some ss"])
     (use assms in \<open>auto intro!: tripleI simp: run_simps split: option.splits\<close>)

lemma triple_case_nat [triple_rules]:
  "(n = 0 \<Longrightarrow> triple P m Q E) \<Longrightarrow> (\<And>k. n = Suc k \<Longrightarrow> triple P (f k) Q E) \<Longrightarrow>
   triple P (case n of 0 \<Rightarrow> m | Suc k \<Rightarrow> f k) Q E"
  by (cases n) auto

lemma triple_throw_any: "triple P (throwC e) Q (\<lambda>_ _. True)"
  by (auto intro!: tripleI)

lemma hushed_world:
  "hushed rx tx P \<Longrightarrow> P s \<Longrightarrow> rx w = rx (tr_world s) \<Longrightarrow> tx w = tx (tr_world s) \<Longrightarrow> P (s\<lparr>tr_world := w\<rparr>)"
  by (simp add: hushed_def)

lemma triple_sysR_step:
  assumes "\<And>s r w. P s \<Longrightarrow> g (tr_world s) = (r, w) \<Longrightarrow> B r (s\<lparr>tr_world := w\<rparr>)"
    and "\<And>r. triple (B r) (f r) Q (\<lambda>_ _. True)"
  shows "triple P (bindC (sysR g) f) Q (\<lambda>_ _. True)"
  by (rule triple_bind[where B = B], rule tripleI) (auto intro: assms)

lemma triple_commit:
  assumes "triple (relayed rx tx w0 sid ss0) k Q (\<lambda>_ _. True)"
  shows "triple (relayed_after rx tx w0 sid ss0 f) (thenC (modSession sid f) k) Q (\<lambda>_ _. True)"
  by (rule triple_then[OF _ assms]) (auto intro!: tripleI simp: modSession_def relayed_after_def)

text \<open>What is known after a send or a receive, before its result has been looked at.\<close>

definition after_call ::
  "('w TcpReactor \<Rightarrow> bool) \<Rightarrow> ('a \<Rightarrow> exn + TcpPendingBuffer) \<Rightarrow> (TcpPendingBuffer \<Rightarrow> 'a \<Rightarrow> 'w TcpReactor \<Rightarrow> bool) \<Rightarrow>
   errno + 'a \<Rightarrow> 'w TcpReactor \<Rightarrow> bool" where
  "after_call R change after r s \<longleftrightarrow>
     (case r of Inl _ \<Rightarrow> R s | Inr a \<Rightarrow> (\<forall>b. change a = Inr b \<longrightarrow> after b a s))"

lemma after_call_simps:
  "after_call R change after (Inl e) = R"
  "after_call R change after (Inr a) = (\<lambda>s. \<forall>b. change a = Inr b \<longrightarrow> after b a s)"
  by (rule ext, simp add: after_call_def)+

lemma triple_after_cases:
  "(\<And>e. triple R (f e) Q E) \<Longrightarrow> (\<And>a. triple (after_call R change after (Inr a)) (g a) Q E) \<Longrightarrow>
   triple (after_call R change after r) (case r of Inl e \<Rightarrow> f e | Inr a \<Rightarrow> g a) Q E"
  by (cases r) (auto simp: after_call_simps)

text \<open>A receive of nothing changes nothing.\<close>

definition after_recv ::
  "('w TcpReactor \<Rightarrow> bool) \<Rightarrow> (u8 list \<Rightarrow> exn + TcpPendingBuffer) \<Rightarrow>
   (TcpPendingBuffer \<Rightarrow> u8 list \<Rightarrow> 'w TcpReactor \<Rightarrow> bool) \<Rightarrow> errno + u8 list \<Rightarrow> 'w TcpReactor \<Rightarrow> bool" where
  "after_recv R change after r = (if r = Inr [] then R else after_call R change after r)"

lemma triple_recv_cases:
  "(\<And>e. triple R (f e) Q E) \<Longrightarrow> triple R m Q E \<Longrightarrow>
   (\<And>d. d \<noteq> [] \<Longrightarrow> triple (after_call R change after (Inr d)) (g d) Q E) \<Longrightarrow>
   triple (after_recv R change after r) (case r of Inl e \<Rightarrow> f e | Inr d \<Rightarrow> if d = [] then m else g d) Q E"
  by (cases r) (auto simp: after_recv_def after_call_simps)

lemma stream_quiet_errors:
  assumes "stream_laws env rx tx"
  shows "te_recv env fd n w = (Inl e, w') \<Longrightarrow> rx w' = rx w \<and> tx w' = tx w"
    and "te_send env fd d w = (Inl e, w') \<Longrightarrow> rx w' = rx w \<and> tx w' = tx w"
    and "te_recv env fd n w = (Inr [], w') \<Longrightarrow> rx w' = rx w \<and> tx w' = tx w"
proof -
  show "rx w' = rx w \<and> tx w' = tx w" if "te_recv env fd n w = (Inl e, w')"
    using assms that unfolding stream_laws_def by metis
  show "rx w' = rx w \<and> tx w' = tx w" if "te_send env fd d w = (Inl e, w')"
    using assms that unfolding stream_laws_def by metis
  show "rx w' = rx w \<and> tx w' = tx w" if "te_recv env fd n w = (Inr [], w')"
    using assms that unfolding stream_laws_def by (metis append_Nil2 fun_upd_triv)
qed

lemma triple_after_Inr:
  assumes "\<And>b. hushed rx tx (after b a)" and "\<And>P. hushed rx tx P \<Longrightarrow> preserves P m"
    and "\<And>b. change a = Inr b \<Longrightarrow> triple (after b a) (k b) Q (\<lambda>_ _. True)"
  shows "triple (after_call R change after (Inr a)) (thenC m (case change a of Inl e \<Rightarrow> throwC e | Inr b \<Rightarrow> k b))
    Q (\<lambda>_ _. True)"
proof (rule triple_quiet_then)
  have "hushed rx tx (\<lambda>s. \<forall>b. change a = Inr b \<longrightarrow> after b a s)"
    using assms(1) by (simp add: hushed_def)
  then show "preserves (after_call R change after (Inr a)) m"
    using assms(2) by (simp add: after_call_simps)
  show "triple (after_call R change after (Inr a)) (case change a of Inl e \<Rightarrow> throwC e | Inr b \<Rightarrow> k b) Q (\<lambda>_ _. True)"
    using assms(3) by (cases "change a") (auto simp: after_call_simps triple_throw_any)
qed

lemma hushed_when_obs:
  "stream_laws env rx tx \<Longrightarrow> hushed rx tx P \<Longrightarrow> preserves P (whenC c (reportObservation env k sid side v))"
  by (intro preserves_rules hushed_calls)

lemma relay_write_loop:
  assumes laws: "stream_laws env rx tx" and source: "source < 2"
    and fds: "es_fd (at2 (ss_ends ss0) 0) \<noteq> es_fd (at2 (ss_ends ss0) 1)"
  shows "triple (relayed rx tx w0 sid ss0) (write_loop env fuel sid source budget)
    (\<lambda>_. relayed rx tx w0 sid ss0) (\<lambda>_ _. True)"
proof (induction fuel budget rule: budget_fuel_induct)
  case (1 fuel budget)
  let ?R = "relayed rx tx w0 sid ss0"
  let ?buffer = "\<lambda>ss. at2 (ss_pending ss) source"
  note calls = hushed_calls[OF hushed_relayed laws] hushed_consume[OF hushed_relayed laws] relayed_modSession
  define after where "after b k = relayed_after rx tx w0 sid ss0 (\<lambda>x. x\<lparr>ss_pending := put2 source b (ss_pending x),
    ss_sent := put2 source (at2 (ss_sent x) source + of_nat k) (ss_sent x)\<rparr>)" for b and k :: nat
  have send: "after_call ?R (\<lambda>k. consumeReadableBytes k (?buffer ss)) after r (s\<lparr>tr_world := w\<rparr>)"
    if s: "?R s \<and> map_of (tr_sessions s) sid = Some ss"
      and call: "te_send env (es_fd (at2 (ss_ends ss) (1 - source)))
        (buffer_data (?buffer ss) (min (readableBytes (?buffer ss)) budget)) (tr_world s) = (r, w)" for s ss r w
  proof (cases r)
    case (Inl e)
    with stream_quiet_errors[OF laws] call have "rx w = rx (tr_world s) \<and> tx w = tx (tr_world s)" by blast
    with Inl hushed_world[OF hushed_relayed[of rx tx w0 sid ss0], of s w] s show ?thesis by (simp add: after_call_def)
  next
    case (Inr k)
    with send_step[OF laws _ _ source fds _ call[unfolded Inr]] s show ?thesis
      by (simp add: after_call_def after_def)
  qed
  have step: "triple (\<lambda>s. ?R s \<and> map_of (tr_sessions s) sid = Some ss)
      (bindC (sysR (te_send env (es_fd (at2 (ss_ends ss) (1 - source)))
        (buffer_data (?buffer ss) (min (readableBytes (?buffer ss)) budget)))) f) (\<lambda>_. ?R) (\<lambda>_ _. True)"
    if "\<And>r. triple (after_call ?R (\<lambda>k. consumeReadableBytes k (?buffer ss)) after r) (f r) (\<lambda>_. ?R) (\<lambda>_ _. True)"
    for ss and f :: "errno + nat \<Rightarrow> ('a TcpReactor, nat) comp"
    by (rule triple_sysR_step[OF send that])
  have commit: "triple (after_call ?R (\<lambda>k. consumeReadableBytes k (?buffer ss)) after (Inr k))
      (thenC (whenC c (reportObservation env ''short-send'' sid (int source) v))
        (case consumeReadableBytes k (?buffer ss) of Inl e \<Rightarrow> throwC e
         | Inr rest \<Rightarrow> thenC (modSession sid (\<lambda>x. x\<lparr>ss_pending := put2 source rest (ss_pending x),
             ss_sent := put2 source (at2 (ss_sent x) source + of_nat k) (ss_sent x)\<rparr>)) m)) (\<lambda>_. ?R) (\<lambda>_ _. True)"
    if "triple ?R m (\<lambda>_. ?R) (\<lambda>_ _. True)" for ss k c v and m :: "('a TcpReactor, nat) comp"
    by (rule triple_after_Inr[where rx = rx and tx = tx])
       (auto simp: after_def intro: hushed_relayed_after hushed_when_obs[OF laws] triple_commit that)
  have again: "triple ?R (write_loop env fuel sid source (budget - k)) (\<lambda>_. ?R) (\<lambda>_ _. True)"
    if "k \<noteq> 0" "\<not> (c \<or> budget = 0)" for k c
    using that by (intro 1(1)) simp
  have retry: "triple ?R (write_loop env k sid source budget) (\<lambda>_. ?R) (\<lambda>_ _. True)" if "fuel = Suc k" for k
    using that by (intro 1(2)) simp
  have known: "triple (\<lambda>s. ?R s \<and> map_of (tr_sessions s) sid = Some ss) m Q (\<lambda>_ _. True)"
    if "triple ?R m Q (\<lambda>_ _. True)" for ss and m :: "('a TcpReactor, nat) comp" and Q
    by (rule triple_pre[OF that]) simp
  show ?case
    by (subst write_loop.simps, unfold Let_def, rule triple_theSession_bind, rule known)
       (intro triple_if step triple_theSession_bind triple_after_cases triple_case_nat triple_throw_any commit again retry
         triple_quiet_then triple_quiet_bind preserves_return calls preserves_get triple_quiet_leaf;
        (simp; fail)?)
qed

lemma relay_read_loop:
  assumes laws: "stream_laws env rx tx" and source: "source < 2"
    and fds: "es_fd (at2 (ss_ends ss0) 0) \<noteq> es_fd (at2 (ss_ends ss0) 1)"
  shows "triple (relayed rx tx w0 sid ss0) (read_loop env fuel sid source budget)
    (\<lambda>_. relayed rx tx w0 sid ss0) (\<lambda>_ _. True)"
proof (induction fuel budget rule: budget_fuel_induct)
  case (1 fuel budget)
  let ?R = "relayed rx tx w0 sid ss0"
  let ?buffer = "\<lambda>ss. at2 (ss_pending ss) source"
  note calls = hushed_calls[OF hushed_relayed laws] hushed_consume[OF hushed_relayed laws] relayed_modSession relayed_modEnd
  define after where "after b d = relayed_after rx tx w0 sid ss0 (\<lambda>x. x\<lparr>ss_pending := put2 source b (ss_pending x)\<rparr>)"
    for b and d :: "u8 list"
  have recv: "after_recv ?R (\<lambda>d. receive_into d (?buffer ss)) after r (s\<lparr>tr_world := w\<rparr>)"
    if s: "?R s \<and> map_of (tr_sessions s) sid = Some ss"
      and call: "te_recv env (es_fd (at2 (ss_ends ss) source)) n (tr_world s) = (r, w)" for s ss r w n
  proof (cases r)
    case (Inl e)
    with stream_quiet_errors[OF laws] call have "rx w = rx (tr_world s) \<and> tx w = tx (tr_world s)" by blast
    with Inl hushed_world[OF hushed_relayed[of rx tx w0 sid ss0], of s w] s show ?thesis by (simp add: after_recv_def after_call_def)
  next
    case (Inr d)
    show ?thesis
    proof (cases "d = []")
      case True
      with stream_quiet_errors(3)[OF laws] call Inr have "rx w = rx (tr_world s) \<and> tx w = tx (tr_world s)" by blast
      with True Inr hushed_world[OF hushed_relayed[of rx tx w0 sid ss0], of s w] s show ?thesis by (simp add: after_recv_def)
    next
      case False
      with recv_step[OF laws _ _ source fds call[unfolded Inr]] s Inr show ?thesis
        by (simp add: after_recv_def after_call_def after_def)
    qed
  qed
  have step: "triple (\<lambda>s. ?R s \<and> map_of (tr_sessions s) sid = Some ss)
      (bindC (sysR (te_recv env (es_fd (at2 (ss_ends ss) source)) n)) f) (\<lambda>_. ?R) (\<lambda>_ _. True)"
    if "\<And>r. triple (after_recv ?R (\<lambda>d. receive_into d (?buffer ss)) after r) (f r) (\<lambda>_. ?R) (\<lambda>_ _. True)"
    for ss n and f :: "errno + u8 list \<Rightarrow> ('a TcpReactor, unit) comp"
    by (rule triple_sysR_step[OF recv that])
  have commit: "triple (after_call ?R (\<lambda>d. receive_into d (?buffer ss)) after (Inr d))
      (case receive_into d (?buffer ss) of Inl e \<Rightarrow> throwC e
       | Inr b \<Rightarrow> thenC (modSession sid (\<lambda>x. x\<lparr>ss_pending := put2 source b (ss_pending x)\<rparr>)) (m b)) (\<lambda>_. ?R) (\<lambda>_ _. True)"
    if "\<And>b. triple ?R (m b) (\<lambda>_. ?R) (\<lambda>_ _. True)" for ss d and m :: "TcpPendingBuffer \<Rightarrow> ('a TcpReactor, unit) comp"
    by (cases "receive_into d (?buffer ss)")
       (auto simp: after_call_simps after_def triple_throw_any intro: triple_commit that)
  have again: "triple ?R (read_loop env fuel sid source (budget - length d)) (\<lambda>_. ?R) (\<lambda>_ _. True)"
    if "d \<noteq> []" "\<not> (c \<or> c' \<or> budget = 0)" for d :: "u8 list" and c c'
    using that by (intro 1(1)) simp
  have retry: "triple ?R (read_loop env k sid source budget) (\<lambda>_. ?R) (\<lambda>_ _. True)" if "fuel = Suc k" for k
    using that by (intro 1(2)) simp
  have known: "triple (\<lambda>s. ?R s \<and> map_of (tr_sessions s) sid = Some ss) m Q (\<lambda>_ _. True)"
    if "triple ?R m Q (\<lambda>_ _. True)" for ss and m :: "('a TcpReactor, unit) comp" and Q
    by (rule triple_pre[OF that]) simp
  show ?case
    by (subst read_loop.simps, unfold Let_def, rule triple_theSession_bind, rule known)
       (intro triple_if step known[OF triple_quiet_leaf[OF preserves_return]] triple_theSession_bind triple_recv_cases triple_case_nat triple_throw_any commit again retry
         triple_quiet_then triple_quiet_bind preserves_rules calls triple_quiet_leaf;
        (simp; fail)?)
qed

lemma relay_writeDirection:
  assumes laws: "stream_laws env rx tx" and source: "source < 2"
    and fds: "es_fd (at2 (ss_ends ss0) 0) \<noteq> es_fd (at2 (ss_ends ss0) 1)"
  shows "triple (relayed rx tx w0 sid ss0) (writeBufferedDirection env sid source budget)
    (\<lambda>_. relayed rx tx w0 sid ss0) (\<lambda>_ _. True)"
proof -
  have rest: "preserves (relayed rx tx w0 sid ss0) (bindC (theSession sid) (\<lambda>ss.
     bindC (getC tr_draining) (\<lambda>draining.
     thenC (whenC (\<not> draining \<and> es_paused (at2 (ss_ends ss) source) \<and> pb_size (at2 (ss_pending ss) source) \<le> kLowWater)
              (thenC (modEnd sid source (\<lambda>x. x\<lparr>es_paused := False\<rparr>))
                     (reportObservation env ''resume'' sid (int source) (of_nat (pb_size (at2 (ss_pending ss) source))))))
           (returnC left))))" for left
    by (intro preserves_rules preserves_theSession relayed_modEnd hushed_calls[OF hushed_relayed laws]) simp
  show ?thesis
    unfolding writeBufferedDirection_def Let_def
    by (rule triple_bind[OF relay_write_loop[OF assms]], rule triple_quiet_leaf, rule rest)
qed

lemma relay_shutdownTarget:
  assumes laws: "stream_laws env rx tx"
  shows "preserves (relayed rx tx w0 sid ss0) (shutdownTarget env sid side)"
  unfolding shutdownTarget_def
  by (intro preserves_rules preserves_theSession relayed_modEnd hushed_calls[OF hushed_relayed laws]
        hushed_shutdown_loop[OF hushed_relayed laws]) simp

lemma relay_advance:
  assumes laws: "stream_laws env rx tx"
    and fds: "es_fd (at2 (ss_ends ss0) 0) \<noteq> es_fd (at2 (ss_ends ss0) 1)"
  shows "triple (relayed rx tx w0 sid ss0) (advanceSessionIo env sid) (\<lambda>_. relayed rx tx w0 sid ss0) (\<lambda>_ _. True)"
proof -
  let ?R = "relayed rx tx w0 sid ss0"
  note w = relay_writeDirection[OF laws _ fds] and r = relay_read_loop[OF laws _ fds]
  have last: "triple ?R (bindC (getC tr_draining) (\<lambda>draining.
     if draining then
       bindC (theSession sid) (\<lambda>ss. returnC (pb_size (fst (ss_pending ss)) = 0 \<and> pb_size (snd (ss_pending ss)) = 0))
     else
     thenC (forC [0, 1] (shutdownTarget env sid))
    (bindC (theSession sid) (\<lambda>ss.
     returnC (es_eof (fst (ss_ends ss)) \<and> es_eof (snd (ss_ends ss)) \<and>
              es_shutdown (fst (ss_ends ss)) \<and> es_shutdown (snd (ss_ends ss))))))) (\<lambda>_. ?R) (\<lambda>_ _. True)"
    by (intro triple_quiet_leaf preserves_rules preserves_theSession relay_shutdownTarget[OF laws])
  show ?thesis
    unfolding advanceSessionIo_def readSessionDirection_def
    by (rule triple_bind[OF w], simp, rule triple_bind[OF w], simp,
        rule triple_then[OF r], simp, rule triple_then[OF r], simp,
        rule triple_then[OF w], simp, rule triple_then[OF w], simp, rule last)
qed

section \<open>Properties\<close>

text \<open>
  Claim C14. One pass of input and output over a session whose two sockets differ is a faithful
  relay: if it returns, then in each direction what was queued before, followed by what was
  received, is what was sent followed by what is queued now. So the bytes arrive in order,
  without loss, duplication or mixing of the directions, whatever the sizes of the partial
  sends and receives and wherever the rings wrap.
\<close>

theorem tcp_pass_relays_faithfully:
  assumes laws: "stream_laws env rx tx"
    and ss: "map_of (tr_sessions s) sid = Some ss" and ok: "buffers_ok ss"
    and fds: "es_fd (fst (ss_ends ss)) \<noteq> es_fd (snd (ss_ends ss))"
    and run: "advanceSessionIo env sid s = (Inr finished, t)"
  shows "\<exists>ss'. map_of (tr_sessions t) sid = Some ss' \<and> buffers_ok ss' \<and>
    relayed_direction rx tx (tr_world s) (tr_world t) ss ss' 0 \<and>
    relayed_direction rx tx (tr_world s) (tr_world t) ss ss' 1"
proof -
  have "triple (relayed rx tx (tr_world s) sid ss) (advanceSessionIo env sid)
      (\<lambda>_. relayed rx tx (tr_world s) sid ss) (\<lambda>_ _. True)"
    by (rule relay_advance[OF laws]) (use fds in \<open>simp add: at2_def\<close>)
  from triple_Inr[OF this relayed_start[OF ss ok] run] show ?thesis
    by (auto simp: relayed_def two_sides)
qed

text \<open>A small world for the witnesses: what was received and sent so far; nothing more arrives.\<close>

type_synonym demo_world = "(nat option \<Rightarrow> u8 list) \<times> (nat option \<Rightarrow> u8 list)"

definition demo_tcp_env :: "demo_world tcp_env" where
  "demo_tcp_env = \<lparr>te_maxSessions = 4, te_connectTimeout = ms 5000, te_idleTimeout = ms 60000,
     te_drainTimeout = ms 1000, te_fuel = 0, te_now = (\<lambda>w. (7, w)), te_order = (\<lambda>ks. ks), te_selector = None,
     te_maintenance = None, te_ready = Some (\<lambda>w. (None, w)), te_statistics = None, te_observation = None,
     te_stopping = None, te_session = None, te_diagnostic = None, te_sigmask = (\<lambda>w. (None, w)),
     te_sigrestore = (\<lambda>w. w), te_open = (\<lambda>_ w. (Inr 9, w)), te_setup = (\<lambda>_ w. (None, w)),
     te_epollCtl = (\<lambda>_ _ _ _ w. (None, w)), te_close = (\<lambda>_ w. w), te_accept = (\<lambda>_ w. (Inl EAGAIN, w)),
     te_connect = (\<lambda>_ _ w. (None, w)), te_socketError = (\<lambda>_ w. (Inr 0, w)),
     te_send = (\<lambda>fd d (r, t). (Inr (length d), (r, t(fd := t fd @ d)))),
     te_recv = (\<lambda>_ _ w. (Inl EAGAIN, w)), te_shutdown = (\<lambda>_ w. (None, w)),
     te_signalRead = (\<lambda>w. (Inl EAGAIN, w)), te_epollWait = (\<lambda>_ w. (Inr [], w))\<rparr>"

lemma demo_stream_laws: "stream_laws demo_tcp_env fst snd"
  by (auto simp: stream_laws_def demo_tcp_env_def quiet_def quiet_callback_def)

definition demo_buffer :: TcpPendingBuffer where
  "demo_buffer = \<lparr>pb_bytes = [1, 2, 3] @ replicate (kBufferLimit - 3) 0, pb_readOffset = 0, pb_size = 3\<rparr>"

definition demo_session :: Session where
  "demo_session = (newSession 1 \<lparr>ep_address = (10, 0, 1, 1), ep_port = 80\<rparr> 5 0)
     \<lparr>ss_ends := (newEndpointState (Some 5), newEndpointState (Some 6)),
      ss_pending := (demo_buffer, newPendingBuffer), ss_connecting := False\<rparr>"

definition demo_tcp_state :: "Session \<Rightarrow> demo_world \<Rightarrow> demo_world TcpReactor" where
  "demo_tcp_state ss w = (emptyTcpReactor w)\<lparr>tr_sessions := [(1, ss)], tr_nextSessionId := 2\<rparr>"

lemma kBufferLimit_3: "3 < kBufferLimit"
  by (simp add: kBufferLimit_def)

lemma demo_fields:
  "tr_world (demo_tcp_state ss w) = w" "tr_sessions (demo_tcp_state ss w) = [(1, ss)]"
  by (simp_all add: demo_tcp_state_def emptyTcpReactor_def)

lemma demo_consume: "consumeStopSignals demo_tcp_env (demo_tcp_state ss w) = (Inr False, demo_tcp_state ss w)"
  by (simp add: consumeStopSignals_def numeral_3_eq_3 demo_tcp_env_def demo_tcp_state_def emptyTcpReactor_def
      run_simps sysR_def bindC_def returnC_def getC_def)

definition demo_sent :: Session where
  "demo_sent = demo_session\<lparr>ss_pending := (demo_buffer\<lparr>pb_readOffset := 0, pb_size := 0\<rparr>, newPendingBuffer),
     ss_sent := (3, 0), ss_deadline := \<lparr>lastIoTime = 7\<rparr>\<rparr>"

lemma demo_steps:
  "theSession 1 (demo_tcp_state ss w) = (Inr ss, demo_tcp_state ss w)"
  "modSession 1 f (demo_tcp_state ss w) = (Inr (), demo_tcp_state (f ss) w)"
  "sysR (te_send demo_tcp_env fd d) (demo_tcp_state ss w) =
     (Inr (Inr (length d)), demo_tcp_state ss (fst w, (snd w)(fd := snd w fd @ d)))"
  "sysR (te_recv demo_tcp_env fd n) (demo_tcp_state ss w) = (Inr (Inl EAGAIN), demo_tcp_state ss w)"
  "sysR (te_now demo_tcp_env) (demo_tcp_state ss w) = (Inr 7, demo_tcp_state ss w)"
  "reportStatEvent demo_tcp_env kind v (demo_tcp_state ss w) = (Inr (), demo_tcp_state ss w)"
  "reportObservation demo_tcp_env k sid side v (demo_tcp_state ss w) = (Inr (), demo_tcp_state ss w)"
  "tr_stopRequested (demo_tcp_state ss w) = False" "tr_draining (demo_tcp_state ss w) = False"
  "te_fuel demo_tcp_env = 0"
  by (simp_all add: theSession_def modSession_def run_simps demo_tcp_state_def emptyTcpReactor_def returnC_def
      modifyC_def sysR_def demo_tcp_env_def reportStatEvent_def reportObservation_def callbackR_def split: prod.split)

lemmas demo_run = demo_steps demo_consume run_simps bindC_def thenC_def returnC_def getC_def whenC_def

lemma demo_idle_write:
  assumes "pb_size (at2 (ss_pending ss) source) = 0"
  shows "write_loop demo_tcp_env 0 1 source budget (demo_tcp_state ss w) = (Inr budget, demo_tcp_state ss w)"
  by (subst write_loop.simps) (simp add: demo_run assms)

lemma demo_write:
  "write_loop demo_tcp_env 0 1 0 kBufferLimit (demo_tcp_state demo_session w) =
    (Inr (kBufferLimit - 3), demo_tcp_state demo_sent (fst w, (snd w)(Some 6 := snd w (Some 6) @ [1, 2, 3])))"
proof -
  let ?w = "(fst w, (snd w)(Some 6 := snd w (Some 6) @ [1, 2, 3]))"
  have b: "min (readableBytes demo_buffer) kBufferLimit = 3" "buffer_data demo_buffer 3 = [1, 2, 3]"
    "consumeReadableBytes 3 demo_buffer = Inr (demo_buffer\<lparr>pb_readOffset := 0, pb_size := 0\<rparr>)"
    using kBufferLimit_3
    by (simp_all add: readableBytes_def demo_buffer_def buffer_data_def consumeReadableBytes_def numeral_3_eq_3)
  have ss: "at2 (ss_pending demo_session) 0 = demo_buffer" "pb_size demo_buffer = 3"
    "es_fd (at2 (ss_ends demo_session) (Suc 0)) = Some 6"
    "demo_session\<lparr>ss_pending := put2 0 (demo_buffer\<lparr>pb_readOffset := 0, pb_size := 0\<rparr>) (ss_pending demo_session),
       ss_sent := put2 0 (at2 (ss_sent demo_session) 0 + 3) (ss_sent demo_session),
       ss_deadline := recordIoProgress 7 3 (ss_deadline demo_session)\<rparr> = demo_sent"
    by (simp_all add: demo_session_def demo_buffer_def demo_sent_def newSession_def newEndpointState_def put2_def
        recordIoProgress_def)
  have "write_loop demo_tcp_env 0 1 0 kBufferLimit (demo_tcp_state demo_session w) =
      write_loop demo_tcp_env 0 1 0 (kBufferLimit - 3) (demo_tcp_state demo_sent ?w)"
    by (subst write_loop.simps) (simp add: demo_run b ss ss(4)[simplified] numeral_3_eq_3[symmetric] kBufferLimit_pos[THEN less_imp_neq, symmetric])
  also have "\<dots> = (Inr (kBufferLimit - 3), demo_tcp_state demo_sent ?w)"
    by (rule demo_idle_write) (simp add: demo_sent_def)
  finally show ?thesis .
qed

lemma demo_idle_read:
  "read_loop demo_tcp_env 0 1 source kBufferLimit (demo_tcp_state ss w) = (Inr (), demo_tcp_state ss w)"
  by (subst read_loop.simps) (simp add: demo_run Let_def)

lemma demo_write_direction:
  "writeBufferedDirection demo_tcp_env 1 0 kBufferLimit (demo_tcp_state demo_session w) =
    (Inr (kBufferLimit - 3), demo_tcp_state demo_sent (fst w, (snd w)(Some 6 := snd w (Some 6) @ [1, 2, 3])))"
  "pb_size (at2 (ss_pending ss) source) = 0 \<Longrightarrow> \<not> es_paused (at2 (ss_ends ss) source) \<Longrightarrow>
    writeBufferedDirection demo_tcp_env 1 source budget (demo_tcp_state ss w) = (Inr budget, demo_tcp_state ss w)"
  by (simp_all add: writeBufferedDirection_def demo_run demo_write demo_idle_write)
     (simp add: demo_sent_def demo_session_def newSession_def newEndpointState_def)

lemma demo_advance:
  "advanceSessionIo demo_tcp_env 1 (demo_tcp_state demo_session w) =
    (Inr False, demo_tcp_state demo_sent (fst w, (snd w)(Some 6 := snd w (Some 6) @ [1, 2, 3])))"
proof -
  have ss: "pb_size (at2 (ss_pending demo_sent) source) = 0" "\<not> es_paused (at2 (ss_ends demo_sent) source)"
    "\<not> es_eof (at2 (ss_ends demo_sent) source)" "\<not> es_eof (fst (ss_ends demo_sent))" for source
    by (simp_all add: demo_sent_def demo_session_def newSession_def newEndpointState_def newPendingBuffer_def at2_def)
  show ?thesis
    by (simp add: advanceSessionIo_def readSessionDirection_def shutdownTarget_def demo_run demo_write_direction
        demo_idle_read ss)
qed

theorem tcp_pass_relays_faithfully_witness:
  "\<exists>t ss'. advanceSessionIo demo_tcp_env 1 (demo_tcp_state demo_session (\<lambda>_. [], \<lambda>_. [])) = (Inr False, t) \<and>
     map_of (tr_sessions t) 1 = Some ss' \<and>
     relayed_direction fst snd (\<lambda>_. [], \<lambda>_. []) (tr_world t) demo_session ss' 0 \<and> snd (tr_world t) (Some 6) = [1, 2, 3]"
proof -
  have ok: "buffers_ok demo_session"
    using kBufferLimit_3 buffer_inv_new(1) by (simp add: buffers_ok_def demo_session_def demo_buffer_def) (simp add: buffer_inv_def)
  have fds: "es_fd (fst (ss_ends demo_session)) \<noteq> es_fd (snd (ss_ends demo_session))"
    by (simp add: demo_session_def newEndpointState_def)
  have ss: "map_of (tr_sessions (demo_tcp_state demo_session (\<lambda>_. [], \<lambda>_. []))) 1 = Some demo_session"
    by (simp add: demo_tcp_state_def)
  from tcp_pass_relays_faithfully[OF demo_stream_laws ss ok fds demo_advance]
  show ?thesis by (auto simp: demo_advance demo_fields)
qed

end
