(* ===== verification/TcpRuns.thy ===== *)
theory TcpRuns
  imports TcpRelay
begin

text \<open>
  Whole runs of the TCP reactor: the tables stay good through the event loop, nothing is left
  when a run ends, nobody is admitted once a stop has begun, and a pass of input and output
  ends whenever the system calls stop being interrupted.
\<close>

section \<open>Leaving nothing behind\<close>

lemma closeSession_shrinks:
  assumes "map_of (tr_sessions s) sid = Some ss" and "closeSession env sid reason error s = (r, t)"
  shows "length (tr_sessions t) < length (tr_sessions s)"
  by (rule closeSession_after_drop[OF _ _ assms(1) _ assms(2)])
     (simp_all add: calm_def unworldly_def length_delete_Some[OF assms(1)])

lemma closeSessionsLoop_empties:
  assumes order: "\<And>ks. set (te_order env ks) = set ks"
    and "length (tr_sessions s) \<le> fuel" and "closeSessionsLoop env reason fuel failure s = (r, t)"
  shows "tr_sessions t = [] \<and>
    ((\<forall>sid. avoids UNIV (closeSession env sid reason 0)) \<longrightarrow> failure = None \<longrightarrow> r = Inr ())"
  using assms(2,3)
proof (induction fuel arbitrary: s failure)
  case 0
  then have "te_order env [] = []" using order[of "[]"] by simp
  with 0 show ?case
    by (subst (asm) closeSessionsLoop.simps) (auto simp: run_simps rethrowC_def split: option.splits)
next
  case (Suc n)
  show ?case
  proof (cases "te_order env (map fst (tr_sessions s))")
    case Nil
    with order[of "map fst (tr_sessions s)"] have "tr_sessions s = []" by simp
    with Nil Suc.prems(2) show ?thesis
      by (subst (asm) closeSessionsLoop.simps) (auto simp: run_simps rethrowC_def split: option.splits)
  next
    case (Cons sid rest)
    with order[of "map fst (tr_sessions s)"] have "sid \<in> set (map fst (tr_sessions s))" by (metis list.set_intros(1))
    then obtain ss where ss: "map_of (tr_sessions s) sid = Some ss"
      by (metis map_of_eq_None_iff not_None_eq set_map)
    obtain u x where close: "attemptC (closeSession env sid reason 0) failure s = (x, u)" by fastforce
    with attemptC_Inr[OF close] closeSession_shrinks[OF ss] obtain f where
      u: "x = Inr f" "length (tr_sessions u) < length (tr_sessions s)" by blast
    from Suc.prems(2) Cons close u(1) have "closeSessionsLoop env reason n f u = (r, t)"
      by (subst (asm) closeSessionsLoop.simps) (simp add: run_simps bindC_run)
    moreover have "f = failure" if "\<forall>sid. avoids UNIV (closeSession env sid reason 0)"
      using gives_attempt[of "closeSession env sid reason 0" failure] that close u(1)
      unfolding gives_def by (metis fst_conv sum.inject(2))
    ultimately show ?thesis using Suc.IH[of u f] u(2) Suc.prems(1) by simp
  qed
qed

lemma closeAllSessions_empties:
  assumes "\<And>ks. set (te_order env ks) = set ks" and "closeAllSessions env reason s = (r, t)"
  shows "tr_sessions t = []" and "(\<And>sid. avoids UNIV (closeSession env sid reason 0)) \<Longrightarrow> r = Inr ()"
  using closeSessionsLoop_empties[OF assms(1), of s "length (tr_sessions s)" reason None r t] assms(2)
  by (simp_all add: closeAllSessions_def run_simps)

lemma tcp_inv_empty:
  assumes "tcp_inv env s" and "tr_sessions s = []"
  shows "et_entries (tr_tokens s) = []"
proof -
  have "findEndpoint token (tr_tokens s) = None" for token
    using assms unfolding tcp_inv_def by (cases "findEndpoint token (tr_tokens s)") auto
  then have "map_of (et_entries (tr_tokens s)) = Map.empty" by (intro ext) (simp add: findEndpoint_def)
  then show ?thesis by simp
qed

lemma preserves_constructTcp:
  assumes "calm env P" and "\<And>s m a b c. P s \<Longrightarrow> P (s\<lparr>tr_masked := m\<rparr>) \<and>
    P (s\<lparr>tr_signalFd := a, tr_epollFd := b, tr_listenerFd := c\<rparr>)"
  shows "preserves P (constructTcpReactor env)"
proof -
  have "preserves P (modifyC (\<lambda>s. s\<lparr>tr_masked := True\<rparr>))"
    "preserves P (modifyC (\<lambda>s. s\<lparr>tr_signalFd := a, tr_epollFd := b, tr_listenerFd := c\<rparr>))" for a b c
    by (rule preserves_modify, use assms(2) in blast)+
  then show ?thesis
    unfolding constructTcpReactor_def blockSignals_def required_fd_def setup_listener_def
    by (intro preserves_rules calm_rules assms(1))
qed

lemma good_empty: "k < 18446744073709551615 \<Longrightarrow> sessions_good env (emptyTcpReactor w) k (emptyTcpReactor w)"
  by (simp add: sessions_good_def tcp_inv_def owners_kept_def emptyTcpReactor_def tokens_inv_new)
     (simp add: newEndpointTokens_def findEndpoint_def)

lemma good_self: "tcp_inv env s \<Longrightarrow> unat (tr_nextSessionId s) + k < 18446744073709551616 \<Longrightarrow> sessions_good env s k s"
  by (simp add: sessions_good_def owners_kept_def)

lemma members_tables:
  "tr_sessions (destroyMembers env u) = tr_sessions u" "tr_tokens (destroyMembers env u) = tr_tokens u"
  "tr_nextSessionId (destroyMembers env u) = tr_nextSessionId u"
  "tr_listenerFd (destroyMembers env u) = None" "tr_epollFd (destroyMembers env u) = None"
  "tr_signalFd (destroyMembers env u) = None" "\<not> tr_masked (destroyMembers env u)"
  by (simp_all add: destroyMembers_def)

text \<open>What is left when the constructor has failed, and when it has not.\<close>

lemma constructed:
  assumes "k < 18446744073709551615" and "constructTcpReactor env (emptyTcpReactor w) = (r, u)"
  shows "sessions_good env (emptyTcpReactor w) k u" and "tr_sessions u = []"
proof -
  have "preserves (\<lambda>s. sessions_good env (emptyTcpReactor w) k s \<and> tr_sessions s = []) (constructTcpReactor env)"
    using calm_good[of env env "emptyTcpReactor w" k] by (intro preserves_constructTcp) (auto simp: calm_def elim: good_frame[rotated 3])
  moreover have "sessions_good env (emptyTcpReactor w) k (emptyTcpReactor w) \<and> tr_sessions (emptyTcpReactor w) = []"
    using good_empty[OF assms(1)] by (simp add: emptyTcpReactor_def)
  ultimately have "sessions_good env (emptyTcpReactor w) k u \<and> tr_sessions u = []"
    using assms(2) by (rule preservesD)
  then show "sessions_good env (emptyTcpReactor w) k u" "tr_sessions u = []" by blast+
qed

lemma destroyed:
  assumes "\<And>ks. set (te_order env ks) = set ks" and "sessions_good env s0 0 s"
  shows "tr_sessions (destroyTcpReactor env s) = [] \<and> et_entries (tr_tokens (destroyTcpReactor env s)) = []"
proof -
  obtain r t where close: "closeAllSessions env ''service-error'' s = (r, t)" by fastforce
  have "sessions_good env s0 0 t"
    by (rule preservesD[OF preserves_closeAllSessions[OF stable_good] assms(2) close])
  with closeAllSessions_empties(1)[OF assms(1) close] show ?thesis
    using tcp_inv_empty[of env t] close by (simp add: destroyTcpReactor_def sessions_good_def)
qed

text \<open>The three ways a run goes: the options are refused, the constructor fails, or the loop is run.\<close>

lemma runTcpReactor_cases:
  assumes "runTcpReactor env fuel s = (r, t)"
  obtains "t = s"
  | u where "constructTcpReactor env s = (Inr (), u)"
      and "t = destroyMembers env (destroyTcpReactor env (snd (runTcpEventLoop env fuel u)))"
  | u e where "constructTcpReactor env s = (Inl e, u)" and "t = destroyMembers env u"
proof (cases "te_drainTimeout env \<le> 0 \<or> ms 2147483647 < te_drainTimeout env")
  case True
  with assms that(1) show ?thesis by (auto simp: runTcpReactor_def throwC_def)
next
  case False
  with assms have "finallyC (thenC (constructTcpReactor env)
      (finallyC (runTcpEventLoop env fuel) (destroyTcpReactor env))) (destroyMembers env) s = (r, t)"
    by (simp add: runTcpReactor_def)
  with that show ?thesis by (auto simp: finallyC_def thenC_def bindC_def split: prod.splits sum.splits)
qed

lemma run_released:
  assumes batch: "\<And>timeout w es w'. te_epollWait env timeout w = (Inr es, w') \<Longrightarrow> length es \<le> 128"
    and order: "\<And>ks. set (te_order env ks) = set ks" and fuel: "8192 * fuel < 18446744073709551615"
    and "runTcpReactor env fuel (emptyTcpReactor w) = (r, t)"
  shows "tr_sessions t = [] \<and> et_entries (tr_tokens t) = [] \<and> tr_listenerFd t = None \<and> tr_epollFd t = None \<and>
    tr_signalFd t = None \<and> \<not> tr_masked t"
  using assms(4)
proof (cases rule: runTcpReactor_cases)
  case 1
  then show ?thesis by (simp add: emptyTcpReactor_def newEndpointTokens_def)
next
  case (2 u)
  obtain x v where "runTcpEventLoop env fuel u = (x, v)" by fastforce
  with 2 have "sessions_good env (emptyTcpReactor w) 0 v" "t = destroyMembers env (destroyTcpReactor env v)"
    using triple_end[OF good_family.triple_event_loop[OF batch] constructed(1)[OF fuel]] by auto
  with destroyed[OF order] show ?thesis by (simp add: members_tables)
next
  case (3 u e)
  then have "sessions_good env (emptyTcpReactor w) (8192 * fuel) u" "tr_sessions u = []"
    by (blast intro: constructed[OF fuel])+
  with 3(2) tcp_inv_empty[of env u] show ?thesis by (simp add: members_tables sessions_good_def)
qed

section \<open>Stopping\<close>

text \<open>A stop has begun: the listener is closed and the sessions are some of those of \<open>s0\<close>.\<close>

definition stopping_from :: "'w TcpReactor \<Rightarrow> 'w TcpReactor \<Rightarrow> bool" where
  "stopping_from s0 s \<longleftrightarrow> tr_draining s \<and> tr_listenerFd s = None \<and> tr_nextSessionId s = tr_nextSessionId s0 \<and>
     (\<forall>sid ss. map_of (tr_sessions s) sid = Some ss \<longrightarrow> buffers_ok ss \<and> map_of (tr_sessions s0) sid \<noteq> None)"

lemma stable_stopping: "stable env (stopping_from s0)"
proof (rule stable_unworldly)
  show "unworldly (stopping_from s0)" by (simp add: unworldly_def stopping_from_def)
qed (auto simp: calm_def stopping_from_def delete_conv map_of_map_entry_if benign_def split: if_splits)

lemma consume_when_stopping:
  assumes "stopping_from s0 s" and run: "consumeStopSignals env s = (Inr stop, t)"
  shows stop
proof (rule ccontr)
  assume "\<not> stop"
  with run obtain u where u: "signal_loop env (te_fuel env + 3) s = (Inr False, u)" "\<not> tr_draining u"
    by (auto simp: consumeStopSignals_def split: if_splits)
  with preservesD[OF preserves_signal_loop[OF stable_calm[OF stable_stopping]] assms(1)] show False
    by (auto simp: stopping_from_def)
qed

lemma preserves_accept_stopping: "preserves (stopping_from s0) (accept_loop env fuel attempts)"
proof (rule preservesI)
  fix s r t
  assume P: "stopping_from s0 s" and run: "accept_loop env fuel attempts s = (r, t)"
  obtain x u where u: "consumeStopSignals env s = (x, u)" by fastforce
  then have "stopping_from s0 u"
    using preservesD[OF preserves_consume[OF stable_calm[OF stable_stopping]] P] by blast
  moreover have "t = s \<or> t = u"
    using run u consume_when_stopping[OF P]
    by (cases x) (auto simp: bindC_def returnC_def accept_loop.simps[of env fuel attempts] split: if_splits)
  ultimately show "stopping_from s0 t" using P by blast
qed

lemma preserves_dispatch_stopping: "preserves (stopping_from s0) (dispatchTcpReadyEvents env es)"
proof (induction es)
  case (Cons e es)
  obtain token events where e: "e = (token, events)" by (cases e)
  show ?case
    unfolding e dispatchTcpReadyEvents.simps dispatchReadyEvent_def acceptClientSessions_def
    by (intro preserves_rules preserves_consume stable_calm stable_stopping preserves_accept_stopping
          preserves_dispatchEndpointEvent calm_rules Cons)
qed (simp add: preserves_return)

lemma preserves_loop_stopping: "preserves (stopping_from s0) (tcp_loop env fuel)"
proof (induction fuel)
  case (Suc fuel)
  show ?case
    unfolding tcp_loop.simps
    by (intro preserves_rules preserves_consume stable_calm stable_stopping preserves_closeAllSessions
          preserves_advanceStopDrain preserves_deadlines preserves_poll_timeout preserves_maintain
          preserves_dispatch_stopping calm_rules Suc)
qed (simp add: preserves_throw)

section \<open>Passes end\<close>

text \<open>No call is interrupted, and no callback reports exhausted fuel, which is no exception of the code.\<close>

definition no_fuel_callback where
  "no_fuel_callback callback \<longleftrightarrow> (\<forall>f x w w'. callback = Some f \<longrightarrow> f x w \<noteq> (Some OutOfFuel, w'))"

definition uninterrupted :: "'w tcp_env \<Rightarrow> bool" where
  "uninterrupted env \<longleftrightarrow>
     (\<forall>fd d w w'. te_send env fd d w \<noteq> (Inl EINTR, w')) \<and> (\<forall>fd n w w'. te_recv env fd n w \<noteq> (Inl EINTR, w')) \<and>
     (\<forall>fd w w'. te_shutdown env fd w \<noteq> (Some EINTR, w')) \<and> (\<forall>w w'. te_signalRead env w \<noteq> (Inl EINTR, w')) \<and>
     no_fuel_callback (te_statistics env) \<and> no_fuel_callback (te_observation env) \<and> no_fuel_callback (te_stopping env) \<and>
     (\<forall>f what e w w'. te_diagnostic env = Some f \<longrightarrow> f what e w \<noteq> (Some OutOfFuel, w'))"

lemma avoids_sysR [avoids_rules]: "avoids E (sysR f)"
  by (simp add: avoids_def sysR_def split: prod.split)

lemma avoids_callbackR:
  assumes "\<And>f w w' e. c = Some f \<Longrightarrow> e \<in> E \<Longrightarrow> f w \<noteq> (Some e, w')"
  shows "avoids E (callbackR c)"
proof (cases c)
  case None
  then show ?thesis by (simp add: callbackR_def avoids_rules)
next
  case (Some f)
  have "fst (bindC (sysR f) rethrowC s) \<noteq> Inl e" if "e \<in> E" for s e
    using assms[OF Some that, of "tr_world s"]
    by (cases "f (tr_world s)") (auto simp: bindC_def sysR_def rethrowC_def returnC_def throwC_def split: option.split)
  then show ?thesis by (simp add: Some callbackR_def avoids_def)
qed

lemma fuelled_calls:
  assumes "uninterrupted env"
  shows "fuelled (reportStatEvent env kind n)" and "fuelled (reportObservation env k sid side v)"
    and "fuelled (diagnosticR env what e)" and "fuelled (callbackR (map_option (\<lambda>f. f event) (te_stopping env)))"
  using assms unfolding uninterrupted_def no_fuel_callback_def reportStatEvent_def reportObservation_def diagnosticR_def
  by (auto intro!: avoids_callbackR avoids_rules)

lemma fuelled_theSession [avoids_rules]: "fuelled (theSession sid)"
  unfolding theSession_def by (intro avoids_rules) simp

lemma avoids_modSession [avoids_rules]: "avoids E (modSession sid f)" "avoids E (modEnd sid side g)"
  by (simp_all add: modSession_def modEnd_def avoids_rules)

lemma avoids_closeFdR [avoids_rules]: "avoids E (closeFdR env fd)"
  unfolding closeFdR_def actR_def by (intro avoids_rules)

text \<open>The results a call can give.\<close>

definition possible :: "('w \<Rightarrow> 'a \<times> 'w) \<Rightarrow> 'a \<Rightarrow> bool" where
  "possible g a \<longleftrightarrow> (\<exists>w w'. g w = (a, w'))"

lemma fuelled_sysR_bind: "(\<And>a. possible g a \<Longrightarrow> fuelled (f a)) \<Longrightarrow> fuelled (bindC (sysR g) f)"
  unfolding fuelled_def possible_def bindC_def sysR_def by (auto split: prod.split)

lemma impossible_EINTR:
  assumes "uninterrupted env"
  shows "\<not> possible (te_send env fd d) (Inl EINTR)" "\<not> possible (te_recv env fd n) (Inl EINTR)"
    "\<not> possible (te_shutdown env fd) (Some EINTR)" "\<not> possible (te_signalRead env) (Inl EINTR)"
  using assms by (auto simp: uninterrupted_def possible_def)

lemma fuelled_beginDrain:
  assumes "uninterrupted env"
  shows "fuelled (beginDrain env)"
  unfolding beginDrain_def by (intro avoids_rules fuelled_calls[OF assms])

lemma beginDrain_draining:
  assumes "beginDrain env s = (r, t)"
  shows "tr_draining t"
proof -
  have "beginDrain env (s\<lparr>tr_draining := True\<rparr>) = (r, t)"
    using assms by (simp add: beginDrain_def thenC_modifyC)
  moreover have "calm env tr_draining" by (simp add: calm_def)
  ultimately show ?thesis using preservesD[OF preserves_beginDrain, of env tr_draining "s\<lparr>tr_draining := True\<rparr>"] by simp
qed

text \<open>The first signal starts the drain and the second one forces the stop: two reads are enough.\<close>

lemma signal_loop_draining:
  assumes "uninterrupted env" and "tr_draining s"
  shows "fst (signal_loop env (Suc n) s) \<noteq> Inl OutOfFuel"
proof -
  obtain a w where read: "te_signalRead env (tr_world s) = (a, w)" by fastforce
  with assms(1) have "a \<noteq> Inl EINTR" unfolding uninterrupted_def by metis
  moreover have "fuelled (thenC (modifyC (\<lambda>s. s\<lparr>tr_stopRequested := True, tr_stopReason := ''service-stop-forced''\<rparr>))
            (thenC (reportObservation env ''stop-forced'' 0 (- 1) 0) (returnC True)))"
    by (intro avoids_rules fuelled_calls assms)
  ultimately show ?thesis
    using assms(2) read by (cases a) (auto simp: bindC_def sysR_def fuelled_def getC_def throwC_def returnC_def)
qed

lemma fuelled_signal_loop:
  assumes "uninterrupted env"
  shows "fuelled (signal_loop env (Suc (Suc n)))"
proof -
  have "fst (thenC (beginDrain env) (signal_loop env (Suc n)) s) \<noteq> Inl OutOfFuel" for s
  proof -
    obtain r t where started: "beginDrain env s = (r, t)" by fastforce
    with fuelled_beginDrain[OF assms] have "r \<noteq> Inl OutOfFuel" unfolding fuelled_def by (metis fst_conv)
    with started signal_loop_draining[OF assms beginDrain_draining[OF started]] show ?thesis
      by (cases r) (auto simp: thenC_def bindC_def)
  qed
  then have first: "fuelled (thenC (beginDrain env) (signal_loop env (Suc n)))" by (simp add: fuelled_def)
  show ?thesis
    unfolding signal_loop.simps(2)[of env "Suc n"]
    by (intro first fuelled_sysR_bind avoids_rules fuelled_calls[OF assms])
       (auto simp: impossible_EINTR[OF assms] simp del: signal_loop.simps)
qed

lemma fuelled_consume:
  assumes "uninterrupted env"
  shows "fuelled (consumeStopSignals env)"
proof -
  have "fuelled (signal_loop env (te_fuel env + 3))"
    using fuelled_signal_loop[OF assms, of "Suc (te_fuel env)"] by (simp add: numeral_3_eq_3 del: signal_loop.simps)
  then show ?thesis
    unfolding consumeStopSignals_def
    by (intro avoids_rules fuelled_calls[OF assms])
qed

lemma buffer_errors:
  "consumeReadableBytes n b = Inl e \<Longrightarrow> e \<noteq> OutOfFuel"
  "receive_into bytes b = Inl e \<Longrightarrow> e \<noteq> OutOfFuel"
  by (auto simp: consumeReadableBytes_def receive_into_def commitWrittenBytes_def Let_def split: if_splits)

lemma fuelled_write_loop:
  assumes "uninterrupted env"
  shows "fuelled (write_loop env fuel sid source budget)"
proof (induction budget rule: less_induct)
  case (less budget)
  show ?case
    unfolding write_loop.simps[of env fuel sid source budget] Let_def
    by (intro fuelled_sysR_bind avoids_rules fuelled_consume[OF assms] fuelled_calls[OF assms])
       (auto simp: impossible_EINTR[OF assms] intro: less dest: buffer_errors)
qed

lemma fuelled_read_loop:
  assumes "uninterrupted env"
  shows "fuelled (read_loop env fuel sid source budget)"
proof (induction budget rule: less_induct)
  case (less budget)
  show ?case
    unfolding read_loop.simps[of env fuel sid source budget] Let_def
    by (intro fuelled_sysR_bind avoids_rules fuelled_consume[OF assms] fuelled_calls[OF assms])
       (auto simp: impossible_EINTR[OF assms] intro: less dest: buffer_errors)
qed

lemma fuelled_shutdown_loop:
  assumes "uninterrupted env"
  shows "fuelled (shutdown_loop env fuel fd)"
  unfolding shutdown_loop.simps[of env fuel fd]
  by (intro fuelled_sysR_bind) (auto simp: impossible_EINTR[OF assms] intro: avoids_rules)

lemmas fuelled_loops = fuelled_write_loop fuelled_read_loop fuelled_shutdown_loop fuelled_consume fuelled_calls

lemma fuelled_writeBufferedDirection:
  assumes "uninterrupted env"
  shows "fuelled (writeBufferedDirection env sid source budget)"
  unfolding writeBufferedDirection_def Let_def by (intro fuelled_loops assms avoids_rules)

lemma fuelled_shutdownTarget:
  assumes "uninterrupted env"
  shows "fuelled (shutdownTarget env sid side)"
  unfolding shutdownTarget_def by (intro fuelled_loops assms avoids_rules) simp

section \<open>The deadline of a drain\<close>

text \<open>The callbacks a closing session and a stop report to do not throw.\<close>

definition benign_callback where
  "benign_callback callback \<longleftrightarrow> (\<forall>f x w e w'. callback = Some f \<longrightarrow> f x w \<noteq> (Some e, w'))"

definition benign_reports :: "'w tcp_env \<Rightarrow> bool" where
  "benign_reports env \<longleftrightarrow> benign_callback (te_statistics env) \<and> benign_callback (te_observation env) \<and>
     benign_callback (te_session env) \<and> (\<forall>f what e w x w'. te_diagnostic env = Some f \<longrightarrow> f what e w \<noteq> (Some x, w'))"

lemma benign_calls:
  assumes "benign_reports env"
  shows "avoids E (reportStatEvent env kind n)" and "avoids E (reportObservation env k sid side v)"
    and "avoids E (diagnosticR env what e)" and "avoids E (callbackR (map_option (\<lambda>f. f event) (te_session env)))"
  using assms unfolding benign_reports_def benign_callback_def reportStatEvent_def reportObservation_def diagnosticR_def
  by (auto intro!: avoids_callbackR avoids_rules)

lemma gives_report_close_errors:
  assumes "benign_reports env"
  shows "gives failure (report_close_errors env codes failure)"
proof (induction codes)
  case Nil
  show ?case by (simp add: gives_def returnC_def)
next
  case (Cons code codes)
  then show ?case by (auto intro!: gives_bind[OF gives_attempt] benign_calls[OF assms])
qed

lemma avoids_closeSession:
  assumes "benign_reports env"
  shows "avoids E (closeSession env sid reason error)"
  unfolding closeSession_unfold detachEndpointFromEpoll_def
  by (intro avoids_bind_gives[OF gives_report_close_errors[OF assms]] avoids_bind_gives[OF gives_attempt]
      benign_calls[OF assms] avoids_rules)

lemma consume_at_deadline:
  assumes reports: "benign_reports env" and s: "tr_draining s" "\<not> tr_stopRequested s"
    and late: "\<And>w. tr_drainDeadline s \<le> fst (te_now env w)"
    and signals: "\<And>w. fst (te_signalRead env w) = Inl EAGAIN \<or> fst (te_signalRead env w) = Inr 128"
  shows "\<exists>u. consumeStopSignals env s = (Inr True, u) \<and> tr_stopRequested u"
proof -
  have told: "\<exists>u. reportObservation env kind 0 (- 1) 0 v = (Inr (), u) \<and> tr_stopRequested u"
    if "tr_stopRequested v" for kind v
  proof -
    have "gives () (reportObservation env kind 0 (- 1) 0)" by (intro gives_unit benign_calls reports)
    then have "reportObservation env kind 0 (- 1) 0 v = (Inr (), snd (reportObservation env kind 0 (- 1) 0 v))"
      unfolding gives_def by (metis prod.collapse)
    with preserves_snd[OF preserves_obs, of env tr_stopRequested v] that show ?thesis by (auto simp: calm_def)
  qed
  obtain a w where read: "te_signalRead env (tr_world s) = (a, w)" by fastforce
  obtain now v where clock: "te_now env w = (now, v)" by fastforce
  from read signals[of "tr_world s"] consider "a = Inl EAGAIN" | "a = Inr 128" by auto
  then show ?thesis
  proof cases
    case 1
    with read have "signal_loop env (te_fuel env + 3) s = (Inr False, s\<lparr>tr_world := w\<rparr>)"
      by (simp add: numeral_3_eq_3 bindC_def sysR_def returnC_def)
    with s clock late[of w] told[of "s\<lparr>tr_world := v, tr_stopRequested := True, tr_stopReason := ''service-stop-deadline''\<rparr>" "''stop-deadline''"]
    show ?thesis
      by (auto simp: consumeStopSignals_def bindC_def thenC_def getC_def sysR_def modifyC_def returnC_def)
  next
    case 2
    with read s told[of "s\<lparr>tr_world := w, tr_stopRequested := True, tr_stopReason := ''service-stop-forced''\<rparr>" "''stop-forced''"]
    have "\<exists>u. signal_loop env (te_fuel env + 3) s = (Inr True, u) \<and> tr_stopRequested u"
      by (auto simp: numeral_3_eq_3 bindC_def thenC_def getC_def sysR_def modifyC_def returnC_def)
    with s show ?thesis by (auto simp: consumeStopSignals_def bindC_def getC_def returnC_def)
  qed
qed

section \<open>Properties of runs\<close>

text \<open>
  Claim C15. The event loop keeps the tables of the TCP reactor good, whatever the system calls,
  callbacks and signals do and whether it returns or throws: tokens and session ends name each
  other, buffers are well formed, the session limit holds, no token or session identifier is
  given out twice and a session keeps the backend it was accepted for.
\<close>

theorem tcp_loop_keeps_sessions:
  assumes "\<And>timeout w es w'. te_epollWait env timeout w = (Inr es, w') \<Longrightarrow> length es \<le> 128"
    and "tcp_inv env s" and "unat (tr_nextSessionId s) + 8192 * fuel < 18446744073709551616"
    and "runTcpEventLoop env fuel s = (r, t)"
  shows "tcp_inv env t \<and> owners_kept s t"
  using triple_end[OF good_family.triple_event_loop[OF assms(1)] good_self[OF assms(2,3)] assms(4)]
  by (simp add: sessions_good_def)


text \<open>
  Claim C17. Once a stop has begun and the listener is closed, the rest of the event loop admits
  nobody: no session identifier is given out, the listener stays closed, the drain stays on,
  and every session still open was open when the stop began.
\<close>

theorem tcp_drain_admits_nobody:
  assumes "tr_draining s" and "tr_listenerFd s = None" and "tcp_inv env s" and "tcp_loop env fuel s = (r, t)"
  shows "tr_draining t \<and> tr_listenerFd t = None \<and> tr_nextSessionId t = tr_nextSessionId s \<and>
    set (map fst (tr_sessions t)) \<subseteq> set (map fst (tr_sessions s))"
proof -
  have "stopping_from s s" using assms(1-3) by (auto simp: stopping_from_def tcp_inv_def session_ok_def)
  from preservesD[OF preserves_loop_stopping this assms(4)] show ?thesis
    unfolding stopping_from_def by (auto simp: map_of_eq_None_iff dest!: weak_map_of_SomeI)
qed

text \<open>
  Claim C21. A pass of input and output over a session ends by itself: when no system call
  reports an interruption, no retry is ever needed, so a pass without any fuel for retries
  finishes or throws an exception of the code.
\<close>

theorem tcp_pass_ends:
  assumes "uninterrupted env"
  shows "fst (advanceSessionIo env sid s) \<noteq> Inl OutOfFuel"
proof -
  have "fuelled (advanceSessionIo env sid)"
    unfolding advanceSessionIo_def readSessionDirection_def
    by (intro fuelled_writeBufferedDirection fuelled_shutdownTarget fuelled_loops assms avoids_rules)
  then show ?thesis by (simp add: fuelled_def)
qed

text \<open>
  Claim C20. A drain ends: once its deadline has passed, the next turn of the event loop closes
  every remaining session and returns 0, whether the signal descriptor is empty or holds a
  second signal, provided the callbacks for reports do not throw.
\<close>

theorem tcp_drain_deadline_stops:
  assumes reports: "benign_reports env" and order: "\<And>ks. set (te_order env ks) = set ks"
    and s: "tr_draining s" "\<not> tr_stopRequested s"
    and late: "\<And>w. tr_drainDeadline s \<le> fst (te_now env w)"
    and signals: "\<And>w. fst (te_signalRead env w) = Inl EAGAIN \<or> fst (te_signalRead env w) = Inr 128"
  shows "\<exists>t. tcp_loop env (Suc fuel) s = (Inr 0, t) \<and> tr_sessions t = []"
proof -
  from consume_at_deadline[OF reports s late signals] obtain u
    where u: "consumeStopSignals env s = (Inr True, u)" "tr_stopRequested u" by blast
  obtain x t where close: "closeAllSessions env (tr_stopReason u) u = (x, t)" by fastforce
  with closeAllSessions_empties[OF order close] avoids_closeSession[OF reports]
  have "x = Inr ()" "tr_sessions t = []" by blast+
  with u close show ?thesis by (simp add: bindC_def thenC_def getC_def returnC_def)
qed

section \<open>The properties at work\<close>

abbreviation quiet_world :: demo_world where
  "quiet_world \<equiv> (\<lambda>_. [], \<lambda>_. [])"

lemma demo_environment:
  "te_epollWait demo_tcp_env timeout w = (Inr es, w') \<Longrightarrow> length es \<le> 128"
  "set (te_order demo_tcp_env ks) = set ks" "uninterrupted demo_tcp_env" "benign_reports demo_tcp_env"
  "fst (te_now demo_tcp_env w) = 7" "fst (te_signalRead demo_tcp_env w) = Inl EAGAIN"
  by (auto simp: demo_tcp_env_def uninterrupted_def no_fuel_callback_def benign_reports_def benign_callback_def)

lemma demo_inv: "tcp_inv demo_tcp_env (demo_tcp_state demo_session w)"
proof -
  have "buffer_inv demo_buffer" using kBufferLimit_3 by (simp add: demo_buffer_def buffer_inv_def)
  then have "session_ok newEndpointTokens 1 demo_session"
    using buffer_inv_new(1)
    by (simp add: session_ok_def buffers_ok_def demo_session_def session_tokens_def newSession_def newEndpointState_def at2_def)
  moreover have "te_maxSessions demo_tcp_env = 4" by (simp add: demo_tcp_env_def)
  ultimately show ?thesis
    by (simp add: tcp_inv_def demo_tcp_state_def emptyTcpReactor_def tokens_inv_new)
       (simp add: newEndpointTokens_def findEndpoint_def)
qed

lemma tcp_inv_draining: "tcp_inv env (s\<lparr>tr_draining := b, tr_drainDeadline := d\<rparr>) \<longleftrightarrow> tcp_inv env s"
  by (simp add: tcp_inv_def)

theorem tcp_loop_keeps_sessions_witness:
  "let s = demo_tcp_state demo_session quiet_world; t = snd (runTcpEventLoop demo_tcp_env 3 s)
   in tcp_inv demo_tcp_env t \<and> owners_kept s t"
proof -
  obtain r t where run: "runTcpEventLoop demo_tcp_env 3 (demo_tcp_state demo_session quiet_world) = (r, t)" by fastforce
  have "unat (tr_nextSessionId (demo_tcp_state demo_session quiet_world)) + 8192 * 3 < 18446744073709551616"
    by (simp add: demo_tcp_state_def)
  from tcp_loop_keeps_sessions[OF demo_environment(1) demo_inv this run] run show ?thesis by simp
qed


theorem tcp_drain_admits_nobody_witness:
  "let s = (demo_tcp_state demo_session quiet_world)\<lparr>tr_draining := True, tr_drainDeadline := 9\<rparr>;
       t = snd (tcp_loop demo_tcp_env 3 s)
   in tr_draining t \<and> tr_listenerFd t = None \<and> tr_nextSessionId t = 2 \<and> set (map fst (tr_sessions t)) \<subseteq> {1}"
proof -
  let ?s = "(demo_tcp_state demo_session quiet_world)\<lparr>tr_draining := True, tr_drainDeadline := 9\<rparr>"
  obtain r t where run: "tcp_loop demo_tcp_env 3 ?s = (r, t)" by fastforce
  have "tr_draining ?s" "tr_listenerFd ?s = None" "tr_nextSessionId ?s = 2" "set (map fst (tr_sessions ?s)) = {1}"
    by (simp_all add: demo_tcp_state_def emptyTcpReactor_def)
  moreover have "tcp_inv demo_tcp_env ?s" by (simp add: tcp_inv_draining demo_inv)
  ultimately show ?thesis using tcp_drain_admits_nobody[OF _ _ _ run] run by (simp del: tcp_loop.simps)
qed

theorem tcp_pass_ends_witness:
  "fst (advanceSessionIo demo_tcp_env 1 (demo_tcp_state demo_session quiet_world)) = Inr False \<and>
   fst (advanceSessionIo demo_tcp_env 1 (emptyTcpReactor quiet_world)) \<noteq> Inl OutOfFuel"
  using tcp_pass_ends[OF demo_environment(3)] by (simp add: demo_advance)

theorem tcp_drain_deadline_stops_witness:
  "\<exists>t. tcp_loop demo_tcp_env 1 ((demo_tcp_state demo_session quiet_world)\<lparr>tr_draining := True, tr_drainDeadline := 5\<rparr>)
     = (Inr 0, t) \<and> tr_sessions t = []"
  using tcp_drain_deadline_stops[OF demo_environment(4,2),
      of "(demo_tcp_state demo_session quiet_world)\<lparr>tr_draining := True, tr_drainDeadline := 5\<rparr>" 0]
  by (simp add: demo_environment(5,6) demo_tcp_state_def emptyTcpReactor_def del: tcp_loop.simps)

end
