(* ===== verification/TcpServed.thy ===== *)
theory TcpServed
  imports TcpRuns
begin

text \<open>
  The TCP reactor and the world its callbacks share. A relation \<open>R\<close> between the world and the
  open sessions, given by their identifiers and backends, that the calls keep, that a choice of a
  backend keeps, and that follows each creation and each close of a session, holds through any run.
\<close>

section \<open>Sessions as the world sees them\<close>

definition links :: "(u64 \<times> Session) list \<Rightarrow> (u64 \<times> Endpoint) list" where
  "links al = map (\<lambda>(sid, ss). (sid, ss_backend ss)) al"

lemma links_simps [simp]:
  "links [] = []" "length (links al) = length al" "map fst (links al) = map fst al"
  by (simp_all add: links_def case_prod_unfold comp_def)

lemma links_map_entry: "(\<And>ss. ss_backend (f ss) = ss_backend ss) \<Longrightarrow> links (AList.map_entry sid f al) = links al"
  by (induction al) (auto simp: links_def)

lemma links_delete: "links (AList.delete sid al) = AList.delete sid (links al)"
  by (induction al) (auto simp: links_def AList.delete_eq)

lemma map_of_links: "map_of (links al) sid = map_option ss_backend (map_of al sid)"
  by (induction al) (auto simp: links_def)

lemma links_update: "links (AList.update sid ss al) = AList.update sid (ss_backend ss) (links al)"
  by (induction al) (auto simp: links_def)

lemma links_emplace: "links (emplace sid ss al) = emplace sid (ss_backend ss) (links al)"
  by (simp add: emplace_def map_of_links links_update)

definition session_world :: "'w tcp_env \<Rightarrow> StatKind \<Rightarrow> 'w \<Rightarrow> 'w" where
  "session_world env kind w = (case te_statistics env of None \<Rightarrow> w | Some f \<Rightarrow> snd (f \<lparr>se_kind = kind, se_amount = 1\<rparr> w))"

definition served :: "('w \<Rightarrow> (u64 \<times> Endpoint) list \<Rightarrow> bool) \<Rightarrow> 'w TcpReactor \<Rightarrow> bool" where
  "served R s \<longleftrightarrow> R (tr_world s) (links (tr_sessions s)) \<and> (\<forall>ss \<in> snd ` set (tr_sessions s). buffers_ok ss)"

text \<open>Between a change of the table and its report the world lags behind.\<close>

definition lagging :: "('w \<Rightarrow> (u64 \<times> Endpoint) list \<Rightarrow> bool) \<Rightarrow> (u64 \<times> Endpoint) list \<Rightarrow> (u64 \<times> Session) list \<Rightarrow>
    'w TcpReactor \<Rightarrow> bool" where
  "lagging R l sessions s \<longleftrightarrow> R (tr_world s) l \<and> tr_sessions s = sessions"

lemma avoids_report_close_errors: "avoids E (report_close_errors env codes failure)"
proof (induction codes arbitrary: failure)
  case (Cons c cs)
  then show ?case unfolding report_close_errors.simps by (intro avoids_rules avoids_attempt)
qed (simp add: avoids_rules)

lemma avoids_detach: "avoids E (detachEndpointFromEpoll env e)"
  unfolding detachEndpointFromEpoll_def by (intro avoids_rules)

section \<open>The relation through a run\<close>

locale tcp_world =
  fixes env :: "'w tcp_env" and R :: "'w \<Rightarrow> (u64 \<times> Endpoint) list \<Rightarrow> bool" and B :: "Endpoint \<Rightarrow> bool"
  assumes call: "f \<in> tcp_calls env \<Longrightarrow> R w l \<Longrightarrow> R (f w) l"
    and select: "te_selector env = Some g \<Longrightarrow> R w l \<Longrightarrow> g w = (r, w') \<Longrightarrow> R w' l \<and> (\<forall>b. r = Inr (Some b) \<longrightarrow> B b)"
    and created: "R w l \<Longrightarrow> map_of l sid = None \<Longrightarrow> length l < te_maxSessions env \<Longrightarrow> B b \<Longrightarrow>
      R (session_world env kCreated w) (emplace sid b l)"
    and closed: "R w l \<Longrightarrow> map_of l sid = Some b \<Longrightarrow> R (session_world env kClosed w) (AList.delete sid l)"
begin

lemma calm_served: "calm env (served R)"
  by (simp add: calm_def served_def call)

lemma calm_lagging: "calm env (lagging R l sessions)"
  by (simp add: calm_def lagging_def call)

lemma stat_served:
  assumes "\<And>w. R w l \<Longrightarrow> R (session_world env kind w) (links sessions)" and "\<forall>ss \<in> snd ` set sessions. buffers_ok ss"
  shows "triple (lagging R l sessions) (reportStatEvent env kind 1) (\<lambda>_. served R) (\<lambda>_. served R)"
proof (rule tripleI)
  fix s r t
  assume "lagging R l sessions s"
  then have new: "R (session_world env kind (tr_world s)) (links sessions)" and s: "tr_sessions s = sessions"
    using assms(1) by (simp_all add: lagging_def)
  { fix x assume "reportStatEvent env kind 1 s = (x, t)"
    then have "tr_world t = session_world env kind (tr_world s) \<and> tr_sessions t = tr_sessions s"
      by (cases "te_statistics env")
         (auto simp: reportStatEvent_def callbackR_def session_world_def bindC_def rethrowC_def returnC_def throwC_def sysR_def
            split: prod.splits option.splits)
    then have "served R t" using new s assms(2) by (simp add: served_def) }
  then show "reportStatEvent env kind 1 s = (Inr r, t) \<Longrightarrow> served R t" "reportStatEvent env kind 1 s = (Inl e, t) \<Longrightarrow> served R t" for e
    by blast+
qed

lemma preserves_close: "preserves (served R) (closeSession env sid reason error)"
proof (rule preservesI)
  fix s r t
  assume P: "served R s" and run: "closeSession env sid reason error s = (r, t)"
  show "served R t"
  proof (cases "map_of (tr_sessions s) sid")
    case None
    with run P show ?thesis by (simp add: closeSession_unfold run_simps)
  next
    case (Some ss)
    let ?sessions = "AList.delete sid (tr_sessions s)"
    let ?Q = "lagging R (links (tr_sessions s)) ?sessions"
    have drop: "?Q (drop_session sid ss s)" using P by (simp add: lagging_def served_def)
    have buffers: "\<forall>ss \<in> snd ` set ?sessions. buffers_ok ss"
      using P by (auto simp: served_def simp: AList.delete_eq)
    have stat: "triple ?Q (attemptC (reportStatEvent env kClosed 1) failure) (\<lambda>_. served R) (\<lambda>_. served R)" for failure
    proof -
      have "R (session_world env kClosed w) (links ?sessions)" if "R w (links (tr_sessions s))" for w
        using closed[OF that, of sid] Some by (simp add: links_delete map_of_links)
      from triple_attempt[OF stat_served[OF this buffers]] show ?thesis .
    qed
    have last: "preserves (served R) (bindC (attemptC (reportObservation env ''closed'' 0 (- 1) 0) failure) rethrowC)" for failure
      by (intro preserves_rules calm_rules calm_served)
    have "triple ?Q (bindC (detachEndpointFromEpoll env (fst (ss_ends ss))) (\<lambda>error0.
         thenC (closeFdR env (es_fd (fst (ss_ends ss))))
        (bindC (detachEndpointFromEpoll env (snd (ss_ends ss))) (\<lambda>error1.
         thenC (closeFdR env (es_fd (snd (ss_ends ss))))
        (bindC (report_close_errors env [error0, error1] None) (\<lambda>failure1.
         bindC (attemptC (callbackR (map_option (\<lambda>f. f \<lparr>sv_id = ss_id ss, sv_backend = ss_backend ss,
             sv_accepted = False, sv_reason = reason, sv_error = error, sv_sent = ss_sent ss\<rparr>)
             (te_session env))) failure1) (\<lambda>failure2.
         bindC (attemptC (reportStatEvent env kClosed 1) failure2) (\<lambda>failure3.
         bindC (attemptC (reportObservation env ''closed'' 0 (- 1) 0) failure3) rethrowC)))))))) (\<lambda>_. served R) (\<lambda>_. served R)"
      by (intro silent_bind[OF preserves_detach[OF calm_lagging] avoids_detach]
            silent_then[OF preserves_closeFdR[OF calm_lagging] avoids_closeFdR]
            silent_bind[OF preserves_report_close_errors[OF calm_lagging] avoids_report_close_errors]
            silent_bind[OF preserves_attempt[OF preserves_callbacks(4)[OF calm_lagging]] avoids_attempt]
            triple_bind[OF stat] triple_preserves_weaken[OF last])
    from triple_end[OF this drop] run Some show ?thesis by (simp add: closeSession_unfold run_simps)
  qed
qed

lemma served_change:
  assumes "served R s" and "\<And>ss. ss_backend (f ss) = ss_backend ss" and "\<And>ss. buffers_ok ss \<Longrightarrow> buffers_ok (f ss)"
  shows "served R (s\<lparr>tr_sessions := AList.map_entry sid f (tr_sessions s)\<rparr>)"
  using assms(1,3) by (fastforce simp: served_def links_map_entry[OF assms(2)] dest!: set_map_entry)

lemma stable_served: "stable env (served R)"
  unfolding stable_def
proof (intro conjI allI impI calm_served preserves_close)
  show "buffers_ok ss" if "served R s" "map_of (tr_sessions s) sid = Some ss" for s sid ss
    using that map_of_SomeD[OF that(2)] by (force simp: served_def)
qed (auto intro: served_change simp: benign_def)

lemma preserves_register: "preserves (served R) (registerSide sid side)"
proof -
  have "preserves (served R) (modEnd sid side (\<lambda>x. x\<lparr>es_token := token\<rparr>))" for token
    unfolding modEnd_def modSession_def by (rule preserves_modify) (auto intro!: served_change simp: buffers_ok_def)
  moreover have "preserves (served R) (modifyC (\<lambda>s. s\<lparr>tr_tokens := tokens'\<rparr>))" for tokens'
    by (rule preserves_modify) (simp add: served_def)
  ultimately show ?thesis
    unfolding registerSide_def by (intro preserves_rules)
qed

lemma preserves_connect: "preserves (served R) (connectSessionBackend env sid)"
  unfolding connectSessionBackend_def
  by (intro preserves_theSession_bind[OF stable_served] preserves_modSession[OF stable_served] preserves_modEnd[OF stable_served]
        preserves_register session_rules preserves_rules calm_rules stable_served calm_served; (simp; fail)?)

lemma triple_start_served:
  assumes "B backend"
  shows "triple (\<lambda>s. (sessions_good env s0 (Suc k) s \<and> served R s) \<and> length (tr_sessions s) < te_maxSessions env)
    (startSession env front backend) (\<lambda>_. served R) (\<lambda>_. served R)"
proof -
  let ?room = "\<lambda>s. (sessions_good env s0 (Suc k) s \<and> served R s) \<and> length (tr_sessions s) < te_maxSessions env"
  let ?insert = "\<lambda>sid now. modifyC (\<lambda>s. if map_of (tr_sessions s) sid = None
              then s\<lparr>tr_nextSessionId := sid + 1,
                     tr_sessions := emplace sid (newSession sid backend front now) (tr_sessions s)\<rparr>
              else s\<lparr>tr_nextSessionId := sid + 1, tr_world := te_close env front (tr_world s)\<rparr>)"
  have clock: "preserves ?room (sysR (te_now env))"
    by (intro preserves_conj preserves_calls calm_served unworldly_rules unworldly_good unworldly_tables)
  have report: "triple (\<lambda>s. ?room s \<and> tr_nextSessionId s = sid)
      (thenC (?insert sid now) (reportStatEvent env kCreated 1)) (\<lambda>_. served R) (\<lambda>_. served R)" for sid now
  proof (rule triple_state)
    fix s
    assume P: "?room s \<and> tr_nextSessionId s = sid"
    have fresh: "map_of (tr_sessions s) sid = None"
      by (rule good_new(2)[of env s0 k s sid]) (use P in auto)
    let ?sessions = "emplace sid (newSession sid backend front now) (tr_sessions s)"
    have "set ?sessions \<subseteq> insert (sid, newSession sid backend front now) (set (tr_sessions s))"
      using fresh by (simp add: emplace_def) (rule set_update)
    then have buffers: "\<forall>ss \<in> snd ` set ?sessions. buffers_ok ss"
      using P by (auto simp: served_def newSession_def buffers_ok_def buffer_inv_new dest!: subsetD)
    have "R (session_world env kCreated w) (links ?sessions)" if "R w (links (tr_sessions s))" for w
      using created[OF that, of sid backend] P fresh assms by (simp add: links_emplace map_of_links newSession_def)
    note stat = stat_served[OF this buffers]
    show "triple (\<lambda>x. x = s) (thenC (?insert sid now) (reportStatEvent env kCreated 1)) (\<lambda>_. served R) (\<lambda>_. served R)"
      by (rule triple_then[OF _ stat], rule tripleI) (use P fresh in \<open>auto simp: lagging_def served_def\<close>)
  qed
  have rest: "preserves (served R) (bindC (theSession sid) (\<lambda>ss.
     thenC (requiredR (map_option (\<lambda>f. f \<lparr>sv_id = sid, sv_backend = ss_backend ss, sv_accepted = True,
              sv_reason = ''accepted'', sv_error = 0, sv_sent = (0, 0)\<rparr>) (te_session env)))
           (onSessionFailure env sid (connectSessionBackend env sid))))" for sid
    by (intro preserves_theSession_bind[OF stable_served] preserves_rules calm_rules calm_served
          preserves_onSessionFailure stable_served preserves_connect)
  show ?thesis
    unfolding startSession_def
  proof (rule triple_bind[where B = "\<lambda>_. ?room"])
    show "triple ?room (sysR (te_now env)) (\<lambda>_. ?room) (\<lambda>_. served R)"
      by (rule triple_preserves_weaken[OF clock]) auto
  next
    fix now
    show "triple ?room (bindC (getC tr_nextSessionId) (\<lambda>sid. thenC (?insert sid now)
        (thenC (reportStatEvent env kCreated 1) (bindC (theSession sid) (\<lambda>ss.
     thenC (requiredR (map_option (\<lambda>f. f \<lparr>sv_id = sid, sv_backend = ss_backend ss, sv_accepted = True,
              sv_reason = ''accepted'', sv_error = 0, sv_sent = (0, 0)\<rparr>) (te_session env)))
           (onSessionFailure env sid (connectSessionBackend env sid))))))) (\<lambda>_. served R) (\<lambda>_. served R)"
      unfolding thenC_assoc
      by (intro triple_get_bind triple_then[OF report[unfolded thenC_assoc]] triple_preserves_weaken[OF rest])
  qed
qed

lemma triple_accept_served:
  "triple (\<lambda>s. sessions_good env s0 (Suc k) s \<and> served R s) (acceptClient env front) (\<lambda>_. served R) (\<lambda>_. served R)"
proof -
  let ?P = "\<lambda>s. sessions_good env s0 (Suc k) s \<and> served R s"
  let ?room = "\<lambda>s. ?P s \<and> length (tr_sessions s) < te_maxSessions env"
  have leaf: "triple P (finallyC m (\<lambda>s. s\<lparr>tr_world := te_close env front (tr_world s)\<rparr>)) (\<lambda>_. served R) (\<lambda>_. served R)"
    if "preserves (served R) m" "\<And>s. P s \<Longrightarrow> served R s" for P and m :: "('w TcpReactor, unit) comp"
    by (rule triple_preserves_weaken[OF preserves_finally[OF that(1)]])
       (auto simp: that(2) calm_world[OF calm_served tcp_calls.close_fd])
  have chosen: "triple ?room (bindC (sysR g) f) (\<lambda>_. served R) (\<lambda>_. served R)"
    if g: "te_selector env = Some g" and f: "\<And>r. (\<And>b. r = Inr (Some b) \<Longrightarrow> B b) \<Longrightarrow> triple ?room (f r) (\<lambda>_. served R) (\<lambda>_. served R)"
    for g f
  proof (rule triple_bind[where B = "\<lambda>r s. ?room s \<and> (\<forall>b. r = Inr (Some b) \<longrightarrow> B b)"])
    show "triple ?room (sysR g) (\<lambda>r s. ?room s \<and> (\<forall>b. r = Inr (Some b) \<longrightarrow> B b)) (\<lambda>_. served R)"
      by (rule tripleI) (auto simp: served_def unworldlyD[OF unworldly_good] dest: select[OF g])
  qed (use f in \<open>auto simp: triple_def\<close>)
  show ?thesis
    unfolding acceptClient_def Let_def
  proof (intro triple_get_bind triple_if, goal_cases)
    case (1 count)
    show ?case by (rule leaf) (auto intro!: preserves_rules calm_rules calm_served)
  next
    case (2 count)
    show ?case
    proof (rule triple_pre[where P = ?room])
      show "triple ?room (case te_selector env of
          None \<Rightarrow> finallyC (throwC (LogicError ''bad_function_call'')) (\<lambda>s. s\<lparr>tr_world := te_close env front (tr_world s)\<rparr>)
        | Some f \<Rightarrow> bindC (sysR f) (\<lambda>selected. case selected of
            Inl e \<Rightarrow> finallyC (throwC e) (\<lambda>s. s\<lparr>tr_world := te_close env front (tr_world s)\<rparr>)
          | Inr None \<Rightarrow> finallyC (reportStatEvent env kRejected 1) (\<lambda>s. s\<lparr>tr_world := te_close env front (tr_world s)\<rparr>)
          | Inr (Some backend) \<Rightarrow> startSession env front backend)) (\<lambda>_. served R) (\<lambda>_. served R)"
        by (intro triple_case_option chosen triple_case_sum leaf triple_start_served preserves_throw preserves_stat calm_served;
            (simp; fail)?)
    qed (use 2 in auto)
  qed
qed

lemma accept_both:
  "triple (\<lambda>s. sessions_good env s0 (Suc k) s \<and> served R s) (acceptClient env front)
    (\<lambda>_ s. sessions_good env s0 k s \<and> served R s) (\<lambda>_ s. sessions_good env s0 k s \<and> served R s)"
  by (rule triple_both[OF triple_pre[OF triple_acceptClient] triple_accept_served]) simp

lemma calm_both: "calm env (\<lambda>s. sessions_good env s0 k s \<and> served R s)"
  using calm_good[of env env s0 k] calm_served unfolding calm_def by blast

lemma stable_both: "stable env (\<lambda>s. sessions_good env s0 k s \<and> served R s)"
  using stable_good[of env env s0 k] stable_served calm_both unfolding stable_def by (auto intro: preserves_conj)

end

sublocale tcp_world \<subseteq> family: tcp_family env "\<lambda>k s. sessions_good env s0 k s \<and> served R s" for s0
proof (unfold_locales, goal_cases)
  case (1 k s j)
  then show ?case by (auto intro: good_mono)
next
  case (2 k front)
  show ?case by (rule accept_both)
next
  case (5 k s timeout r w)
  then show ?case
    using calm_world[OF calm_both tcp_calls.epollWait, of s0 k s timeout] by simp
qed (rule preserves_calls[OF calm_both] preserves_stat[OF calm_both] preserves_obs[OF calm_both] preserves_callbacks[OF calm_both]
   calm_flags[OF calm_both] preserves_acceptBackoff[OF calm_both] preserves_consume[OF calm_both] preserves_poll_timeout[OF calm_both]
   preserves_dispatchEndpointEvent[OF stable_both] preserves_closeAllSessions[OF stable_both] preserves_maintain[OF stable_both]
   preserves_advanceStopDrain[OF stable_both] preserves_deadlines[OF stable_both])+

context tcp_world
begin

lemma preserves_construct: "preserves (served R) (constructTcpReactor env)"
  by (rule preserves_constructTcp[OF calm_served]) (simp add: served_def)

lemma triple_loop_served:
  assumes "\<And>timeout w es w'. te_epollWait env timeout w = (Inr es, w') \<Longrightarrow> length es \<le> 128"
  shows "triple (\<lambda>s. sessions_good env s0 (8192 * fuel) s \<and> served R s) (runTcpEventLoop env fuel)
    (\<lambda>_ s. sessions_good env s0 0 s \<and> served R s) (\<lambda>_ s. sessions_good env s0 0 s \<and> served R s)"
  by (rule family.triple_event_loop) (rule assms)

lemma served_loop:
  assumes batch: "\<And>timeout w es w'. te_epollWait env timeout w = (Inr es, w') \<Longrightarrow> length es \<le> 128"
    and inv: "tcp_inv env s" "unat (tr_nextSessionId s) + 8192 * fuel < 18446744073709551616" and "served R s"
    and run: "runTcpEventLoop env fuel s = (r, t)"
  shows "tcp_inv env t \<and> served R t"
proof -
  have "sessions_good env s (8192 * fuel) s \<and> served R s" using good_self[OF inv] assms(4) by simp
  from triple_end[OF triple_loop_served[OF batch] this run] show ?thesis by (simp add: sessions_good_def)
qed

lemma served_members:
  assumes "served R s"
  shows "served R (destroyMembers env s)"
proof -
  have "R (close_opt env fd w) l" if "R w l" for fd w l
    using call[OF tcp_calls.close_fd that] by (cases fd) (simp_all add: close_opt_def that)
  with assms show ?thesis
    by (auto simp: served_def destroyMembers_def intro: call[OF tcp_calls.sigrestore])
qed

lemma served_run:
  assumes batch: "\<And>timeout w es w'. te_epollWait env timeout w = (Inr es, w') \<Longrightarrow> length es \<le> 128"
    and fuel: "8192 * fuel < 18446744073709551615" and R: "R w []"
    and run: "runTcpReactor env fuel (emptyTcpReactor w) = (r, t)"
  shows "served R t"
proof -
  have start: "served R (emptyTcpReactor w)" using R by (simp add: served_def emptyTcpReactor_def)
  from run show ?thesis
  proof (cases rule: runTcpReactor_cases)
    case 1
    with start show ?thesis by simp
  next
    case (2 u)
    obtain x v where loop: "runTcpEventLoop env fuel u = (x, v)" by fastforce
    have "sessions_good env (emptyTcpReactor w) (8192 * fuel) u \<and> served R u"
      using constructed(1)[OF fuel 2(1)] preservesD[OF preserves_construct start 2(1)] by simp
    from triple_end[OF triple_loop_served[OF batch] this loop] have "served R v" by simp
    then have "served R (destroyTcpReactor env v)"
      unfolding destroyTcpReactor_def by (rule preserves_snd[OF preserves_closeAllSessions[OF stable_served]])
    with 2 loop show ?thesis by (simp add: served_members)
  next
    case (3 u e)
    then show ?thesis using preservesD[OF preserves_construct start] served_members by blast
  qed
qed

end

text \<open>A run that returns returns 0.\<close>

lemma tcp_loop_returns_zero: "yields (\<lambda>n. n = 0) (tcp_loop env fuel)"
  by (induction fuel) (simp_all, (intro yields_rules; simp?)+)

lemma tcp_returns_zero: "yields (\<lambda>n. n = 0) (runTcpReactor env fuel)"
  unfolding runTcpReactor_def runTcpEventLoop_def by (intro yields_rules tcp_loop_returns_zero)

end
