(* ===== verification/TcpHost.thy ===== *)
theory TcpHost
  imports TcpServed
begin

text \<open>
  The interface of \<open>src/net/TcpReactor.h\<close>: the options with their defaults, the callbacks, and the
  environment a reactor gets from them when the system calls act on a part of the callbacks' world.
\<close>

section \<open>Options and callbacks\<close>

text \<open>The injected calls of the options stand for faults in tests; unset, the reactor makes the real calls.\<close>

record 'w TcpReactorOptions =
  to_maxSessions :: nat
  to_connectTimeout :: time
  to_idleTimeout :: time
  to_drainTimeout :: time
  to_observation :: "(Observation \<Rightarrow> 'w \<Rightarrow> exn option \<times> 'w) option"

definition defaultTcpOptions :: "'w TcpReactorOptions" where
  "defaultTcpOptions = \<lparr>to_maxSessions = 1024, to_connectTimeout = ms 5000, to_idleTimeout = ms 60000,
     to_drainTimeout = ms 1000, to_observation = None\<rparr>"

record 'w TcpReactorCallbacks =
  tcb_backendSelector :: "('w \<Rightarrow> (exn + Endpoint option) \<times> 'w) option"
  tcb_maintenance :: "('w \<Rightarrow> exn option \<times> 'w) option"
  tcb_statistics :: "(StatEvent \<Rightarrow> 'w \<Rightarrow> exn option \<times> 'w) option"
  tcb_ready :: "('w \<Rightarrow> exn option \<times> 'w) option"
  tcb_stopping :: "(StopEvent \<Rightarrow> 'w \<Rightarrow> exn option \<times> 'w) option"
  tcb_session :: "(SessionEvent \<Rightarrow> 'w \<Rightarrow> exn option \<times> 'w) option"
  tcb_diagnostic :: "(string \<Rightarrow> errno \<Rightarrow> 'w \<Rightarrow> exn option \<times> 'w) option"

definition noTcpCallbacks :: "'w TcpReactorCallbacks" where
  "noTcpCallbacks = \<lparr>tcb_backendSelector = None, tcb_maintenance = None, tcb_statistics = None, tcb_ready = None,
     tcb_stopping = None, tcb_session = None, tcb_diagnostic = None\<rparr>"

section \<open>The environment of a reactor\<close>

text \<open>The calls of \<open>sys\<close> act on the part of the world that \<open>get\<close> and \<open>put\<close> give; its own callbacks are not used.\<close>

definition tcp_reactor_env :: "('w \<Rightarrow> 'v) \<Rightarrow> ('v \<Rightarrow> 'w \<Rightarrow> 'w) \<Rightarrow> 'v tcp_env \<Rightarrow> 'w TcpReactorCallbacks \<Rightarrow>
    'w TcpReactorOptions \<Rightarrow> 'w tcp_env" where
  "tcp_reactor_env get put sys callbacks options = \<lparr>
     te_maxSessions = to_maxSessions options, te_connectTimeout = to_connectTimeout options,
     te_idleTimeout = to_idleTimeout options, te_drainTimeout = to_drainTimeout options, te_fuel = te_fuel sys,
     te_now = within get put (te_now sys), te_order = te_order sys, te_selector = tcb_backendSelector callbacks,
     te_maintenance = tcb_maintenance callbacks, te_ready = tcb_ready callbacks, te_statistics = tcb_statistics callbacks,
     te_observation = to_observation options, te_stopping = tcb_stopping callbacks, te_session = tcb_session callbacks,
     te_diagnostic = tcb_diagnostic callbacks, te_sigmask = within get put (te_sigmask sys),
     te_sigrestore = (\<lambda>w. put (te_sigrestore sys (get w)) w), te_open = (\<lambda>operation. within get put (te_open sys operation)),
     te_setup = (\<lambda>operation. within get put (te_setup sys operation)),
     te_epollCtl = (\<lambda>op fd token bits. within get put (te_epollCtl sys op fd token bits)),
     te_close = (\<lambda>n w. put (te_close sys n (get w)) w), te_accept = (\<lambda>fd. within get put (te_accept sys fd)),
     te_connect = (\<lambda>fd e. within get put (te_connect sys fd e)), te_socketError = (\<lambda>fd. within get put (te_socketError sys fd)),
     te_send = (\<lambda>fd bytes. within get put (te_send sys fd bytes)), te_recv = (\<lambda>fd n. within get put (te_recv sys fd n)),
     te_shutdown = (\<lambda>fd. within get put (te_shutdown sys fd)), te_signalRead = within get put (te_signalRead sys),
     te_epollWait = (\<lambda>timeout. within get put (te_epollWait sys timeout))\<rparr>"

text \<open>What the calls of such a reactor keep: what writing the part back and the callbacks keep.\<close>

lemma tcp_reactor_calls:
  assumes "f \<in> tcp_calls (tcp_reactor_env get put sys callbacks options)" and "I w"
    and part: "\<And>v w. I w \<Longrightarrow> I (put v w)"
    and "\<And>g. tcb_maintenance callbacks = Some g \<Longrightarrow> I (snd (g w))" and "\<And>g. tcb_ready callbacks = Some g \<Longrightarrow> I (snd (g w))"
    and "\<And>g ob. to_observation options = Some g \<Longrightarrow> I (snd (g ob w))"
    and "\<And>g ev. tcb_stopping callbacks = Some g \<Longrightarrow> I (snd (g ev w))" and "\<And>g sv. tcb_session callbacks = Some g \<Longrightarrow> I (snd (g sv w))"
    and "\<And>g what e. tcb_diagnostic callbacks = Some g \<Longrightarrow> I (snd (g what e w))"
    and "\<And>g kind n. tcb_statistics callbacks = Some g \<Longrightarrow> kind \<noteq> kCreated \<Longrightarrow> kind \<noteq> kClosed \<Longrightarrow>
      I (snd (g \<lparr>se_kind = kind, se_amount = n\<rparr> w))"
  shows "I (f w)"
  using assms(1)
  by (cases rule: tcp_calls.cases) (simp_all add: tcp_reactor_env_def snd_within part assms)

text \<open>A run of the reactor on the world its callbacks share; the reactor itself is gone afterwards.\<close>

definition hostTcpReactor :: "'w tcp_env \<Rightarrow> nat \<Rightarrow> ('w, int) comp" where
  "hostTcpReactor env fuel w = (case runTcpReactor env fuel (emptyTcpReactor w) of (r, t) \<Rightarrow> (r, tr_world t))"

end
