(* ===== verification/Scheduler.thy ===== *)
theory Scheduler
  imports Config
begin

text \<open>
  Backend selection: \<open>src/core/BackendScheduler.h\<close>, \<open>src/core/BackendScheduler.cpp\<close>,
  \<open>src/core/RoundRobinScheduler.h\<close> and the eligibility filter
  \<open>selectEligibleBackendIndex\<close> of \<open>src/control/HealthSelection.cpp\<close>. The abstract base
  class is the locale \<open>backend_scheduler\<close>; the round-robin scheduler interprets it.
\<close>

section \<open>The round-robin scheduler\<close>

record RoundRobinScheduler =
  backendCount :: nat
  nextBackendIndex :: nat

definition newRoundRobinScheduler :: "nat \<Rightarrow> exn + RoundRobinScheduler" where
  "newRoundRobinScheduler n =
     (if n = 0 then Inl (InvalidArgument ''empty backend pool'')
      else Inr \<lparr>backendCount = n, nextBackendIndex = 0\<rparr>)"

definition selectNextBackendIndex :: "RoundRobinScheduler \<Rightarrow> nat \<times> RoundRobinScheduler" where
  "selectNextBackendIndex s =
     (let selected = nextBackendIndex s
      in (selected,
          s\<lparr>nextBackendIndex :=
              if nextBackendIndex s = backendCount s - 1 then 0 else nextBackendIndex s + 1\<rparr>))"

definition createBackendScheduler :: "SchedulerKind \<Rightarrow> nat \<Rightarrow> exn + RoundRobinScheduler" where
  "createBackendScheduler kind n = (case kind of kRoundRobin \<Rightarrow> newRoundRobinScheduler n)"

section \<open>Filtering by eligibility\<close>

text \<open>
  The \<open>for\<close> loop of \<open>selectEligibleBackendIndex\<close>, over the virtual
  \<open>selectNextBackendIndex\<close>; \<open>eligible.at\<close> throws out of range.
\<close>

fun eligible_loop :: "('s \<Rightarrow> nat \<times> 's) \<Rightarrow> bool list \<Rightarrow> nat \<Rightarrow> ('s, nat) comp" where
  "eligible_loop select eligible 0 s =
     (Inl (LogicError ''scheduler did not visit eligible backend''), s)"
| "eligible_loop select eligible (Suc attempts) s =
     (let (backendIndex, s') = select s
      in if length eligible \<le> backendIndex then (Inl OutOfRange, s')
         else if eligible ! backendIndex then (Inr backendIndex, s')
         else eligible_loop select eligible attempts s')"

definition selectEligibleBackendIndex ::
  "('s \<Rightarrow> nat \<times> 's) \<Rightarrow> bool list \<Rightarrow> ('s, nat option) comp" where
  "selectEligibleBackendIndex select eligible s =
     (if list_all Not eligible then (Inr None, s)
      else case eligible_loop select eligible (length eligible) s of
             (Inl e, s') \<Rightarrow> (Inl e, s')
           | (Inr i, s') \<Rightarrow> (Inr (Some i), s'))"

section \<open>The scheduler interface\<close>

text \<open>The index chosen by the \<open>k\<close>-th of successive calls, and the scheduler before it.\<close>

fun after_selections :: "('s \<Rightarrow> nat \<times> 's) \<Rightarrow> nat \<Rightarrow> 's \<Rightarrow> 's" where
  "after_selections select 0 s = s"
| "after_selections select (Suc k) s = after_selections select k (snd (select s))"

definition nth_selection :: "('s \<Rightarrow> nat \<times> 's) \<Rightarrow> nat \<Rightarrow> 's \<Rightarrow> nat" where
  "nth_selection select k s = fst (select (after_selections select k s))"

text \<open>
  What the users of a \<open>BackendScheduler\<close> rely on: a fixed pool, indices within it, and every
  backend visited within one pass over the pool.
\<close>

locale backend_scheduler =
  fixes select :: "'s \<Rightarrow> nat \<times> 's"
    and pool :: "'s \<Rightarrow> nat"
    and sched_inv :: "'s \<Rightarrow> bool"
  assumes inv_select: "sched_inv s \<Longrightarrow> sched_inv (snd (select s))"
    and pool_select: "sched_inv s \<Longrightarrow> pool (snd (select s)) = pool s"
    and index_in_pool: "sched_inv s \<Longrightarrow> fst (select s) < pool s"
    and visits_all: "sched_inv s \<Longrightarrow> i < pool s \<Longrightarrow> \<exists>k < pool s. nth_selection select k s = i"
begin

lemma eligible_loop_first:
  assumes "sched_inv s" and "length eligible = pool s"
    and "k < n" and "eligible ! nth_selection select k s"
    and "\<forall>j < k. \<not> eligible ! nth_selection select j s"
  shows "eligible_loop select eligible n s =
    (Inr (nth_selection select k s), after_selections select (Suc k) s)"
  using assms
proof (induction k arbitrary: n s)
  case 0
  then obtain m where n: "n = Suc m" by (cases n) auto
  have "fst (select s) < length eligible" using "0.prems" index_in_pool by simp
  with 0 n show ?case by (simp add: nth_selection_def case_prod_unfold Let_def)
next
  case (Suc k)
  then obtain m where n: "n = Suc m" by (cases n) auto
  let ?s = "snd (select s)"
  have shift: "nth_selection select j ?s = nth_selection select (Suc j) s" for j
    by (simp add: nth_selection_def)
  have "\<not> eligible ! fst (select s)"
    using Suc.prems(5)[rule_format, of 0] by (simp add: nth_selection_def)
  moreover have "fst (select s) < length eligible" using Suc.prems index_in_pool by simp
  moreover have "eligible_loop select eligible m ?s =
      (Inr (nth_selection select k ?s), after_selections select (Suc k) ?s)"
    using Suc.prems n by (intro Suc.IH) (auto simp: shift inv_select pool_select)
  ultimately show ?case using n by (simp add: shift case_prod_unfold Let_def)
qed

lemma first_eligible_selection:
  assumes "sched_inv s" and "length eligible = pool s" and "\<not> list_all Not eligible"
  shows "\<exists>k < pool s. eligible ! nth_selection select k s \<and>
    (\<forall>j < k. \<not> eligible ! nth_selection select j s)"
proof -
  from assms(3) obtain i where "i < length eligible" "eligible ! i"
    by (auto simp: list_all_length)
  with visits_all[OF assms(1)] assms(2)
  have "\<exists>k. k < pool s \<and> eligible ! nth_selection select k s" by auto
  then show ?thesis
    by (subst (asm) exists_least_iff) (metis order_less_trans)
qed

text \<open>The filter always finds the first eligible backend in selection order; it never throws.\<close>

lemma selectEligible_total:
  assumes "sched_inv s" and "length eligible = pool s"
  shows "(list_all Not eligible \<and> selectEligibleBackendIndex select eligible s = (Inr None, s)) \<or>
    (\<exists>k < pool s. selectEligibleBackendIndex select eligible s =
        (Inr (Some (nth_selection select k s)), after_selections select (Suc k) s) \<and>
      eligible ! nth_selection select k s \<and> (\<forall>j < k. \<not> eligible ! nth_selection select j s))"
proof (cases "list_all Not eligible")
  case True
  then show ?thesis by (simp add: selectEligibleBackendIndex_def)
next
  case False
  from first_eligible_selection[OF assms False] obtain k where k: "k < pool s"
    "eligible ! nth_selection select k s" "\<forall>j < k. \<not> eligible ! nth_selection select j s" by blast
  from eligible_loop_first[OF assms _ k(2,3), of "length eligible"] k(1) assms(2)
  have "eligible_loop select eligible (length eligible) s =
    (Inr (nth_selection select k s), after_selections select (Suc k) s)" by simp
  with False k show ?thesis by (auto simp: selectEligibleBackendIndex_def)
qed

end

section \<open>Round robin is such a scheduler\<close>

definition rr_inv :: "RoundRobinScheduler \<Rightarrow> bool" where
  "rr_inv s \<longleftrightarrow> nextBackendIndex s < backendCount s"

lemma rr_after:
  "rr_inv s \<Longrightarrow> after_selections selectNextBackendIndex k s =
     s\<lparr>nextBackendIndex := (nextBackendIndex s + k) mod backendCount s\<rparr>"
proof (induction k arbitrary: s)
  case 0
  then show ?case by (simp add: rr_inv_def)
next
  case (Suc k)
  let ?s = "snd (selectNextBackendIndex s)"
  have s: "?s = s\<lparr>nextBackendIndex := Suc (nextBackendIndex s) mod backendCount s\<rparr>"
    using Suc.prems by (auto simp: selectNextBackendIndex_def rr_inv_def Let_def)
  then have "rr_inv ?s" using Suc.prems by (auto simp: rr_inv_def)
  from Suc.IH[OF this] show ?case by (simp add: s mod_simps)
qed

lemma rr_nth_selection:
  "rr_inv s \<Longrightarrow>
   nth_selection selectNextBackendIndex k s = (nextBackendIndex s + k) mod backendCount s"
  by (simp add: nth_selection_def rr_after) (simp add: selectNextBackendIndex_def)

lemma rr_visits_all:
  assumes "rr_inv s" and "i < backendCount s"
  shows "\<exists>k < backendCount s. nth_selection selectNextBackendIndex k s = i"
proof -
  let ?c = "nextBackendIndex s" and ?n = "backendCount s"
  have "(?c + ((i + ?n - ?c) mod ?n)) mod ?n = (?c + (i + ?n - ?c)) mod ?n"
    by (simp add: mod_simps)
  also have "\<dots> = i" using assms by (simp add: rr_inv_def)
  finally show ?thesis
    using assms by (intro exI[of _ "(i + ?n - ?c) mod ?n"]) (auto simp: rr_nth_selection)
qed

interpretation rr: backend_scheduler selectNextBackendIndex backendCount rr_inv
proof unfold_locales
  fix s i
  assume s: "rr_inv s"
  then show "rr_inv (snd (selectNextBackendIndex s))"
    by (auto simp: selectNextBackendIndex_def rr_inv_def Let_def)
  show "backendCount (snd (selectNextBackendIndex s)) = backendCount s"
    by (simp add: selectNextBackendIndex_def Let_def)
  show "fst (selectNextBackendIndex s) < backendCount s"
    using s by (simp add: selectNextBackendIndex_def rr_inv_def Let_def)
  show "\<exists>k < backendCount s. nth_selection selectNextBackendIndex k s = i" if "i < backendCount s"
    using s that by (rule rr_visits_all)
qed

lemma create_rr_inv: "createBackendScheduler kind n = Inr s \<Longrightarrow> rr_inv s \<and> backendCount s = n"
  by (cases kind) (auto simp: createBackendScheduler_def newRoundRobinScheduler_def rr_inv_def
      split: if_splits)

section \<open>Properties of backend selection\<close>

text \<open>
  Round robin is fair: a fresh scheduler over \<open>n\<close> backends selects \<open>k mod n\<close> at its
  \<open>k\<close>-th call, so any \<open>n\<close> consecutive selections contain every backend exactly once.
\<close>

theorem round_robin_fair:
  assumes "createBackendScheduler kind n = Inr s"
  shows "nth_selection selectNextBackendIndex k s = k mod n \<and>
    distinct (map (\<lambda>j. nth_selection selectNextBackendIndex (k + j) s) [0..<n]) \<and>
    set (map (\<lambda>j. nth_selection selectNextBackendIndex (k + j) s) [0..<n]) = {0..<n}"
proof -
  have inv: "rr_inv s" and n: "backendCount s = n" and c: "nextBackendIndex s = 0" and pos: "0 < n"
    using assms by (cases kind; auto simp: createBackendScheduler_def newRoundRobinScheduler_def
        rr_inv_def split: if_splits)+
  note sel = rr_nth_selection[OF inv, unfolded n c]
  have "i \<in> (\<lambda>j. (k + j) mod n) ` {0..<n}" if "i < n" for i
  proof -
    have "(k + (i + n - k mod n) mod n) mod n = (k mod n + (i + n - k mod n)) mod n"
      by (simp add: mod_simps)
    also have "\<dots> = i" using that pos by (simp add: less_imp_le trans_le_add2)
    finally show ?thesis using pos by (intro image_eqI[of _ _ "(i + n - k mod n) mod n"]) auto
  qed
  then have img: "(\<lambda>j. (k + j) mod n) ` {0..<n} = {0..<n}"
    using pos by auto
  moreover from this have "inj_on (\<lambda>j. (k + j) mod n) {0..<n}"
    by (intro eq_card_imp_inj_on) simp_all
  ultimately show ?thesis by (simp add: sel distinct_map)
qed

theorem round_robin_fair_witness:
  "\<exists>s. createBackendScheduler kRoundRobin 3 = Inr s \<and>
     nth_selection selectNextBackendIndex 4 s = 1 \<and>
     set (map (\<lambda>j. nth_selection selectNextBackendIndex (4 + j) s) [0..<3]) = {0..<3}"
proof -
  obtain s where "createBackendScheduler kRoundRobin 3 = Inr s"
    by (simp add: createBackendScheduler_def newRoundRobinScheduler_def)
  with round_robin_fair[OF this, of 4] show ?thesis by auto
qed

text \<open>
  Filtering a round-robin scheduler by eligibility never throws and never picks an
  ineligible backend: with no eligible backend it returns nothing and leaves the cursor; else it
  returns the first eligible backend at or after the cursor, cyclically, and the cursor moves
  just past it.
\<close>

theorem selectEligible_round_robin:
  assumes "rr_inv s" and "length eligible = backendCount s"
  shows "(list_all Not eligible \<and>
      selectEligibleBackendIndex selectNextBackendIndex eligible s = (Inr None, s)) \<or>
    (\<exists>k < backendCount s. let i = (nextBackendIndex s + k) mod backendCount s in
      selectEligibleBackendIndex selectNextBackendIndex eligible s =
        (Inr (Some i), s\<lparr>nextBackendIndex := Suc i mod backendCount s\<rparr>) \<and> eligible ! i \<and>
      (\<forall>j < k. \<not> eligible ! ((nextBackendIndex s + j) mod backendCount s)))"
  using rr.selectEligible_total[OF assms]
  by (simp add: rr_nth_selection[OF assms(1)] rr_after[OF assms(1)] Let_def mod_simps
      del: after_selections.simps)

theorem selectEligible_round_robin_witness:
  "selectEligibleBackendIndex selectNextBackendIndex [True, False, True]
     \<lparr>backendCount = 3, nextBackendIndex = 1\<rparr> = (Inr (Some 2), \<lparr>backendCount = 3, nextBackendIndex = 0\<rparr>)
   \<and> \<not> list_all Not [True, False, True]"
proof -
  let ?s = "\<lparr>backendCount = 3, nextBackendIndex = 1\<rparr>"
  have "rr_inv ?s" by (simp add: rr_inv_def)
  from selectEligible_round_robin[OF this, of "[True, False, True]"]
  obtain k where k: "k < 3" and r: "selectEligibleBackendIndex selectNextBackendIndex [True, False, True] ?s =
      (Inr (Some ((1 + k) mod 3)), ?s\<lparr>nextBackendIndex := Suc ((1 + k) mod 3) mod 3\<rparr>)"
    "[True, False, True] ! ((1 + k) mod 3)" "\<forall>j < k. \<not> [True, False, True] ! ((1 + j) mod 3)"
    by (auto simp: Let_def)
  have "k = 1"
  proof -
    consider "k = 0" | "k = 1" | "k = 2" using k by linarith
    then show ?thesis using r(2,3) by cases (auto simp: numeral_2_eq_2)
  qed
  with r(1) show ?thesis by simp
qed

end
