(* ===== verification/HealthState.thy ===== *)
theory HealthState
  imports L4_Prelude
begin

text \<open>
  The consecutive-result health rule: \<open>src/health/HealthState.h\<close>. The same thresholds (two
  successes, three failures) govern the user-space TCP checker and the XDP runtime's UDP
  probes, so the rule is stated once, as the locale \<open>threshold_monitor\<close>, with an abstract
  specification over the whole history of probe results.
\<close>

section \<open>The state machine\<close>

datatype HealthStatus = kUnknown | kHealthy | kUnhealthy

record HealthState =
  hs_status :: HealthStatus
  hs_successes :: nat
  hs_failures :: nat

definition initial_health :: HealthState where
  "initial_health = \<lparr>hs_status = kUnknown, hs_successes = 0, hs_failures = 0\<rparr>"

definition applyProbeResult :: "bool \<Rightarrow> HealthState \<Rightarrow> bool \<times> HealthState" where
  "applyProbeResult success h =
     (let before = hs_status h;
          h' = (if success
                then let s = min (hs_successes h + 1) 2
                     in h\<lparr>hs_failures := 0, hs_successes := s,
                          hs_status := (if s = 2 then kHealthy else hs_status h)\<rparr>
                else let f = min (hs_failures h + 1) 3
                     in h\<lparr>hs_successes := 0, hs_failures := f,
                          hs_status := (if f = 3 then kUnhealthy else hs_status h)\<rparr>)
      in (before \<noteq> hs_status h', h'))"

definition healthStatusName :: "HealthStatus \<Rightarrow> string" where
  "healthStatusName status =
     (case status of kUnknown \<Rightarrow> ''Unknown'' | kHealthy \<Rightarrow> ''Healthy'' | kUnhealthy \<Rightarrow> ''Unhealthy'')"

section \<open>The specification over histories\<close>

text \<open>
  The verdict on a history, most recent result first: the last time two successes or three
  failures came in a row decides; before any such run it is unknown.
\<close>

fun verdict :: "bool list \<Rightarrow> HealthStatus" where
  "verdict [] = kUnknown"
| "verdict (r # h) =
     (if r \<and> take 1 h = [True] then kHealthy
      else if \<not> r \<and> take 2 h = [False, False] then kUnhealthy
      else verdict h)"

text \<open>The state after a history, most recent result first.\<close>

fun after_results :: "(bool \<Rightarrow> 's \<Rightarrow> 's) \<Rightarrow> bool list \<Rightarrow> 's \<Rightarrow> 's" where
  "after_results step [] s = s"
| "after_results step (r # h) s = step r (after_results step h s)"

text \<open>A monitor counts consecutive results with saturation and changes status at the thresholds.\<close>

locale threshold_monitor =
  fixes step :: "bool \<Rightarrow> 's \<Rightarrow> 's"
    and status :: "'s \<Rightarrow> HealthStatus"
    and successes :: "'s \<Rightarrow> nat"
    and failures :: "'s \<Rightarrow> nat"
  assumes success_counts: "successes (step True s) = min (successes s + 1) 2"
    and success_clears: "failures (step True s) = 0"
    and success_status:
      "status (step True s) = (if min (successes s + 1) 2 = 2 then kHealthy else status s)"
    and failure_counts: "failures (step False s) = min (failures s + 1) 3"
    and failure_clears: "successes (step False s) = 0"
    and failure_status:
      "status (step False s) = (if min (failures s + 1) 3 = 3 then kUnhealthy else status s)"
begin

text \<open>The counters are the lengths of the current run, saturated.\<close>

lemma counters_run:
  assumes "successes s = 0" and "failures s = 0"
  shows "successes (after_results step h s) = min (length (takeWhile (\<lambda>r. r) h)) 2"
    and "failures (after_results step h s) = min (length (takeWhile Not h)) 3"
proof (induction h)
  case Nil
  case 1 show ?case using assms by simp
  case 2 show ?case using assms by simp
next
  case (Cons r h)
  case 1 show ?case
    using Cons by (cases r) (simp_all add: success_counts failure_clears)
  case 2 show ?case
    using Cons by (cases r) (simp_all add: failure_counts success_clears)
qed

lemma run_of_two: "1 \<le> length (takeWhile (\<lambda>r. r) h) \<longleftrightarrow> take 1 h = [True]"
  by (cases h) auto

lemma run_of_three: "2 \<le> length (takeWhile Not h) \<longleftrightarrow> take 2 h = [False, False]"
proof (cases h)
  case (Cons a t)
  then show ?thesis by (cases t) auto
qed simp

text \<open>The status after a history is the verdict on it.\<close>

lemma status_verdict:
  assumes "status s = kUnknown" and "successes s = 0" and "failures s = 0"
  shows "status (after_results step h s) = verdict h"
proof (induction h)
  case Nil
  then show ?case using assms by simp
next
  case (Cons r h)
  note run = counters_run[OF assms(2,3), of h]
  show ?case
  proof (cases r)
    case True
    have "min (min (length (takeWhile (\<lambda>r. r) h)) 2 + 1) 2 = 2 \<longleftrightarrow> take 1 h = [True]"
      unfolding run_of_two[symmetric] by (auto simp: min_def)
    with True Cons run show ?thesis by (simp add: success_status)
  next
    case False
    have "min (min (length (takeWhile Not h)) 3 + 1) 3 = 3 \<longleftrightarrow> take 2 h = [False, False]"
      unfolding run_of_three[symmetric] by (auto simp: min_def)
    with False Cons run show ?thesis by (simp add: failure_status)
  qed
qed

lemma status_changes_only_at_threshold:
  "status (step r s) \<noteq> status s \<Longrightarrow>
   (r \<and> 1 \<le> successes s \<and> status (step r s) = kHealthy) \<or>
   (\<not> r \<and> 2 \<le> failures s \<and> status (step r s) = kUnhealthy)"
  by (cases r) (auto simp: success_status failure_status min_def split: if_splits)

end

interpretation health: threshold_monitor "\<lambda>r h. snd (applyProbeResult r h)" hs_status hs_successes
  hs_failures
  by unfold_locales (simp_all add: applyProbeResult_def Let_def)

section \<open>Properties of the health rule\<close>

text \<open>The state after applying a history of results, oldest first, to a fresh backend.\<close>

definition probe_history :: "bool list \<Rightarrow> HealthState" where
  "probe_history results = fold (\<lambda>r h. snd (applyProbeResult r h)) results initial_health"

lemma probe_history_after:
  "probe_history results = after_results (\<lambda>r h. snd (applyProbeResult r h)) (rev results) initial_health"
proof -
  have "fold (\<lambda>r h. snd (applyProbeResult r h)) results s =
      after_results (\<lambda>r h. snd (applyProbeResult r h)) (rev results) s" for s
    by (induction results arbitrary: s rule: rev_induct) simp_all
  then show ?thesis by (simp add: probe_history_def)
qed

text \<open>
  Claim C31. The health state machine implements the specification: after any sequence of
  probe results the status is the one given by the most recent run of two successes (Healthy)
  or three failures (Unhealthy), and Unknown when there was none; saturating the counters
  loses nothing.
\<close>

theorem health_refines_verdict: "hs_status (probe_history results) = verdict (rev results)"
  unfolding probe_history_after
  by (rule health.status_verdict) (simp_all add: initial_health_def)

end
