(* ===== verification/TcpHealthChecker.thy ===== *)
theory TcpHealthChecker
  imports Config HealthState
begin

text \<open>
  The TCP handshake prober: \<open>src/health/TcpHealthChecker.h\<close> and
  \<open>src/health/TcpHealthChecker.cpp\<close>. Sockets, epoll, the clock and the health-change
  callback are parameters over an abstract world.
\<close>

section \<open>State and environment\<close>

record HealthChange =
  hc_backend :: nat
  hc_from :: HealthStatus
  hc_to :: HealthStatus
  hc_reason :: string
  hc_error :: errno

text \<open>One probe: \<open>tp_fd = None\<close> is the closed \<open>Fd\<close>, token 0 means no probe in flight.\<close>

record TcpProbe =
  tp_state :: HealthState
  tp_fd :: "nat option"
  tp_token :: u64
  tp_nextProbeTime :: time
  tp_probeDeadline :: time

record 'w TcpHealthChecker =
  tc_endpoints :: "Endpoint list"
  tc_probes :: "TcpProbe list"
  tc_nextProbeToken :: u64
  tc_world :: 'w

record 'w tcp_health_env =
  te_interval :: time
  te_timeout :: time
  te_now :: "'w \<Rightarrow> time \<times> 'w"
  te_socket :: "'w \<Rightarrow> (errno + nat) \<times> 'w"
  te_connect :: "nat \<Rightarrow> Endpoint \<Rightarrow> 'w \<Rightarrow> errno option \<times> 'w"
  te_socketError :: "nat \<Rightarrow> 'w \<Rightarrow> (errno + errno) \<times> 'w"
  te_epollAdd :: "nat \<Rightarrow> u64 \<Rightarrow> 'w \<Rightarrow> errno option \<times> 'w"
  te_epollDel :: "nat \<Rightarrow> 'w \<Rightarrow> 'w"
  te_close :: "nat \<Rightarrow> 'w \<Rightarrow> 'w"
  te_epollPoll :: "'w \<Rightarrow> (errno + u64 list) \<times> 'w"
  te_change :: "(HealthChange \<Rightarrow> 'w \<Rightarrow> exn option \<times> 'w) option"
  te_stderr :: "string \<Rightarrow> 'w \<Rightarrow> 'w"

definition fresh_probe :: TcpProbe where
  "fresh_probe = \<lparr>tp_state = initial_health, tp_fd = None, tp_token = 0, tp_nextProbeTime = 0,
     tp_probeDeadline = 0\<rparr>"

text \<open>A system call on the checker's world.\<close>

definition sysT :: "('w \<Rightarrow> 'a \<times> 'w) \<Rightarrow> ('w TcpHealthChecker, 'a) comp" where
  "sysT f s = (case f (tc_world s) of (a, w) \<Rightarrow> (Inr a, s\<lparr>tc_world := w\<rparr>))"

definition actT :: "('w \<Rightarrow> 'w) \<Rightarrow> ('w TcpHealthChecker, unit) comp" where
  "actT f = modifyC (\<lambda>s. s\<lparr>tc_world := f (tc_world s)\<rparr>)"

definition getProbe :: "nat \<Rightarrow> ('w TcpHealthChecker, TcpProbe) comp" where
  "getProbe i = getC (\<lambda>s. tc_probes s ! i)"

definition updProbe :: "nat \<Rightarrow> (TcpProbe \<Rightarrow> TcpProbe) \<Rightarrow> ('w TcpHealthChecker, unit) comp" where
  "updProbe i f = modifyC (\<lambda>s. s\<lparr>tc_probes := (tc_probes s)[i := f (tc_probes s ! i)]\<rparr>)"

section \<open>Operations\<close>

definition isLocalResourceError :: "errno \<Rightarrow> bool" where
  "isLocalResourceError socketError \<longleftrightarrow>
     socketError = EMFILE \<or> socketError = ENFILE \<or> socketError = ENOMEM \<or> socketError = ENOBUFS"

text \<open>The constructor; \<open>epollError\<close> is the outcome of \<open>epoll_create1\<close>.\<close>

definition newTcpHealthChecker ::
  "'w tcp_health_env \<Rightarrow> Endpoint list \<Rightarrow> errno option \<Rightarrow> 'w \<Rightarrow> exn + 'w TcpHealthChecker" where
  "newTcpHealthChecker env endpoints epollError w =
     (if endpoints = [] \<or> 256 < length endpoints \<or> te_interval env \<le> 0 \<or> te_timeout env \<le> 0
      then Inl (InvalidArgument ''invalid health checker options'')
      else case epollError of
             Some e \<Rightarrow> Inl (SystemError ''health epoll_create1'' e)
           | None \<Rightarrow> Inr \<lparr>tc_endpoints = endpoints,
               tc_probes = replicate (length endpoints) fresh_probe,
               tc_nextProbeToken = 1, tc_world = w\<rparr>)"

definition activeProbeCount :: "'w TcpHealthChecker \<Rightarrow> nat" where
  "activeProbeCount s = length (filter (\<lambda>p. tp_token p \<noteq> 0) (tc_probes s))"

text \<open>\<open>Fd::closeFd\<close> of a probe.\<close>

definition closeProbeFd :: "'w tcp_health_env \<Rightarrow> nat \<Rightarrow> ('w TcpHealthChecker, unit) comp" where
  "closeProbeFd env i =
     bindC (getProbe i) (\<lambda>probe.
       case tp_fd probe of
         None \<Rightarrow> returnC ()
       | Some fd \<Rightarrow> thenC (updProbe i (\<lambda>p. p\<lparr>tp_fd := None\<rparr>)) (actT (te_close env fd)))"

text \<open>The destructor cancels the probes in flight by closing their sockets; it counts no failure.\<close>

definition destroyTcpHealthChecker :: "'w tcp_health_env \<Rightarrow> 'w TcpHealthChecker \<Rightarrow> 'w" where
  "destroyTcpHealthChecker env s =
     fold (\<lambda>p. case tp_fd p of None \<Rightarrow> (\<lambda>w. w) | Some fd \<Rightarrow> te_close env fd) (tc_probes s) (tc_world s)"

definition reportHealthChange ::
  "'w tcp_health_env \<Rightarrow> HealthChange \<Rightarrow> ('w TcpHealthChecker, unit) comp" where
  "reportHealthChange env change =
     (case te_change env of
        None \<Rightarrow> returnC ()
      | Some callback \<Rightarrow>
          bindC (sysT (callback change)) (\<lambda>failure. rethrowC failure))"

definition completeBackendProbe ::
  "'w tcp_health_env \<Rightarrow> nat \<Rightarrow> bool \<Rightarrow> string \<Rightarrow> errno \<Rightarrow> time \<Rightarrow> ('w TcpHealthChecker, unit) comp" where
  "completeBackendProbe env i success reason error time =
     thenC (updProbe i (\<lambda>p. p\<lparr>tp_token := 0\<rparr>))
    (bindC (getProbe i) (\<lambda>probe.
     thenC (case tp_fd probe of None \<Rightarrow> returnC () | Some fd \<Rightarrow> actT (te_epollDel env fd))
    (thenC (closeProbeFd env i)
    (thenC (updProbe i (\<lambda>p. p\<lparr>tp_nextProbeTime := time + te_interval env,
                               tp_state := snd (applyProbeResult success (tp_state p))\<rparr>))
           (whenC (fst (applyProbeResult success (tp_state probe)))
              (reportHealthChange env
                 \<lparr>hc_backend = i, hc_from = hs_status (tp_state probe),
                  hc_to = hs_status (snd (applyProbeResult success (tp_state probe))),
                  hc_reason = reason, hc_error = error\<rparr>))))))"

definition startBackendProbe ::
  "'w tcp_health_env \<Rightarrow> nat \<Rightarrow> time \<Rightarrow> ('w TcpHealthChecker, unit) comp" where
  "startBackendProbe env i time =
     bindC (sysT (te_socket env)) (\<lambda>opened.
     thenC (closeProbeFd env i)
    (case opened of
       Inl e \<Rightarrow> completeBackendProbe env i False ''local_error'' e time
     | Inr fd \<Rightarrow>
         thenC (updProbe i (\<lambda>p. p\<lparr>tp_fd := Some fd\<rparr>))
        (bindC (getC (\<lambda>s. tc_endpoints s ! i)) (\<lambda>endpoint.
         bindC (sysT (te_connect env fd endpoint)) (\<lambda>connected.
         case connected of
           None \<Rightarrow> completeBackendProbe env i True ''connected'' 0 time
         | Some error \<Rightarrow>
             if error \<noteq> EINPROGRESS
             then completeBackendProbe env i False
                    (if isLocalResourceError error then ''local_error'' else ''connect_error'')
                    error time
             else bindC (getC tc_nextProbeToken) (\<lambda>token.
               if token = - 1 then throwC (OverflowError ''health token exhausted'')
               else thenC (modifyC (\<lambda>s. s\<lparr>tc_nextProbeToken := token + 1\<rparr>))
                   (thenC (updProbe i (\<lambda>p. p\<lparr>tp_token := token,
                                              tp_probeDeadline := time + te_timeout env\<rparr>))
                   (bindC (sysT (te_epollAdd env fd token)) (\<lambda>added.
                    case added of
                      None \<Rightarrow> returnC ()
                    | Some e \<Rightarrow> completeBackendProbe env i False ''local_error'' e time)))))))))"

text \<open>One pass of the \<open>for\<close> loop of \<open>pollHealthProbes\<close>; \<open>events\<close> are the ready tokens.\<close>

definition pollBackendProbe ::
  "'w tcp_health_env \<Rightarrow> time \<Rightarrow> u64 list \<Rightarrow> nat \<Rightarrow> ('w TcpHealthChecker, unit) comp" where
  "pollBackendProbe env time events i =
     bindC (getProbe i) (\<lambda>probe.
       if tp_token probe \<noteq> 0 \<and> tp_probeDeadline probe \<le> time
       then completeBackendProbe env i False ''timeout'' ETIMEDOUT time
       else if tp_token probe \<noteq> 0 then
         (if tp_token probe \<notin> set events then returnC ()
          else case tp_fd probe of
            None \<Rightarrow> completeBackendProbe env i False ''local_error'' EBADF time
          | Some fd \<Rightarrow>
              bindC (sysT (te_socketError env fd)) (\<lambda>result.
                case result of
                  Inl e \<Rightarrow> completeBackendProbe env i False ''local_error'' e time
                | Inr error \<Rightarrow>
                    completeBackendProbe env i (error = 0)
                      (if error = 0 then ''connected''
                       else if isLocalResourceError error then ''local_error'' else ''connect_error'')
                      error time))
       else if tp_nextProbeTime probe \<le> time then startBackendProbe env i time
       else returnC ())"

definition pollHealthProbes :: "'w tcp_health_env \<Rightarrow> ('w TcpHealthChecker, unit) comp" where
  "pollHealthProbes env =
     bindC (sysT (te_now env)) (\<lambda>time.
     bindC (sysT (te_epollPoll env)) (\<lambda>polled.
       case polled of
         Inl e \<Rightarrow> if e = EINTR then returnC () else throwC (SystemError ''health epoll_wait'' e)
       | Inr events \<Rightarrow>
           if 256 < length events then throwC (LogicError ''health invalid event count'')
           else bindC (getC (\<lambda>s. [0..<length (tc_probes s)])) (\<lambda>indices.
                  forC indices (pollBackendProbe env time events))))"

section \<open>The invariant\<close>

text \<open>
  One probe slot per backend; a probe in flight owns a socket; tokens in flight are pairwise
  different and older than the next token, so a token that was ever revoked can never name a
  later probe.
\<close>

definition checker_inv :: "'w TcpHealthChecker \<Rightarrow> bool" where
  "checker_inv s \<longleftrightarrow>
     length (tc_probes s) = length (tc_endpoints s) \<and> tc_nextProbeToken s \<noteq> 0 \<and>
     (\<forall>i < length (tc_probes s). tp_token (tc_probes s ! i) \<noteq> 0 \<longrightarrow>
        tp_fd (tc_probes s ! i) \<noteq> None \<and> tp_token (tc_probes s ! i) < tc_nextProbeToken s) \<and>
     (\<forall>i j. i < length (tc_probes s) \<longrightarrow> j < length (tc_probes s) \<longrightarrow>
        tp_token (tc_probes s ! i) \<noteq> 0 \<longrightarrow> tp_token (tc_probes s ! i) = tp_token (tc_probes s ! j) \<longrightarrow>
        i = j)"

lemma sysT_iff [simp]:
  "sysT f s = (r, t) \<longleftrightarrow> (\<exists>a w. f (tc_world s) = (a, w) \<and> r = Inr a \<and> t = s\<lparr>tc_world := w\<rparr>)"
  by (auto simp: sysT_def split: prod.splits)

lemma checker_inv_world [simp]: "checker_inv (s\<lparr>tc_world := w\<rparr>) = checker_inv s"
  by (simp add: checker_inv_def)

lemma checker_inv_closed:
  assumes "checker_inv s" and "tp_token p = 0"
  shows "checker_inv (s\<lparr>tc_probes := (tc_probes s)[i := p]\<rparr>)"
  using assms unfolding checker_inv_def by (auto simp: nth_list_update_if)

lemma preserves_sysT [preserves_rules]:
  "(\<And>s w. I s \<Longrightarrow> I (s\<lparr>tc_world := w\<rparr>)) \<Longrightarrow> preserves I (sysT f)"
  by (auto intro!: preservesI)

lemma preserves_actT [preserves_rules]:
  "(\<And>s w. I s \<Longrightarrow> I (s\<lparr>tc_world := w\<rparr>)) \<Longrightarrow> preserves I (actT f)"
  by (auto simp: actT_def intro!: preserves_modify)

text \<open>While a probe is being finished or started, its token is revoked.\<close>

definition idle_inv :: "nat \<Rightarrow> 'w TcpHealthChecker \<Rightarrow> bool" where
  "idle_inv i s \<longleftrightarrow> checker_inv s \<and> (i < length (tc_probes s) \<longrightarrow> tp_token (tc_probes s ! i) = 0)"

lemma idle_inv_world [simp]: "idle_inv i (s\<lparr>tc_world := w\<rparr>) = idle_inv i s"
  by (simp add: idle_inv_def)

lemma idle_invD: "idle_inv i s \<Longrightarrow> checker_inv s"
  by (simp add: idle_inv_def)

lemma preserves_updProbe_idle:
  assumes "\<And>p. tp_token p = 0 \<Longrightarrow> tp_token (f p) = 0"
  shows "preserves (idle_inv i) (updProbe i f)"
proof (rule preservesI)
  fix s r t
  assume inv: "idle_inv i s" and t: "updProbe i f s = (r, t)"
  show "idle_inv i t"
  proof (cases "i < length (tc_probes s)")
    case True
    with inv assms have "tp_token (f (tc_probes s ! i)) = 0" by (simp add: idle_inv_def)
    with inv t show ?thesis
      by (auto simp: idle_inv_def updProbe_def nth_list_update_if intro: checker_inv_closed)
  next
    case False
    with inv t show ?thesis by (simp add: updProbe_def list_update_beyond)
  qed
qed

lemma preserves_closeProbeFd: "preserves (idle_inv i) (closeProbeFd env i)"
  unfolding closeProbeFd_def getProbe_def
  by (intro preserves_rules preserves_updProbe_idle) auto

lemma preserves_reportHealthChange:
  "(\<And>s w. I s \<Longrightarrow> I (s\<lparr>tc_world := w\<rparr>)) \<Longrightarrow> preserves I (reportHealthChange env change)"
  unfolding reportHealthChange_def by (intro preserves_rules) auto

lemma preserves_completeBackendProbe:
  "preserves checker_inv (completeBackendProbe env i success reason error time)"
  unfolding completeBackendProbe_def getProbe_def
proof (rule preserves_then_stronger)
  show "triple checker_inv (updProbe i (\<lambda>p. p\<lparr>tp_token := 0\<rparr>)) (\<lambda>_. idle_inv i) (\<lambda>_. checker_inv)"
    by (rule tripleI) (auto simp: updProbe_def idle_inv_def nth_list_update_if intro: checker_inv_closed)
qed ((intro preserves_rules preserves_updProbe_idle preserves_closeProbeFd
        preserves_reportHealthChange; simp), erule idle_invD)

lemma preserves_completeBackendProbe_idle:
  "preserves (idle_inv i) (completeBackendProbe env i success reason error time)"
  unfolding completeBackendProbe_def getProbe_def
  by (intro preserves_rules preserves_updProbe_idle preserves_closeProbeFd
        preserves_reportHealthChange; simp)

text \<open>Arming probe \<open>i\<close> with the next token.\<close>

lemma checker_inv_arm:
  assumes inv: "checker_inv s" and token: "tc_nextProbeToken s \<noteq> - 1" and fd: "tp_fd p \<noteq> None"
    and p: "tp_token p = tc_nextProbeToken s"
  shows "checker_inv (s\<lparr>tc_nextProbeToken := tc_nextProbeToken s + 1,
                       tc_probes := (tc_probes s)[i := p]\<rparr>)"
  using inv p fd word_inc_neq_0[OF token] unfolding checker_inv_def
  by (auto simp: nth_list_update_if word_le_inc[OF token] dest: order_less_imp_le)

definition open_inv :: "nat \<Rightarrow> nat \<Rightarrow> 'w TcpHealthChecker \<Rightarrow> bool" where
  "open_inv i fd s \<longleftrightarrow> idle_inv i s \<and> (i < length (tc_probes s) \<longrightarrow> tp_fd (tc_probes s ! i) = Some fd)"

lemma open_inv_world [simp]: "open_inv i fd (s\<lparr>tc_world := w\<rparr>) = open_inv i fd s"
  by (simp add: open_inv_def)

lemma open_invD: "open_inv i fd s \<Longrightarrow> idle_inv i s"
  by (simp add: open_inv_def)

lemma triple_complete:
  "(\<And>s. P s \<Longrightarrow> checker_inv s) \<Longrightarrow>
   triple P (completeBackendProbe env i success reason error time) (\<lambda>_. checker_inv) (\<lambda>_. checker_inv)"
  by (rule triple_preserves_weaken[OF preserves_completeBackendProbe])

lemma triple_arm:
  assumes "token \<noteq> - 1"
  shows "triple (\<lambda>s. open_inv i fd s \<and> tc_nextProbeToken s = token)
     (thenC (modifyC (\<lambda>s. s\<lparr>tc_nextProbeToken := token + 1\<rparr>))
        (updProbe i (\<lambda>p. p\<lparr>tp_token := token, tp_probeDeadline := deadline\<rparr>)))
     (\<lambda>_. checker_inv) (\<lambda>_. checker_inv)"
proof (rule tripleI, goal_cases)
  case (1 s a t)
  let ?p = "(tc_probes s ! i)\<lparr>tp_token := token, tp_probeDeadline := deadline\<rparr>"
  from 1 have t: "t = s\<lparr>tc_nextProbeToken := tc_nextProbeToken s + 1,
      tc_probes := (tc_probes s)[i := ?p]\<rparr>"
    by (auto simp: updProbe_def)
  show ?case
  proof (cases "i < length (tc_probes s)")
    case True
    with 1 assms t show ?thesis
      by (auto simp: open_inv_def idle_inv_def intro!: checker_inv_arm)
  next
    case False
    have beyond: "(tc_probes s)[i := p] = (tc_probes s)[length (tc_probes s) := q]" for p q
      using False by (simp add: list_update_beyond)
    let ?q = "?p\<lparr>tp_fd := Some fd\<rparr>"
    have "checker_inv (s\<lparr>tc_nextProbeToken := tc_nextProbeToken s + 1,
        tc_probes := (tc_probes s)[length (tc_probes s) := ?q]\<rparr>)"
      using 1 assms by (intro checker_inv_arm) (auto simp: open_inv_def idle_inv_def)
    with t beyond show ?thesis by metis
  qed
qed (auto simp: updProbe_def comp_defs)

lemma triple_sysT:
  "(\<And>s w. P s \<Longrightarrow> P (s\<lparr>tc_world := w\<rparr>)) \<Longrightarrow> triple P (sysT f) (\<lambda>_. P) E"
  by (rule tripleI) auto

lemma triple_getC: "triple P (getC f) (\<lambda>a s. P s \<and> f s = a) E"
  by (rule tripleI) auto

lemma triple_open:
  "triple (idle_inv i) (updProbe i (\<lambda>p. p\<lparr>tp_fd := Some fd\<rparr>)) (\<lambda>_. open_inv i fd) (\<lambda>_. checker_inv)"
proof (rule tripleI, goal_cases)
  case (1 s a t)
  from 1 have "idle_inv i t"
    by (intro preservesD[OF preserves_updProbe_idle, OF _ 1]) simp
  with 1 show ?case by (auto simp: open_inv_def updProbe_def nth_list_update_if)
qed (auto simp: updProbe_def)

lemma triple_startBackendProbe:
  "triple (idle_inv i) (startBackendProbe env i time) (\<lambda>_. checker_inv) (\<lambda>_. checker_inv)"
proof -
  have close: "triple (idle_inv i) (closeProbeFd env i) (\<lambda>_. idle_inv i) (\<lambda>_. checker_inv)"
    by (rule triple_preserves_weaken[OF preserves_closeProbeFd]) (auto dest: idle_invD)
  have arm: "triple (open_inv i fd)
     (bindC (getC tc_nextProbeToken) (\<lambda>token.
        if token = - 1 then throwC (OverflowError ''health token exhausted'')
        else thenC (modifyC (\<lambda>s. s\<lparr>tc_nextProbeToken := token + 1\<rparr>))
            (thenC (updProbe i (\<lambda>p. p\<lparr>tp_token := token, tp_probeDeadline := time + te_timeout env\<rparr>))
            (bindC (sysT (te_epollAdd env fd token)) (\<lambda>added.
             case added of
               None \<Rightarrow> returnC ()
             | Some e \<Rightarrow> completeBackendProbe env i False ''local_error'' e time)))))
     (\<lambda>_. checker_inv) (\<lambda>_. checker_inv)" for fd
    unfolding thenC_assoc
    by (intro triple_bind[OF triple_getC] triple_if triple_then[OF triple_arm]
          triple_bind[OF triple_sysT] triple_case_option triple_complete
          triple_preserves_weaken[OF preserves_throw, where J = checker_inv]
          triple_preserves_weaken[OF preserves_return, where J = checker_inv])
       (auto simp: open_inv_def idle_inv_def)
  have get: "triple (open_inv i fd) (getC f) (\<lambda>_. open_inv i fd) (\<lambda>_. checker_inv)"
    for fd and f :: "'a TcpHealthChecker \<Rightarrow> Endpoint"
    by (rule tripleI) auto
  show ?thesis
    unfolding startBackendProbe_def
    apply (rule triple_bind[OF triple_sysT], simp)
    apply (rule triple_then[OF close])
    apply (rule triple_case_sum)
     apply (rule triple_complete, erule idle_invD)
    apply (rule triple_then[OF triple_open])
    apply (rule triple_bind[OF get])
    apply (rule triple_bind[OF triple_sysT], simp)
    apply (intro triple_case_option triple_if triple_complete arm; blast dest: open_invD idle_invD)
    done
qed

lemma preserves_pollBackendProbe: "preserves checker_inv (pollBackendProbe env time events i)"
proof (rule preservesI)
  fix s r t
  assume inv: "checker_inv s" and run: "pollBackendProbe env time events i s = (r, t)"
  let ?p = "tc_probes s ! i"
  have finish: "preserves checker_inv
     (if tp_token probe \<noteq> 0 \<and> tp_probeDeadline probe \<le> time
      then completeBackendProbe env i False ''timeout'' ETIMEDOUT time
      else if tp_token probe \<noteq> 0 then
        (if tp_token probe \<notin> set events then returnC ()
         else case tp_fd probe of
           None \<Rightarrow> completeBackendProbe env i False ''local_error'' EBADF time
         | Some fd \<Rightarrow>
             bindC (sysT (te_socketError env fd)) (\<lambda>result.
               case result of
                 Inl e \<Rightarrow> completeBackendProbe env i False ''local_error'' e time
               | Inr error \<Rightarrow>
                   completeBackendProbe env i (error = 0)
                     (if error = 0 then ''connected''
                      else if isLocalResourceError error then ''local_error'' else ''connect_error'')
                     error time))
      else returnC ())" for probe
    by (intro preserves_rules preserves_completeBackendProbe) simp_all
  show "checker_inv t"
  proof (cases "tp_token ?p = 0 \<and> tp_nextProbeTime ?p \<le> time")
    case True
    with inv have "idle_inv i s" by (simp add: idle_inv_def)
    moreover from run True have "startBackendProbe env i time s = (r, t)"
      by (simp add: pollBackendProbe_def getProbe_def bindC_def getC_def)
    ultimately show ?thesis
      using triple_Inr[OF triple_startBackendProbe] triple_Inl[OF triple_startBackendProbe]
      by (cases r) blast+
  next
    case False
    with run have "(\<lambda>p. if tp_token p \<noteq> 0 then (pollBackendProbe env time events i) else returnC ()) ?p s = (r, t)"
      by (auto simp: pollBackendProbe_def getProbe_def bindC_def getC_def)
    with preservesD[OF finish[of ?p] inv] show ?thesis
      by (auto simp: pollBackendProbe_def getProbe_def bindC_def getC_def split: if_splits)
  qed
qed

lemma preserves_pollHealthProbes: "preserves checker_inv (pollHealthProbes env)"
  unfolding pollHealthProbes_def
  by (intro preserves_rules preserves_pollBackendProbe) simp_all

section \<open>What one poll does to each backend\<close>

definition finished_probe :: "'w tcp_health_env \<Rightarrow> time \<Rightarrow> bool \<Rightarrow> TcpProbe \<Rightarrow> TcpProbe" where
  "finished_probe env time success p = p\<lparr>tp_token := 0, tp_fd := None,
     tp_nextProbeTime := time + te_interval env,
     tp_state := snd (applyProbeResult success (tp_state p))\<rparr>"

text \<open>
  The specification of one poll at \<open>time\<close> for one backend: a probe whose deadline passed fails,
  whatever the events say; a probe in flight waits for an event with its own token; an idle
  probe starts when it is due and may finish at once.
\<close>

definition probe_poll_spec ::
  "'w tcp_health_env \<Rightarrow> time \<Rightarrow> u64 list \<Rightarrow> TcpProbe \<Rightarrow> TcpProbe \<Rightarrow> bool" where
  "probe_poll_spec env time events p p' \<longleftrightarrow>
     (if tp_token p \<noteq> 0 \<and> tp_probeDeadline p \<le> time then p' = finished_probe env time False p
      else if tp_token p \<noteq> 0 then
        (if tp_token p \<in> set events then \<exists>success. p' = finished_probe env time success p else p' = p)
      else if tp_nextProbeTime p \<le> time then
        tp_nextProbeTime p' = time + te_interval env \<and> tp_token p' = 0 \<and> tp_fd p' = None \<and>
          (\<exists>success. tp_state p' = snd (applyProbeResult success (tp_state p))) \<or>
        tp_token p' \<noteq> 0 \<and> tp_fd p' \<noteq> None \<and> tp_probeDeadline p' = time + te_timeout env \<and>
          tp_state p' = tp_state p
      else p' = p)"

lemma reportHealthChange_probes:
  "reportHealthChange env change s = (r, t) \<Longrightarrow> tc_probes t = tc_probes s"
  by (auto simp: reportHealthChange_def bindC_def rethrowC_def split: option.splits prod.splits sum.splits)

lemma closeProbeFd_run:
  "i < length (tc_probes s) \<Longrightarrow> closeProbeFd env i s = (r, t) \<Longrightarrow>
   r = Inr () \<and> tc_probes t = (tc_probes s)[i := (tc_probes s ! i)\<lparr>tp_fd := None\<rparr>] \<and>
   tc_endpoints t = tc_endpoints s \<and> tc_nextProbeToken t = tc_nextProbeToken s"
  by (cases "tp_fd (tc_probes s ! i)")
     (auto simp: closeProbeFd_def getProbe_def updProbe_def actT_def comp_defs
        intro!: list_update_same_conv[THEN iffD2, symmetric])

lemma completeBackendProbe_probes:
  assumes i: "i < length (tc_probes s)"
    and run: "completeBackendProbe env i success reason error time s = (Inr (), t)"
  shows "tc_probes t = (tc_probes s)[i := finished_probe env time success (tc_probes s ! i)]"
proof -
  let ?p = "(tc_probes s ! i)\<lparr>tp_token := 0\<rparr>"
  define u where "u = s\<lparr>tc_probes := (tc_probes s)[i := ?p], tc_world :=
      (case tp_fd (tc_probes s ! i) of None \<Rightarrow> tc_world s | Some fd \<Rightarrow> te_epollDel env fd (tc_world s))\<rparr>"
  let ?finish = "\<lambda>v. v\<lparr>tc_probes := (tc_probes v)[i := (tc_probes v ! i)\<lparr>
      tp_nextProbeTime := time + te_interval env,
      tp_state := snd (applyProbeResult success (tp_state (tc_probes v ! i)))\<rparr>]\<rparr>"
  from u_def have u: "tc_probes u = (tc_probes s)[i := ?p]" by simp
  from run i obtain v where v: "closeProbeFd env i u = (Inr (), v)"
    and t: "whenC (fst (applyProbeResult success (tp_state ?p)))
        (reportHealthChange env \<lparr>hc_backend = i, hc_from = hs_status (tp_state ?p),
          hc_to = hs_status (snd (applyProbeResult success (tp_state ?p))),
          hc_reason = reason, hc_error = error\<rparr>) (?finish v) = (Inr (), t)"
    unfolding completeBackendProbe_def getProbe_def updProbe_def actT_def u_def
    by (cases "tp_fd (tc_probes s ! i)") (auto simp: run_simps)
  from t have x: "tc_probes t = tc_probes (?finish v)"
    by (auto simp: whenC_def split: if_splits dest: reportHealthChange_probes)
  from closeProbeFd_run[OF _ v] u i
  have "tc_probes v = (tc_probes s)[i := ?p\<lparr>tp_fd := None\<rparr>]" by simp
  with x i show ?thesis by (simp add: finished_probe_def)
qed

lemma bindC_sysT:
  "f (tc_world s) = (a, w) \<Longrightarrow> bindC (sysT f) g s = g a (s\<lparr>tc_world := w\<rparr>)"
  by (simp add: sysT_def bindC_def)

definition started_or_finished :: "'w tcp_health_env \<Rightarrow> time \<Rightarrow> TcpProbe \<Rightarrow> TcpProbe \<Rightarrow> bool" where
  "started_or_finished env time p p' \<longleftrightarrow>
     tp_nextProbeTime p' = time + te_interval env \<and> tp_token p' = 0 \<and> tp_fd p' = None \<and>
       (\<exists>success. tp_state p' = snd (applyProbeResult success (tp_state p))) \<or>
     tp_token p' \<noteq> 0 \<and> tp_fd p' \<noteq> None \<and> tp_probeDeadline p' = time + te_timeout env \<and>
       tp_state p' = tp_state p"

lemma completeBackendProbe_finished:
  assumes "i < length xs" and "tc_probes s = xs[i := q]" and "tp_state q = tp_state (xs ! i)"
    and "completeBackendProbe env i success reason error time s = (Inr (), t)"
  shows "\<exists>p'. started_or_finished env time (xs ! i) p' \<and> tc_probes t = xs[i := p']"
proof -
  have "tc_probes t = xs[i := finished_probe env time success q]"
    using completeBackendProbe_probes[OF _ assms(4)] assms(1,2) by simp
  moreover have "started_or_finished env time (xs ! i) (finished_probe env time success q)"
    using assms(3) by (auto simp: started_or_finished_def finished_probe_def)
  ultimately show ?thesis by blast
qed

lemma startBackendProbe_probes:
  assumes inv: "checker_inv s" and i: "i < length (tc_probes s)"
    and run: "startBackendProbe env i time s = (Inr (), t)"
  shows "\<exists>p'. started_or_finished env time (tc_probes s ! i) p' \<and> tc_probes t = (tc_probes s)[i := p']"
proof -
  let ?xs = "tc_probes s"
  note fin = completeBackendProbe_finished[OF i]
  obtain opened w where sock: "te_socket env (tc_world s) = (opened, w)" by fastforce
  obtain r u where close: "closeProbeFd env i (s\<lparr>tc_world := w\<rparr>) = (r, u)" by fastforce
  from closeProbeFd_run[OF _ this] i close
  have u: "closeProbeFd env i (s\<lparr>tc_world := w\<rparr>) = (Inr (), u)"
    and pu: "tc_probes u = ?xs[i := (?xs ! i)\<lparr>tp_fd := None\<rparr>]" "tc_nextProbeToken u = tc_nextProbeToken s"
    by simp_all
  note start = run[unfolded startBackendProbe_def bindC_sysT[of "te_socket env", OF sock]]
  show ?thesis
  proof (cases opened)
    case (Inl e)
    with start u have "completeBackendProbe env i False ''local_error'' e time u = (Inr (), t)" by simp
    from fin[OF pu(1) _ this] show ?thesis by simp
  next
    case (Inr fd)
    define v where "v = u\<lparr>tc_probes := ?xs[i := (?xs ! i)\<lparr>tp_fd := Some fd\<rparr>]\<rparr>"
    with pu i have v: "updProbe i (\<lambda>p. p\<lparr>tp_fd := Some fd\<rparr>) u = (Inr (), v)"
      by (simp add: updProbe_def)
    obtain conn_result w' where conn: "te_connect env fd (tc_endpoints v ! i) (tc_world v) = (conn_result, w')"
      by fastforce
    define x where "x = v\<lparr>tc_world := w'\<rparr>"
    have x: "tc_probes x = ?xs[i := (?xs ! i)\<lparr>tp_fd := Some fd\<rparr>]" "tc_nextProbeToken x = tc_nextProbeToken s"
      by (simp_all add: x_def v_def pu)
    note step = start[unfolded Inr sum.case thenC_run[of "closeProbeFd env i", OF u]
        thenC_run[of "updProbe i _", OF v] bindC_getC
        bindC_sysT[of "te_connect env fd (tc_endpoints v ! i)", OF conn] x_def[symmetric]]
    then obtain success reason error where
      "completeBackendProbe env i success reason error time x = (Inr (), t) \<or>
       thenC (modifyC (\<lambda>s. s\<lparr>tc_nextProbeToken := tc_nextProbeToken x + 1\<rparr>))
         (thenC (updProbe i (\<lambda>p. p\<lparr>tp_token := tc_nextProbeToken x,
                                    tp_probeDeadline := time + te_timeout env\<rparr>))
         (bindC (sysT (te_epollAdd env fd (tc_nextProbeToken x))) (\<lambda>added.
          case added of
            None \<Rightarrow> returnC ()
          | Some e \<Rightarrow> completeBackendProbe env i False ''local_error'' e time))) x = (Inr (), t)"
      by (cases conn_result) (auto simp: run_simps simp del: thenC_Inr_iff split: if_splits)
    then show ?thesis
    proof (elim disjE)
      show ?thesis if "completeBackendProbe env i success reason error time x = (Inr (), t)"
        using fin[OF x(1) _ that] by simp
    next
      let ?p = "(?xs ! i)\<lparr>tp_fd := Some fd, tp_token := tc_nextProbeToken s,
                           tp_probeDeadline := time + te_timeout env\<rparr>"
      assume arm: "thenC (modifyC (\<lambda>s. s\<lparr>tc_nextProbeToken := tc_nextProbeToken x + 1\<rparr>))
         (thenC (updProbe i (\<lambda>p. p\<lparr>tp_token := tc_nextProbeToken x,
                                    tp_probeDeadline := time + te_timeout env\<rparr>))
         (bindC (sysT (te_epollAdd env fd (tc_nextProbeToken x))) (\<lambda>added.
          case added of
            None \<Rightarrow> returnC ()
          | Some e \<Rightarrow> completeBackendProbe env i False ''local_error'' e time))) x = (Inr (), t)"
      let ?y = "\<lambda>w. x\<lparr>tc_nextProbeToken := tc_nextProbeToken s + 1, tc_probes := ?xs[i := ?p], tc_world := w\<rparr>"
      from arm i x obtain w added where added: "(case added of None \<Rightarrow> returnC ()
          | Some e \<Rightarrow> completeBackendProbe env i False ''local_error'' e time) (?y w) = (Inr (), t)"
        by (auto simp: updProbe_def)
      have y: "tc_probes (?y w) = ?xs[i := ?p]" by simp
      show ?thesis
      proof (cases added)
        case None
        have "started_or_finished env time (?xs ! i) ?p"
          using inv by (simp add: started_or_finished_def checker_inv_def)
        with added y None show ?thesis by auto
      next
        case (Some e)
        with fin[OF y, of env False "''local_error''" e time t] added show ?thesis by simp
      qed
    qed
  qed
qed

lemma pollBackendProbe_spec:
  assumes inv: "checker_inv s" and i: "i < length (tc_probes s)"
    and run: "pollBackendProbe env time events i s = (Inr (), t)"
  shows "\<exists>p'. probe_poll_spec env time events (tc_probes s ! i) p' \<and> tc_probes t = (tc_probes s)[i := p']"
proof -
  let ?p = "tc_probes s ! i"
  note complete = completeBackendProbe_probes[OF i]
  note poll = run[unfolded pollBackendProbe_def getProbe_def bindC_getC]
  consider (timeout) "tp_token ?p \<noteq> 0" "tp_probeDeadline ?p \<le> time"
    | (silent) "tp_token ?p \<noteq> 0" "\<not> tp_probeDeadline ?p \<le> time" "tp_token ?p \<notin> set events"
    | (ready) "tp_token ?p \<noteq> 0" "\<not> tp_probeDeadline ?p \<le> time" "tp_token ?p \<in> set events"
    | (due) "tp_token ?p = 0" "tp_nextProbeTime ?p \<le> time"
    | (idle) "tp_token ?p = 0" "\<not> tp_nextProbeTime ?p \<le> time"
    by blast
  then show ?thesis
  proof cases
    case timeout
    with poll complete show ?thesis by (auto simp: probe_poll_spec_def)
  next
    case silent
    with poll show ?thesis by (auto simp: probe_poll_spec_def)
  next
    case ready
    with inv i obtain fd where fd: "tp_fd ?p = Some fd" by (auto simp: checker_inv_def)
    obtain result w where err: "te_socketError env fd (tc_world s) = (result, w)" by fastforce
    from poll ready fd obtain success reason error where
      "completeBackendProbe env i success reason error time (s\<lparr>tc_world := w\<rparr>) = (Inr (), t)"
      by (cases result) (auto simp: bindC_sysT[of "te_socketError env fd", OF err] simp del: bindC_Inr_iff)
    from completeBackendProbe_probes[OF _ this] i ready show ?thesis
      by (auto simp: probe_poll_spec_def)
  next
    case due
    with poll have "startBackendProbe env i time s = (Inr (), t)" by simp
    from startBackendProbe_probes[OF inv i this] due show ?thesis
      by (simp add: probe_poll_spec_def started_or_finished_def)
  next
    case idle
    with poll show ?thesis by (auto simp: probe_poll_spec_def)
  qed
qed

lemma newTcpHealthChecker_inv:
  "newTcpHealthChecker env endpoints epollError w = Inr s \<Longrightarrow> checker_inv s"
  by (auto simp: newTcpHealthChecker_def checker_inv_def fresh_probe_def split: if_splits option.splits)

text \<open>The set of probed endpoints never changes.\<close>

lemma preserves_updProbe_endpoints: "preserves (\<lambda>s. tc_endpoints s = eps) (updProbe i f)"
  unfolding updProbe_def by (rule preserves_modify) simp

lemma preserves_complete_endpoints:
  "preserves (\<lambda>s. tc_endpoints s = eps) (completeBackendProbe env i success reason error time)"
  unfolding completeBackendProbe_def getProbe_def closeProbeFd_def
  by (intro preserves_rules preserves_updProbe_endpoints preserves_reportHealthChange; simp)

lemma preserves_start_endpoints:
  "preserves (\<lambda>s. tc_endpoints s = eps) (startBackendProbe env i time)"
  unfolding startBackendProbe_def closeProbeFd_def getProbe_def
  by (intro preserves_rules preserves_updProbe_endpoints preserves_complete_endpoints preserves_modify; simp)

lemma preserves_poll_endpoints: "preserves (\<lambda>s. tc_endpoints s = eps) (pollHealthProbes env)"
  unfolding pollHealthProbes_def pollBackendProbe_def getProbe_def
  by (intro preserves_rules preserves_complete_endpoints preserves_start_endpoints; simp)

section \<open>Properties\<close>

text \<open>
  Claim C33. From the constructor on, every poll of the TCP checker, even one that throws,
  keeps its invariant: a probe in flight owns a socket and a token of its own, older than the
  next token to be issued.
\<close>

theorem poll_keeps_checker_inv:
  assumes "newTcpHealthChecker env endpoints epollError w = Inr s"
  shows "checker_inv (((\<lambda>s. snd (pollHealthProbes env s)) ^^ n) s)"
proof (induction n)
  case 0
  then show ?case using newTcpHealthChecker_inv[OF assms] by simp
next
  case (Suc n)
  then show ?case using preserves_snd[OF preserves_pollHealthProbes] by simp
qed

text \<open>
  Claim C32. A poll that returns treats every backend by the specification: a deadline
  that passed fails the probe even when its event is ready, an event counts only for the probe
  whose token it carries, and a due backend either finishes at once or is armed with a deadline.
\<close>

theorem poll_probe_spec:
  assumes "checker_inv s"
    and "te_now env (tc_world s) = (time, w)" and "te_epollPoll env w = (Inr events, w')"
    and "pollHealthProbes env s = (Inr (), t)"
  shows "length (tc_probes t) = length (tc_probes s) \<and>
    (\<forall>i < length (tc_probes s). probe_poll_spec env time events (tc_probes s ! i) (tc_probes t ! i))"
proof -
  let ?s = "s\<lparr>tc_world := w'\<rparr>"
  from assms have run: "forC [0..<length (tc_probes ?s)] (pollBackendProbe env time events) ?s = (Inr (), t)"
    by (auto simp: pollHealthProbes_def split: if_splits)
  have "length (tc_probes t) = length (tc_probes ?s) \<and>
      (\<forall>i < length (tc_probes ?s). if i \<in> set [0..<length (tc_probes ?s)]
         then probe_poll_spec env time events (tc_probes ?s ! i) (tc_probes t ! i)
         else tc_probes t ! i = tc_probes ?s ! i)"
  proof (rule for_pointwise[OF _ run, where I = checker_inv])
    fix i u v
    assume "checker_inv u" "i < length (tc_probes u)" "pollBackendProbe env time events i u = (Inr (), v)"
    then show "checker_inv v \<and>
        (\<exists>p'. probe_poll_spec env time events (tc_probes u ! i) p' \<and> tc_probes v = (tc_probes u)[i := p'])"
      using pollBackendProbe_spec preservesD[OF preserves_pollBackendProbe] by blast
  qed (use assms(1) in auto)
  then show ?thesis by simp
qed

text \<open>A network on which every connect stays in progress; the world is a clock in seconds.\<close>

definition silent_net :: "nat tcp_health_env" where
  "silent_net = \<lparr>te_interval = seconds 1, te_timeout = ms 500,
     te_now = \<lambda>w. (seconds (int w), w + 1), te_socket = \<lambda>w. (Inr 7, w),
     te_connect = \<lambda>fd e w. (Some EINPROGRESS, w), te_socketError = \<lambda>fd w. (Inr 0, w),
     te_epollAdd = \<lambda>fd token w. (None, w), te_epollDel = \<lambda>fd w. w, te_close = \<lambda>fd w. w,
     te_epollPoll = \<lambda>w. (Inr [], w), te_change = None, te_stderr = \<lambda>m w. w\<rparr>"

definition silent_checker :: "nat TcpHealthChecker" where
  "silent_checker = \<lparr>tc_endpoints = [\<lparr>ep_address = (10, 0, 0, 1), ep_port = 80\<rparr>],
     tc_probes = [fresh_probe], tc_nextProbeToken = 1, tc_world = 0\<rparr>"

lemma silent_checker_new:
  "newTcpHealthChecker silent_net [\<lparr>ep_address = (10, 0, 0, 1), ep_port = 80\<rparr>] None 0 = Inr silent_checker"
  by (simp add: newTcpHealthChecker_def silent_net_def silent_checker_def)

lemma silent_poll: "fst (pollHealthProbes silent_net silent_checker) = Inr ()"
  by (simp add: pollHealthProbes_def silent_checker_def silent_net_def comp_defs sysT_def
        pollBackendProbe_def getProbe_def updProbe_def startBackendProbe_def closeProbeFd_def
        fresh_probe_def)

theorem poll_keeps_checker_inv_witness:
  "checker_inv (((\<lambda>s. snd (pollHealthProbes silent_net s)) ^^ 3) silent_checker)"
  by (rule poll_keeps_checker_inv[OF silent_checker_new])

theorem poll_probe_spec_witness:
  "probe_poll_spec silent_net 0 [] fresh_probe
     (tc_probes (snd (pollHealthProbes silent_net silent_checker)) ! 0)"
proof -
  have "pollHealthProbes silent_net silent_checker = (Inr (), snd (pollHealthProbes silent_net silent_checker))"
    using silent_poll by (metis prod.collapse)
  from poll_probe_spec[OF newTcpHealthChecker_inv[OF silent_checker_new] _ _ this]
  show ?thesis by (simp add: silent_net_def silent_checker_def)
qed

end
