(* ===== verification/Metrics.thy ===== *)
theory Metrics
  imports Config Statistics
begin

text \<open>
  Counters and their output: \<open>src/metrics/Metrics.h\<close> and
  \<open>src/metrics/Metrics.cpp\<close>. The collector counts saturating 64-bit totals and the live
  session gauge; the output emits one line per snapshot and switches itself off on failure.
\<close>

section \<open>Data\<close>

datatype BackendHealth = kDisabled | kUnknown | kHealthy | kUnhealthy

record BackendHealthSnapshot =
  bh_health :: BackendHealth
  bh_eligible :: bool

record MetricsSnapshot =
  ms_protocol :: Protocol
  ms_seq :: u64
  ms_uptimeMs :: u64
  ms_sessionsCreatedTotal :: u64
  ms_sessionsClosedTotal :: u64
  ms_sessionsActive :: u64
  ms_bytesC2bTotal :: u64
  ms_bytesB2cTotal :: u64
  ms_datagramsC2bTotal :: u64
  ms_datagramsB2cTotal :: u64
  ms_rejectedTotal :: u64
  ms_droppedDatagramsTotal :: u64
  ms_errorsTotal :: u64
  ms_timeoutsTotal :: u64
  ms_counterSaturated :: bool
  ms_backendCount :: nat
  ms_backends :: "BackendHealthSnapshot list"

section \<open>The collector\<close>

definition default_backend_health :: BackendHealthSnapshot where
  "default_backend_health = \<lparr>bh_health = kDisabled, bh_eligible = True\<rparr>"

text \<open>\<open>addSaturatingCounter\<close>: the new value, and whether this call saturated it.\<close>

definition addSaturatingCounter :: "u64 \<Rightarrow> u64 \<Rightarrow> bool \<Rightarrow> u64 \<times> bool" where
  "addSaturatingCounter value incrementAmount saturated =
     (if (- 1) - value \<le> incrementAmount then (- 1, True)
      else (value + incrementAmount, saturated))"

definition newMetricsCollector :: "Protocol \<Rightarrow> nat \<Rightarrow> exn + MetricsSnapshot" where
  "newMetricsCollector protocol backendCount =
     (if 256 < backendCount \<or> backendCount = 0 then Inl (InvalidArgument ''invalid metrics collector'')
      else Inr \<lparr>ms_protocol = protocol, ms_seq = 0, ms_uptimeMs = 0, ms_sessionsCreatedTotal = 0,
             ms_sessionsClosedTotal = 0, ms_sessionsActive = 0, ms_bytesC2bTotal = 0,
             ms_bytesB2cTotal = 0, ms_datagramsC2bTotal = 0, ms_datagramsB2cTotal = 0,
             ms_rejectedTotal = 0, ms_droppedDatagramsTotal = 0, ms_errorsTotal = 0,
             ms_timeoutsTotal = 0, ms_counterSaturated = False, ms_backendCount = backendCount,
             ms_backends = replicate 256 default_backend_health\<rparr>)"

text \<open>
  \<open>incrementCounter\<close> adds to one counter of the snapshot; the counter is given by its getter
  and its setter.
\<close>

definition incrementCounter ::
  "(MetricsSnapshot \<Rightarrow> u64) \<Rightarrow> ((u64 \<Rightarrow> u64) \<Rightarrow> MetricsSnapshot \<Rightarrow> MetricsSnapshot) \<Rightarrow> u64 \<Rightarrow>
   MetricsSnapshot \<Rightarrow> MetricsSnapshot" where
  "incrementCounter get upd incrementAmount d =
     (case addSaturatingCounter (get d) incrementAmount (ms_counterSaturated d) of
        (value, saturated) \<Rightarrow> (upd (\<lambda>_. value) d)\<lparr>ms_counterSaturated := saturated\<rparr>)"

definition recordStatEvent :: "StatEvent \<Rightarrow> MetricsSnapshot \<Rightarrow> bool \<times> MetricsSnapshot" where
  "recordStatEvent event d = (case se_kind event of
     kCreated \<Rightarrow>
       if se_amount event \<noteq> 1 \<or> 1024 \<le> ms_sessionsActive d then (False, d)
       else (True, incrementCounter ms_sessionsCreatedTotal ms_sessionsCreatedTotal_update (se_amount event)
              (d\<lparr>ms_sessionsActive := ms_sessionsActive d + 1\<rparr>))
   | kClosed \<Rightarrow>
       if se_amount event \<noteq> 1 \<or> ms_sessionsActive d = 0 then (False, d)
       else (True, incrementCounter ms_sessionsClosedTotal ms_sessionsClosedTotal_update (se_amount event)
              (d\<lparr>ms_sessionsActive := ms_sessionsActive d - 1\<rparr>))
   | kBytesC2b \<Rightarrow> (True, incrementCounter ms_bytesC2bTotal ms_bytesC2bTotal_update (se_amount event) d)
   | kBytesB2c \<Rightarrow> (True, incrementCounter ms_bytesB2cTotal ms_bytesB2cTotal_update (se_amount event) d)
   | kDatagramC2b \<Rightarrow>
       if ms_protocol d \<noteq> kUdp then (False, d)
       else (True, incrementCounter ms_datagramsC2bTotal ms_datagramsC2bTotal_update (se_amount event) d)
   | kDatagramB2c \<Rightarrow>
       if ms_protocol d \<noteq> kUdp then (False, d)
       else (True, incrementCounter ms_datagramsB2cTotal ms_datagramsB2cTotal_update (se_amount event) d)
   | kRejected \<Rightarrow> (True, incrementCounter ms_rejectedTotal ms_rejectedTotal_update (se_amount event) d)
   | kDropped \<Rightarrow>
       if ms_protocol d \<noteq> kUdp then (False, d)
       else (True, incrementCounter ms_droppedDatagramsTotal ms_droppedDatagramsTotal_update
                     (se_amount event) d)
   | kError \<Rightarrow> (True, incrementCounter ms_errorsTotal ms_errorsTotal_update (se_amount event) d)
   | kTimeout \<Rightarrow> (True, incrementCounter ms_timeoutsTotal ms_timeoutsTotal_update (se_amount event) d))"

section \<open>The line format\<close>

definition backendHealthName :: "BackendHealth \<Rightarrow> string" where
  "backendHealthName state = (case state of kDisabled \<Rightarrow> ''disabled'' | kUnknown \<Rightarrow> ''Unknown''
     | kHealthy \<Rightarrow> ''Healthy'' | kUnhealthy \<Rightarrow> ''Unhealthy'')"

definition appendCounterField :: "string \<Rightarrow> string \<Rightarrow> u64 \<Rightarrow> string" where
  "appendCounterField line key value = line @ '',\"'' @ key @ ''\":'' @ dec_string (unat value)"

fun backend_entries :: "nat \<Rightarrow> BackendHealthSnapshot list \<Rightarrow> string" where
  "backend_entries i [] = []"
| "backend_entries i (b # bs) =
     (if i = 0 then [] else '','') @ ''{\"index\":'' @ dec_string i @ '',\"health\":\"'' @
     backendHealthName (bh_health b) @ ''\",\"eligible\":'' @
     (if bh_eligible b then ''true'' else ''false'') @ ''}'' @ backend_entries (Suc i) bs"

definition counter_fields :: "MetricsSnapshot \<Rightarrow> (string \<times> u64) list" where
  "counter_fields d =
     [(''sessions_created_total'', ms_sessionsCreatedTotal d),
      (''sessions_closed_total'', ms_sessionsClosedTotal d),
      (''sessions_active'', ms_sessionsActive d),
      (''bytes_c2b_total'', ms_bytesC2bTotal d),
      (''bytes_b2c_total'', ms_bytesB2cTotal d),
      (''datagrams_c2b_total'', ms_datagramsC2bTotal d),
      (''datagrams_b2c_total'', ms_datagramsB2cTotal d),
      (''rejected_total'', ms_rejectedTotal d),
      (''dropped_datagrams_total'', ms_droppedDatagramsTotal d),
      (''errors_total'', ms_errorsTotal d),
      (''timeouts_total'', ms_timeoutsTotal d)]"

definition snapshot_head :: "MetricsSnapshot \<Rightarrow> string \<Rightarrow> string" where
  "snapshot_head d phase =
     ''metrics {\"schema\":1,\"seq\":'' @ dec_string (unat (ms_seq d)) @ '',\"phase\":\"'' @ phase @
     ''\",\"protocol\":\"'' @ (if ms_protocol d = kTcp then ''tcp'' else ''udp'') @
     ''\",\"uptime_ms\":'' @ dec_string (unat (ms_uptimeMs d))"

definition snapshot_line :: "MetricsSnapshot \<Rightarrow> string \<Rightarrow> string" where
  "snapshot_line d phase =
     foldl (\<lambda>line (key, value). appendCounterField line key value) (snapshot_head d phase)
       (counter_fields d) @
     (if ms_counterSaturated d then '',\"counter_saturated\":true'' else '',\"counter_saturated\":false'') @
     '',\"backends\":['' @ backend_entries 0 (take (ms_backendCount d) (ms_backends d)) @ '']}'' @ [CHR 0x0A]"

definition formatMetricsSnapshot :: "MetricsSnapshot \<Rightarrow> string \<Rightarrow> exn + string" where
  "formatMetricsSnapshot d phase =
     (if 256 < ms_backendCount d \<or> phase \<notin> {''ready'', ''periodic'', ''final'', ''error''}
      then Inl (InvalidArgument ''invalid metrics snapshot'')
      else if 32768 < length (snapshot_line d phase) then Inl (LengthError ''metrics line too large'')
      else Inr (snapshot_line d phase))"

section \<open>The output\<close>

record 'w MetricsOutput =
  mo_collector :: MetricsSnapshot
  mo_startTime :: time
  mo_nextSnapshotTime :: time
  mo_seq :: u64
  mo_readyEmitted :: bool
  mo_finalized :: bool
  mo_enabled :: bool
  mo_world :: 'w

text \<open>
  The clock, the health provider, the optional injected formatter and the writer. The writer
  answers with the number of bytes it took, negative on failure.
\<close>

record 'w metrics_env =
  me_now :: "'w \<Rightarrow> (exn + time) \<times> 'w"
  me_provider :: "BackendHealthSnapshot list \<Rightarrow> 'w \<Rightarrow> (exn + BackendHealthSnapshot list) \<times> 'w"
  me_formatter :: "(MetricsSnapshot \<Rightarrow> string \<Rightarrow> 'w \<Rightarrow> (exn + string) \<times> 'w) option"
  me_writer :: "string \<Rightarrow> 'w \<Rightarrow> (exn + int) \<times> 'w"

text \<open>A call of the environment that may throw.\<close>

definition callM :: "('w \<Rightarrow> (exn + 'a) \<times> 'w) \<Rightarrow> ('w MetricsOutput, 'a) comp" where
  "callM f s = (case f (mo_world s) of (r, w) \<Rightarrow> (r, s\<lparr>mo_world := w\<rparr>))"

definition disable_output :: "('w MetricsOutput, unit) comp" where
  "disable_output = modifyC (\<lambda>s. s\<lparr>mo_enabled := False\<rparr>)"

text \<open>\<open>duration_cast<milliseconds>\<close> truncates toward zero.\<close>

definition to_ms :: "time \<Rightarrow> int" where
  "to_ms t = sgn t * (\<bar>t\<bar> div 1000000)"

definition newMetricsOutput :: "'w metrics_env \<Rightarrow> MetricsSnapshot \<Rightarrow> 'w \<Rightarrow> (exn + 'w MetricsOutput) \<times> 'w" where
  "newMetricsOutput env collector w = (case me_now env w of
     (Inl e, w') \<Rightarrow> (Inl e, w')
   | (Inr t, w') \<Rightarrow> (Inr \<lparr>mo_collector = collector, mo_startTime = t, mo_nextSnapshotTime = 0, mo_seq = 0,
        mo_readyEmitted = False, mo_finalized = False, mo_enabled = True, mo_world = w'\<rparr>, w'))"

definition emitSnapshot :: "'w metrics_env \<Rightarrow> string \<Rightarrow> ('w MetricsOutput, unit) comp" where
  "emitSnapshot env phase =
     bindC (getC mo_enabled) (\<lambda>enabled. if \<not> enabled then returnC () else
     catchC
       (bindC (getC (\<lambda>s. addSaturatingCounter (mo_seq s) 1 False)) (\<lambda>(seq, saturated).
        thenC (modifyC (\<lambda>s. s\<lparr>mo_seq := seq\<rparr>))
       (bindC (getC mo_collector) (\<lambda>collected.
        bindC (callM (me_now env)) (\<lambda>now.
        bindC (getC mo_startTime) (\<lambda>startTime.
        bindC (callM (me_provider env (take (ms_backendCount collected) (ms_backends collected)))) (\<lambda>backends.
        let snapshot = collected\<lparr>ms_seq := seq,
              ms_counterSaturated := ms_counterSaturated collected \<or> saturated,
              ms_uptimeMs := word_of_int (to_ms (now - startTime)),
              ms_backends := backends @ drop (ms_backendCount collected) (ms_backends collected)\<rparr>
        in bindC (case me_formatter env of
                    Some f \<Rightarrow> callM (f snapshot phase)
                  | None \<Rightarrow> (\<lambda>s. (formatMetricsSnapshot snapshot phase, s))) (\<lambda>line.
           if 32768 < length line then disable_output
           else bindC (callM (me_writer env line)) (\<lambda>result.
             whenC (result < 0 \<or> nat result \<noteq> length line) disable_output)))))))))
       (\<lambda>_. disable_output))"

definition emitReadySnapshot :: "'w metrics_env \<Rightarrow> ('w MetricsOutput, unit) comp" where
  "emitReadySnapshot env =
     bindC (getC (\<lambda>s. mo_readyEmitted s \<or> mo_finalized s)) (\<lambda>done.
       if done then returnC ()
       else thenC (modifyC (\<lambda>s. s\<lparr>mo_readyEmitted := True\<rparr>))
           (thenC (emitSnapshot env ''ready'')
           (catchC (bindC (callM (me_now env)) (\<lambda>now.
                      modifyC (\<lambda>s. s\<lparr>mo_nextSnapshotTime := now + seconds 1\<rparr>)))
                   (\<lambda>_. disable_output))))"

definition emitPeriodicSnapshotIfDue :: "'w metrics_env \<Rightarrow> ('w MetricsOutput, unit) comp" where
  "emitPeriodicSnapshotIfDue env =
     bindC (getC (\<lambda>s. \<not> mo_readyEmitted s \<or> mo_finalized s \<or> \<not> mo_enabled s)) (\<lambda>off.
       if off then returnC ()
       else catchC
         (bindC (callM (me_now env)) (\<lambda>now.
          bindC (getC mo_nextSnapshotTime) (\<lambda>nextTime.
            if now < nextTime then returnC ()
            else thenC (emitSnapshot env ''periodic'')
                (bindC (callM (me_now env)) (\<lambda>later.
                   modifyC (\<lambda>s. s\<lparr>mo_nextSnapshotTime := later + seconds 1\<rparr>))))))
         (\<lambda>_. disable_output))"

definition emitFinalSnapshot :: "'w metrics_env \<Rightarrow> bool \<Rightarrow> ('w MetricsOutput, unit) comp" where
  "emitFinalSnapshot env error =
     bindC (getC mo_finalized) (\<lambda>finalized.
       if finalized then returnC ()
       else thenC (modifyC (\<lambda>s. s\<lparr>mo_finalized := True\<rparr>))
                  (emitSnapshot env (if error then ''error'' else ''final'')))"

section \<open>Counting\<close>

definition counter_of :: "StatKind \<Rightarrow> MetricsSnapshot \<Rightarrow> u64" where
  "counter_of k d = (case k of
     kCreated \<Rightarrow> ms_sessionsCreatedTotal d | kClosed \<Rightarrow> ms_sessionsClosedTotal d
   | kBytesC2b \<Rightarrow> ms_bytesC2bTotal d | kBytesB2c \<Rightarrow> ms_bytesB2cTotal d
   | kDatagramC2b \<Rightarrow> ms_datagramsC2bTotal d | kDatagramB2c \<Rightarrow> ms_datagramsB2cTotal d
   | kRejected \<Rightarrow> ms_rejectedTotal d | kDropped \<Rightarrow> ms_droppedDatagramsTotal d
   | kError \<Rightarrow> ms_errorsTotal d | kTimeout \<Rightarrow> ms_timeoutsTotal d)"

abbreviation u64_max :: nat where
  "u64_max \<equiv> 18446744073709551615"

definition record_all :: "StatEvent list \<Rightarrow> MetricsSnapshot \<Rightarrow> MetricsSnapshot" where
  "record_all es d = foldl (\<lambda>d e. snd (recordStatEvent e d)) d es"

text \<open>The events the collector takes, and their exact totals.\<close>

fun accepted :: "StatEvent list \<Rightarrow> MetricsSnapshot \<Rightarrow> StatEvent list" where
  "accepted [] d = []"
| "accepted (e # es) d =
     (if fst (recordStatEvent e d) then [e] else []) @ accepted es (snd (recordStatEvent e d))"

definition total :: "StatKind \<Rightarrow> StatEvent list \<Rightarrow> nat" where
  "total k es = (\<Sum>e \<leftarrow> es. if se_kind e = k then unat (se_amount e) else 0)"

lemma total_snoc [simp]:
  "total k [] = 0"
  "total k (es @ [e]) = total k es + (if se_kind e = k then unat (se_amount e) else 0)"
  by (simp_all add: total_def)

lemma record_all_snoc: "record_all (es @ [e]) d = snd (recordStatEvent e (record_all es d))"
  by (simp add: record_all_def)

lemma accepted_snoc:
  "accepted (es @ [e]) d = accepted es d @ (if fst (recordStatEvent e (record_all es d)) then [e] else [])"
  by (induction es arbitrary: d) (simp_all add: record_all_def)

lemma unat_u64_max: "unat (- 1 :: u64) = u64_max"
  by (simp add: unsigned_minus_1_eq_mask mask_eq_exp_minus_1)

lemma unat_minus_one_minus: "unat ((- 1) - value :: u64) = u64_max - unat value"
  by (subst unat_sub) (simp_all only: unat_u64_max word_order.extremum)

lemma addSaturatingCounter_min:
  "unat (fst (addSaturatingCounter value amount saturated)) = min u64_max (unat value + unat amount)"
proof (cases "(- 1) - value \<le> amount")
  case True
  then have "u64_max \<le> unat value + unat amount"
    by (simp add: word_le_nat_alt unat_minus_one_minus)
  with True show ?thesis by (simp add: addSaturatingCounter_def unat_u64_max)
next
  case False
  then have less: "unat value + unat amount < u64_max"
    by (simp add: word_le_nat_alt unat_minus_one_minus)
  then have "unat (value + amount) = unat value + unat amount"
    by (subst unat_add_lem[THEN iffD1]) simp_all
  with False less show ?thesis by (simp add: addSaturatingCounter_def)
qed

lemma addSaturatingCounter_saturated:
  "snd (addSaturatingCounter value amount saturated) \<longleftrightarrow> saturated \<or> u64_max \<le> unat value + unat amount"
  by (auto simp: addSaturatingCounter_def word_le_nat_alt unat_minus_one_minus)

lemma recordStatEvent_rejected: "\<not> fst (recordStatEvent e d) \<Longrightarrow> snd (recordStatEvent e d) = d"
  by (cases "se_kind e") (auto simp: recordStatEvent_def split: if_splits)

lemma recordStatEvent_counter:
  assumes "fst (recordStatEvent e d)"
  shows "counter_of k (snd (recordStatEvent e d)) =
      (if se_kind e = k then fst (addSaturatingCounter (counter_of k d) (se_amount e) (ms_counterSaturated d))
       else counter_of k d)"
    and "ms_counterSaturated (snd (recordStatEvent e d)) =
      snd (addSaturatingCounter (counter_of (se_kind e) d) (se_amount e) (ms_counterSaturated d))"
proof -
  show "counter_of k (snd (recordStatEvent e d)) =
      (if se_kind e = k then fst (addSaturatingCounter (counter_of k d) (se_amount e) (ms_counterSaturated d))
       else counter_of k d)"
    using assms
    by (cases "se_kind e"; cases k;
        simp add: recordStatEvent_def incrementCounter_def counter_of_def split: prod.split if_split_asm)
  show "ms_counterSaturated (snd (recordStatEvent e d)) =
      snd (addSaturatingCounter (counter_of (se_kind e) d) (se_amount e) (ms_counterSaturated d))"
    using assms
    by (cases "se_kind e";
        simp add: recordStatEvent_def incrementCounter_def counter_of_def split: prod.split if_split_asm)
qed

lemma recordStatEvent_active:
  assumes "fst (recordStatEvent e d)"
  shows "case se_kind e of
      kCreated \<Rightarrow> se_amount e = 1 \<and> ms_sessionsActive d < 1024 \<and>
        ms_sessionsActive (snd (recordStatEvent e d)) = ms_sessionsActive d + 1
    | kClosed \<Rightarrow> se_amount e = 1 \<and> ms_sessionsActive d \<noteq> 0 \<and>
        ms_sessionsActive (snd (recordStatEvent e d)) = ms_sessionsActive d - 1
    | _ \<Rightarrow> ms_sessionsActive (snd (recordStatEvent e d)) = ms_sessionsActive d"
  using assms
  by (cases "se_kind e")
     (simp_all add: recordStatEvent_def incrementCounter_def not_le split: prod.split if_splits)

text \<open>What the collector knows about the events it took.\<close>

definition counts_exactly :: "StatEvent list \<Rightarrow> MetricsSnapshot \<Rightarrow> bool" where
  "counts_exactly es d \<longleftrightarrow>
     (\<forall>k. unat (counter_of k d) = min u64_max (total k es)) \<and>
     (ms_counterSaturated d \<longleftrightarrow> (\<exists>k. u64_max \<le> total k es)) \<and>
     total kCreated es = total kClosed es + unat (ms_sessionsActive d) \<and>
     unat (ms_sessionsActive d) \<le> 1024"

lemma counts_exactly_step:
  assumes old: "counts_exactly es d" and acc: "fst (recordStatEvent e d)"
  shows "counts_exactly (es @ [e]) (snd (recordStatEvent e d))"
proof -
  note step = recordStatEvent_counter[OF acc]
  from old have count: "\<And>k. unat (counter_of k d) = min u64_max (total k es)"
    and sat: "ms_counterSaturated d \<longleftrightarrow> (\<exists>k. u64_max \<le> total k es)"
    and act: "total kCreated es = total kClosed es + unat (ms_sessionsActive d)"
      "unat (ms_sessionsActive d) \<le> 1024"
    by (auto simp: counts_exactly_def)
  have counters: "unat (counter_of k (snd (recordStatEvent e d))) = min u64_max (total k (es @ [e]))" for k
    by (auto simp: step(1) addSaturatingCounter_min count min_def)
  have sat': "ms_counterSaturated (snd (recordStatEvent e d)) \<longleftrightarrow> (\<exists>k. u64_max \<le> total k (es @ [e]))"
  proof -
    have "u64_max \<le> min u64_max (total k es) + x \<longleftrightarrow> u64_max \<le> total k es + x" for k x
      by (auto simp: min_def)
    then show ?thesis
      unfolding step(2) addSaturatingCounter_saturated sat count
      by (auto intro: trans_le_add1)
  qed
  have "total kCreated (es @ [e]) = total kClosed (es @ [e]) + unat (ms_sessionsActive (snd (recordStatEvent e d))) \<and>
      unat (ms_sessionsActive (snd (recordStatEvent e d))) \<le> 1024"
    using recordStatEvent_active[OF acc] act
    by (cases "se_kind e")
       (auto simp: word_less_nat_alt unat_word_ariths unat_minus_one unat_gt_0 split: if_splits)
  with counters sat' show ?thesis by (simp add: counts_exactly_def)
qed

lemma counts_exactly_new:
  "newMetricsCollector protocol n = Inr d \<Longrightarrow> counts_exactly [] d"
  by (auto simp: newMetricsCollector_def counts_exactly_def counter_of_def split: if_splits StatKind.splits)

text \<open>
  Claim C38. Whatever events a new collector receives, each counter is the exact total of the
  events it accepted, cut off at the 64-bit maximum; the saturation flag is set exactly when
  some total reached that maximum; and the session gauge is accepted creations minus accepted
  closes, never above 1024.
\<close>

theorem collector_counts_exactly:
  assumes "newMetricsCollector protocol n = Inr d"
  shows "counts_exactly (accepted events d) (record_all events d)"
proof (induction events rule: rev_induct)
  case Nil
  then show ?case using counts_exactly_new[OF assms] by (simp add: record_all_def)
next
  case (snoc e es)
  then show ?case
    by (cases "fst (recordStatEvent e (record_all es d))")
       (simp_all add: accepted_snoc record_all_snoc recordStatEvent_rejected counts_exactly_step)
qed

text \<open>A TCP collector that accepts a creation, rejects a datagram and accepts a close.\<close>

theorem collector_counts_exactly_witness:
  "counts_exactly
     (accepted [\<lparr>se_kind = kCreated, se_amount = 1\<rparr>, \<lparr>se_kind = kDropped, se_amount = 1\<rparr>,
        \<lparr>se_kind = kClosed, se_amount = 1\<rparr>] (projr (newMetricsCollector kTcp 1)))
     (record_all [\<lparr>se_kind = kCreated, se_amount = 1\<rparr>, \<lparr>se_kind = kDropped, se_amount = 1\<rparr>,
        \<lparr>se_kind = kClosed, se_amount = 1\<rparr>] (projr (newMetricsCollector kTcp 1)))"
  by (rule collector_counts_exactly[of kTcp 1]) (simp add: newMetricsCollector_def)

section \<open>The size of a line\<close>

lemma length_dec_u64: "length (dec_string (unat (w :: u64))) \<le> 20"
  using length_dec_string[of "unat w" 19] unat_u64_less[of w] by simp

lemma length_backend_entries:
  "i + length bs \<le> 1000 \<Longrightarrow> length (backend_entries i bs) \<le> 60 * length bs"
proof (induction bs arbitrary: i)
  case Nil
  then show ?case by simp
next
  case (Cons b bs)
  then have "length (backend_entries (Suc i) bs) \<le> 60 * length bs" by simp
  moreover have "length (dec_string i) \<le> 3" using length_dec_string[of i 2] Cons.prems by simp
  moreover have "length (backendHealthName (bh_health b)) \<le> 9"
    by (simp add: backendHealthName_def split: BackendHealth.split)
  ultimately show ?case by (cases "i = 0") auto
qed

lemma foldl_append_fields:
  "foldl (\<lambda>line (key, value). appendCounterField line key value) line fs =
   line @ concat (map (\<lambda>(key, value). appendCounterField [] key value) fs)"
  by (induction fs arbitrary: line) (auto simp: appendCounterField_def)

lemma length_snapshot_line:
  assumes "ms_backendCount d \<le> 256" and "length phase \<le> 8"
  shows "length (snapshot_line d phase) \<le> 20000"
proof -
  have "length (backend_entries 0 (take (ms_backendCount d) (ms_backends d))) \<le> 60 * 256"
    by (rule order_trans[OF length_backend_entries]) (use assms(1) in \<open>simp_all add: min_def\<close>)
  moreover have "length (appendCounterField [] key v) \<le> length key + 24" for key v
    using length_dec_u64[of v] by (simp add: appendCounterField_def)
  then have "length (concat (map (\<lambda>(key, value). appendCounterField [] key value) (counter_fields d)))
      \<le> sum_list (map (\<lambda>(key, value). length key + 24) (counter_fields d))"
    by (auto simp: length_concat comp_def split_def intro!: sum_list_mono)
  then have "length (concat (map (\<lambda>(key, value). appendCounterField [] key value) (counter_fields d))) \<le> 480"
    by (simp add: counter_fields_def)
  moreover have "length (snapshot_head d phase) \<le> 200"
    using length_dec_u64[of "ms_seq d"] length_dec_u64[of "ms_uptimeMs d"] assms(2)
    by (simp add: snapshot_head_def)
  ultimately show ?thesis by (simp add: snapshot_line_def foldl_append_fields)
qed

lemma newline_not_digit: "CHR 0x0A \<notin> set (dec_string n)"
  by (rule dec_string_no_sep) (simp add: is_digit_def)

lemma newline_entries: "CHR 0x0A \<notin> set (backend_entries i bs)"
  by (induction bs arbitrary: i)
     (auto simp: newline_not_digit backendHealthName_def split: BackendHealth.splits)

text \<open>
  For every snapshot of at most 256 backends and each of the four phases the
  formatter succeeds: the 32768-byte limit cannot be reached, and the line holds exactly one
  newline, its last character, so lines can be split again.
\<close>

theorem formatMetricsSnapshot_total:
  assumes "ms_backendCount d \<le> 256" and "phase \<in> {''ready'', ''periodic'', ''final'', ''error''}"
  shows "\<exists>body. formatMetricsSnapshot d phase = Inr (body @ [CHR 0x0A]) \<and>
           CHR 0x0A \<notin> set body \<and> length (body @ [CHR 0x0A]) \<le> 32768"
proof -
  define body where "body = butlast (snapshot_line d phase)"
  have line: "snapshot_line d phase = body @ [CHR 0x0A]"
    by (simp add: body_def snapshot_line_def butlast_append)
  have "length (snapshot_line d phase) \<le> 20000"
    using assms by (intro length_snapshot_line) auto
  moreover have "CHR 0x0A \<notin> set phase" using assms(2) by auto
  then have "CHR 0x0A \<notin> set body"
    by (simp add: body_def snapshot_line_def butlast_append newline_entries foldl_append_fields
          counter_fields_def appendCounterField_def newline_not_digit snapshot_head_def)
  ultimately show ?thesis using assms line by (auto simp: formatMetricsSnapshot_def)
qed

theorem formatMetricsSnapshot_total_witness:
  "\<exists>body. formatMetricsSnapshot (projr (newMetricsCollector kUdp 2)) ''final'' = Inr (body @ [CHR 0x0A]) \<and>
     CHR 0x0A \<notin> set body \<and> length (body @ [CHR 0x0A]) \<le> 32768"
  by (rule formatMetricsSnapshot_total) (simp_all add: newMetricsCollector_def)

section \<open>The life of the output\<close>

text \<open>
  The environment with a log of what is handed to the formatter: the phase and the sequence
  number of every snapshot that gets that far.
\<close>

definition on_fst :: "('w \<Rightarrow> 'a \<times> 'w) \<Rightarrow> 'w \<times> 'l \<Rightarrow> 'a \<times> ('w \<times> 'l)" where
  "on_fst f wl = (case f (fst wl) of (a, w) \<Rightarrow> (a, (w, snd wl)))"

definition logging :: "'w metrics_env \<Rightarrow> ('w \<times> (string \<times> u64) list) metrics_env" where
  "logging env = \<lparr>
     me_now = on_fst (me_now env),
     me_provider = \<lambda>backends. on_fst (me_provider env backends),
     me_formatter = Some (\<lambda>d phase wl.
       case (case me_formatter env of
               Some f \<Rightarrow> f d phase (fst wl) | None \<Rightarrow> (formatMetricsSnapshot d phase, fst wl)) of
         (line, w) \<Rightarrow> (line, (w, snd wl @ [(phase, ms_seq d)]))),
     me_writer = \<lambda>line. on_fst (me_writer env line)\<rparr>"

datatype output_op = Ready | Periodic | Final bool

fun run_output_op :: "'w metrics_env \<Rightarrow> output_op \<Rightarrow> ('w MetricsOutput, unit) comp" where
  "run_output_op env Ready = emitReadySnapshot env"
| "run_output_op env Periodic = emitPeriodicSnapshotIfDue env"
| "run_output_op env (Final error) = emitFinalSnapshot env error"

abbreviation out_log :: "('w \<times> (string \<times> u64) list) MetricsOutput \<Rightarrow> (string \<times> u64) list" where
  "out_log s \<equiv> snd (mo_world s)"

definition same_life :: "'w MetricsOutput \<Rightarrow> 'w MetricsOutput \<Rightarrow> bool" where
  "same_life s t \<longleftrightarrow> mo_readyEmitted t = mo_readyEmitted s \<and> mo_finalized t = mo_finalized s \<and>
     (mo_enabled t \<longrightarrow> mo_enabled s)"

text \<open>What one emission does: nothing when disabled, otherwise one log entry or a shutdown.\<close>

definition emitted ::
  "string \<Rightarrow> ('w \<times> (string \<times> u64) list) MetricsOutput \<Rightarrow> ('w \<times> (string \<times> u64) list) MetricsOutput \<Rightarrow> bool" where
  "emitted phase s t \<longleftrightarrow> same_life s t \<and>
     (if mo_enabled s
      then mo_seq t = fst (addSaturatingCounter (mo_seq s) 1 False) \<and>
           (out_log t = out_log s @ [(phase, mo_seq t)] \<or> out_log t = out_log s \<and> \<not> mo_enabled t)
      else t = s)"

lemma emitSnapshot_logging:
  assumes "emitSnapshot (logging env) phase s = (r, t)"
  shows "r = Inr () \<and> emitted phase s t"
proof (cases "mo_enabled s")
  case False
  with assms show ?thesis by (simp add: emitSnapshot_def run_simps emitted_def same_life_def)
next
  case True
  obtain seq saturated where "addSaturatingCounter (mo_seq s) 1 False = (seq, saturated)" by fastforce
  with assms True show ?thesis
    by (auto simp: emitSnapshot_def logging_def on_fst_def callM_def disable_output_def comp_defs
          emitted_def same_life_def Let_def split: sum.splits prod.splits if_splits)
qed

definition quiet ::
  "('w \<times> (string \<times> u64) list) MetricsOutput \<Rightarrow> ('w \<times> (string \<times> u64) list) MetricsOutput \<Rightarrow> bool" where
  "quiet s t \<longleftrightarrow> same_life s t \<and> out_log t = out_log s \<and> mo_seq t = mo_seq s"

lemma emitReady_steps:
  assumes "emitReadySnapshot (logging env) s = (r, t)"
  shows "r = Inr () \<and>
    (t = s \<or> \<not> mo_readyEmitted s \<and> \<not> mo_finalized s \<and>
       (\<exists>u. emitted ''ready'' (s\<lparr>mo_readyEmitted := True\<rparr>) u \<and> quiet u t))"
proof (cases "mo_readyEmitted s \<or> mo_finalized s")
  case True
  with assms show ?thesis by (auto simp: emitReadySnapshot_def run_simps)
next
  case False
  obtain r' u where u: "emitSnapshot (logging env) ''ready'' (s\<lparr>mo_readyEmitted := True\<rparr>) = (r', u)"
    by fastforce
  from emitSnapshot_logging[OF u] have "r' = Inr ()" "emitted ''ready'' (s\<lparr>mo_readyEmitted := True\<rparr>) u"
    by simp_all
  moreover from assms False u have "r = Inr () \<and> quiet u t" if "r' = Inr ()"
    using that by (auto simp: emitReadySnapshot_def run_simps quiet_def same_life_def callM_def
        logging_def on_fst_def disable_output_def comp_defs split: sum.splits prod.splits)
  ultimately show ?thesis using False by blast
qed

lemma emitPeriodic_steps:
  assumes "emitPeriodicSnapshotIfDue (logging env) s = (r, t)"
  shows "r = Inr () \<and>
    (quiet s t \<or> mo_readyEmitted s \<and> \<not> mo_finalized s \<and>
       (\<exists>u v. quiet s u \<and> mo_enabled u \<and> emitted ''periodic'' u v \<and> quiet v t))"
proof (cases "\<not> mo_readyEmitted s \<or> mo_finalized s \<or> \<not> mo_enabled s")
  case True
  with assms show ?thesis by (auto simp: emitPeriodicSnapshotIfDue_def run_simps quiet_def same_life_def)
next
  case False
  obtain now w where now: "me_now env (fst (mo_world s)) = (now, w)" by fastforce
  define u where "u = s\<lparr>mo_world := (w, out_log s)\<rparr>"
  have call: "callM (me_now (logging env)) s = (now, u)"
    by (simp add: callM_def logging_def on_fst_def now u_def)
  obtain r' v where v: "emitSnapshot (logging env) ''periodic'' u = (r', v)" by fastforce
  from emitSnapshot_logging[OF this] have emit: "r' = Inr ()" "emitted ''periodic'' u v" by simp_all
  have u: "quiet s u" "mo_enabled u" using False by (simp_all add: u_def quiet_def same_life_def)
  obtain later v' where later: "callM (me_now (logging env)) v = (later, v')" by fastforce
  then have v': "quiet v v'"
    by (auto simp: callM_def logging_def on_fst_def quiet_def same_life_def split: prod.splits)
  have rest: "r = Inr () \<and> (quiet s t \<or> quiet v t)"
  proof (cases now)
    case (Inl e)
    with assms False call u have "r = Inr () \<and> t = u\<lparr>mo_enabled := False\<rparr>"
      by (simp add: emitPeriodicSnapshotIfDue_def comp_defs disable_output_def)
    with u show ?thesis by (simp add: quiet_def same_life_def)
  next
    case (Inr n)
    show ?thesis
    proof (cases "n < mo_nextSnapshotTime u")
      case True
      with assms False call Inr u show ?thesis
        by (simp add: emitPeriodicSnapshotIfDue_def comp_defs)
    next
      case due: False
      from assms False call Inr due v emit(1) later have
        "r = Inr () \<and> ((\<exists>x. t = v'\<lparr>mo_nextSnapshotTime := x\<rparr>) \<or> t = v'\<lparr>mo_enabled := False\<rparr>)"
        by (cases later) (auto simp: emitPeriodicSnapshotIfDue_def comp_defs disable_output_def)
      with v' show ?thesis by (auto simp: quiet_def same_life_def)
    qed
  qed
  with u emit False show ?thesis by blast
qed

lemma emitFinal_steps:
  assumes "emitFinalSnapshot (logging env) error s = (r, t)"
  shows "r = Inr () \<and>
    (t = s \<or> \<not> mo_finalized s \<and>
       emitted (if error then ''error'' else ''final'') (s\<lparr>mo_finalized := True\<rparr>) t)"
  using assms emitSnapshot_logging
  by (auto simp: emitFinalSnapshot_def run_simps split: if_splits) blast+

text \<open>
  The log of a healthy life: at most one ready line first, then periodic lines, then at most one
  final or error line; the sequence numbers count from one and stop at the 64-bit maximum.
\<close>

definition seqs_ok :: "(string \<times> u64) list \<Rightarrow> bool" where
  "seqs_ok log \<longleftrightarrow> (\<forall>i < length log. unat (snd (log ! i)) = min u64_max (Suc i))"

definition life_log :: "bool \<Rightarrow> bool \<Rightarrow> bool \<Rightarrow> (string \<times> u64) list \<Rightarrow> bool" where
  "life_log ready finalized enabled log \<longleftrightarrow>
     (\<exists>r p f. map fst log = r @ replicate p ''periodic'' @ f \<and>
        (r = [] \<and> p = 0 \<or> r = [''ready'']) \<and> (f = [] \<or> finalized \<and> (f = [''final''] \<or> f = [''error''])) \<and>
        (r \<noteq> [] \<longrightarrow> ready) \<and> (ready \<and> enabled \<longrightarrow> r \<noteq> [])) \<and>
     seqs_ok log"

definition output_inv :: "('w \<times> (string \<times> u64) list) MetricsOutput \<Rightarrow> bool" where
  "output_inv s \<longleftrightarrow> life_log (mo_readyEmitted s) (mo_finalized s) (mo_enabled s) (out_log s) \<and>
     (mo_enabled s \<longrightarrow> unat (mo_seq s) = min u64_max (length (out_log s)))"

lemma seq_next:
  "unat (mo_seq s) = min u64_max n \<Longrightarrow>
   unat (fst (addSaturatingCounter (mo_seq s) 1 False)) = min u64_max (Suc n)"
  by (simp add: addSaturatingCounter_min min_def)

lemma output_inv_quiet: "output_inv s \<Longrightarrow> quiet s t \<Longrightarrow> output_inv t"
  unfolding output_inv_def life_log_def quiet_def same_life_def by auto

lemma life_logI:
  assumes "map fst log = r @ replicate p ''periodic'' @ f" and "r = [] \<and> p = 0 \<or> r = [''ready'']"
    and "f = [] \<or> finalized \<and> (f = [''final''] \<or> f = [''error''])" and "r \<noteq> [] \<longrightarrow> ready"
    and "ready \<and> enabled \<longrightarrow> r \<noteq> []" and "seqs_ok log"
  shows "life_log ready finalized enabled log"
  unfolding life_log_def using assms by blast

lemma seqs_ok_emitted:
  assumes "emitted phase s t" and "seqs_ok (out_log s)"
    and "mo_enabled s \<longrightarrow> unat (mo_seq s) = min u64_max (length (out_log s))"
  shows "seqs_ok (out_log t) \<and> (mo_enabled t \<longrightarrow> unat (mo_seq t) = min u64_max (length (out_log t)))"
  using assms seq_next[of s "length (out_log s)"]
  by (auto simp: emitted_def same_life_def seqs_ok_def nth_append less_Suc_eq split: if_splits)

lemma output_inv_ready:
  assumes inv: "output_inv s" and run: "emitReadySnapshot (logging env) s = (r, t)"
  shows "r = Inr () \<and> output_inv t"
proof -
  from emitReady_steps[OF run]
  have r: "r = Inr ()" and step: "t = s \<or> \<not> mo_readyEmitted s \<and> \<not> mo_finalized s \<and>
      (\<exists>u. emitted ''ready'' (s\<lparr>mo_readyEmitted := True\<rparr>) u \<and> quiet u t)" by simp_all
  have "output_inv u" if e: "emitted ''ready'' (s\<lparr>mo_readyEmitted := True\<rparr>) u"
      and s: "\<not> mo_readyEmitted s" "\<not> mo_finalized s" for u
  proof -
    from inv s have log: "out_log s = []" by (auto simp: output_inv_def life_log_def)
    with seqs_ok_emitted[OF e] inv have seqs: "seqs_ok (out_log u)"
        "mo_enabled u \<longrightarrow> unat (mo_seq u) = min u64_max (length (out_log u))"
      by (simp_all add: output_inv_def seqs_ok_def)
    have "life_log (mo_readyEmitted u) (mo_finalized u) (mo_enabled u) (out_log u)"
    proof (cases "out_log u = []")
      case True
      with e log seqs show ?thesis
        by (intro life_logI[where r = "[]" and p = 0 and f = "[]"])
           (auto simp: emitted_def same_life_def split: if_splits)
    next
      case False
      with e log seqs show ?thesis
        by (intro life_logI[where r = "[''ready'']" and p = 0 and f = "[]"])
           (auto simp: emitted_def same_life_def split: if_splits)
    qed
    with seqs show ?thesis by (simp add: output_inv_def)
  qed
  with step inv r show ?thesis by (auto intro: output_inv_quiet)
qed

lemma output_inv_periodic:
  assumes inv: "output_inv s" and run: "emitPeriodicSnapshotIfDue (logging env) s = (r, t)"
  shows "r = Inr () \<and> output_inv t"
proof -
  from emitPeriodic_steps[OF run]
  have r: "r = Inr ()" and step: "quiet s t \<or> mo_readyEmitted s \<and> \<not> mo_finalized s \<and>
      (\<exists>u v. quiet s u \<and> mo_enabled u \<and> emitted ''periodic'' u v \<and> quiet v t)" by simp_all
  have "output_inv v" if u: "output_inv u" "mo_enabled u" "mo_readyEmitted u" "\<not> mo_finalized u"
      and e: "emitted ''periodic'' u v" for u v
  proof -
    from u obtain p where log: "map fst (out_log u) = ''ready'' # replicate p ''periodic''"
      by (auto simp: output_inv_def life_log_def)
    from seqs_ok_emitted[OF e] u have seqs: "seqs_ok (out_log v)"
        "mo_enabled v \<longrightarrow> unat (mo_seq v) = min u64_max (length (out_log v))"
      by (simp_all add: output_inv_def life_log_def)
    from e u have v: "mo_readyEmitted v" "out_log v = out_log u @ [(''periodic'', mo_seq v)] \<or> out_log v = out_log u"
      by (auto simp: emitted_def same_life_def split: if_splits)
    then have "map fst (out_log v) = [''ready''] @ replicate (Suc p) ''periodic'' @ [] \<or>
        map fst (out_log v) = [''ready''] @ replicate p ''periodic'' @ []"
      by (auto simp: log replicate_append_same)
    then have "life_log (mo_readyEmitted v) (mo_finalized v) (mo_enabled v) (out_log v)"
      by - (elim disjE; erule life_logI; use v seqs in auto)
    with seqs show ?thesis by (simp add: output_inv_def)
  qed
  moreover have "quiet s u \<Longrightarrow> mo_readyEmitted u = mo_readyEmitted s \<and> mo_finalized u = mo_finalized s" for u
    by (simp add: quiet_def same_life_def)
  ultimately have "output_inv t" using step output_inv_quiet inv by metis
  with r show ?thesis by simp
qed

lemma output_inv_final:
  assumes inv: "output_inv s" and run: "emitFinalSnapshot (logging env) error s = (r, t)"
  shows "r = Inr () \<and> output_inv t"
proof -
  from emitFinal_steps[OF run]
  have r: "r = Inr ()" and step: "t = s \<or> \<not> mo_finalized s \<and>
      emitted (if error then ''error'' else ''final'') (s\<lparr>mo_finalized := True\<rparr>) t" by simp_all
  have "output_inv t" if s: "\<not> mo_finalized s"
      and e: "emitted (if error then ''error'' else ''final'') (s\<lparr>mo_finalized := True\<rparr>) t"
  proof -
    let ?f = "if error then ''error'' else ''final''"
    from inv s obtain r p where log: "map fst (out_log s) = r @ replicate p ''periodic''"
      "r = [] \<and> p = 0 \<or> r = [''ready'']" "r \<noteq> [] \<longrightarrow> mo_readyEmitted s"
      "mo_readyEmitted s \<and> mo_enabled s \<longrightarrow> r \<noteq> []"
      by (auto simp: output_inv_def life_log_def)
    from seqs_ok_emitted[OF e] inv have seqs: "seqs_ok (out_log t)"
        "mo_enabled t \<longrightarrow> unat (mo_seq t) = min u64_max (length (out_log t))"
      by (simp_all add: output_inv_def life_log_def)
    from e have t: "out_log t = out_log s @ [(?f, mo_seq t)] \<or> out_log t = out_log s"
      "mo_finalized t" "mo_readyEmitted t = mo_readyEmitted s" "mo_enabled t \<longrightarrow> mo_enabled s"
      by (auto simp: emitted_def same_life_def split: if_splits)
    then have "map fst (out_log t) = r @ replicate p ''periodic'' @ [?f] \<or>
        map fst (out_log t) = r @ replicate p ''periodic'' @ []"
      by (auto simp: log)
    then have "life_log (mo_readyEmitted t) (mo_finalized t) (mo_enabled t) (out_log t)"
      by - (elim disjE; erule life_logI; use t log seqs in auto)
    with seqs show ?thesis by (simp add: output_inv_def)
  qed
  with step inv r show ?thesis by auto
qed

lemma output_inv_step:
  "output_inv s \<Longrightarrow> run_output_op (logging env) op s = (r, t) \<Longrightarrow> r = Inr () \<and> output_inv t"
  by (cases op) (auto dest: output_inv_ready output_inv_periodic output_inv_final)

lemma output_inv_run:
  "output_inv s \<Longrightarrow> forC ops (run_output_op (logging env)) s = (r, t) \<Longrightarrow> r = Inr () \<and> output_inv t"
proof (induction ops arbitrary: s)
  case Nil
  then show ?case by simp
next
  case (Cons op ops)
  obtain r' u where u: "run_output_op (logging env) op s = (r', u)" by fastforce
  from output_inv_step[OF Cons.prems(1) u] Cons.IH[of u] Cons.prems(2) u show ?case
    by (simp add: comp_defs)
qed

text \<open>
  Claim C39. A metrics output never throws, whatever its clock, provider, formatter and writer
  do, and whatever the order of its operations; the snapshots it renders are at most one ready
  line, then periodic ones, then at most one final or error line, numbered from one without gaps.
\<close>

theorem metrics_output_life:
  assumes "newMetricsOutput (logging env) collector (w, []) = (Inr s, w')"
    and "forC ops (run_output_op (logging env)) s = (r, t)"
  shows "r = Inr () \<and> life_log (mo_readyEmitted t) (mo_finalized t) (mo_enabled t) (snd (mo_world t))"
proof -
  from assms(1) have "output_inv s"
    by (auto simp: newMetricsOutput_def logging_def on_fst_def output_inv_def life_log_def
          seqs_ok_def split: prod.splits sum.splits)
  from output_inv_run[OF this assms(2)] show ?thesis by (simp add: output_inv_def)
qed

definition quiet_sink :: "nat metrics_env" where
  "quiet_sink = \<lparr>me_now = \<lambda>w. (Inr (seconds (int w)), w + 1), me_provider = \<lambda>bs w. (Inr bs, w),
     me_formatter = Some (\<lambda>d phase w. (Inr phase, w)), me_writer = \<lambda>line w. (Inr (int (length line)), w)\<rparr>"

definition quiet_output :: "(nat \<times> (string \<times> u64) list) MetricsOutput" where
  "quiet_output = projr (fst (newMetricsOutput (logging quiet_sink) (projr (newMetricsCollector kTcp 1)) (0, [])))"

theorem metrics_output_life_witness:
  "let t = snd (forC [Ready, Periodic, Final False, Final True] (run_output_op (logging quiet_sink)) quiet_output)
   in life_log (mo_readyEmitted t) (mo_finalized t) (mo_enabled t) (snd (mo_world t))"
proof -
  have new: "newMetricsOutput (logging quiet_sink) (projr (newMetricsCollector kTcp 1)) (0, []) =
      (Inr quiet_output, (1, []))"
    by (simp add: quiet_output_def newMetricsOutput_def logging_def on_fst_def quiet_sink_def)
  show ?thesis
    unfolding Let_def
    by (rule metrics_output_life[OF new surjective_pairing, THEN conjunct2])
qed

end
