(* ===== verification/HealthSelection.thy ===== *)
theory HealthSelection
  imports Scheduler TcpHealthChecker Metrics
begin

text \<open>
  Choosing a backend: \<open>src/control/HealthSelection.h\<close> and \<open>src/control/HealthSelection.cpp\<close>.
  The selection owns the scheduler and, when health checking is on, the TCP checker; it
  polls the checker before every choice and filters the scheduler by health.
\<close>

section \<open>State and operations\<close>

record 'w HealthSelection =
  sel_config :: Config
  sel_scheduler :: RoundRobinScheduler
  sel_checker :: "'w TcpHealthChecker option"
  sel_lastUnavailableLogTime :: "time option"

definition healthChangeLine :: "Config \<Rightarrow> HealthChange \<Rightarrow> string" where
  "healthChangeLine config change =
     ''health backend='' @ formatEndpoint (cfg_backends config ! hc_backend change) @
     '' from='' @ healthStatusName (hc_from change) @
     '' to='' @ healthStatusName (hc_to change) @ '' reason='' @ hc_reason change @
     (if hc_error change \<noteq> 0 then '' errno='' @ dec_string (hc_error change) else []) @ [CHR 0x0A]"

definition onHealthChange :: "'w tcp_health_env \<Rightarrow> Config \<Rightarrow> HealthChange \<Rightarrow> 'w \<Rightarrow> exn option \<times> 'w" where
  "onHealthChange env config change w = (None, te_stderr env (healthChangeLine config change) w)"

text \<open>The checker as the selection uses it: default timings and the selection's callback.\<close>

definition selection_env :: "'w tcp_health_env \<Rightarrow> Config \<Rightarrow> 'w tcp_health_env" where
  "selection_env env config = env\<lparr>te_interval := ms 1000, te_timeout := ms 1000,
     te_change := Some (onHealthChange env config)\<rparr>"

text \<open>The notice printed when UDP service is judged by TCP handshakes, as UTF-8 bytes.\<close>

definition udp_health_notice :: string where
  "udp_health_notice =
     ''UDP health_check=tcp_connect'' @ [CHR 0xEF, CHR 0xBC, CHR 0x9A, CHR 0xE7, CHR 0x9B, CHR
     0xB8, CHR 0xE5, CHR 0x90, CHR 0x8C] @ '' IP/'' @ [CHR 0xE7, CHR 0xAB, CHR 0xAF, CHR 0xE5,
     CHR 0x8F, CHR 0xA3, CHR 0xE7, CHR 0x9A, CHR 0x84] @ '' TCP '' @ [CHR 0xE5, CHR 0x81, CHR
     0xA5, CHR 0xE5, CHR 0xBA, CHR 0xB7, CHR 0xE7, CHR 0xAB, CHR 0xAF, CHR 0xE7, CHR 0x82, CHR
     0xB9, CHR 0xE5, CHR 0xBF, CHR 0x85, CHR 0xE9, CHR 0xA1, CHR 0xBB, CHR 0xE4, CHR 0xBB, CHR
     0xA3, CHR 0xE8, CHR 0xA1, CHR 0xA8] @ '' UDP '' @ [CHR 0xE6, CHR 0x9C, CHR 0x8D, CHR 0xE5,
     CHR 0x8A, CHR 0xA1, CHR 0xEF, CHR 0xBC, CHR 0x9B] @ ''TCP '' @ [CHR 0xE6, CHR 0x8F, CHR
     0xA1, CHR 0xE6, CHR 0x89, CHR 0x8B, CHR 0xE4, CHR 0xB8, CHR 0x8D, CHR 0xE6, CHR 0x98, CHR
     0xAF] @ '' UDP '' @ [CHR 0xE5, CHR 0x8D, CHR 0x8F, CHR 0xE8, CHR 0xAE, CHR 0xAE, CHR 0xE5,
     CHR 0x81, CHR 0xA5, CHR 0xE5, CHR 0xBA, CHR 0xB7, CHR 0xE8, CHR 0xAF, CHR 0x81, CHR 0xE6,
     CHR 0x98, CHR 0x8E, CHR 0xE3, CHR 0x80, CHR 0x82, CHR 0x0A]"

definition newHealthSelection ::
  "'w tcp_health_env \<Rightarrow> Config \<Rightarrow> errno option \<Rightarrow> 'w \<Rightarrow> exn + 'w HealthSelection" where
  "newHealthSelection env config epollError w =
     (case createBackendScheduler (cfg_scheduler config) (length (cfg_backends config)) of
        Inl e \<Rightarrow> Inl e
      | Inr scheduler \<Rightarrow>
          case cfg_healthCheck config of
            HealthCheck.kOff \<Rightarrow> Inr \<lparr>sel_config = config, sel_scheduler = scheduler, sel_checker = None,
                      sel_lastUnavailableLogTime = None\<rparr>
          | kTcpConnect \<Rightarrow>
              case newTcpHealthChecker (selection_env env config) (cfg_backends config) epollError w of
                Inl e \<Rightarrow> Inl e
              | Inr checker \<Rightarrow>
                  Inr \<lparr>sel_config = config, sel_scheduler = scheduler,
                       sel_checker = Some (if cfg_protocol config = kUdp
                         then checker\<lparr>tc_world := te_stderr env udp_health_notice (tc_world checker)\<rparr>
                         else checker),
                       sel_lastUnavailableLogTime = None\<rparr>)"

definition sel_enabled :: "'w HealthSelection \<Rightarrow> bool" where
  "sel_enabled s \<longleftrightarrow> sel_checker s \<noteq> None"

text \<open>A computation of the checker, run on the checker the selection owns.\<close>

definition onChecker :: "('w TcpHealthChecker, 'a) comp \<Rightarrow> 'w TcpHealthChecker \<Rightarrow> ('w HealthSelection, 'a) comp" where
  "onChecker m checker s = (case m checker of (r, checker') \<Rightarrow> (r, s\<lparr>sel_checker := Some checker'\<rparr>))"

text \<open>The checker is only polled when there is one; without one the source has a null pointer.\<close>

definition sel_pollHealthProbes :: "'w tcp_health_env \<Rightarrow> ('w HealthSelection, unit) comp" where
  "sel_pollHealthProbes env =
     bindC (getC (\<lambda>s. (sel_checker s, sel_config s))) (\<lambda>(checker, config).
       case checker of
         None \<Rightarrow> throwC (LogicError ''null health checker'')
       | Some c \<Rightarrow> onChecker (pollHealthProbes (selection_env env config)) c)"

definition onScheduler :: "(RoundRobinScheduler, 'a) comp \<Rightarrow> ('w HealthSelection, 'a) comp" where
  "onScheduler m s = (case m (sel_scheduler s) of (r, scheduler) \<Rightarrow> (r, s\<lparr>sel_scheduler := scheduler\<rparr>))"

definition eligible_backends :: "'w TcpHealthChecker \<Rightarrow> bool list" where
  "eligible_backends checker =
     map (\<lambda>p. hs_status (tp_state p) = HealthStatus.kHealthy) (tc_probes checker)"

definition reportUnavailable :: "'w tcp_health_env \<Rightarrow> 'w TcpHealthChecker \<Rightarrow> ('w HealthSelection, unit) comp" where
  "reportUnavailable env checker s =
     (case te_now env (tc_world checker) of (time, w) \<Rightarrow>
        if (case sel_lastUnavailableLogTime s of None \<Rightarrow> True | Some lastTime \<Rightarrow> seconds 1 \<le> time - lastTime)
        then (Inr (), s\<lparr>sel_checker :=
                 Some (checker\<lparr>tc_world := te_stderr env (''no_healthy_backend'' @ [CHR 0x0A]) w\<rparr>),
               sel_lastUnavailableLogTime := Some time\<rparr>)
        else (Inr (), s\<lparr>sel_checker := Some (checker\<lparr>tc_world := w\<rparr>)\<rparr>))"

definition selectBackend :: "'w tcp_health_env \<Rightarrow> ('w HealthSelection, Endpoint option) comp" where
  "selectBackend env =
     bindC (getC (\<lambda>s. (sel_checker s, sel_config s))) (\<lambda>(checker, config).
       case checker of
         None \<Rightarrow> bindC (onScheduler (\<lambda>sch. case selectNextBackendIndex sch of (i, sch') \<Rightarrow> (Inr i, sch')))
                   (\<lambda>i. returnC (Some (cfg_backends config ! i)))
       | Some checker0 \<Rightarrow>
           thenC (onChecker (pollHealthProbes (selection_env env config)) checker0)
          (bindC (getC (\<lambda>s. the (sel_checker s))) (\<lambda>polled.
           bindC (onScheduler (selectEligibleBackendIndex selectNextBackendIndex (eligible_backends polled)))
             (\<lambda>index. case index of
                Some i \<Rightarrow> returnC (Some (cfg_backends config ! i))
              | None \<Rightarrow> thenC (reportUnavailable env polled) (returnC None)))))"

definition backend_health :: "HealthStatus \<Rightarrow> BackendHealthSnapshot" where
  "backend_health state =
     \<lparr>bh_health = (if state = HealthStatus.kUnknown then BackendHealth.kUnknown
                  else if state = HealthStatus.kHealthy then BackendHealth.kHealthy
                  else BackendHealth.kUnhealthy),
      bh_eligible = (state = HealthStatus.kHealthy)\<rparr>"

text \<open>\<open>copyBackendHealth\<close> overwrites a span; \<open>backendState\<close> is a checked access.\<close>

definition copyBackendHealth ::
  "'w HealthSelection \<Rightarrow> BackendHealthSnapshot list \<Rightarrow> exn + BackendHealthSnapshot list" where
  "copyBackendHealth s backends =
     (if length backends \<noteq> length (cfg_backends (sel_config s))
      then Inl (InvalidArgument ''health snapshot size'')
      else case sel_checker s of
        None \<Rightarrow> Inr (map (\<lambda>_. default_backend_health) backends)
      | Some checker \<Rightarrow>
          if length (tc_probes checker) < length backends then Inl OutOfRange
          else Inr (map (\<lambda>i. backend_health (hs_status (tp_state (tc_probes checker ! i))))
                     [0..<length backends]))"

section \<open>Properties\<close>

text \<open>The scheduler covers the configured pool and the checker, if any, probes exactly it.\<close>

definition sel_inv :: "'w HealthSelection \<Rightarrow> bool" where
  "sel_inv s \<longleftrightarrow>
     rr_inv (sel_scheduler s) \<and> backendCount (sel_scheduler s) = length (cfg_backends (sel_config s)) \<and>
     (\<forall>c. sel_checker s = Some c \<longrightarrow>
        checker_inv c \<and> tc_endpoints c = cfg_backends (sel_config s))"

lemma newHealthSelection_inv:
  assumes "newHealthSelection env config epollError w = Inr s"
  shows "sel_inv s \<and> sel_config s = config \<and> (sel_checker s = None \<longleftrightarrow> cfg_healthCheck config = HealthCheck.kOff)"
proof -
  from assms obtain sch where sch: "createBackendScheduler (cfg_scheduler config) (length (cfg_backends config)) = Inr sch"
    by (auto simp: newHealthSelection_def split: sum.splits)
  note rr = create_rr_inv[OF sch]
  show ?thesis
  proof (cases "cfg_healthCheck config")
    case kOff
    with assms sch rr show ?thesis by (auto simp: newHealthSelection_def sel_inv_def)
  next
    case kTcpConnect
    with assms sch obtain c where c: "newTcpHealthChecker (selection_env env config) (cfg_backends config) epollError w = Inr c"
      by (auto simp: newHealthSelection_def split: sum.splits)
    then have "tc_endpoints c = cfg_backends config"
      by (auto simp: newTcpHealthChecker_def split: if_splits option.splits)
    moreover note newTcpHealthChecker_inv[OF c]
    ultimately show ?thesis
      using assms sch rr kTcpConnect c by (auto simp: newHealthSelection_def sel_inv_def checker_inv_def split: if_splits)
  qed
qed

lemma poll_checker:
  assumes "checker_inv c" and "pollHealthProbes env c = (r, c')"
  shows "checker_inv c' \<and> tc_endpoints c' = tc_endpoints c"
  using preservesD[OF preserves_pollHealthProbes assms(1,2)]
    preservesD[OF preserves_poll_endpoints[of "tc_endpoints c"] refl assms(2)] by simp

lemma selectEligible_rr:
  assumes "rr_inv sch" and "length eligible = backendCount sch"
    and "selectEligibleBackendIndex selectNextBackendIndex eligible sch = (r, sch')"
  shows "(r = Inr None \<and> sch' = sch \<and> list_all Not eligible \<or>
      (\<exists>i < length eligible. r = Inr (Some i) \<and> eligible ! i)) \<and>
    rr_inv sch' \<and> backendCount sch' = backendCount sch"
proof -
  have bound: "(nextBackendIndex sch + k) mod backendCount sch < length eligible" for k
    using assms(1,2) by (simp add: rr_inv_def)
  have "rr_inv (sch\<lparr>nextBackendIndex := k mod backendCount sch\<rparr>)" for k
    using assms(1) by (auto simp: rr_inv_def)
  then have after: "rr_inv (after_selections selectNextBackendIndex k sch) \<and>
      backendCount (after_selections selectNextBackendIndex k sch) = backendCount sch" for k
    by (simp add: rr_after[OF assms(1)])
  show ?thesis
    using rr.selectEligible_total[OF assms(1,2)] assms(1,3) after bound
    by (auto simp: rr_nth_selection[OF assms(1)] simp del: after_selections.simps)
qed

lemma reportUnavailable_run:
  assumes "reportUnavailable env c s = (r, t)"
  shows "r = Inr () \<and> (\<exists>w. sel_checker t = Some (c\<lparr>tc_world := w\<rparr>)) \<and>
    sel_scheduler t = sel_scheduler s \<and> sel_config t = sel_config s"
  using assms by (auto simp: reportUnavailable_def split: prod.splits if_splits)

lemma selectBackend_run:
  assumes "sel_checker s = Some c0" and "selectBackend env s = (r, t)"
    and "pollHealthProbes (selection_env env (sel_config s)) c0 = (Inr (), c)"
    and "selectEligibleBackendIndex selectNextBackendIndex (eligible_backends c) (sel_scheduler s) = (Inr i, sch)"
  shows "r = Inr (map_option (\<lambda>i. cfg_backends (sel_config s) ! i) i) \<and> sel_config t = sel_config s \<and>
    sel_scheduler t = sch \<and> (\<exists>w. sel_checker t = Some (c\<lparr>tc_world := w\<rparr>))"
proof (cases i)
  case None
  let ?u = "s\<lparr>sel_checker := Some c, sel_scheduler := sch\<rparr>"
  obtain r' u where u: "reportUnavailable env c ?u = (r', u)" by fastforce
  from reportUnavailable_run[OF this] u None assms show ?thesis
    by (auto simp: selectBackend_def onChecker_def onScheduler_def comp_defs)
next
  case (Some j)
  with assms have "r = Inr (Some (cfg_backends (sel_config s) ! j))"
      "t = s\<lparr>sel_checker := Some (c\<lparr>tc_world := tc_world c\<rparr>), sel_scheduler := sch\<rparr>"
    by (auto simp: selectBackend_def onChecker_def onScheduler_def comp_defs)
  with Some show ?thesis by (auto intro!: exI[of _ "tc_world c"])
qed

lemma selectBackend_checked:
  assumes inv: "sel_inv s" and checker: "sel_checker s = Some c0"
    and run: "selectBackend env s = (r, t)"
  shows "sel_inv t \<and> sel_config t = sel_config s \<and>
    (\<exists>c. sel_checker t = Some c \<and>
      (case r of
         Inl e \<Rightarrow> fst (pollHealthProbes (selection_env env (sel_config s)) c0) = Inl e
       | Inr None \<Rightarrow> (\<forall>p \<in> set (tc_probes c). hs_status (tp_state p) \<noteq> HealthStatus.kHealthy) \<and>
                     sel_scheduler t = sel_scheduler s
       | Inr (Some e) \<Rightarrow> \<exists>i < length (cfg_backends (sel_config s)). e = cfg_backends (sel_config s) ! i \<and>
                     hs_status (tp_state (tc_probes c ! i)) = HealthStatus.kHealthy))"
proof -
  let ?backends = "cfg_backends (sel_config s)"
  obtain r1 c where poll: "pollHealthProbes (selection_env env (sel_config s)) c0 = (r1, c)" by fastforce
  with inv checker have c: "checker_inv c" "tc_endpoints c = ?backends"
    by (auto simp: sel_inv_def dest: poll_checker)
  then have len: "length (tc_probes c) = length ?backends" by (simp add: checker_inv_def)
  show ?thesis
  proof (cases r1)
    case (Inl e)
    with run poll checker inv c show ?thesis
      by (auto simp: selectBackend_def onChecker_def comp_defs sel_inv_def)
  next
    case (Inr _)
    obtain r2 sch where sel: "selectEligibleBackendIndex selectNextBackendIndex (eligible_backends c)
        (sel_scheduler s) = (r2, sch)" by fastforce
    have elen: "length (eligible_backends c) = length ?backends" by (simp add: eligible_backends_def len)
    from selectEligible_rr[OF _ _ sel] inv elen
    have pick: "r2 = Inr None \<and> sch = sel_scheduler s \<and> list_all Not (eligible_backends c) \<or>
        (\<exists>i < length ?backends. r2 = Inr (Some i) \<and> eligible_backends c ! i)"
      and rr: "rr_inv sch" "backendCount sch = length ?backends"
      by (simp_all add: sel_inv_def)
    from pick obtain i where i: "r2 = Inr i" by auto
    from selectBackend_run[OF checker run _ sel[unfolded i]] poll Inr
    have t: "r = Inr (map_option (\<lambda>i. ?backends ! i) i)" "sel_config t = sel_config s"
        "sel_scheduler t = sch" "\<exists>w. sel_checker t = Some (c\<lparr>tc_world := w\<rparr>)"
      by simp_all
    moreover from t rr c have "sel_inv t" by (auto simp: sel_inv_def)
    ultimately show ?thesis
      using pick i len by (auto simp: eligible_backends_def list_all_iff split: option.splits)
  qed
qed

text \<open>With or without a checker, a selected backend is a configured one and the invariant is kept.\<close>

lemma rr_select: "rr_inv sch \<Longrightarrow> selectNextBackendIndex sch = (i, sch') \<Longrightarrow>
   i < backendCount sch \<and> rr_inv sch' \<and> backendCount sch' = backendCount sch"
  by (auto simp: rr_inv_def selectNextBackendIndex_def Let_def split: if_splits)

lemma selectBackend_inv:
  assumes inv: "sel_inv s" and run: "selectBackend env s = (r, t)"
  shows "sel_inv t \<and> sel_config t = sel_config s \<and> sel_enabled t = sel_enabled s \<and>
    (\<forall>e. r = Inr (Some e) \<longrightarrow> e \<in> set (cfg_backends (sel_config s)))"
proof (cases "sel_checker s")
  case None
  obtain i sch where sch: "selectNextBackendIndex (sel_scheduler s) = (i, sch)" by fastforce
  with inv rr_select[OF _ sch] have "i < length (cfg_backends (sel_config s))" "rr_inv sch"
    "backendCount sch = length (cfg_backends (sel_config s))" by (auto simp: sel_inv_def)
  with None run sch show ?thesis
    by (auto simp: selectBackend_def onScheduler_def comp_defs sel_inv_def sel_enabled_def)
next
  case (Some c0)
  note checked = selectBackend_checked[OF inv Some run]
  then have "sel_inv t" "sel_config t = sel_config s" "sel_checker t \<noteq> None" by auto
  moreover have "\<forall>e. r = Inr (Some e) \<longrightarrow> e \<in> set (cfg_backends (sel_config s))" using checked by auto
  ultimately show ?thesis using Some by (simp add: sel_enabled_def)
qed

text \<open>A poll on its own, as the maintenance of the services makes it when checking is on.\<close>

lemma sel_poll_inv:
  assumes inv: "sel_inv s" and run: "sel_pollHealthProbes env s = (r, t)"
  shows "sel_inv t \<and> sel_config t = sel_config s \<and> sel_enabled t = sel_enabled s"
proof (cases "sel_checker s")
  case None
  with assms show ?thesis by (auto simp: sel_pollHealthProbes_def comp_defs)
next
  case (Some c)
  obtain r1 c1 where poll: "pollHealthProbes (selection_env env (sel_config s)) c = (r1, c1)" by fastforce
  with inv Some have "checker_inv c1" "tc_endpoints c1 = cfg_backends (sel_config s)"
    by (auto simp: sel_inv_def dest: poll_checker)
  with inv Some run poll show ?thesis
    by (auto simp: sel_pollHealthProbes_def onChecker_def comp_defs sel_inv_def sel_enabled_def)
qed

text \<open>
  Claim C30. With health checking on, a selection that returns has polled the checker and picked
  a backend that is healthy afterwards; it returns nothing exactly when no backend is healthy,
  and then the scheduler has not moved. The selection's invariant is kept however it ends, and
  only the poll can throw.
\<close>

theorem selectBackend_healthy:
  assumes inv: "sel_inv s" and checker: "sel_checker s = Some c0"
    and run: "selectBackend env s = (r, t)"
  shows "sel_inv t \<and> sel_config t = sel_config s \<and>
    (\<exists>c. sel_checker t = Some c \<and>
      (case r of
         Inl e \<Rightarrow> fst (pollHealthProbes (selection_env env (sel_config s)) c0) = Inl e
       | Inr None \<Rightarrow> (\<forall>p \<in> set (tc_probes c). hs_status (tp_state p) \<noteq> HealthStatus.kHealthy) \<and>
                     sel_scheduler t = sel_scheduler s
       | Inr (Some e) \<Rightarrow> \<exists>i < length (cfg_backends (sel_config s)). e = cfg_backends (sel_config s) ! i \<and>
                     hs_status (tp_state (tc_probes c ! i)) = HealthStatus.kHealthy))"
  by (rule selectBackend_checked[OF assms])

definition checked_config :: Config where
  "checked_config = sample_config\<lparr>cfg_healthCheck := kTcpConnect\<rparr>"

lemma checked_selection:
  "\<exists>s c0. newHealthSelection silent_net checked_config None 0 = Inr s \<and> sel_checker s = Some c0"
  by (simp add: newHealthSelection_def checked_config_def sample_config_def default_config_def newTcpHealthChecker_def
        createBackendScheduler_def newRoundRobinScheduler_def selection_env_def)

theorem selectBackend_healthy_witness:
  "\<exists>s. newHealthSelection silent_net checked_config None 0 = Inr s \<and>
     sel_inv (snd (selectBackend silent_net s)) \<and>
     sel_config (snd (selectBackend silent_net s)) = checked_config"
proof -
  obtain s c0 where s: "newHealthSelection silent_net checked_config None 0 = Inr s"
    and c0: "sel_checker s = Some c0"
    using checked_selection by blast
  note inv = newHealthSelection_inv[OF s]
  obtain r t where t: "selectBackend silent_net s = (r, t)" by fastforce
  from selectBackend_healthy[OF _ c0 t] inv have "sel_inv t" "sel_config t = checked_config" by auto
  with s t show ?thesis by auto
qed

text \<open>
  The health snapshot for the metrics always succeeds on a span of the pool's size and
  marks exactly the backends the next filtered choice may pick; without health checking all of them.
\<close>

theorem copyBackendHealth_eligible:
  assumes "sel_inv s" and "length backends = length (cfg_backends (sel_config s))"
  shows "\<exists>out. copyBackendHealth s backends = Inr out \<and> length out = length backends \<and>
    map bh_eligible out = (case sel_checker s of
        None \<Rightarrow> replicate (length backends) True | Some c \<Rightarrow> eligible_backends c)"
proof (cases "sel_checker s")
  case None
  with assms show ?thesis
    by (simp add: copyBackendHealth_def default_backend_health_def comp_def map_replicate_const)
next
  case (Some c)
  with assms have len: "length (tc_probes c) = length backends"
    by (auto simp: sel_inv_def checker_inv_def)
  show ?thesis
    using Some assms(2)
    by (auto simp: copyBackendHealth_def len eligible_backends_def backend_health_def
          intro!: nth_equalityI)
qed

theorem copyBackendHealth_eligible_witness:
  "\<exists>s out. newHealthSelection silent_net checked_config None 0 = Inr s \<and>
     copyBackendHealth s (replicate (length (cfg_backends checked_config)) default_backend_health) = Inr out"
proof -
  obtain s where s: "newHealthSelection silent_net checked_config None 0 = Inr s"
    using checked_selection by blast
  note inv = newHealthSelection_inv[OF s]
  from copyBackendHealth_eligible[of s "replicate (length (cfg_backends checked_config)) default_backend_health"]
    inv s show ?thesis by auto
qed

end
