(* ===== verification/MetricsService.thy ===== *)
theory MetricsService
  imports HealthSelection
begin

text \<open>
  The metrics switch of the product: \<open>src/control/MetricsService.h\<close> and
  \<open>src/control/MetricsService.cpp\<close>. With metrics off there is neither a collector nor an
  output; with metrics on the output's health provider reads the selection.
\<close>

section \<open>State and operations\<close>

text \<open>The collector the source holds beside the output is the one the output refers to.\<close>

record 'w MetricsService =
  svc_finalized :: bool
  svc_output :: "'w MetricsOutput option"

definition copyBackendHealthSnapshot ::
  "Config \<Rightarrow> 'v HealthSelection option \<Rightarrow> BackendHealthSnapshot list \<Rightarrow> exn + BackendHealthSnapshot list" where
  "copyBackendHealthSnapshot config selection backends =
     (case selection of
        Some s \<Rightarrow> copyBackendHealth s backends
      | None \<Rightarrow> Inr (map (\<lambda>_. if cfg_healthCheck config = HealthCheck.kOff then default_backend_health
                     else \<lparr>bh_health = BackendHealth.kUnknown, bh_eligible = False\<rparr>) backends))"

text \<open>
  The production environment of the output: no injected formatter, and a provider that reads
  the selection the service shares, found in the world by \<open>selection\<close>.
\<close>

definition service_env :: "'w metrics_env \<Rightarrow> Config \<Rightarrow> ('w \<Rightarrow> 'v HealthSelection option) \<Rightarrow> 'w metrics_env" where
  "service_env env config selection = env\<lparr>
     me_provider := \<lambda>backends w. (copyBackendHealthSnapshot config (selection w) backends, w),
     me_formatter := None\<rparr>"

definition newMetricsService ::
  "'w metrics_env \<Rightarrow> Config \<Rightarrow> ('w \<Rightarrow> 'v HealthSelection option) \<Rightarrow> 'w \<Rightarrow> (exn + 'w MetricsService) \<times> 'w" where
  "newMetricsService env config selection w =
     (case cfg_metrics config of
        MetricsKind.kOff \<Rightarrow> (Inr \<lparr>svc_finalized = False, svc_output = None\<rparr>, w)
      | kStderr \<Rightarrow>
          case newMetricsCollector (cfg_protocol config) (length (cfg_backends config)) of
            Inl e \<Rightarrow> (Inl e, w)
          | Inr collector \<Rightarrow>
              case newMetricsOutput (service_env env config selection) collector w of
                (Inl e, w') \<Rightarrow> (Inl e, w')
              | (Inr out, w') \<Rightarrow> (Inr \<lparr>svc_finalized = False, svc_output = Some out\<rparr>, w'))"

definition svc_enabled :: "'w MetricsService \<Rightarrow> bool" where
  "svc_enabled s \<longleftrightarrow> svc_output s \<noteq> None"

definition recordServiceEvent :: "StatEvent \<Rightarrow> 'w MetricsOutput \<Rightarrow> 'w MetricsOutput" where
  "recordServiceEvent event out = out\<lparr>mo_collector := snd (recordStatEvent event (mo_collector out))\<rparr>"

text \<open>A computation of the output, run on the output the service owns, if it has one.\<close>

definition onOutput :: "('w MetricsOutput, unit) comp \<Rightarrow> ('w MetricsService, unit) comp" where
  "onOutput m s = (case svc_output s of
     None \<Rightarrow> (Inr (), s)
   | Some out \<Rightarrow> case m out of (r, out') \<Rightarrow> (r, s\<lparr>svc_output := Some out'\<rparr>))"

definition serviceEmitReady :: "'w metrics_env \<Rightarrow> ('w MetricsService, unit) comp" where
  "serviceEmitReady env = onOutput (emitReadySnapshot env)"

definition serviceEmitPeriodic :: "'w metrics_env \<Rightarrow> ('w MetricsService, unit) comp" where
  "serviceEmitPeriodic env = onOutput (emitPeriodicSnapshotIfDue env)"

definition finishMetrics :: "'w metrics_env \<Rightarrow> bool \<Rightarrow> ('w MetricsService, unit) comp" where
  "finishMetrics env error =
     bindC (getC (\<lambda>s. svc_output s = None \<or> svc_finalized s)) (\<lambda>done.
       if done then returnC ()
       else thenC (modifyC (\<lambda>s. s\<lparr>svc_finalized := True\<rparr>))
           (thenC (whenC error (onOutput (modifyC
                     (recordServiceEvent \<lparr>se_kind = kError, se_amount = 1\<rparr>))))
                  (onOutput (emitFinalSnapshot env error))))"

section \<open>Properties\<close>

lemma emitSnapshot_noexcept: "fst (emitSnapshot env phase s) = Inr ()"
proof -
  have catch: "fst (catchC m (\<lambda>_. disable_output) s) = Inr ()" for m :: "('w MetricsOutput, unit) comp" and s
    by (cases "m s"; cases "fst (m s)") (auto simp: catchC_def disable_output_def modifyC_def)
  show ?thesis by (simp add: emitSnapshot_def run_simps catch returnC_def)
qed

lemma emitFinal_noexcept: "fst (emitFinalSnapshot env error s) = Inr ()"
  by (simp add: emitFinalSnapshot_def run_simps emitSnapshot_noexcept returnC_def)

lemma emitSnapshot_keeps:
  "preserves (\<lambda>s. mo_collector s = c \<and> mo_finalized s = f \<and> mo_readyEmitted s = b) (emitSnapshot env phase)"
proof -
  have call: "preserves (\<lambda>s. mo_collector s = c \<and> mo_finalized s = f \<and> mo_readyEmitted s = b) (callM g)" for g
    by (rule preservesI) (auto simp: callM_def split: prod.splits)
  have fmt: "preserves I (\<lambda>s. (r, s))" for I :: "'w MetricsOutput \<Rightarrow> bool" and r :: "exn + string"
    by (simp add: preserves_def)
  show ?thesis
    unfolding emitSnapshot_def Let_def case_prod_unfold disable_output_def
    by (intro preserves_rules call fmt preserves_modify; simp)
qed

text \<open>The first finish, as one step: it counts the error, if there is one, and marks the output final.\<close>

lemma finishMetrics_first:
  assumes "svc_output s = Some out" and "\<not> svc_finalized s" and "finishMetrics env error s = (r, t)"
  shows "\<exists>out'. r = Inr () \<and> t = s\<lparr>svc_finalized := True, svc_output := Some out'\<rparr> \<and> mo_finalized out' \<and>
    mo_collector out' = (if error then snd (recordStatEvent \<lparr>se_kind = kError, se_amount = 1\<rparr> (mo_collector out))
      else mo_collector out)"
proof -
  define out1 where "out1 = (if error then recordServiceEvent \<lparr>se_kind = kError, se_amount = 1\<rparr> out else out)"
  obtain r' out2 where fin: "emitFinalSnapshot env error out1 = (r', out2)" by fastforce
  have "r' = Inr ()" using emitFinal_noexcept[of env error out1] fin by simp
  then have "r = Inr ()" "t = s\<lparr>svc_finalized := True, svc_output := Some out2\<rparr>"
    using assms fin by (cases error; auto simp: finishMetrics_def onOutput_def comp_defs out1_def)+
  moreover have "mo_collector out2 = mo_collector out1 \<and> mo_finalized out2"
  proof (cases "mo_finalized out1")
    case True
    with fin show ?thesis by (simp add: emitFinalSnapshot_def run_simps)
  next
    case False
    let ?o = "out1\<lparr>mo_finalized := True\<rparr>"
    from False fin have "emitSnapshot env (if error then ''error'' else ''final'') ?o = (r', out2)"
      by (simp add: emitFinalSnapshot_def run_simps)
    from preservesD[OF emitSnapshot_keeps _ this, of "mo_collector ?o" True "mo_readyEmitted ?o"]
    show ?thesis by simp
  qed
  ultimately show ?thesis by (auto simp: out1_def recordServiceEvent_def)
qed

text \<open>
  Finishing the metrics never throws; it counts one error exactly when the service
  ends in error, marks the output final, and a second finish, with any argument, changes nothing.
\<close>

theorem finishMetrics_once:
  assumes "svc_output s = Some out" and "\<not> svc_finalized s" and "finishMetrics env error s = (r, t)"
  shows "r = Inr () \<and> svc_finalized t \<and> finishMetrics env error2 t = (Inr (), t) \<and>
    (\<exists>out'. svc_output t = Some out' \<and> mo_finalized out' \<and>
       ms_errorsTotal (mo_collector out') =
         (if error then fst (addSaturatingCounter (ms_errorsTotal (mo_collector out)) 1 False)
          else ms_errorsTotal (mo_collector out)))"
  using finishMetrics_first[OF assms]
  by (auto simp: finishMetrics_def run_simps recordStatEvent_def incrementCounter_def addSaturatingCounter_def)

theorem finishMetrics_once_witness:
  "fst (finishMetrics (logging quiet_sink) True \<lparr>svc_finalized = False, svc_output = Some quiet_output\<rparr>) = Inr ()"
proof -
  obtain r t where run: "finishMetrics (logging quiet_sink) True
      \<lparr>svc_finalized = False, svc_output = Some quiet_output\<rparr> = (r, t)" by fastforce
  from finishMetrics_once[OF _ _ this] run show ?thesis by simp
qed

end
