(* ===== verification/ServiceWorld.thy ===== *)
theory ServiceWorld
  imports MetricsService Alists
begin

text \<open>
  What the TCP and the UDP service share: the members of \<open>TcpServiceRuntime\<close> and
  \<open>UdpServiceRuntime\<close> (\<open>src/control/TcpService.cpp\<close>, \<open>src/control/UdpService.cpp\<close>), the way their
  callbacks act on the selection and on the metrics, and what the callbacks keep. The configuration
  is a parameter, because the services only hold a reference to it.
\<close>

section \<open>The state of a service\<close>

text \<open>The part of the state the health provider of the metrics can see.\<close>

type_synonym 'v metrics_world = "'v HealthSelection option \<times> 'v"

record 'v service_world =
  sw_selection :: "'v HealthSelection option"
  sw_metrics :: "'v metrics_world MetricsService"
  sw_world :: 'v

record 'v service_host =
  sh_health :: "'v tcp_health_env"
  sh_epoll :: "'v \<Rightarrow> errno option \<times> 'v"
  sh_epollClose :: "'v \<Rightarrow> 'v"
  sh_clock :: "'v \<Rightarrow> (exn + time) \<times> 'v"
  sh_writeMetrics :: "string \<Rightarrow> 'v \<Rightarrow> (exn + int) \<times> 'v"
  sh_message :: "errno \<Rightarrow> string"
  sh_stdout :: "string \<Rightarrow> 'v \<Rightarrow> 'v"
  sh_stderr :: "string \<Rightarrow> 'v \<Rightarrow> 'v"

definition no_service :: "'v \<Rightarrow> 'v service_world" where
  "no_service v = \<lparr>sw_selection = None, sw_metrics = \<lparr>svc_finalized = False, svc_output = None\<rparr>, sw_world = v\<rparr>"

definition put_world :: "'v \<Rightarrow> 'v service_world \<Rightarrow> 'v service_world" where
  "put_world v w = w\<lparr>sw_world := v\<rparr>"

definition printed :: "(string \<Rightarrow> 'v \<Rightarrow> 'v) \<Rightarrow> string \<Rightarrow> ('v service_world, unit) comp" where
  "printed stream line = modifyC (\<lambda>w. w\<lparr>sw_world := stream line (sw_world w)\<rparr>)"

text \<open>A computation as a callback: what it throws and the state it leaves.\<close>

definition as_callback :: "('w, unit) comp \<Rightarrow> 'w \<Rightarrow> exn option \<times> 'w" where
  "as_callback m w = (case m w of (Inl e, w') \<Rightarrow> (Some e, w') | (Inr _, w') \<Rightarrow> (None, w'))"

section \<open>Selection and metrics in the service\<close>

text \<open>The checker's copy of the world is the world of the service while the selection runs.\<close>

definition lend_selection :: "'v \<Rightarrow> 'v HealthSelection \<Rightarrow> 'v HealthSelection" where
  "lend_selection v s = s\<lparr>sel_checker := map_option (\<lambda>c. c\<lparr>tc_world := v\<rparr>) (sel_checker s)\<rparr>"

definition selection_world :: "'v \<Rightarrow> 'v HealthSelection \<Rightarrow> 'v" where
  "selection_world v s = (case sel_checker s of None \<Rightarrow> v | Some c \<Rightarrow> tc_world c)"

definition on_selection :: "('v HealthSelection, 'a) comp \<Rightarrow> ('v service_world, 'a) comp" where
  "on_selection m w = (case sw_selection w of
     None \<Rightarrow> (Inl (LogicError ''null selection''), w)
   | Some s \<Rightarrow> (case m (lend_selection (sw_world w) s) of (r, s') \<Rightarrow>
       (r, w\<lparr>sw_selection := Some s', sw_world := selection_world (sw_world w) s'\<rparr>)))"

definition lend_metrics :: "'v metrics_world \<Rightarrow> 'v metrics_world MetricsService \<Rightarrow> 'v metrics_world MetricsService" where
  "lend_metrics p svc = svc\<lparr>svc_output := map_option (\<lambda>out. out\<lparr>mo_world := p\<rparr>) (svc_output svc)\<rparr>"

definition on_metrics :: "('v metrics_world MetricsService, 'a) comp \<Rightarrow> ('v service_world, 'a) comp" where
  "on_metrics m w = (case m (lend_metrics (sw_selection w, sw_world w) (sw_metrics w)) of (r, svc) \<Rightarrow>
     (r, w\<lparr>sw_metrics := svc,
           sw_world := (case svc_output svc of None \<Rightarrow> sw_world w | Some out \<Rightarrow> snd (mo_world out))\<rparr>))"

text \<open>The environment of the metrics; \<open>service_env\<close> replaces the provider by the one that reads the selection.\<close>

definition service_metrics_env :: "'v service_host \<Rightarrow> Config \<Rightarrow> 'v metrics_world metrics_env" where
  "service_metrics_env host config = service_env
     \<lparr>me_now = within snd (\<lambda>v p. (fst p, v)) (sh_clock host), me_provider = (\<lambda>backends p. (Inr backends, p)),
      me_formatter = None, me_writer = (\<lambda>line. within snd (\<lambda>v p. (fst p, v)) (sh_writeMetrics host line))\<rparr> config fst"

definition selection_enabled :: "'v service_world \<Rightarrow> bool" where
  "selection_enabled w \<longleftrightarrow> (case sw_selection w of None \<Rightarrow> False | Some s \<Rightarrow> sel_enabled s)"

definition metrics_enabled :: "'v service_world \<Rightarrow> bool" where
  "metrics_enabled w \<longleftrightarrow> svc_enabled (sw_metrics w)"

section \<open>Operations of both services\<close>

text \<open>The constructor: the metrics are made before the selection exists.\<close>

definition newServiceRuntime :: "'v service_host \<Rightarrow> Config \<Rightarrow> ('v service_world, unit) comp" where
  "newServiceRuntime host config w =
     (case newMetricsService (service_metrics_env host config) config fst (None, sw_world w) of
        (Inl e, p) \<Rightarrow> (Inl e, w\<lparr>sw_world := snd p\<rparr>)
      | (Inr svc, p) \<Rightarrow> (Inr (), \<lparr>sw_selection = None, sw_metrics = svc, sw_world = snd p\<rparr>))"

text \<open>
  \<open>selection_ = std::make_unique<HealthSelection>(config_)\<close>; a checker begins with \<open>epoll_create1\<close> and
  closes that descriptor again if its constructor throws.
\<close>

definition makeSelection :: "'v service_host \<Rightarrow> Config \<Rightarrow> ('v service_world, unit) comp" where
  "makeSelection host config w = (let checked = cfg_healthCheck config \<noteq> HealthCheck.kOff \<and>
       \<not> isl (createBackendScheduler (cfg_scheduler config) (length (cfg_backends config))) in
      case (if checked then sh_epoll host (sw_world w) else (None, sw_world w)) of (epollError, v) \<Rightarrow>
      case newHealthSelection (sh_health host) config epollError v of
        Inl e \<Rightarrow> (Inl e, w\<lparr>sw_world := (if checked \<and> epollError = None then sh_epollClose host v else v)\<rparr>)
      | Inr s \<Rightarrow> (Inr (), w\<lparr>sw_selection := Some s, sw_world := selection_world v s\<rparr>))"

text \<open>The destructor of the runtime: what the metrics count is kept here to be told about.\<close>

definition destroyServiceRuntime :: "'v service_host \<Rightarrow> 'v service_world \<Rightarrow> 'v service_world" where
  "destroyServiceRuntime host w = (case sw_selection w of
     None \<Rightarrow> w
   | Some s \<Rightarrow> w\<lparr>sw_selection := None, sw_world := (case sel_checker s of
       None \<Rightarrow> sw_world w
     | Some c \<Rightarrow> sh_epollClose host (destroyTcpHealthChecker (sh_health host) (c\<lparr>tc_world := sw_world w\<rparr>)))\<rparr>)"

definition serviceSelectBackend :: "'v service_host \<Rightarrow> ('v service_world, Endpoint option) comp" where
  "serviceSelectBackend host = on_selection (selectBackend (sh_health host))"

definition onStatistics :: "StatEvent \<Rightarrow> ('v service_world, unit) comp" where
  "onStatistics event = on_metrics (onOutput (modifyC (recordServiceEvent event)))"

definition onMaintenance :: "'v service_host \<Rightarrow> Config \<Rightarrow> ('v service_world, unit) comp" where
  "onMaintenance host config =
     bindC (getC selection_enabled) (\<lambda>enabled.
     thenC (whenC enabled (on_selection (sel_pollHealthProbes (sh_health host))))
           (on_metrics (serviceEmitPeriodic (service_metrics_env host config))))"

definition onReady :: "'v service_host \<Rightarrow> Config \<Rightarrow> string \<Rightarrow> ('v service_world, unit) comp" where
  "onReady host config banner =
     thenC (printed (sh_stdout host) (banner @ formatEndpoint (cfg_listen config) @ [CHR 0x0A]))
           (on_metrics (serviceEmitReady (service_metrics_env host config)))"

definition serviceFinish :: "'v service_host \<Rightarrow> Config \<Rightarrow> bool \<Rightarrow> ('v service_world, unit) comp" where
  "serviceFinish host config error = on_metrics (finishMetrics (service_metrics_env host config) error)"

section \<open>What the callbacks keep\<close>

text \<open>
  The gauge shows \<open>n\<close> open sessions, and unless some counter has reached its maximum the totals of
  created and closed sessions differ by exactly those.
\<close>

definition gauge_ok :: "MetricsSnapshot \<Rightarrow> nat \<Rightarrow> bool" where
  "gauge_ok d n \<longleftrightarrow> ms_sessionsActive d = of_nat n \<and> n \<le> 1024 \<and>
     (\<not> ms_counterSaturated d \<longrightarrow> unat (ms_sessionsCreatedTotal d) = unat (ms_sessionsClosedTotal d) + n)"

text \<open>The state of a running service and the sessions or flows that are open, with their backends.\<close>

definition metrics_ok :: "bool \<Rightarrow> nat \<Rightarrow> 'u MetricsService \<Rightarrow> bool" where
  "metrics_ok metered n svc \<longleftrightarrow> \<not> svc_finalized svc \<and>
     (case svc_output svc of None \<Rightarrow> \<not> metered | Some out \<Rightarrow> metered \<and> \<not> mo_finalized out \<and> gauge_ok (mo_collector out) n)"

definition service_ok :: "Config \<Rightarrow> bool \<Rightarrow> 'v service_world \<Rightarrow> (u64 \<times> Endpoint) list \<Rightarrow> bool" where
  "service_ok config metered w l \<longleftrightarrow>
     (\<exists>s. sw_selection w = Some s \<and> sel_inv s \<and> sel_config s = config) \<and>
     distinct (map fst l) \<and> snd ` set l \<subseteq> set (cfg_backends config) \<and> metrics_ok metered (length l) (sw_metrics w)"

lemma service_ok_world: "service_ok config metered w l \<Longrightarrow> service_ok config metered (put_world v w) l"
  by (simp add: service_ok_def put_world_def)

lemma lend_selection_simps [simp]:
  "sel_inv (lend_selection v s) \<longleftrightarrow> sel_inv s" "sel_config (lend_selection v s) = sel_config s"
  "sel_enabled (lend_selection v s) \<longleftrightarrow> sel_enabled s"
  by (cases "sel_checker s"; simp add: lend_selection_def sel_inv_def sel_enabled_def)+

lemma lend_metrics_ok [simp]: "metrics_ok metered n (lend_metrics p svc) \<longleftrightarrow> metrics_ok metered n svc"
  by (cases "svc_output svc") (simp_all add: lend_metrics_def metrics_ok_def)

lemma on_selection_ok:
  assumes "service_ok config metered w l" and "on_selection m w = (r, w')"
    and "\<And>s x t. sel_inv s \<Longrightarrow> m s = (x, t) \<Longrightarrow> sel_inv t \<and> sel_config t = sel_config s"
  shows "service_ok config metered w' l"
proof -
  obtain s where s: "sw_selection w = Some s" "sel_inv s" "sel_config s = config"
    using assms(1) by (auto simp: service_ok_def)
  obtain x t where run: "m (lend_selection (sw_world w) s) = (x, t)" by fastforce
  with assms(3)[OF _ run] s have "sel_inv t" "sel_config t = config" by simp_all
  with assms(1,2) s(1) run show ?thesis by (auto simp: on_selection_def service_ok_def)
qed

lemma on_metrics_ok:
  assumes "service_ok config metered w l" and "on_metrics m w = (r, w')"
    and "\<And>svc x t. metrics_ok metered (length l) svc \<Longrightarrow> m svc = (x, t) \<Longrightarrow> metrics_ok metered n t"
    and "distinct (map fst l')" and "snd ` set l' \<subseteq> set (cfg_backends config)" and "length l' = n"
  shows "service_ok config metered w' l'"
proof -
  obtain x t where run: "m (lend_metrics (sw_selection w, sw_world w) (sw_metrics w)) = (x, t)" by fastforce
  moreover have "metrics_ok metered n t" using assms(1) by (intro assms(3)[OF _ run]) (simp add: service_ok_def)
  ultimately show ?thesis using assms(1,2,4-6) by (auto simp: on_metrics_def service_ok_def)
qed

text \<open>An operation on the output keeps the metrics in order if it keeps collector and final mark.\<close>

definition counts_kept :: "MetricsSnapshot \<times> bool \<Rightarrow> 'u MetricsOutput \<Rightarrow> bool" where
  "counts_kept c out \<longleftrightarrow> (mo_collector out, mo_finalized out) = c"

lemma emit_keeps_counts:
  "preserves (counts_kept c) (emitSnapshot env phase)"
  "preserves (counts_kept c) (emitReadySnapshot env)"
  "preserves (counts_kept c) (emitPeriodicSnapshotIfDue env)"
proof -
  show snapshot: "preserves (counts_kept c) (emitSnapshot env phase)" for phase
  proof (rule preservesI)
    fix s r t
    assume "counts_kept c s" and run: "emitSnapshot env phase s = (r, t)"
    then have c: "c = (mo_collector s, mo_finalized s)" by (simp add: counts_kept_def)
    from preservesD[OF emitSnapshot_keeps _ run, of "mo_collector s" "mo_finalized s" "mo_readyEmitted s"]
    show "counts_kept c t" by (simp add: counts_kept_def c)
  qed
  have clock: "preserves (counts_kept c) (callM (me_now env))"
    by (rule preservesI) (auto simp: callM_def counts_kept_def split: prod.splits)
  have off: "preserves (counts_kept c) disable_output"
    unfolding disable_output_def by (rule preserves_modify) (simp add: counts_kept_def)
  have times: "preserves (counts_kept c) (modifyC (\<lambda>s. s\<lparr>mo_nextSnapshotTime := d\<rparr>))"
    "preserves (counts_kept c) (modifyC (\<lambda>s. s\<lparr>mo_readyEmitted := b\<rparr>))" for d b
    by (rule preserves_modify, simp add: counts_kept_def)+
  show "preserves (counts_kept c) (emitReadySnapshot env)" "preserves (counts_kept c) (emitPeriodicSnapshotIfDue env)"
    unfolding emitReadySnapshot_def emitPeriodicSnapshotIfDue_def
    by (intro preserves_rules snapshot clock off times)+
qed

lemma onOutput_ok:
  assumes "metrics_ok metered n svc" and "onOutput m svc = (x, t)" and "\<And>c. preserves (counts_kept c) m"
  shows "metrics_ok metered n t"
proof (cases "svc_output svc")
  case None
  with assms show ?thesis by (auto simp: onOutput_def)
next
  case (Some out)
  obtain y out' where m: "m out = (y, out')" by fastforce
  from preservesD[OF assms(3) _ m, of "(mo_collector out, mo_finalized out)"]
  have "mo_collector out' = mo_collector out" "mo_finalized out' = mo_finalized out" by (simp_all add: counts_kept_def)
  with assms(1,2) Some m show ?thesis by (auto simp: onOutput_def metrics_ok_def)
qed

lemma record_plain:
  assumes "gauge_ok d n" and "kind \<noteq> kCreated" and "kind \<noteq> kClosed"
  shows "gauge_ok (snd (recordStatEvent \<lparr>se_kind = kind, se_amount = a\<rparr> d)) n"
  using assms by (cases kind) (auto simp: gauge_ok_def recordStatEvent_def incrementCounter_def addSaturatingCounter_def)

lemma record_created:
  assumes "gauge_ok d n" and "n < 1024"
  shows "gauge_ok (snd (recordStatEvent \<lparr>se_kind = kCreated, se_amount = 1\<rparr> d)) (Suc n)"
proof -
  have active: "ms_sessionsActive d = of_nat n" using assms(1) by (simp add: gauge_ok_def)
  with assms(2) have room: "\<not> 1024 \<le> ms_sessionsActive d" by (simp add: word_le_nat_alt unat_of_nat)
  have inc: "unat (c + 1) = Suc (unat c)" if "\<not> - 1 - c \<le> (1 :: u64)" for c
    using that by (intro unat_inc) auto
  show ?thesis
    using assms active room
    by (auto simp: gauge_ok_def recordStatEvent_def incrementCounter_def addSaturatingCounter_def inc)
qed

lemma record_closed:
  assumes "gauge_ok d (Suc n)"
  shows "gauge_ok (snd (recordStatEvent \<lparr>se_kind = kClosed, se_amount = 1\<rparr> d)) n"
proof -
  have active: "ms_sessionsActive d = of_nat n + 1" and n: "n < 1024" using assms by (simp_all add: gauge_ok_def)
  then have some: "ms_sessionsActive d \<noteq> 0" by (simp add: word_unat_eq_iff unat_word_ariths unat_of_nat)
  have inc: "unat (c + 1) = Suc (unat c)" if "\<not> - 1 - c \<le> (1 :: u64)" for c
    using that by (intro unat_inc) auto
  show ?thesis
    using assms active some n
    by (auto simp: gauge_ok_def recordStatEvent_def incrementCounter_def addSaturatingCounter_def inc)
qed

section \<open>The callbacks\<close>

lemma snd_as_callback: "snd (as_callback m w) = snd (m w)"
  by (simp add: as_callback_def split: prod.split sum.split)

lemma preserves_printed: "preserves (\<lambda>w. service_ok config metered w l) (printed stream line)"
  unfolding printed_def by (rule preserves_modify) (simp add: service_ok_def)

lemma preserves_on_metrics:
  assumes "\<And>c. preserves (counts_kept c) m"
  shows "preserves (\<lambda>w. service_ok config metered w l) (on_metrics (onOutput m))"
proof (rule preservesI)
  fix w r w'
  assume ok: "service_ok config metered w l" and run: "on_metrics (onOutput m) w = (r, w')"
  show "service_ok config metered w' l"
    by (rule on_metrics_ok[OF ok run onOutput_ok[OF _ _ assms]]) (use ok in \<open>auto simp: service_ok_def\<close>)
qed

lemma preserves_onMaintenance: "preserves (\<lambda>w. service_ok config metered w l) (onMaintenance host config')"
proof -
  have "preserves (\<lambda>w. service_ok config metered w l) (on_selection (sel_pollHealthProbes (sh_health host)))"
    by (rule preservesI, erule on_selection_ok, assumption) (blast dest: sel_poll_inv)
  then show ?thesis
    unfolding onMaintenance_def serviceEmitPeriodic_def
    by (intro preserves_rules preserves_on_metrics emit_keeps_counts)
qed

lemma preserves_onReady: "preserves (\<lambda>w. service_ok config metered w l) (onReady host config' banner)"
  unfolding onReady_def serviceEmitReady_def
  by (intro preserves_rules preserves_printed preserves_on_metrics emit_keeps_counts)

lemma selected_ok:
  assumes "service_ok config metered w l" and "serviceSelectBackend host w = (r, w')"
  shows "service_ok config metered w' l \<and> (\<forall>b. r = Inr (Some b) \<longrightarrow> b \<in> set (cfg_backends config))"
proof
  show "service_ok config metered w' l"
    using assms(2) unfolding serviceSelectBackend_def
    by (rule on_selection_ok[OF assms(1)]) (blast dest: selectBackend_inv)
  obtain s where s: "sw_selection w = Some s" "sel_inv s" "sel_config s = config"
    using assms(1) by (auto simp: service_ok_def)
  obtain x t where run: "selectBackend (sh_health host) (lend_selection (sw_world w) s) = (x, t)" by fastforce
  from selectBackend_inv[OF _ run] s assms(2) run
  show "\<forall>b. r = Inr (Some b) \<longrightarrow> b \<in> set (cfg_backends config)"
    by (auto simp: serviceSelectBackend_def on_selection_def)
qed

text \<open>A statistics event moves the gauge as it moves the open sessions.\<close>

lemma metrics_ok_record:
  assumes "metrics_ok metered n svc" and "\<And>d. gauge_ok d n \<Longrightarrow> gauge_ok (snd (recordStatEvent ev d)) n'"
    and "onOutput (modifyC (recordServiceEvent ev)) svc = (r, t)"
  shows "metrics_ok metered n' t"
  using assms
  by (cases "svc_output svc") (auto simp: onOutput_def metrics_ok_def recordServiceEvent_def modifyC_def)

lemma onStatistics_ok:
  assumes "service_ok config metered w l" and "\<And>d. gauge_ok d (length l) \<Longrightarrow> gauge_ok (snd (recordStatEvent ev d)) (length l')"
    and "distinct (map fst l')" and "snd ` set l' \<subseteq> set (cfg_backends config)"
  shows "service_ok config metered (snd (onStatistics ev w)) l'"
proof -
  obtain r w' where run: "onStatistics ev w = (r, w')" by fastforce
  then have "on_metrics (onOutput (modifyC (recordServiceEvent ev))) w = (r, w')" by (simp add: onStatistics_def)
  from on_metrics_ok[OF assms(1) this metrics_ok_record[OF _ assms(2)] assms(3,4) refl] run show ?thesis by simp
qed

text \<open>Without metrics nothing is reported, and only the list of open sessions changes.\<close>

lemma unmetered_ok:
  assumes "service_ok config False w l" and "distinct (map fst l')" and "snd ` set l' \<subseteq> set (cfg_backends config)"
  shows "service_ok config False w l'"
  using assms by (auto simp: service_ok_def metrics_ok_def split: option.splits)

lemma emplace_links:
  assumes "map_of l k = None" and "distinct (map fst l)" and "snd ` set l \<subseteq> S" and "b \<in> S"
  shows "distinct (map fst (emplace k b l))" "snd ` set (emplace k b l) \<subseteq> S" "length (emplace k b l) = Suc (length l)"
  using assms set_update[of k b l] by (auto simp: emplace_def distinct_update length_update_new dest!: subsetD)

lemma delete_links:
  assumes "map_of l k = Some b" and "distinct (map fst l)" and "snd ` set l \<subseteq> S"
  shows "distinct (map fst (AList.delete k l))" "snd ` set (AList.delete k l) \<subseteq> S" "length l = Suc (length (AList.delete k l))"
proof -
  show "distinct (map fst (AList.delete k l))" using assms(2) by (rule distinct_delete)
  show "snd ` set (AList.delete k l) \<subseteq> S" using assms(3) by (auto simp: AList.delete_eq)
  from assms(1,2) show "length l = Suc (length (AList.delete k l))" by (rule length_delete_distinct)
qed

definition reported :: "bool \<Rightarrow> StatKind \<Rightarrow> 'v service_world \<Rightarrow> 'v service_world" where
  "reported metered kind w = (if metered then snd (onStatistics \<lparr>se_kind = kind, se_amount = 1\<rparr> w) else w)"

lemma reported_created:
  assumes ok: "service_ok config metered w l" and new: "map_of l k = None" "length l < 1024" "b \<in> set (cfg_backends config)"
  shows "service_ok config metered (reported metered kCreated w) (emplace k b l)"
proof -
  have "distinct (map fst l)" "snd ` set l \<subseteq> set (cfg_backends config)" using ok by (simp_all add: service_ok_def)
  note l = emplace_links[OF new(1) this new(3)]
  show ?thesis
  proof (cases metered)
    case True
    with onStatistics_ok[OF ok _ l(1,2)] record_created new(2) l(3) show ?thesis by (simp add: reported_def)
  next
    case False
    with ok unmetered_ok[OF _ l(1,2)] show ?thesis by (simp add: reported_def)
  qed
qed

lemma reported_closed:
  assumes ok: "service_ok config metered w l" and old: "map_of l k = Some b"
  shows "service_ok config metered (reported metered kClosed w) (AList.delete k l)"
proof -
  have "distinct (map fst l)" "snd ` set l \<subseteq> set (cfg_backends config)" using ok by (simp_all add: service_ok_def)
  note l = delete_links[OF old this]
  show ?thesis
  proof (cases metered)
    case True
    with onStatistics_ok[OF ok _ l(1,2)] record_closed l(3) show ?thesis by (simp add: reported_def)
  next
    case False
    with ok unmetered_ok[OF _ l(1,2)] show ?thesis by (simp add: reported_def)
  qed
qed

lemma reported_plain:
  assumes ok: "service_ok config metered w l" and "kind \<noteq> kCreated" and "kind \<noteq> kClosed"
  shows "service_ok config metered (snd (onStatistics \<lparr>se_kind = kind, se_amount = n\<rparr> w)) l"
  by (rule onStatistics_ok[OF ok record_plain]) (use assms in \<open>auto simp: service_ok_def\<close>)

lemmas callbacks_ok = reported_plain preserves_snd[OF preserves_printed] preserves_snd[OF preserves_onMaintenance]
  preserves_snd[OF preserves_onReady]

section \<open>The life of a service\<close>

text \<open>A service without a selection and with metrics that have counted nothing.\<close>

lemma newServiceRuntime_ok:
  assumes "newServiceRuntime host config w = (r, t)"
  shows "case r of
      Inl e \<Rightarrow> sw_metrics t = sw_metrics w
    | Inr _ \<Rightarrow> sw_selection t = None \<and> metrics_ok (cfg_metrics config = kStderr) 0 (sw_metrics t)"
proof -
  have collector: "gauge_ok d 0" if "newMetricsCollector protocol count = Inr d" for protocol count d
    using that by (auto simp: newMetricsCollector_def gauge_ok_def split: if_splits)
  show ?thesis
    using assms
    by (auto simp: newServiceRuntime_def newMetricsService_def newMetricsOutput_def metrics_ok_def
          split: prod.splits sum.splits MetricsKind.splits dest: collector)
qed

lemma makeSelection_ok:
  assumes "makeSelection host config w = (r, t)" and "metrics_ok metered 0 (sw_metrics w)"
  shows "sw_metrics t = sw_metrics w \<and> (r = Inr () \<longrightarrow> service_ok config metered t [])"
proof -
  define checked where "checked \<longleftrightarrow> cfg_healthCheck config \<noteq> HealthCheck.kOff \<and>
      \<not> isl (createBackendScheduler (cfg_scheduler config) (length (cfg_backends config)))"
  obtain epollError v where ev: "(if checked then sh_epoll host (sw_world w) else (None, sw_world w)) = (epollError, v)"
    by fastforce
  show ?thesis
  proof (cases "newHealthSelection (sh_health host) config epollError v")
    case (Inl e)
    with assms ev show ?thesis by (auto simp: makeSelection_def checked_def[symmetric])
  next
    case (Inr s)
    with newHealthSelection_inv[OF Inr] assms ev show ?thesis by (auto simp: makeSelection_def service_ok_def checked_def[symmetric])
  qed
qed

text \<open>The metrics when the service is over; \<open>error\<close> tells how.\<close>

definition settled :: "bool \<Rightarrow> bool \<Rightarrow> 'v service_world \<Rightarrow> bool" where
  "settled metered error w \<longleftrightarrow> (case svc_output (sw_metrics w) of
     None \<Rightarrow> \<not> metered
   | Some out \<Rightarrow> metered \<and> svc_finalized (sw_metrics w) \<and> mo_finalized out \<and> gauge_ok (mo_collector out) 0 \<and>
       (error \<longrightarrow> ms_errorsTotal (mo_collector out) \<noteq> 0))"

lemma error_counted: "ms_errorsTotal (snd (recordStatEvent \<lparr>se_kind = kError, se_amount = 1\<rparr> d)) \<noteq> 0"
proof -
  have "ms_errorsTotal d + 1 \<noteq> 0" if "\<not> - 1 - ms_errorsTotal d \<le> 1"
  proof
    assume "ms_errorsTotal d + 1 = 0"
    then have "ms_errorsTotal d = - 1" by (metis eq_neg_iff_add_eq_0)
    with that show False by simp
  qed
  then show ?thesis by (auto simp: recordStatEvent_def incrementCounter_def addSaturatingCounter_def)
qed

lemma finish_settles:
  assumes "metrics_ok metered 0 (sw_metrics w)" and "serviceFinish host config error w = (r, t)"
  shows "r = Inr () \<and> settled metered error t"
proof -
  let ?svc = "lend_metrics (sw_selection w, sw_world w) (sw_metrics w)"
  obtain r' svc where run: "finishMetrics (service_metrics_env host config) error ?svc = (r', svc)" by fastforce
  then have t: "r = r'" "sw_metrics t = svc" using assms(2) by (auto simp: serviceFinish_def on_metrics_def)
  have ok: "metrics_ok metered 0 ?svc" using assms(1) by simp
  show ?thesis
  proof (cases "svc_output ?svc")
    case None
    with ok run t show ?thesis by (auto simp: finishMetrics_def run_simps returnC_def settled_def metrics_ok_def)
  next
    case (Some out)
    with ok have out: "metered" "\<not> svc_finalized ?svc" "gauge_ok (mo_collector out) 0" by (auto simp: metrics_ok_def)
    from finishMetrics_first[OF Some out(2) run] t out record_plain[OF out(3), of kError 1] error_counted
    show ?thesis by (auto simp: settled_def)
  qed
qed

lemma destroyed_service [simp]:
  "sw_metrics (destroyServiceRuntime host w) = sw_metrics w" "sw_selection (destroyServiceRuntime host w) = None"
  by (auto simp: destroyServiceRuntime_def split: option.split)

lemma settled_destroyed [simp]: "settled metered error (destroyServiceRuntime host w) \<longleftrightarrow> settled metered error w"
  by (simp add: settled_def split: option.split)

text \<open>Both lives, whatever the reactor is: a run that brings the gauge back to zero settles the metrics.\<close>

lemma lifecycle_settles:
  assumes start: "metrics_ok metered 0 (sw_metrics w)"
    and run: "\<And>w r t. service_ok config metered w [] \<Longrightarrow> m w = (r, t) \<Longrightarrow> metrics_ok metered 0 (sw_metrics t)"
    and ending: "\<And>e w r t. ending e w = (r, t) \<Longrightarrow> r = Inl e \<and> sw_metrics t = sw_metrics w"
    and life: "catchC (thenC (makeSelection host config) (bindC m (\<lambda>result. thenC (printed stream line)
        (thenC (serviceFinish host config False) (returnC result)))))
      (\<lambda>e. thenC (serviceFinish host config True) (ending e)) w = (r, t)"
  shows "settled metered (isl r) t"
proof -
  let ?P = "\<lambda>w :: 'a service_world. metrics_ok metered 0 (sw_metrics w)"
  have "triple ?P (makeSelection host config) (\<lambda>_ w. service_ok config metered w []) (\<lambda>_. ?P)"
    by (rule tripleI) (auto dest: makeSelection_ok)
  moreover have "triple (\<lambda>w. service_ok config metered w []) m (\<lambda>_. ?P) (\<lambda>_. ?P)"
    by (rule tripleI) (rule run; assumption)+
  moreover have "triple ?P (thenC (printed stream line) (thenC (serviceFinish host config False) (returnC result)))
      (\<lambda>_. settled metered False) (\<lambda>_. ?P)" for result
    by (rule tripleI)
       (auto simp: printed_def comp_defs split: prod.splits sum.splits dest!: finish_settles[rotated])
  ultimately have body: "triple ?P (thenC (makeSelection host config) (bindC m (\<lambda>result. thenC (printed stream line)
        (thenC (serviceFinish host config False) (returnC result))))) (\<lambda>_. settled metered False) (\<lambda>_. ?P)"
    by - (rule triple_then, assumption, rule triple_bind)
  have error: "r = Inl e \<and> settled metered True u"
    if "?P s" "thenC (serviceFinish host config True) (ending e) s = (r, u)" for e s r u
  proof -
    obtain x v where fin: "serviceFinish host config True s = (x, v)" by fastforce
    from finish_settles[OF that(1) fin] have "x = Inr ()" "settled metered True v" by simp_all
    with that(2) fin ending[of e v r u] show ?thesis by (simp add: thenC_run settled_def split: option.splits)
  qed
  obtain x u where u: "thenC (makeSelection host config) (bindC m (\<lambda>result. thenC (printed stream line)
        (thenC (serviceFinish host config False) (returnC result)))) w = (x, u)" by fastforce
  show ?thesis
  proof (cases x)
    case (Inl e)
    from triple_Inl[OF body start u[unfolded Inl]] error[of u e r t] life u Inl show ?thesis by (simp add: catchC_def)
  next
    case (Inr a)
    from triple_Inr[OF body start u[unfolded Inr]] life u Inr show ?thesis by (auto simp: catchC_def)
  qed
qed

end
