(* ===== verification/TcpService.thy ===== *)
theory TcpService
  imports TcpHost ServiceWorld
begin

text \<open>
  The TCP service: \<open>src/control/TcpService.cpp\<close>, \<open>TcpServiceRuntime\<close> on the TCP reactor. The members
  the UDP service has as well are in \<open>ServiceWorld\<close>.
\<close>

type_synonym 'v TcpServiceRuntime = "'v service_world"

section \<open>Lines\<close>

text \<open>The Chinese texts are written out as their UTF-8 bytes.\<close>

definition tcp_started :: string where
  "tcp_started = ''TCP '' @ [CHR 0xE6, CHR 0x9C, CHR 0x8D, CHR 0xE5, CHR 0x8A, CHR 0xA1, CHR 0xE5, CHR 0xB7,
     CHR 0xB2, CHR 0xE5, CHR 0x90, CHR 0xAF, CHR 0xE5, CHR 0x8A, CHR 0xA8, CHR 0xEF, CHR 0xBC, CHR 0x9A]"

definition tcp_stopped :: string where
  "tcp_stopped = ''TCP '' @ [CHR 0xE6, CHR 0x9C, CHR 0x8D, CHR 0xE5, CHR 0x8A, CHR 0xA1, CHR 0xE5, CHR 0xB7,
     CHR 0xB2, CHR 0xE5, CHR 0x81, CHR 0x9C, CHR 0xE6, CHR 0xAD, CHR 0xA2, CHR 0xEF, CHR 0xBC, CHR 0x9A,
     CHR 0xE5, CHR 0xB7, CHR 0xB2, CHR 0xE5, CHR 0xB0, CHR 0x9D, CHR 0xE8, CHR 0xAF, CHR 0x95, CHR 0xE6,
     CHR 0x9C, CHR 0x89, CHR 0xE7, CHR 0x95, CHR 0x8C, CHR 0xE6, CHR 0x8E, CHR 0x92, CHR 0xE7, CHR 0xA9,
     CHR 0xBA, CHR 0xE7, CHR 0x94, CHR 0xA8, CHR 0xE6, CHR 0x88, CHR 0xB7, CHR 0xE6, CHR 0x80, CHR 0x81,
     CHR 0xE5, CHR 0xBE, CHR 0x85, CHR 0xE5, CHR 0x8F, CHR 0x91, CHR 0xE9, CHR 0x98, CHR 0x9F, CHR 0xE5,
     CHR 0x88, CHR 0x97, CHR 0xEF, CHR 0xBC, CHR 0x8C, CHR 0xE4, CHR 0xB8, CHR 0x8D, CHR 0xE4, CHR 0xBF,
     CHR 0x9D, CHR 0xE8, CHR 0xAF, CHR 0x81, CHR 0xE5, CHR 0x9C, CHR 0xA8, CHR 0xE9, CHR 0x80, CHR 0x94,
     CHR 0xE6, CHR 0x95, CHR 0xB0, CHR 0xE6, CHR 0x8D, CHR 0xAE, CHR 0xE9, CHR 0x80, CHR 0x81, CHR 0xE8,
     CHR 0xBE, CHR 0xBE, CHR 0x0A]"

definition tcp_only :: string where
  "tcp_only = ''TCP '' @ [CHR 0xE5, CHR 0x85, CHR 0xA5, CHR 0xE5, CHR 0x8F, CHR 0xA3, CHR 0xE4, CHR 0xBB,
     CHR 0x85, CHR 0xE6, CHR 0x94, CHR 0xAF, CHR 0xE6, CHR 0x8C, CHR 0x81] @ '' TCP '' @ [CHR 0xE5, CHR 0x8D,
     CHR 0x8F, CHR 0xE8, CHR 0xAE, CHR 0xAE]"

definition signed_string :: "int \<Rightarrow> string" where
  "signed_string i = (if i < 0 then ''-'' @ dec_string (nat (- i)) else dec_string (nat i))"

definition onStopping :: "'v service_host \<Rightarrow> StopEvent \<Rightarrow> ('v service_world, unit) comp" where
  "onStopping host ev = printed (sh_stderr host)
     (''TCP draining pending_c2b='' @ dec_string (unat (fst (sp_pending ev))) @ '' pending_b2c='' @
      dec_string (unat (snd (sp_pending ev))) @ '' deadline_ns='' @ signed_string (sp_deadlineNs ev) @ [CHR 0x0A])"

definition onSession :: "'v service_host \<Rightarrow> SessionEvent \<Rightarrow> ('v service_world, unit) comp" where
  "onSession host ev = printed (sh_stderr host)
     (''session='' @ dec_string (unat (sv_id ev)) @ '' backend='' @ formatEndpoint (sv_backend ev) @
      '' reason='' @ sv_reason ev @
      (if sv_accepted ev then []
       else '' sent_c2b='' @ dec_string (unat (fst (sv_sent ev))) @ '' sent_b2c='' @ dec_string (unat (snd (sv_sent ev)))) @
      (if sv_error ev = 0 then [] else '' errno='' @ dec_string (sv_error ev) @ '' '' @ sh_message host (sv_error ev)) @
      [CHR 0x0A])"

definition onDiagnostic :: "'v service_host \<Rightarrow> string \<Rightarrow> errno \<Rightarrow> ('v service_world, unit) comp" where
  "onDiagnostic host operation error = printed (sh_stderr host)
     (operation @ '' errno='' @ dec_string error @ '' '' @ sh_message host error @ [CHR 0x0A])"

section \<open>The service\<close>

text \<open>\<open>w\<close> is the state at the binding: what is switched off then stays without a callback.\<close>

definition bindReactorCallbacks :: "'v service_host \<Rightarrow> Config \<Rightarrow> 'v service_world \<Rightarrow> 'v service_world TcpReactorCallbacks \<Rightarrow>
    'v service_world TcpReactorCallbacks" where
  "bindReactorCallbacks host config w callbacks = callbacks\<lparr>
     tcb_backendSelector := Some (serviceSelectBackend host),
     tcb_statistics := (if metrics_enabled w then Some (\<lambda>ev. as_callback (onStatistics ev)) else tcb_statistics callbacks),
     tcb_maintenance := (if selection_enabled w \<or> metrics_enabled w then Some (as_callback (onMaintenance host config))
       else tcb_maintenance callbacks),
     tcb_ready := Some (as_callback (onReady host config tcp_started)),
     tcb_stopping := Some (\<lambda>ev. as_callback (onStopping host ev)),
     tcb_session := Some (\<lambda>ev. as_callback (onSession host ev)),
     tcb_diagnostic := Some (\<lambda>operation error. as_callback (onDiagnostic host operation error))\<rparr>"

text \<open>\<open>sys\<close> gives the calls of a reactor that listens on the given endpoint.\<close>

definition tcp_service_env :: "(Endpoint \<Rightarrow> 'v tcp_env) \<Rightarrow> 'v service_host \<Rightarrow> Config \<Rightarrow> 'v service_world \<Rightarrow>
    'v service_world tcp_env" where
  "tcp_service_env sys host config w = tcp_reactor_env sw_world put_world (sys (cfg_listen config))
     (bindReactorCallbacks host config w noTcpCallbacks) defaultTcpOptions"

definition runTcpServiceLifecycle :: "(Endpoint \<Rightarrow> 'v tcp_env) \<Rightarrow> 'v service_host \<Rightarrow> Config \<Rightarrow> nat \<Rightarrow>
    ('v service_world, int) comp" where
  "runTcpServiceLifecycle sys host config fuel = catchC
     (thenC (makeSelection host config)
     (bindC (getC (tcp_service_env sys host config)) (\<lambda>env.
      bindC (hostTcpReactor env fuel) (\<lambda>result.
      thenC (printed (sh_stderr host) tcp_stopped)
     (thenC (serviceFinish host config False)
            (returnC result))))))
     (\<lambda>e. thenC (serviceFinish host config True) (throwC e))"

definition runTcpService :: "(Endpoint \<Rightarrow> 'v tcp_env) \<Rightarrow> 'v service_host \<Rightarrow> Config \<Rightarrow> nat \<Rightarrow> ('v service_world, int) comp" where
  "runTcpService sys host config fuel =
     (if cfg_protocol config \<noteq> kTcp then throwC (InvalidArgument tcp_only)
      else thenC (newServiceRuntime host config) (finallyC (runTcpServiceLifecycle sys host config fuel) (destroyServiceRuntime host)))"

section \<open>The reactor in the service\<close>

lemma tcp_service_env_simps:
  "te_maxSessions (tcp_service_env sys host config w0) = 1024"
  "te_selector (tcp_service_env sys host config w0) = Some (serviceSelectBackend host)"
  "te_order (tcp_service_env sys host config w0) = te_order (sys (cfg_listen config))"
  "te_epollWait (tcp_service_env sys host config w0) timeout =
     within sw_world put_world (te_epollWait (sys (cfg_listen config)) timeout)"
  "session_world (tcp_service_env sys host config w0) kind = reported (metrics_enabled w0) kind"
  by (auto simp: tcp_service_env_def tcp_reactor_env_def bindReactorCallbacks_def defaultTcpOptions_def noTcpCallbacks_def
        session_world_def reported_def snd_as_callback fun_eq_iff)

lemma tcp_service_calls:
  assumes "f \<in> tcp_calls (tcp_service_env sys host config w0)" and ok: "service_ok config metered w l"
  shows "service_ok config metered (f w) l"
proof (rule tcp_reactor_calls[OF assms(1)[unfolded tcp_service_env_def], of "\<lambda>w. service_ok config metered w l", OF ok])
  show "service_ok config metered (put_world v w) l" if "service_ok config metered w l" for v w
    using that by (rule service_ok_world)
qed (auto simp: bindReactorCallbacks_def noTcpCallbacks_def defaultTcpOptions_def snd_as_callback onStopping_def onSession_def
       onDiagnostic_def callbacks_ok[OF ok] split: if_splits)

interpretation tcp_service: tcp_world "tcp_service_env sys host config w0" "service_ok config (metrics_enabled w0)"
    "\<lambda>b. b \<in> set (cfg_backends config)" for sys host config w0
proof (unfold_locales, goal_cases)
  case (1 f w l)
  then show ?case by (rule tcp_service_calls)
next
  case (2 g w l r w')
  then show ?case using selected_ok[of config _ w l host r w'] by (simp add: tcp_service_env_simps)
next
  case (3 w l sid b)
  then show ?case by (simp add: tcp_service_env_simps reported_created)
next
  case (4 w l sid b)
  then show ?case by (simp add: tcp_service_env_simps reported_closed)
qed

lemma tcp_service_batch:
  assumes "\<And>timeout v es v'. te_epollWait (sys (cfg_listen config)) timeout v = (Inr es, v') \<Longrightarrow> length es \<le> 128"
    and "te_epollWait (tcp_service_env sys host config w0) timeout w = (Inr es, w')"
  shows "length es \<le> 128"
  using assms(2) by (auto simp: tcp_service_env_simps within_def split: prod.splits intro: assms(1))

text \<open>The run of the reactor brings the gauge back to zero.\<close>

lemma tcp_service_returns:
  assumes batch: "\<And>timeout v es v'. te_epollWait (sys (cfg_listen config)) timeout v = (Inr es, v') \<Longrightarrow> length es \<le> 128"
    and order: "\<And>ks. set (te_order (sys (cfg_listen config)) ks) = set ks" and fuel: "8192 * fuel < 18446744073709551615"
    and ok: "service_ok config (metrics_enabled w) w []"
    and run: "hostTcpReactor (tcp_service_env sys host config w) fuel w = (r, t)"
  shows "service_ok config (metrics_enabled w) t []"
proof -
  let ?env = "tcp_service_env sys host config w"
  obtain s where s: "runTcpReactor ?env fuel (emptyTcpReactor w) = (r, s)" "t = tr_world s"
    using run by (auto simp: hostTcpReactor_def split: prod.splits)
  have batch': "te_epollWait ?env timeout w = (Inr es, w') \<Longrightarrow> length es \<le> 128" for timeout w es w'
    using tcp_service_batch[OF batch] .
  have "tr_sessions s = []"
    using run_released[OF batch' _ fuel s(1)] order by (simp add: tcp_service_env_simps)
  with tcp_service.served_run[OF batch' fuel ok s(1)] s(2) show ?thesis by (simp add: served_def)
qed

end
