(* ===== verification/UdpReactor.thy ===== *)
theory UdpReactor
  imports Config Statistics Alists
begin

unbundle bit_operations_syntax

text \<open>
  The UDP data plane: \<open>src/core/UdpFlow.h\<close>, \<open>src/net/UdpReactor.h\<close> and
  \<open>src/net/UdpReactor.cpp\<close>. The two hash tables are association lists; the order in which a
  table is walked is a parameter. System calls, the clock and the callbacks are parameters over
  an abstract world; callbacks may throw. Exhausted memory is not modelled.
\<close>

section \<open>Data\<close>

record UdpFlowKey =
  fk_client :: Endpoint
  fk_localAddress :: ipv4

record UdpIdleDeadline =
  lastSubmissionTime :: time

definition recordSubmission :: "time \<Rightarrow> UdpIdleDeadline \<Rightarrow> UdpIdleDeadline" where
  "recordSubmission now d = d\<lparr>lastSubmissionTime := now\<rparr>"

definition deadline_expired :: "UdpIdleDeadline \<Rightarrow> time \<Rightarrow> time \<Rightarrow> bool" where
  "deadline_expired d now timeout \<longleftrightarrow> timeout \<le> now - lastSubmissionTime d"

record UdpFlow =
  uf_key :: UdpFlowKey
  uf_backend :: Endpoint
  uf_fd :: nat
  uf_token :: u64
  uf_deadline :: UdpIdleDeadline

record UdpFlowEvent =
  fe_id :: u64
  fe_backend :: Endpoint
  fe_reason :: string
  fe_error :: errno

record UdpObservation =
  uo_kind :: string
  uo_token :: u64
  uo_fd :: int
  uo_flows :: nat
  uo_tokens :: nat

text \<open>A received message as \<open>recvmsg\<close> fills it in; a control message that is not \<open>IP_PKTINFO\<close> is \<open>None\<close>.\<close>

record pktinfo =
  pi_lengthOk :: bool
  pi_addr :: ipv4
  pi_spec_dst :: ipv4

record udp_message =
  um_data :: "u8 list"
  um_namelenOk :: bool
  um_inet :: bool
  um_port :: u16
  um_address :: ipv4
  um_trunc :: bool
  um_ctrunc :: bool
  um_control :: "pktinfo option list"

record send_request =
  sr_fd :: nat
  sr_data :: "u8 list"
  sr_reply :: "(Endpoint \<times> ipv4) option"

text \<open>\<open>ur_members\<close> are the descriptors the members \<open>listenerFd_\<close>, \<open>epollFd_\<close> and \<open>signalFd_\<close> own, as they are closed.\<close>

record 'w UdpReactor =
  ur_flowTokensByKey :: "(UdpFlowKey \<times> u64) list"
  ur_flows :: "(u64 \<times> UdpFlow) list"
  ur_nextFlowToken :: u64
  ur_lastDiagnosticTimes :: "(string \<times> time) list"
  ur_listenerFd :: nat
  ur_members :: "nat list"
  ur_masked :: bool
  ur_world :: 'w

record 'w udp_env =
  ue_listen :: Endpoint
  ue_maxFlows :: nat
  ue_idleTimeout :: time
  ue_pollInterval :: time
  ue_receiveSize :: nat
  ue_now :: "'w \<Rightarrow> time \<times> 'w"
  ue_order :: "u64 list \<Rightarrow> u64 list"
  ue_selector :: "('w \<Rightarrow> (exn + Endpoint option) \<times> 'w) option"
  ue_maintenance :: "('w \<Rightarrow> exn option \<times> 'w) option"
  ue_ready :: "('w \<Rightarrow> exn option \<times> 'w) option"
  ue_statistics :: "(StatEvent \<Rightarrow> 'w \<Rightarrow> exn option \<times> 'w) option"
  ue_observation :: "(UdpObservation \<Rightarrow> 'w \<Rightarrow> exn option \<times> 'w) option"
  ue_flow :: "(UdpFlowEvent \<Rightarrow> 'w \<Rightarrow> exn option \<times> 'w) option"
  ue_diagnostic :: "(string \<Rightarrow> errno \<Rightarrow> 'w \<Rightarrow> exn option \<times> 'w) option"
  ue_sigmask :: "'w \<Rightarrow> errno option \<times> 'w"
  ue_sigrestore :: "'w \<Rightarrow> 'w"
  ue_open :: "string \<Rightarrow> 'w \<Rightarrow> (errno + nat) \<times> 'w"
  ue_setup :: "string \<Rightarrow> 'w \<Rightarrow> errno option \<times> 'w"
  ue_bind :: "nat \<Rightarrow> 'w \<Rightarrow> errno option \<times> 'w"
  ue_connect :: "nat \<Rightarrow> Endpoint \<Rightarrow> 'w \<Rightarrow> errno option \<times> 'w"
  ue_setupEpoll :: "nat \<Rightarrow> 'w \<Rightarrow> errno option \<times> 'w"
  ue_epollAdd :: "nat \<Rightarrow> u64 \<Rightarrow> 'w \<Rightarrow> errno option \<times> 'w"
  ue_epollDel :: "nat \<Rightarrow> 'w \<Rightarrow> errno option \<times> 'w"
  ue_close :: "nat \<Rightarrow> 'w \<Rightarrow> 'w"
  ue_recv :: "nat \<Rightarrow> nat \<Rightarrow> 'w \<Rightarrow> (errno + udp_message) \<times> 'w"
  ue_send :: "send_request \<Rightarrow> 'w \<Rightarrow> (errno + nat) \<times> 'w"
  ue_socketError :: "nat \<Rightarrow> 'w \<Rightarrow> (errno + errno) \<times> 'w"
  ue_signalRead :: "'w \<Rightarrow> (errno + nat) \<times> 'w"
  ue_epollWait :: "'w \<Rightarrow> (errno + (u64 \<times> u32) list) \<times> 'w"

section \<open>Calls of the environment\<close>

definition sysU :: "('w \<Rightarrow> 'a \<times> 'w) \<Rightarrow> ('w UdpReactor, 'a) comp" where
  "sysU f s = (case f (ur_world s) of (a, w) \<Rightarrow> (Inr a, s\<lparr>ur_world := w\<rparr>))"

definition actU :: "('w \<Rightarrow> 'w) \<Rightarrow> ('w UdpReactor, unit) comp" where
  "actU f = modifyC (\<lambda>s. s\<lparr>ur_world := f (ur_world s)\<rparr>)"

text \<open>A local \<open>Fd\<close> that is closed when its scope ends, by a return or a throw.\<close>

definition scopedFd :: "'w udp_env \<Rightarrow> nat \<Rightarrow> ('w UdpReactor, 'a) comp \<Rightarrow> ('w UdpReactor, 'a) comp" where
  "scopedFd env fd m = finallyC m (\<lambda>s. s\<lparr>ur_world := ue_close env fd (ur_world s)\<rparr>)"

text \<open>A callback that may be absent and may throw.\<close>

definition callbackU :: "('w \<Rightarrow> exn option \<times> 'w) option \<Rightarrow> ('w UdpReactor, unit) comp" where
  "callbackU callback = (case callback of None \<Rightarrow> returnC () | Some f \<Rightarrow> bindC (sysU f) rethrowC)"

definition reportStatEvent :: "'w udp_env \<Rightarrow> StatKind \<Rightarrow> u64 \<Rightarrow> ('w UdpReactor, unit) comp" where
  "reportStatEvent env kind amount =
     callbackU (map_option (\<lambda>f. f \<lparr>se_kind = kind, se_amount = amount\<rparr>) (ue_statistics env))"

definition reportObservation :: "'w udp_env \<Rightarrow> string \<Rightarrow> u64 \<Rightarrow> int \<Rightarrow> ('w UdpReactor, unit) comp" where
  "reportObservation env kind token fd =
     bindC (getC (\<lambda>s. (length (ur_flows s), length (ur_flowTokensByKey s)))) (\<lambda>(flows, tokens).
       callbackU (map_option (\<lambda>f. f \<lparr>uo_kind = kind, uo_token = token, uo_fd = fd, uo_flows = flows,
         uo_tokens = tokens\<rparr>) (ue_observation env)))"

definition reportDiagnostic :: "'w udp_env \<Rightarrow> string \<Rightarrow> errno \<Rightarrow> ('w UdpReactor, unit) comp" where
  "reportDiagnostic env kind error =
     thenC (reportObservation env kind 0 (- 1))
    (bindC (sysU (ue_now env)) (\<lambda>time.
     bindC (getC (\<lambda>s. map_of (ur_lastDiagnosticTimes s) kind)) (\<lambda>lastTime.
     if (case lastTime of None \<Rightarrow> False | Some t \<Rightarrow> time - t < seconds 1) then returnC ()
     else thenC (modifyC (\<lambda>s. s\<lparr>ur_lastDiagnosticTimes := AList.update kind time (ur_lastDiagnosticTimes s)\<rparr>))
                (callbackU (map_option (\<lambda>f. f kind error) (ue_diagnostic env))))))"

definition isUnicastAddress :: "ipv4 \<Rightarrow> bool" where
  "isUnicastAddress a \<longleftrightarrow> a \<noteq> (0, 0, 0, 0) \<and> a \<noteq> (255, 255, 255, 255) \<and> \<not> (224 \<le> fst a \<and> fst a \<le> 239)"

definition isResourcePressure :: "errno \<Rightarrow> bool" where
  "isResourcePressure e \<longleftrightarrow> e = EAGAIN \<or> e = EWOULDBLOCK \<or> e = ENOBUFS \<or> e = ENOMEM \<or> e = EMSGSIZE"

definition isSharedSocketError :: "errno \<Rightarrow> bool" where
  "isSharedSocketError e \<longleftrightarrow> isResourcePressure e \<or> e = ECONNREFUSED \<or> e = ECONNRESET \<or>
     e = ENETUNREACH \<or> e = EHOSTUNREACH \<or> e = EACCES"

definition registerFlowSocket :: "'w udp_env \<Rightarrow> nat \<Rightarrow> u64 \<Rightarrow> ('w UdpReactor, unit) comp" where
  "registerFlowSocket env fd token = bindC (sysU (ue_epollAdd env fd token)) (\<lambda>r.
     case r of None \<Rightarrow> returnC () | Some e \<Rightarrow> throwC (SystemError ''UDP epoll add'' e))"

text \<open>\<open>sizeof(signalfd_siginfo)\<close> is 128.\<close>

definition consumeStopSignals :: "'w udp_env \<Rightarrow> ('w UdpReactor, bool) comp" where
  "consumeStopSignals env = bindC (sysU (ue_signalRead env)) (\<lambda>r. case r of
     Inr n \<Rightarrow> if n = 128 then returnC True else throwC (SystemError ''UDP signalfd read'' EIO)
   | Inl e \<Rightarrow> if e = EAGAIN \<or> e = EINTR then returnC False
              else throwC (SystemError ''UDP signalfd read'' e))"

section \<open>Closing and expiring flows\<close>

definition closeFlow :: "'w udp_env \<Rightarrow> u64 \<Rightarrow> string \<Rightarrow> errno \<Rightarrow> ('w UdpReactor, unit) comp" where
  "closeFlow env token reason error =
     bindC (getC (\<lambda>s. map_of (ur_flows s) token)) (\<lambda>found.
     case found of
       None \<Rightarrow> returnC ()
     | Some flow \<Rightarrow>
         thenC (modifyC (\<lambda>s. s\<lparr>ur_flowTokensByKey := AList.delete (uf_key flow) (ur_flowTokensByKey s),
                               ur_flows := AList.delete token (ur_flows s)\<rparr>))
        (bindC (sysU (ue_epollDel env (uf_fd flow))) (\<lambda>del.
         let detachError = (case del of None \<Rightarrow> 0 | Some e \<Rightarrow> if e = ENOENT \<or> e = EBADF then 0 else e)
         in thenC (actU (ue_close env (uf_fd flow)))
           (bindC (if detachError = 0 then returnC None
                   else bindC (attemptC (reportStatEvent env kError 1) None)
                          (attemptC (callbackU (map_option (\<lambda>f. f ''UDP epoll DEL'' detachError)
                             (ue_diagnostic env))))) (\<lambda>failure1.
            bindC (attemptC (reportStatEvent env kClosed 1) failure1) (\<lambda>failure2.
            bindC (attemptC (reportObservation env reason token (int (uf_fd flow))) failure2) (\<lambda>failure3.
            bindC (attemptC (callbackU (map_option (\<lambda>f. f \<lparr>fe_id = token, fe_backend = uf_backend flow,
               fe_reason = reason, fe_error = error\<rparr>) (ue_flow env))) failure3) rethrowC)))))))"

text \<open>\<open>while (!flows_.empty())\<close>, on fuel: every pass closes the flow the table starts with.\<close>

fun closeAllLoop :: "'w udp_env \<Rightarrow> nat \<Rightarrow> exn option \<Rightarrow> ('w UdpReactor, unit) comp" where
  "closeAllLoop env fuel failure =
     bindC (getC (\<lambda>s. ue_order env (map fst (ur_flows s)))) (\<lambda>tokens.
     case tokens of
       [] \<Rightarrow> rethrowC failure
     | token # _ \<Rightarrow> (case fuel of
         0 \<Rightarrow> throwC OutOfFuel
       | Suc n \<Rightarrow> bindC (attemptC (closeFlow env token ''service-stop'' 0) failure) (closeAllLoop env n)))"

declare closeAllLoop.simps [simp del]

definition closeAllFlows :: "'w udp_env \<Rightarrow> ('w UdpReactor, unit) comp" where
  "closeAllFlows env = bindC (getC (\<lambda>s. length (ur_flows s))) (\<lambda>n. closeAllLoop env n None)"

definition closeIfExpired :: "'w udp_env \<Rightarrow> time \<Rightarrow> u64 \<Rightarrow> ('w UdpReactor, unit) comp" where
  "closeIfExpired env time token =
     bindC (getC (\<lambda>s. map_of (ur_flows s) token)) (\<lambda>found.
     case found of
       None \<Rightarrow> returnC ()
     | Some flow \<Rightarrow>
         whenC (deadline_expired (uf_deadline flow) time (ue_idleTimeout env))
           (thenC (reportStatEvent env kTimeout 1) (closeFlow env token ''idle-timeout'' 0)))"

definition expireIdleFlows :: "'w udp_env \<Rightarrow> ('w UdpReactor, unit) comp" where
  "expireIdleFlows env =
     bindC (sysU (ue_now env)) (\<lambda>time.
     bindC (getC (\<lambda>s. ue_order env (map fst (ur_flows s)))) (\<lambda>tokens.
       forC tokens (closeIfExpired env time)))"

section \<open>Creating flows\<close>

definition setupDrop :: "'w udp_env \<Rightarrow> errno \<Rightarrow> ('w UdpReactor, unit) comp" where
  "setupDrop env error = thenC (reportStatEvent env kError 1) (reportDiagnostic env ''setup-drop'' error)"

definition eraseFlow :: "UdpFlowKey \<Rightarrow> u64 \<Rightarrow> ('w UdpReactor, unit) comp" where
  "eraseFlow key token = modifyC (\<lambda>s. s\<lparr>ur_flowTokensByKey := AList.delete key (ur_flowTokensByKey s),
     ur_flows := AList.delete token (ur_flows s)\<rparr>)"

definition registerFlowIndexesAndSocket ::
  "'w udp_env \<Rightarrow> UdpFlowKey \<Rightarrow> u64 \<Rightarrow> UdpFlow \<Rightarrow> ('w UdpReactor, bool) comp" where
  "registerFlowIndexesAndSocket env key token flow =
     thenC (modifyC (\<lambda>s. s\<lparr>ur_flowTokensByKey := emplace key token (ur_flowTokensByKey s),
                           ur_flows := emplace token flow (ur_flows s)\<rparr>))
    (bindC (sysU (ue_epollAdd env (uf_fd flow) token)) (\<lambda>added.
     case added of
       None \<Rightarrow> returnC True
     | Some e \<Rightarrow>
         thenC (eraseFlow key token)
        (thenC (actU (ue_close env (uf_fd flow)))
        (if e = EBADF \<or> e = EINVAL then throwC (SystemError ''UDP epoll add'' e)
         else thenC (setupDrop env e) (returnC False)))))"

definition createFlow :: "'w udp_env \<Rightarrow> UdpFlowKey \<Rightarrow> ('w UdpReactor, u64) comp" where
  "createFlow env key =
     thenC (expireIdleFlows env)
    (bindC (getC (\<lambda>s. length (ur_flows s))) (\<lambda>count.
     if ue_maxFlows env \<le> count
     then thenC (reportStatEvent env kRejected 1) (thenC (reportDiagnostic env ''capacity-drop'' 0) (returnC 0))
     else
     bindC (case ue_selector env of
              None \<Rightarrow> throwC (LogicError ''bad_function_call'')
            | Some f \<Rightarrow> (\<lambda>s. case f (ur_world s) of (r, w) \<Rightarrow> (r, s\<lparr>ur_world := w\<rparr>))) (\<lambda>selected.
     case selected of
       None \<Rightarrow> thenC (reportStatEvent env kRejected 1) (returnC 0)
     | Some backend \<Rightarrow>
     bindC (sysU (ue_open env ''socket'')) (\<lambda>opened.
     case opened of
       Inl e \<Rightarrow> thenC (setupDrop env e) (returnC 0)
     | Inr fd \<Rightarrow>
     bindC (sysU (ue_bind env fd)) (\<lambda>bound.
     case bound of
       Some e \<Rightarrow> scopedFd env fd (thenC (setupDrop env e) (returnC 0))
     | None \<Rightarrow>
     bindC (sysU (ue_connect env fd backend)) (\<lambda>connected.
     case connected of
       Some e \<Rightarrow> scopedFd env fd (thenC (setupDrop env e) (returnC 0))
     | None \<Rightarrow>
     bindC (getC ur_nextFlowToken) (\<lambda>token.
     if token = - 1 then scopedFd env fd (throwC (OverflowError ''UDP token exhausted''))
     else
     thenC (modifyC (\<lambda>s. s\<lparr>ur_nextFlowToken := token + 1\<rparr>))
    (bindC (sysU (ue_now env)) (\<lambda>now.
     let flow = \<lparr>uf_key = key, uf_backend = backend, uf_fd = fd, uf_token = token,
                 uf_deadline = \<lparr>lastSubmissionTime = now\<rparr>\<rparr> in
     bindC (sysU (ue_setupEpoll env fd)) (\<lambda>injected.
     case injected of
       Some e \<Rightarrow> scopedFd env fd (thenC (setupDrop env e) (returnC 0))
     | None \<Rightarrow>
     bindC (registerFlowIndexesAndSocket env key token flow) (\<lambda>registered.
     if \<not> registered then returnC 0
     else thenC (reportStatEvent env kCreated 1)
         (thenC (reportObservation env ''created'' token (int fd))
         (thenC (callbackU (map_option (\<lambda>f. f \<lparr>fe_id = token, fe_backend = backend,
                   fe_reason = ''created'', fe_error = 0\<rparr>) (ue_flow env)))
                (returnC token))))))))))))))"

text \<open>Found and not expired, or closed and created anew; a throw while creating counts one dropped datagram.\<close>

definition resolveFlowTokenForDatagram :: "'w udp_env \<Rightarrow> UdpFlowKey \<Rightarrow> ('w UdpReactor, u64) comp" where
  "resolveFlowTokenForDatagram env key =
     (let create = catchC (createFlow env key)
            (\<lambda>e. thenC (reportStatEvent env kDropped 1) (throwC e)) in
      bindC (getC (\<lambda>s. map_of (ur_flowTokensByKey s) key)) (\<lambda>tokenIt.
      case tokenIt of
        None \<Rightarrow> create
      | Some token \<Rightarrow>
          if token = 0 then create else
          bindC (getC (\<lambda>s. map_of (ur_flows s) token)) (\<lambda>found.
          case found of
            None \<Rightarrow> throwC OutOfRange
          | Some flow \<Rightarrow>
              bindC (sysU (ue_now env)) (\<lambda>now.
              if deadline_expired (uf_deadline flow) now (ue_idleTimeout env)
              then thenC (reportStatEvent env kTimeout 1)
                  (thenC (closeFlow env token ''idle-timeout'' 0) create)
              else returnC token))))"

section \<open>Datagrams\<close>

definition kUdpPayloadLimit :: nat where
  "kUdpPayloadLimit = 65507"

text \<open>The control-message loop of \<open>parsePacketMetadata\<close>: \<open>None\<close> is \<open>return false\<close>.\<close>

fun scan_control :: "pktinfo option list \<Rightarrow> nat \<Rightarrow> ipv4 \<Rightarrow> (nat \<times> ipv4) option" where
  "scan_control [] found local = Some (found, local)"
| "scan_control (None # cs) found local = scan_control cs found local"
| "scan_control (Some c # cs) found local =
     (if \<not> pi_lengthOk c then None
      else if found + 1 \<noteq> 1 \<or> \<not> isUnicastAddress (pi_addr c) \<or> pi_addr c \<noteq> pi_spec_dst c then None
      else scan_control cs (found + 1) (pi_addr c))"

definition parsePacketMetadata :: "'w udp_env \<Rightarrow> udp_message \<Rightarrow> UdpFlowKey option" where
  "parsePacketMetadata env m =
     (if \<not> um_namelenOk m \<or> \<not> um_inet m \<or> um_port m = 0 \<or> um_ctrunc m then None
      else if \<not> isUnicastAddress (um_address m) then None
      else case scan_control (um_control m) 0 (0, 0, 0, 0) of
        None \<Rightarrow> None
      | Some (found, local) \<Rightarrow>
          if found = 1 \<and> (ep_address (ue_listen env) = (0, 0, 0, 0) \<or> ep_address (ue_listen env) = local)
          then Some \<lparr>fk_client = \<lparr>ep_address = um_address m, ep_port = um_port m\<rparr>, fk_localAddress = local\<rparr>
          else None)"

definition handleSocketError ::
  "'w udp_env \<Rightarrow> errno \<Rightarrow> bool \<Rightarrow> u64 \<Rightarrow> string \<Rightarrow> ('w UdpReactor, bool) comp" where
  "handleSocketError env code listener token kind =
     (let count = whenC (code \<noteq> EAGAIN \<and> code \<noteq> EWOULDBLOCK \<and> code \<noteq> EINTR) (reportStatEvent env kError 1) in
      if code = EBADF \<or> code = ENOTSOCK \<or> code = EINVAL then throwC (SystemError kind code)
      else if listener then
        (if \<not> isSharedSocketError code then throwC (SystemError kind code)
         else thenC count (thenC (reportDiagnostic env kind code) (returnC True)))
      else if isResourcePressure code
      then thenC count (thenC (reportDiagnostic env kind code) (returnC True))
      else thenC count (thenC (closeFlow env token kind code) (returnC False)))"

text \<open>At most four attempts; \<open>token\<close> names the flow the source passes by reference.\<close>

fun send_attempts ::
  "'w udp_env \<Rightarrow> nat \<Rightarrow> u64 \<Rightarrow> send_request \<Rightarrow> bool \<Rightarrow> ('w UdpReactor, unit) comp" where
  "send_attempts env 0 token request reply =
     thenC (reportStatEvent env kDropped 1) (reportDiagnostic env ''send-budget-drop'' 0)"
| "send_attempts env (Suc attempts) token request reply =
     bindC (sysU (ue_send env request)) (\<lambda>result.
     case result of
       Inr sentBytes \<Rightarrow>
         if sentBytes = length (sr_data request) then
           thenC (reportStatEvent env (if reply then kBytesB2c else kBytesC2b) (of_nat (length (sr_data request))))
          (thenC (reportStatEvent env (if reply then kDatagramB2c else kDatagramC2b) 1)
          (bindC (sysU (ue_now env)) (\<lambda>now.
           thenC (modifyC (\<lambda>s. s\<lparr>ur_flows := AList.map_entry token
                    (\<lambda>f. f\<lparr>uf_deadline := recordSubmission now (uf_deadline f)\<rparr>) (ur_flows s)\<rparr>))
                 (reportObservation env (if reply then ''sent-reply'' else ''sent-request'') token
                    (int (sr_fd request))))))
         else thenC (reportStatEvent env kError 1)
             (thenC (reportStatEvent env kDropped 1) (reportDiagnostic env ''short-send-drop'' 0))
     | Inl e \<Rightarrow>
         if e = EINTR then send_attempts env attempts token request reply
         else thenC (reportStatEvent env kDropped 1)
             (thenC (handleSocketError env e reply token
                       (if reply then ''listener-send-drop'' else ''backend-send-error''))
                    (returnC ())))"

definition sendFlowDatagram :: "'w udp_env \<Rightarrow> u64 \<Rightarrow> u8 list \<Rightarrow> bool \<Rightarrow> ('w UdpReactor, unit) comp" where
  "sendFlowDatagram env token data reply =
     bindC (getC (\<lambda>s. (map_of (ur_flows s) token, ur_listenerFd s))) (\<lambda>(found, listenerFd).
     case found of
       None \<Rightarrow> throwC OutOfRange
     | Some flow \<Rightarrow>
         send_attempts env 4 token
           (if reply
            then \<lparr>sr_fd = listenerFd, sr_data = data,
                  sr_reply = Some (fk_client (uf_key flow), fk_localAddress (uf_key flow))\<rparr>
            else \<lparr>sr_fd = uf_fd flow, sr_data = data, sr_reply = None\<rparr>) reply)"

fun listener_reads :: "'w udp_env \<Rightarrow> nat \<Rightarrow> ('w UdpReactor, unit) comp" where
  "listener_reads env 0 = reportObservation env ''listener-budget'' 0 (- 1)"
| "listener_reads env (Suc attempts) =
     bindC (getC ur_listenerFd) (\<lambda>fd.
     bindC (sysU (ue_recv env fd (ue_receiveSize env))) (\<lambda>received.
     case received of
       Inl e \<Rightarrow>
         if e = EINTR then listener_reads env attempts
         else if e = EAGAIN \<or> e = EWOULDBLOCK then returnC ()
         else thenC (handleSocketError env e True 0 ''listener-recv-error'') (returnC ())
     | Inr m \<Rightarrow>
         if um_trunc m \<or> kUdpPayloadLimit < length (um_data m)
         then thenC (reportStatEvent env kDropped 1)
             (thenC (reportDiagnostic env ''listener-truncated'' 0) (listener_reads env attempts))
         else case parsePacketMetadata env m of
           None \<Rightarrow> thenC (reportStatEvent env kDropped 1)
                  (thenC (reportDiagnostic env ''metadata-drop'' 0) (listener_reads env attempts))
         | Some key \<Rightarrow>
             bindC (resolveFlowTokenForDatagram env key) (\<lambda>token.
             thenC (if token \<noteq> 0 then sendFlowDatagram env token (um_data m) False
                    else reportStatEvent env kDropped 1)
                   (listener_reads env attempts))))"

definition handleListenerRead :: "'w udp_env \<Rightarrow> ('w UdpReactor, unit) comp" where
  "handleListenerRead env = listener_reads env 64"

fun backend_reads :: "'w udp_env \<Rightarrow> nat \<Rightarrow> u64 \<Rightarrow> ('w UdpReactor, unit) comp" where
  "backend_reads env 0 token = reportObservation env ''backend-budget'' token (- 1)"
| "backend_reads env (Suc attempts) token =
     bindC (getC (\<lambda>s. map_of (ur_flows s) token)) (\<lambda>found.
     case found of
       None \<Rightarrow> returnC ()
     | Some flow \<Rightarrow>
         bindC (sysU (ue_now env)) (\<lambda>now.
         if deadline_expired (uf_deadline flow) now (ue_idleTimeout env)
         then thenC (reportStatEvent env kTimeout 1) (closeFlow env token ''idle-timeout'' 0)
         else
         bindC (sysU (ue_recv env (uf_fd flow) (ue_receiveSize env))) (\<lambda>received.
         case received of
           Inl e \<Rightarrow>
             if e = EINTR then backend_reads env attempts token
             else if e = EAGAIN \<or> e = EWOULDBLOCK then returnC ()
             else thenC (handleSocketError env e False token ''backend-recv-error'') (returnC ())
         | Inr m \<Rightarrow>
             if um_trunc m \<or> kUdpPayloadLimit < length (um_data m)
             then thenC (reportStatEvent env kDropped 1)
                 (thenC (reportDiagnostic env ''backend-truncated'' 0) (backend_reads env attempts token))
             else thenC (sendFlowDatagram env token (um_data m) True) (backend_reads env attempts token))))"

definition handleBackendRead :: "'w udp_env \<Rightarrow> u64 \<Rightarrow> ('w UdpReactor, unit) comp" where
  "handleBackendRead env token = backend_reads env 64 token"

section \<open>Events and the loop\<close>

text \<open>The \<open>EPOLLERR\<close> branch: whether handling goes on after it.\<close>

definition dispatchError :: "'w udp_env \<Rightarrow> u64 \<Rightarrow> bool \<Rightarrow> nat \<Rightarrow> ('w UdpReactor, bool) comp" where
  "dispatchError env token listener fd =
     bindC (sysU (ue_socketError env fd)) (\<lambda>result.
     case result of
       Inl e \<Rightarrow>
         if listener then throwC (SystemError ''listener SO_ERROR'' e)
         else if e = EBADF \<or> e = ENOTSOCK then throwC (SystemError ''backend SO_ERROR'' e)
         else thenC (whenC (e \<noteq> EAGAIN \<and> e \<noteq> EWOULDBLOCK \<and> e \<noteq> EINTR) (reportStatEvent env kError 1))
             (thenC (closeFlow env token ''socket-error-read'' e) (returnC False))
     | Inr code \<Rightarrow>
         thenC (reportObservation env ''epoll-error'' token (int fd))
           (if code = 0 then returnC True
            else handleSocketError env code listener token
                   (if listener then ''listener-async-error'' else ''backend-async-error'')))"

definition dispatchReady :: "'w udp_env \<Rightarrow> u64 \<Rightarrow> u32 \<Rightarrow> bool \<Rightarrow> nat \<Rightarrow> ('w UdpReactor, unit) comp" where
  "dispatchReady env token events listener fd =
     bindC (if events AND EPOLLERR \<noteq> 0 then dispatchError env token listener fd else returnC True) (\<lambda>go.
     if \<not> go then returnC ()
     else if events AND EPOLLHUP \<noteq> 0 then
       (if listener then throwC (SystemError ''UDP listener HUP'' EIO)
        else thenC (reportStatEvent env kError 1) (closeFlow env token ''backend-hup'' 0))
     else whenC (events AND EPOLLIN \<noteq> 0)
            (if listener then handleListenerRead env else handleBackendRead env token))"

definition dispatchFlowEvent :: "'w udp_env \<Rightarrow> u64 \<Rightarrow> u32 \<Rightarrow> ('w UdpReactor, unit) comp" where
  "dispatchFlowEvent env token events =
     (if token = 2 then returnC ()
      else if token = 1 then bindC (getC ur_listenerFd) (dispatchReady env token events True)
      else bindC (getC (\<lambda>s. map_of (ur_flows s) token)) (\<lambda>found.
        case found of
          None \<Rightarrow> reportObservation env ''stale-token'' token (- 1)
        | Some flow \<Rightarrow>
            bindC (sysU (ue_now env)) (\<lambda>now.
            if deadline_expired (uf_deadline flow) now (ue_idleTimeout env)
            then thenC (reportStatEvent env kTimeout 1) (closeFlow env token ''idle-timeout'' 0)
            else dispatchReady env token events False (uf_fd flow))))"

text \<open>The events of one \<open>epoll_wait\<close>; true when a stop signal ended the loop.\<close>

fun udp_events :: "'w udp_env \<Rightarrow> (u64 \<times> u32) list \<Rightarrow> ('w UdpReactor, bool) comp" where
  "udp_events env [] = returnC False"
| "udp_events env ((token, events) # rest) =
     bindC (consumeStopSignals env) (\<lambda>stop.
     if stop then returnC True
     else thenC (dispatchFlowEvent env token events) (udp_events env rest))"

text \<open>\<open>while (!consumeStopSignals())\<close>, on fuel: how often it turns is up to the signals.\<close>

fun udp_loop :: "'w udp_env \<Rightarrow> nat \<Rightarrow> ('w UdpReactor, int) comp" where
  "udp_loop env 0 = throwC OutOfFuel"
| "udp_loop env (Suc fuel) =
     bindC (consumeStopSignals env) (\<lambda>stop.
     if stop then returnC 0 else
     thenC (expireIdleFlows env)
    (bindC (sysU (ue_epollWait env)) (\<lambda>waited.
     case waited of
       Inl e \<Rightarrow> if e = EINTR then udp_loop env fuel else throwC (SystemError ''UDP epoll_wait'' e)
     | Inr ready \<Rightarrow>
         bindC (consumeStopSignals env) (\<lambda>stop2.
         if stop2 then returnC 0 else
         thenC (expireIdleFlows env)
        (thenC (callbackU (ue_maintenance env))
        (bindC (udp_events env ready) (\<lambda>stop3.
         if stop3 then returnC 0 else udp_loop env fuel)))))))"

definition runUdpEventLoop :: "'w udp_env \<Rightarrow> nat \<Rightarrow> ('w UdpReactor, int) comp" where
  "runUdpEventLoop env fuel = thenC (callbackU (ue_ready env)) (udp_loop env fuel)"

text \<open>The constructor: all three descriptors are opened before the first check, after the signals are blocked.\<close>

definition blockUdpSignals :: "'w udp_env \<Rightarrow> ('w UdpReactor, unit) comp" where
  "blockUdpSignals env = bindC (sysU (ue_sigmask env)) (\<lambda>r. case r of
     Some e \<Rightarrow> throwC (SystemError ''sigprocmask'' e)
   | None \<Rightarrow> modifyC (\<lambda>s. s\<lparr>ur_masked := True\<rparr>))"

definition owned_fds :: "(errno + nat) list \<Rightarrow> nat list" where
  "owned_fds results = map projr (filter (\<lambda>r. \<not> isl r) results)"

definition setup_step :: "'w udp_env \<Rightarrow> string \<Rightarrow> ('w UdpReactor, unit) comp" where
  "setup_step env operation = bindC (sysU (ue_setup env operation)) (\<lambda>r. case r of
     None \<Rightarrow> returnC () | Some e \<Rightarrow> throwC (SystemError operation e))"

definition opened_fd :: "string \<Rightarrow> errno + nat \<Rightarrow> ('w UdpReactor, nat) comp" where
  "opened_fd operation r = (case r of Inl e \<Rightarrow> throwC (SystemError operation e) | Inr fd \<Rightarrow> returnC fd)"

definition constructUdpReactor :: "'w udp_env \<Rightarrow> ('w UdpReactor, unit) comp" where
  "constructUdpReactor env =
     thenC (blockUdpSignals env)
    (bindC (sysU (ue_open env ''signalfd'')) (\<lambda>signalFd.
     bindC (sysU (ue_open env ''epoll_create1'')) (\<lambda>epollFd.
     bindC (sysU (ue_open env ''UDP listener socket'')) (\<lambda>listener.
     thenC (modifyC (\<lambda>s. s\<lparr>ur_members := owned_fds [listener, epollFd, signalFd]\<rparr>))
    (bindC (opened_fd ''signalfd'' signalFd) (\<lambda>sfd.
     bindC (opened_fd ''epoll_create1'' epollFd) (\<lambda>efd.
     bindC (opened_fd ''UDP listener socket'' listener) (\<lambda>lfd.
     thenC (setup_step env ''IP_PKTINFO'')
    (thenC (setup_step env ''UDP bind'')
    (thenC (modifyC (\<lambda>s. s\<lparr>ur_listenerFd := lfd\<rparr>))
    (thenC (registerFlowSocket env lfd 1) (registerFlowSocket env sfd 2))))))))))))"

definition emptyUdpReactor :: "'w \<Rightarrow> 'w UdpReactor" where
  "emptyUdpReactor w = \<lparr>ur_flowTokensByKey = [], ur_flows = [], ur_nextFlowToken = 3,
     ur_lastDiagnosticTimes = [], ur_listenerFd = 0, ur_members = [], ur_masked = False, ur_world = w\<rparr>"

text \<open>The destructor closes all flows and swallows what they throw.\<close>

definition destroyUdpReactor :: "'w udp_env \<Rightarrow> 'w UdpReactor \<Rightarrow> 'w UdpReactor" where
  "destroyUdpReactor env s = snd (closeAllFlows env s)"

text \<open>The members, in reverse order; the flows are gone by then.\<close>

definition destroyUdpMembers :: "'w udp_env \<Rightarrow> 'w UdpReactor \<Rightarrow> 'w UdpReactor" where
  "destroyUdpMembers env s = s\<lparr>ur_members := [], ur_masked := False,
     ur_world := (if ur_masked s then ue_sigrestore env else (\<lambda>w. w)) (fold (ue_close env) (ur_members s) (ur_world s))\<rparr>"

definition runUdpReactor :: "'w udp_env \<Rightarrow> nat \<Rightarrow> ('w UdpReactor, int) comp" where
  "runUdpReactor env fuel =
     (if ue_maxFlows env = 0 \<or> ue_idleTimeout env \<le> 0 \<or> ue_pollInterval env \<le> 0 \<or>
         ms 2147483647 < ue_pollInterval env \<or> ue_receiveSize env = 0 \<or>
         kUdpPayloadLimit < ue_receiveSize env \<or> ue_selector env = None
      then throwC (InvalidArgument ''invalid UDP options/callbacks'')
      else finallyC (thenC (constructUdpReactor env)
        (finallyC (bindC (runUdpEventLoop env fuel) (\<lambda>result. thenC (closeAllFlows env) (returnC result)))
           (destroyUdpReactor env)))
        (destroyUdpMembers env))"

end
