(* ===== verification/UdpFlowTable.thy ===== *)
theory UdpFlowTable
  imports UdpReactor
begin

text \<open>
  The flow table of the UDP reactor: both indexes agree, the capacity holds, a flow keeps its
  client, backend and socket for life and its token is never used again, through every
  operation of the reactor and however it ends. What any predicate needs to survive the
  operations is stated first (\<open>steady\<close>, \<open>closing\<close>, \<open>relaying\<close>, \<open>serving\<close>); the invariant is one
  such predicate.
\<close>

section \<open>The invariant\<close>

definition udp_inv :: "'w udp_env \<Rightarrow> 'w UdpReactor \<Rightarrow> bool" where
  "udp_inv env s \<longleftrightarrow>
     distinct (map fst (ur_flows s)) \<and> distinct (map fst (ur_flowTokensByKey s)) \<and>
     (\<forall>k t. map_of (ur_flowTokensByKey s) k = Some t \<longleftrightarrow>
        (\<exists>f. map_of (ur_flows s) t = Some f \<and> uf_key f = k)) \<and>
     (\<forall>t f. map_of (ur_flows s) t = Some f \<longrightarrow> uf_token f = t \<and> 3 \<le> t \<and> t < ur_nextFlowToken s) \<and>
     3 \<le> ur_nextFlowToken s \<and> length (ur_flows s) \<le> ue_maxFlows env"

text \<open>Seen from an earlier state: tokens issued then still name the same binding or nothing.\<close>

definition same_binding :: "UdpFlow \<Rightarrow> UdpFlow \<Rightarrow> bool" where
  "same_binding f g \<longleftrightarrow> uf_key g = uf_key f \<and> uf_backend g = uf_backend f \<and> uf_fd g = uf_fd f"

definition bindings_kept :: "'w UdpReactor \<Rightarrow> 'w UdpReactor \<Rightarrow> bool" where
  "bindings_kept s0 s \<longleftrightarrow> ur_nextFlowToken s0 \<le> ur_nextFlowToken s \<and>
     (\<forall>t f. t < ur_nextFlowToken s0 \<longrightarrow> map_of (ur_flows s) t = Some f \<longrightarrow>
        (\<exists>f0. map_of (ur_flows s0) t = Some f0 \<and> same_binding f0 f))"

definition flows_ok :: "'w udp_env \<Rightarrow> 'w UdpReactor \<Rightarrow> 'w UdpReactor \<Rightarrow> bool" where
  "flows_ok env s0 s \<longleftrightarrow> udp_inv env s \<and> bindings_kept s0 s"

text \<open>
  What the calls of the environment do to the world, without the choice of a backend and the
  reports that a flow was created or closed, which belong to a change of the flow table.
\<close>

inductive_set udp_calls :: "'w udp_env \<Rightarrow> ('w \<Rightarrow> 'w) set" for env where
  now: "snd \<circ> ue_now env \<in> udp_calls env"
| sigmask: "snd \<circ> ue_sigmask env \<in> udp_calls env"
| sigrestore: "ue_sigrestore env \<in> udp_calls env"
| open_fd: "snd \<circ> ue_open env operation \<in> udp_calls env"
| set_up: "snd \<circ> ue_setup env operation \<in> udp_calls env"
| bind_fd: "snd \<circ> ue_bind env fd \<in> udp_calls env"
| connect: "snd \<circ> ue_connect env fd e \<in> udp_calls env"
| setupEpoll: "snd \<circ> ue_setupEpoll env fd \<in> udp_calls env"
| epollAdd: "snd \<circ> ue_epollAdd env fd token \<in> udp_calls env"
| epollDel: "snd \<circ> ue_epollDel env fd \<in> udp_calls env"
| close_fd: "ue_close env n \<in> udp_calls env"
| recv: "snd \<circ> ue_recv env fd n \<in> udp_calls env"
| send: "snd \<circ> ue_send env request \<in> udp_calls env"
| socketError: "snd \<circ> ue_socketError env fd \<in> udp_calls env"
| signalRead: "snd \<circ> ue_signalRead env \<in> udp_calls env"
| epollWait: "snd \<circ> ue_epollWait env \<in> udp_calls env"
| maintenance: "ue_maintenance env = Some f \<Longrightarrow> snd \<circ> f \<in> udp_calls env"
| ready: "ue_ready env = Some f \<Longrightarrow> snd \<circ> f \<in> udp_calls env"
| observation: "ue_observation env = Some h \<Longrightarrow> snd \<circ> h ob \<in> udp_calls env"
| flow: "ue_flow env = Some h' \<Longrightarrow> snd \<circ> h' ev \<in> udp_calls env"
| diagnostic: "ue_diagnostic env = Some d \<Longrightarrow> snd \<circ> d what e \<in> udp_calls env"
| statistics: "ue_statistics env = Some c \<Longrightarrow> kind \<noteq> kCreated \<Longrightarrow> kind \<noteq> kClosed \<Longrightarrow>
    snd \<circ> c \<lparr>se_kind = kind, se_amount = n\<rparr> \<in> udp_calls env"

text \<open>Predicates that only look at the tables, and predicates that such calls keep.\<close>

definition table_pred :: "('w UdpReactor \<Rightarrow> bool) \<Rightarrow> bool" where
  "table_pred P \<longleftrightarrow> (\<forall>s w d. P s \<longrightarrow> P (s\<lparr>ur_world := w\<rparr>) \<and> P (s\<lparr>ur_lastDiagnosticTimes := d\<rparr>))"

definition steady :: "'w udp_env \<Rightarrow> ('w UdpReactor \<Rightarrow> bool) \<Rightarrow> bool" where
  "steady env P \<longleftrightarrow> (\<forall>s. P s \<longrightarrow> (\<forall>f \<in> udp_calls env. P (s\<lparr>ur_world := f (ur_world s)\<rparr>)) \<and>
     (\<forall>d. P (s\<lparr>ur_lastDiagnosticTimes := d\<rparr>)))"

lemma steady_table: "table_pred P \<Longrightarrow> steady env P"
  by (simp add: table_pred_def steady_def)

lemma table_pred_flows_ok: "table_pred (flows_ok env s0)"
  by (simp add: table_pred_def flows_ok_def udp_inv_def bindings_kept_def)

lemma table_pred_conj: "table_pred P \<Longrightarrow> table_pred Q \<Longrightarrow> table_pred (\<lambda>s. P s \<and> Q s)"
  by (simp add: table_pred_def)

lemma table_pred_tables: "table_pred (\<lambda>s. P (ur_flows s) (ur_flowTokensByKey s) (ur_nextFlowToken s))"
  by (simp add: table_pred_def)

lemma sysU_iff [simp]:
  "sysU f s = (r, t) \<longleftrightarrow> (\<exists>a w. f (ur_world s) = (a, w) \<and> r = Inr a \<and> t = s\<lparr>ur_world := w\<rparr>)"
  by (auto simp: sysU_def split: prod.splits)

lemma steadyD: "steady env P \<Longrightarrow> f \<in> udp_calls env \<Longrightarrow> P s \<Longrightarrow> P (s\<lparr>ur_world := f (ur_world s)\<rparr>)"
  by (simp add: steady_def)

lemma preserves_sysU: "steady env P \<Longrightarrow> snd \<circ> f \<in> udp_calls env \<Longrightarrow> preserves P (sysU f)"
  by (rule preservesI) (auto dest: steadyD[where f = "snd \<circ> f"])

lemma preserves_actU: "steady env P \<Longrightarrow> f \<in> udp_calls env \<Longrightarrow> preserves P (actU f)"
  unfolding actU_def by (rule preserves_modify) (rule steadyD)

lemma preserves_udp_calls:
  assumes "steady env P"
  shows "preserves P (sysU (ue_now env))" and "preserves P (sysU (ue_open env operation))"
    and "preserves P (sysU (ue_setup env operation))" and "preserves P (sysU (ue_bind env fd))"
    and "preserves P (sysU (ue_connect env fd endpoint))" and "preserves P (sysU (ue_setupEpoll env fd))"
    and "preserves P (sysU (ue_epollAdd env fd token))" and "preserves P (sysU (ue_epollDel env fd))"
    and "preserves P (actU (ue_close env n))" and "preserves P (sysU (ue_recv env fd n))"
    and "preserves P (sysU (ue_send env request))" and "preserves P (sysU (ue_socketError env fd))"
    and "preserves P (sysU (ue_sigmask env))" and "preserves P (sysU (ue_signalRead env))" and "preserves P (sysU (ue_epollWait env))"
  by (rule preserves_sysU[OF assms] preserves_actU[OF assms], rule udp_calls.intros)+

lemma preserves_callbackU:
  "steady env P \<Longrightarrow> (\<And>g. c = Some g \<Longrightarrow> snd \<circ> g \<in> udp_calls env) \<Longrightarrow> preserves P (callbackU c)"
  unfolding callbackU_def by (cases c) (auto intro!: preserves_rules preserves_sysU)

lemma preserves_udp_callbacks:
  assumes "steady env P"
  shows "preserves P (callbackU (ue_maintenance env))" and "preserves P (callbackU (ue_ready env))"
    and "preserves P (callbackU (map_option (\<lambda>f. f event) (ue_flow env)))"
    and "preserves P (callbackU (map_option (\<lambda>f. f what error) (ue_diagnostic env)))"
  by (rule preserves_callbackU[OF assms], auto intro: udp_calls.intros)+

lemma preserves_plainStat:
  "steady env P \<Longrightarrow> kind \<noteq> kCreated \<Longrightarrow> kind \<noteq> kClosed \<Longrightarrow> preserves P (reportStatEvent env kind amount)"
  unfolding reportStatEvent_def by (rule preserves_callbackU) (auto intro: udp_calls.statistics)

lemma preserves_reportStat:
  assumes "steady env P"
  shows "preserves P (reportStatEvent env kError amount)" and "preserves P (reportStatEvent env kRejected amount)"
    and "preserves P (reportStatEvent env kTimeout amount)" and "preserves P (reportStatEvent env kDropped amount)"
    and "preserves P (reportStatEvent env (if b then kBytesB2c else kBytesC2b) amount)"
    and "preserves P (reportStatEvent env (if b then kDatagramB2c else kDatagramC2b) amount)"
  by (rule preserves_plainStat[OF assms]; simp)+

lemma preserves_reportObs: "steady env P \<Longrightarrow> preserves P (reportObservation env kind token fd)"
  unfolding reportObservation_def case_prod_unfold
  by (rule preserves_bind[OF preserves_get], rule preserves_callbackU) (auto intro: udp_calls.observation)

text \<open>A predicate on the tables is kept by any call.\<close>

lemma table_rules:
  assumes "table_pred P"
  shows "preserves P (sysU f)" and "preserves P (callbackU c)" and "preserves P (reportStatEvent env kind amount)"
proof -
  have callback: "preserves P (sysU f)" for f :: "'a \<Rightarrow> exn option \<times> 'a"
    using assms by (auto intro!: preservesI simp: table_pred_def)
  show "preserves P (sysU f)" using assms by (auto intro!: preservesI simp: table_pred_def)
  show "preserves P (callbackU c)" "preserves P (reportStatEvent env kind amount)"
    unfolding reportStatEvent_def callbackU_def by (intro preserves_rules callback)+
qed

lemma preserves_diagnosed: "steady env P \<Longrightarrow> preserves P (modifyC (\<lambda>s. s\<lparr>ur_lastDiagnosticTimes := f s\<rparr>))"
  by (rule preserves_modify) (simp add: steady_def)

lemma preserves_reportDiag: "steady env P \<Longrightarrow> preserves P (reportDiagnostic env kind error)"
  unfolding reportDiagnostic_def
  by (intro preserves_rules preserves_udp_callbacks preserves_reportObs preserves_udp_calls preserves_diagnosed)

lemma preserves_setupDrop: "steady env P \<Longrightarrow> preserves P (setupDrop env e)"
  unfolding setupDrop_def by (intro preserves_rules preserves_reportStat preserves_reportDiag)

lemma preserves_scopedFd: "steady env P \<Longrightarrow> preserves P m \<Longrightarrow> preserves P (scopedFd env fd m)"
  unfolding scopedFd_def by (intro preserves_rules) (auto intro: steadyD udp_calls.close_fd)

lemma preserves_consumeStop: "steady env P \<Longrightarrow> preserves P (consumeStopSignals env)"
  unfolding consumeStopSignals_def by (intro preserves_rules preserves_udp_calls)

lemma preserves_registerSocket: "steady env P \<Longrightarrow> preserves P (registerFlowSocket env fd token)"
  unfolding registerFlowSocket_def by (intro preserves_rules preserves_udp_calls)

lemmas world_rules = preserves_udp_calls preserves_udp_callbacks preserves_reportStat
  preserves_reportObs preserves_reportDiag preserves_setupDrop preserves_scopedFd preserves_consumeStop
  preserves_registerSocket

section \<open>Table updates\<close>

abbreviation drop_flow :: "UdpFlow \<Rightarrow> u64 \<Rightarrow> 'w UdpReactor \<Rightarrow> 'w UdpReactor" where
  "drop_flow flow token s \<equiv>
     s\<lparr>ur_flowTokensByKey := AList.delete (uf_key flow) (ur_flowTokensByKey s),
       ur_flows := AList.delete token (ur_flows s)\<rparr>"

lemma udp_inv_drop:
  assumes inv: "udp_inv env s" and f: "map_of (ur_flows s) token = Some flow"
  shows "udp_inv env (drop_flow flow token s)"
proof -
  have key: "map_of (ur_flowTokensByKey s) (uf_key flow) = Some token"
    using inv f by (auto simp: udp_inv_def)
  have iff: "map_of (ur_flowTokensByKey s) k = Some t \<longleftrightarrow> (\<exists>f. map_of (ur_flows s) t = Some f \<and> uf_key f = k)" for k t
    using inv by (simp add: udp_inv_def)
  have "map_of (AList.delete (uf_key flow) (ur_flowTokensByKey s)) k = Some t \<longleftrightarrow>
      (\<exists>f. map_of (AList.delete token (ur_flows s)) t = Some f \<and> uf_key f = k)" for k t
    using iff[of k t] key f by (auto simp: delete_conv)
  moreover have "length (AList.delete token (ur_flows s)) \<le> ue_maxFlows env"
    using inv length_delete_le[of token "ur_flows s"] by (simp add: udp_inv_def)
  ultimately show ?thesis
    using inv by (auto simp: udp_inv_def distinct_delete delete_conv split: if_splits)
qed

lemma flows_ok_drop:
  "flows_ok env s0 s \<Longrightarrow> map_of (ur_flows s) token = Some flow \<Longrightarrow> flows_ok env s0 (drop_flow flow token s)"
  by (auto simp: flows_ok_def udp_inv_drop bindings_kept_def delete_conv)

lemma flows_ok_touch:
  assumes "flows_ok env s0 s" and "\<And>f. same_binding f (g f) \<and> uf_token (g f) = uf_token f"
  shows "flows_ok env s0 (s\<lparr>ur_flows := AList.map_entry token g (ur_flows s)\<rparr>)"
proof -
  have conv: "map_of (AList.map_entry token g (ur_flows s)) t =
      (if t = token then map_option g (map_of (ur_flows s) t) else map_of (ur_flows s) t)" for t
    by (auto simp: map_of_map_entry split: option.splits)
  have len: "length (AList.map_entry token g xs) = length xs" for xs
    by (induction xs) auto
  have key: "uf_key (g f) = uf_key f" "uf_token (g f) = uf_token f" for f
    using assms(2)[of f] by (simp_all add: same_binding_def)
  have "udp_inv env (s\<lparr>ur_flows := AList.map_entry token g (ur_flows s)\<rparr>)"
    using assms(1) unfolding udp_inv_def flows_ok_def
    by (auto simp: conv len distinct_map_entry key split: if_splits)
  moreover have "bindings_kept s0 (s\<lparr>ur_flows := AList.map_entry token g (ur_flows s)\<rparr>)"
    using assms unfolding bindings_kept_def flows_ok_def same_binding_def
    by (fastforce simp: conv split: if_splits)
  ultimately show ?thesis by (simp add: flows_ok_def)
qed

lemma flows_ok_add:
  assumes ok: "flows_ok env s0 s" and len: "length (ur_flows s) < ue_maxFlows env"
    and key: "map_of (ur_flowTokensByKey s) (uf_key flow) = None"
    and token: "map_of (ur_flows s) token = None" "uf_token flow = token" "3 \<le> token"
      "token < ur_nextFlowToken s" "ur_nextFlowToken s0 \<le> token"
  shows "flows_ok env s0 (s\<lparr>ur_flowTokensByKey := emplace (uf_key flow) token (ur_flowTokensByKey s),
    ur_flows := emplace token flow (ur_flows s)\<rparr>)"
proof -
  let ?s = "s\<lparr>ur_flowTokensByKey := emplace (uf_key flow) token (ur_flowTokensByKey s),
    ur_flows := emplace token flow (ur_flows s)\<rparr>"
  have conv: "map_of (ur_flows ?s) = (map_of (ur_flows s))(token \<mapsto> flow)"
    "map_of (ur_flowTokensByKey ?s) = (map_of (ur_flowTokensByKey s))(uf_key flow \<mapsto> token)"
    using key token(1) by (simp_all add: emplace_def update_conv')
  have iff: "map_of (ur_flowTokensByKey s) k = Some t \<longleftrightarrow> (\<exists>f. map_of (ur_flows s) t = Some f \<and> uf_key f = k)" for k t
    using ok by (simp add: flows_ok_def udp_inv_def)
  have agree: "map_of (ur_flowTokensByKey ?s) k = Some t \<longleftrightarrow> (\<exists>f. map_of (ur_flows ?s) t = Some f \<and> uf_key f = k)" for k t
    unfolding conv using iff[of k t] key token(1) iff[of "uf_key flow"] by (auto split: if_splits)
  have "distinct (map fst (ur_flows ?s))" "distinct (map fst (ur_flowTokensByKey ?s))"
    "length (ur_flows ?s) \<le> ue_maxFlows env"
    using ok key token(1) len
    by (simp_all add: emplace_def flows_ok_def udp_inv_def distinct_update length_update_new)
  with agree ok token have "udp_inv env ?s"
    unfolding flows_ok_def udp_inv_def conv by (auto split: if_splits)
  moreover have "bindings_kept s0 ?s"
    using ok token(5) unfolding flows_ok_def bindings_kept_def conv by auto
  ultimately show ?thesis by (simp add: flows_ok_def)
qed

section \<open>Every operation keeps the table\<close>

text \<open>Predicates on the tables that survive dropping a flow, and predicates that survive closing one.\<close>

definition drop_stable :: "('w UdpReactor \<Rightarrow> bool) \<Rightarrow> bool" where
  "drop_stable P \<longleftrightarrow> table_pred P \<and>
     (\<forall>s token flow. P s \<longrightarrow> map_of (ur_flows s) token = Some flow \<longrightarrow> P (drop_flow flow token s))"

definition closing :: "'w udp_env \<Rightarrow> ('w UdpReactor \<Rightarrow> bool) \<Rightarrow> bool" where
  "closing env P \<longleftrightarrow> steady env P \<and> (\<forall>token reason error. preserves P (closeFlow env token reason error))"

lemma closing_steady: "closing env P \<Longrightarrow> steady env P"
  by (simp add: closing_def)

lemma preserves_closeFlow: "closing env P \<Longrightarrow> preserves P (closeFlow env token reason error)"
  by (simp add: closing_def)

lemma drop_stable_flows_ok: "drop_stable (flows_ok env s0)"
  by (simp add: drop_stable_def table_pred_flows_ok flows_ok_drop)

text \<open>Once the flow is out of the tables, closing only acts on the world, whatever the callbacks do.\<close>

lemma closeFlow_after_drop:
  assumes tp: "table_pred P" and found: "map_of (ur_flows s) token = Some flow"
    and P: "P (drop_flow flow token s)" and run: "closeFlow env token reason error s = (r, t)"
  shows "P t"
proof -
  have "preserves P (bindC (sysU (ue_epollDel env (uf_fd flow))) (\<lambda>del.
       let detachError = (case del of None \<Rightarrow> 0 | Some e \<Rightarrow> if e = ENOENT \<or> e = EBADF then 0 else e)
       in thenC (actU (ue_close env (uf_fd flow)))
         (bindC (if detachError = 0 then returnC None
                 else bindC (attemptC (reportStatEvent env kError 1) None)
                        (attemptC (callbackU (map_option (\<lambda>f. f ''UDP epoll DEL'' detachError)
                           (ue_diagnostic env))))) (\<lambda>failure1.
          bindC (attemptC (reportStatEvent env kClosed 1) failure1) (\<lambda>failure2.
          bindC (attemptC (reportObservation env reason token (int (uf_fd flow))) failure2) (\<lambda>failure3.
          bindC (attemptC (callbackU (map_option (\<lambda>f. f \<lparr>fe_id = token, fe_backend = uf_backend flow,
             fe_reason = reason, fe_error = error\<rparr>) (ue_flow env))) failure3) rethrowC))))))"
    unfolding Let_def by (intro preserves_rules world_rules steady_table tp table_rules[OF tp])
  from preservesD[OF this P] run found show ?thesis by (simp add: closeFlow_def run_simps)
qed

lemma closeFlow_absent: "map_of (ur_flows s) token = None \<Longrightarrow> closeFlow env token reason error s = (Inr (), s)"
  by (simp add: closeFlow_def run_simps returnC_def)

lemma drop_stable_closing:
  assumes "drop_stable P"
  shows "closing env P"
proof -
  have tp: "table_pred P" using assms by (simp add: drop_stable_def)
  have "preserves P (closeFlow env token reason error)" for token reason error
  proof (rule preservesI)
    fix s r t
    assume P: "P s" and run: "closeFlow env token reason error s = (r, t)"
    show "P t"
    proof (cases "map_of (ur_flows s) token")
      case None
      with run P show ?thesis by (simp add: closeFlow_absent)
    next
      case (Some flow)
      with assms P have "P (drop_flow flow token s)" by (auto simp: drop_stable_def)
      from closeFlow_after_drop[OF tp Some this run] show ?thesis .
    qed
  qed
  with steady_table[OF tp] show ?thesis by (simp add: closing_def)
qed

lemma closeFlow_removes:
  assumes "map_of (ur_flows s) token = Some flow" and "closeFlow env token reason error s = (r, t)"
  shows "map_of (ur_flows t) token = None \<and> map_of (ur_flowTokensByKey t) (uf_key flow) = None"
  by (rule closeFlow_after_drop[OF _ assms(1) _ assms(2)]) (auto simp: table_pred_def delete_conv)

lemma preserves_expireIdleFlows: "closing env P \<Longrightarrow> preserves P (expireIdleFlows env)"
  unfolding expireIdleFlows_def closeIfExpired_def
  by (intro preserves_rules world_rules preserves_closeFlow) (auto intro: closing_steady)

lemma preserves_closeAllLoop:
  assumes "closing env P"
  shows "preserves P (closeAllLoop env fuel failure)"
proof (induction fuel arbitrary: failure)
  case 0
  show ?case
    by (subst closeAllLoop.simps) (auto intro!: preserves_rules split: list.split)
next
  case (Suc n)
  have "preserves P (case tokens of [] \<Rightarrow> rethrowC failure
      | token # _ \<Rightarrow> bindC (attemptC (closeFlow env token ''service-stop'' 0) failure) (closeAllLoop env n))" for tokens
    by (cases tokens) (auto intro!: preserves_rules preserves_closeFlow assms Suc)
  then show ?case by (subst closeAllLoop.simps) (auto intro!: preserves_bind preserves_get)
qed

lemma preserves_closeAllFlows: "closing env P \<Longrightarrow> preserves P (closeAllFlows env)"
  unfolding closeAllFlows_def by (intro preserves_rules preserves_closeAllLoop)

lemma preserves_handleSocketError:
  "closing env P \<Longrightarrow> preserves P (handleSocketError env code listener token kind)"
  unfolding handleSocketError_def Let_def
  by (intro preserves_rules world_rules preserves_closeFlow) (auto intro: closing_steady)

text \<open>Predicates that recording a submission keeps as well.\<close>

definition relaying :: "'w udp_env \<Rightarrow> ('w UdpReactor \<Rightarrow> bool) \<Rightarrow> bool" where
  "relaying env P \<longleftrightarrow> closing env P \<and> (\<forall>s token now. P s \<longrightarrow>
     P (s\<lparr>ur_flows := AList.map_entry token (\<lambda>f. f\<lparr>uf_deadline := recordSubmission now (uf_deadline f)\<rparr>) (ur_flows s)\<rparr>))"

lemma relayingD:
  assumes "relaying env P"
  shows "closing env P" and "steady env P" and "preserves P (modifyC (\<lambda>s. s\<lparr>ur_flows :=
    AList.map_entry token (\<lambda>f. f\<lparr>uf_deadline := recordSubmission now (uf_deadline f)\<rparr>) (ur_flows s)\<rparr>))"
  using assms by (auto simp: relaying_def closing_def intro: preserves_modify)

lemma relaying_flows_ok: "relaying env' (flows_ok env s0)"
  by (auto simp: relaying_def drop_stable_closing drop_stable_flows_ok same_binding_def intro: flows_ok_touch)

lemma preserves_send_attempts:
  assumes "relaying env P"
  shows "preserves P (send_attempts env attempts token request reply)"
proof (induction attempts)
  case 0
  show ?case by (simp, intro preserves_rules world_rules relayingD[OF assms])
next
  case (Suc n)
  show ?case
    unfolding send_attempts.simps
    by (intro preserves_rules world_rules preserves_handleSocketError relayingD[OF assms] Suc)
qed

lemma preserves_sendFlowDatagram: "relaying env P \<Longrightarrow> preserves P (sendFlowDatagram env token data reply)"
  unfolding sendFlowDatagram_def case_prod_unfold
  by (intro preserves_rules preserves_send_attempts)

section \<open>Creating a flow\<close>

definition fresh_key :: "'w udp_env \<Rightarrow> 'w UdpReactor \<Rightarrow> UdpFlowKey \<Rightarrow> 'w UdpReactor \<Rightarrow> bool" where
  "fresh_key env s0 key s \<longleftrightarrow> flows_ok env s0 s \<and> map_of (ur_flowTokensByKey s) key = None"

definition room_for :: "'w udp_env \<Rightarrow> 'w UdpReactor \<Rightarrow> UdpFlowKey \<Rightarrow> 'w UdpReactor \<Rightarrow> bool" where
  "room_for env s0 key s \<longleftrightarrow> fresh_key env s0 key s \<and> length (ur_flows s) < ue_maxFlows env"

definition issued :: "'w udp_env \<Rightarrow> 'w UdpReactor \<Rightarrow> UdpFlowKey \<Rightarrow> u64 \<Rightarrow> 'w UdpReactor \<Rightarrow> bool" where
  "issued env s0 key token s \<longleftrightarrow> room_for env s0 key s \<and> map_of (ur_flows s) token = None \<and> 3 \<le> token \<and>
     token < ur_nextFlowToken s \<and> ur_nextFlowToken s0 \<le> token"

lemma drop_stable_fresh_key: "drop_stable (fresh_key env s0 key)"
  using drop_stable_flows_ok[of env s0]
  by (auto simp: drop_stable_def fresh_key_def table_pred_def delete_conv)

lemma table_pred_room_for: "table_pred (room_for env s0 key)"
  using drop_stable_fresh_key[of env s0 key] by (auto simp: drop_stable_def room_for_def table_pred_def)

lemma table_pred_issued: "table_pred (issued env s0 key token)"
  using table_pred_room_for[of env s0 key] by (auto simp: issued_def table_pred_def)

lemma room_forD: "room_for env s0 key s \<Longrightarrow> flows_ok env s0 s"
  by (simp add: room_for_def fresh_key_def)

lemma issuedD: "issued env s0 key token s \<Longrightarrow> flows_ok env s0 s"
  by (auto simp: issued_def dest: room_forD)

lemma issue_token:
  assumes "room_for env s0 key s" and "ur_nextFlowToken s \<noteq> - 1"
  shows "issued env s0 key (ur_nextFlowToken s) (s\<lparr>ur_nextFlowToken := ur_nextFlowToken s + 1\<rparr>)"
proof -
  let ?t = "ur_nextFlowToken s"
  have lt: "x < ?t + 1 \<longleftrightarrow> x \<le> ?t" for x by (rule word_le_inc[OF assms(2)])
  from assms(1) have ok: "udp_inv env s" "bindings_kept s0 s"
    by (simp_all add: room_for_def fresh_key_def flows_ok_def)
  then have "map_of (ur_flows s) ?t = None"
    unfolding udp_inv_def by (metis not_None_eq order_less_irrefl)
  moreover have "3 \<le> ?t" using ok(1) by (simp add: udp_inv_def)
  moreover have "udp_inv env (s\<lparr>ur_nextFlowToken := ?t + 1\<rparr>)"
    using ok(1) unfolding udp_inv_def
    by (auto simp: lt intro: order_less_imp_le)
  moreover have "bindings_kept s0 (s\<lparr>ur_nextFlowToken := ?t + 1\<rparr>)" "ur_nextFlowToken s0 \<le> ?t"
    using ok(2) lt[of ?t] by (auto simp: bindings_kept_def dest: order_trans less_imp_le)
  ultimately show ?thesis
    using assms(1) by (simp add: issued_def room_for_def fresh_key_def flows_ok_def lt)
qed

lemma triple_register:
  assumes "uf_key flow = key" and "uf_token flow = token"
  shows "triple (issued env s0 key token) (registerFlowIndexesAndSocket env key token flow)
    (\<lambda>_. flows_ok env s0) (\<lambda>_. flows_ok env s0)"
proof -
  let ?added = "\<lambda>s. flows_ok env s0 s \<and> map_of (ur_flows s) token = Some flow"
  have tp: "table_pred ?added"
    using table_pred_flows_ok[of env s0] by (auto simp: table_pred_def)
  have erase: "preserves (flows_ok env s0) (thenC (actU (ue_close env (uf_fd flow)))
        (if e = EBADF \<or> e = EINVAL then throwC (SystemError ''UDP epoll add'' e)
         else thenC (setupDrop env e) (returnC False)))" for e
    by (intro preserves_rules world_rules steady_table table_pred_flows_ok)
  show ?thesis
    unfolding registerFlowIndexesAndSocket_def
  proof (rule triple_then[where B = ?added])
    show "triple (issued env s0 key token)
      (modifyC (\<lambda>s. s\<lparr>ur_flowTokensByKey := emplace key token (ur_flowTokensByKey s),
                        ur_flows := emplace token flow (ur_flows s)\<rparr>)) (\<lambda>_. ?added) (\<lambda>_. flows_ok env s0)"
      using flows_ok_add[of env s0 _ flow token] assms
      by (intro tripleI) (auto simp: issued_def room_for_def fresh_key_def emplace_def update_conv')
  next
    show "triple ?added (bindC (sysU (ue_epollAdd env (uf_fd flow) token)) (\<lambda>added.
     case added of
       None \<Rightarrow> returnC True
     | Some e \<Rightarrow>
         thenC (eraseFlow key token)
        (thenC (actU (ue_close env (uf_fd flow)))
        (if e = EBADF \<or> e = EINVAL then throwC (SystemError ''UDP epoll add'' e)
         else thenC (setupDrop env e) (returnC False))))) (\<lambda>_. flows_ok env s0) (\<lambda>_. flows_ok env s0)"
    proof (intro triple_bind[where B = "\<lambda>_. ?added"] triple_case_option)
      show "triple ?added (sysU (ue_epollAdd env (uf_fd flow) token)) (\<lambda>_. ?added) (\<lambda>_. flows_ok env s0)"
        by (rule triple_preserves_weaken[OF table_rules(1)[OF tp]]) auto
      show "triple ?added (returnC True) (\<lambda>_. flows_ok env s0) (\<lambda>_. flows_ok env s0)"
        by (rule tripleI) auto
      show "triple ?added (thenC (eraseFlow key token) (thenC (actU (ue_close env (uf_fd flow)))
          (if e = EBADF \<or> e = EINVAL then throwC (SystemError ''UDP epoll add'' e)
           else thenC (setupDrop env e) (returnC False)))) (\<lambda>_. flows_ok env s0) (\<lambda>_. flows_ok env s0)" for e
      proof (rule triple_then[where B = "flows_ok env s0"])
        show "triple ?added (eraseFlow key token) (\<lambda>_. flows_ok env s0) (\<lambda>_. flows_ok env s0)"
          using flows_ok_drop[of env s0 _ token flow] assms(1) by (auto intro!: tripleI simp: eraseFlow_def)
        show "triple (flows_ok env s0) (thenC (actU (ue_close env (uf_fd flow)))
          (if e = EBADF \<or> e = EINVAL then throwC (SystemError ''UDP epoll add'' e)
           else thenC (setupDrop env e) (returnC False))) (\<lambda>_. flows_ok env s0) (\<lambda>_. flows_ok env s0)"
          by (rule triple_preserves_weaken[OF erase])
      qed
    qed
  qed
qed

text \<open>Walking through a computation from the front, keeping what is known of the tables.\<close>

lemma triple_sysU_bind:
  "table_pred P \<Longrightarrow> (\<And>a. triple P (f a) Q E) \<Longrightarrow> triple P (bindC (sysU g) f) Q E"
  by (rule triple_bind[where B = "\<lambda>_. P"]) (auto intro!: tripleI simp: table_pred_def)

lemma triple_world_leaf:
  "preserves (flows_ok env s0) m \<Longrightarrow> (\<And>s. P s \<Longrightarrow> flows_ok env s0 s) \<Longrightarrow>
   triple P m (\<lambda>_. flows_ok env s0) (\<lambda>_. flows_ok env s0)"
  by (rule triple_preserves_weaken)

lemma triple_issue:
  "a \<noteq> - 1 \<Longrightarrow> triple (issued env s0 key a) k Q E \<Longrightarrow>
   triple (\<lambda>s. room_for env s0 key s \<and> ur_nextFlowToken s = a)
     (thenC (modifyC (\<lambda>s. s\<lparr>ur_nextFlowToken := a + 1\<rparr>)) k) Q E"
  by (rule triple_then[where B = "issued env s0 key a"]) (auto intro!: tripleI dest: issue_token)

lemma triple_createFlow:
  "triple (fresh_key env s0 key) (createFlow env key) (\<lambda>_. flows_ok env s0) (\<lambda>_. flows_ok env s0)"
proof -
  let ?ok = "\<lambda>_. flows_ok env s0"
  note leaf = triple_world_leaf preserves_rules world_rules steady_table table_pred_flows_ok table_rules[OF table_pred_flows_ok]
  have select: "triple (room_for env s0 key)
      (case ue_selector env of None \<Rightarrow> throwC (LogicError ''bad_function_call'')
       | Some f \<Rightarrow> (\<lambda>s. case f (ur_world s) of (r, w) \<Rightarrow> (r, s\<lparr>ur_world := w\<rparr>)))
      (\<lambda>_. room_for env s0 key) ?ok"
    by (rule triple_preserves_weaken[where J = "room_for env s0 key"])
       (use table_pred_room_for[of env s0 key] in
         \<open>auto intro!: preservesI dest: room_forD simp: table_pred_def split: option.splits prod.splits\<close>)
  have new: "triple (issued env s0 key token)
      (bindC (registerFlowIndexesAndSocket env key token flow) (\<lambda>registered.
         if \<not> registered then returnC 0
         else thenC (reportStatEvent env kCreated 1)
             (thenC (reportObservation env ''created'' token (int fd))
             (thenC (callbackU (map_option (\<lambda>f. f \<lparr>fe_id = token, fe_backend = backend,
                       fe_reason = ''created'', fe_error = 0\<rparr>) (ue_flow env)))
                    (returnC token))))) ?ok ?ok"
    if "uf_key flow = key" "uf_token flow = token" for token flow fd backend
    by (rule triple_bind[OF triple_register[OF that]], intro leaf)
  show ?thesis
    unfolding createFlow_def Let_def
  proof (rule triple_then[where B = "fresh_key env s0 key"], goal_cases)
    case 1
    show ?case
      by (rule triple_preserves_weaken[OF preserves_expireIdleFlows[OF drop_stable_closing[OF drop_stable_fresh_key]]])
         (auto simp: fresh_key_def)
  next
    case 2
    show ?case
    proof (intro triple_get_bind triple_if, goal_cases)
      case (1 count)
      show ?case by (rule triple_world_leaf, intro leaf) (simp add: fresh_key_def)
    next
      case (2 count)
      show ?case
        by (rule triple_pre[where P = "room_for env s0 key", OF triple_bind[OF select]],
            (intro triple_case_option triple_sysU_bind triple_case_sum triple_get_bind triple_if
              table_pred_room_for triple_issue table_pred_issued;
             (assumption | (rule new; simp) |
              (rule triple_world_leaf, (intro leaf)[1], use room_forD issuedD in blast))),
            use 2 in \<open>simp add: room_for_def\<close>)
    qed
  qed
qed

section \<open>The rest of the reactor\<close>

lemma udp_inv_token:
  assumes "udp_inv env s" and "map_of (ur_flowTokensByKey s) key = Some token"
  shows "token \<noteq> 0 \<and> (\<exists>flow. map_of (ur_flows s) token = Some flow \<and> uf_key flow = key)"
proof -
  from assms obtain flow where "map_of (ur_flows s) token = Some flow" "uf_key flow = key" "3 \<le> token"
    unfolding udp_inv_def by metis
  then show ?thesis by auto
qed

lemma triple_close_key:
  "triple (\<lambda>s. flows_ok env s0 s \<and> map_of (ur_flows s) token = Some flow) (closeFlow env token reason error)
     (\<lambda>_. fresh_key env s0 (uf_key flow)) (\<lambda>_. flows_ok env s0)"
  using preserves_closeFlow[OF drop_stable_closing[OF drop_stable_flows_ok[of env s0]], of env token reason error]
  by (auto intro!: tripleI simp: fresh_key_def dest: preservesD closeFlow_removes)

lemma triple_resolve:
  "triple (flows_ok env s0) (resolveFlowTokenForDatagram env key) (\<lambda>_. flows_ok env s0) (\<lambda>_. flows_ok env s0)"
proof -
  let ?ok = "\<lambda>_. flows_ok env s0"
  note leaf = preserves_rules world_rules steady_table table_pred_flows_ok
  let ?create = "catchC (createFlow env key) (\<lambda>e. thenC (reportStatEvent env kDropped 1) (throwC e))"
  have create: "triple (fresh_key env s0 key) ?create ?ok ?ok"
    by (rule triple_catch[OF triple_createFlow], rule triple_world_leaf, intro leaf)
  show ?thesis
    unfolding resolveFlowTokenForDatagram_def Let_def
  proof (intro triple_get_bind triple_case_option, goal_cases)
    case 1
    then show ?case by (intro triple_pre[OF create]) (simp add: fresh_key_def)
  next
    case (2 tokenIt token)
    show ?case
    proof (intro triple_if triple_get_bind triple_case_option, goal_cases)
      case 1
      then show ?case
        using 2 udp_inv_token by (intro triple_pre[OF create]) (auto simp: flows_ok_def)
    next
      case (2 found)
      show ?case by (rule triple_world_leaf, intro leaf) simp
    next
      case (3 found flow)
      let ?P = "\<lambda>s. flows_ok env s0 s \<and> map_of (ur_flows s) token = Some flow"
      have key: "uf_key flow = key" if "(flows_ok env s0 s \<and> map_of (ur_flowTokensByKey s) key = tokenIt) \<and>
         map_of (ur_flows s) token = found" for s
        using that 2 3 udp_inv_token[of env s key token] by (auto simp: flows_ok_def)
      have tp: "table_pred ?P" by (intro table_pred_conj table_pred_flows_ok) (simp add: table_pred_def)
      have "triple ?P (bindC (sysU (ue_now env)) (\<lambda>now.
              if deadline_expired (uf_deadline flow) now (ue_idleTimeout env)
              then thenC (reportStatEvent env kTimeout 1)
                  (thenC (closeFlow env token ''idle-timeout'' 0) ?create)
              else returnC token)) ?ok ?ok"
        if "uf_key flow = key"
      proof (intro triple_sysU_bind tp triple_if, goal_cases)
        case 1
        have "triple ?P (reportStatEvent env kTimeout 1) (\<lambda>_. ?P) ?ok"
          by (rule triple_preserves_weaken[OF table_rules(3)[OF tp]]) auto
        moreover have "triple ?P (closeFlow env token ''idle-timeout'' 0) (\<lambda>_. fresh_key env s0 key) ?ok"
          using triple_close_key[of env s0 token flow] that by simp
        ultimately show ?case by (blast intro: triple_then create)
      next
        case 2
        show ?case by (rule triple_world_leaf, intro leaf) simp
      qed
      with key 3 show ?case
        by (cases "uf_key flow = key") (auto intro: triple_pre simp: triple_def)
    qed
  qed
qed

text \<open>Predicates that finding the flow of a datagram keeps too, and the operations that then keep them.\<close>

definition serving :: "'w udp_env \<Rightarrow> ('w UdpReactor \<Rightarrow> bool) \<Rightarrow> bool" where
  "serving env P \<longleftrightarrow> relaying env P \<and> (\<forall>key. preserves P (resolveFlowTokenForDatagram env key))"

lemma serving_flows_ok: "serving env (flows_ok env s0)"
  using triple_preserves[OF triple_resolve] relaying_flows_ok by (auto simp: serving_def)

lemma servingD:
  assumes "serving env P"
  shows "relaying env P" and "closing env P" and "steady env P" and "preserves P (resolveFlowTokenForDatagram env key)"
  using assms relayingD(1,2)[of env P] by (simp_all add: serving_def)

lemmas reactor_rules = preserves_rules world_rules preserves_handleSocketError preserves_sendFlowDatagram
  preserves_closeFlow preserves_expireIdleFlows preserves_closeAllFlows servingD(1,2,3)

lemma preserves_listener_reads: "serving env P \<Longrightarrow> preserves P (listener_reads env n)"
proof (induction n)
  case 0
  then show ?case by (simp, intro reactor_rules)
next
  case (Suc n)
  show ?case unfolding listener_reads.simps by (intro reactor_rules servingD(4) Suc)
qed

lemma preserves_backend_reads: "serving env P \<Longrightarrow> preserves P (backend_reads env n token)"
proof (induction n)
  case 0
  then show ?case by (simp, intro reactor_rules)
next
  case (Suc n)
  show ?case unfolding backend_reads.simps by (intro reactor_rules Suc)
qed

lemma preserves_dispatchError: "serving env P \<Longrightarrow> preserves P (dispatchError env token listener fd)"
  unfolding dispatchError_def by (intro reactor_rules)

lemma preserves_dispatchFlowEvent: "serving env P \<Longrightarrow> preserves P (dispatchFlowEvent env token events)"
  unfolding dispatchFlowEvent_def dispatchReady_def handleListenerRead_def handleBackendRead_def
  by (intro reactor_rules preserves_dispatchError preserves_listener_reads preserves_backend_reads)

lemma preserves_udp_events: "serving env P \<Longrightarrow> preserves P (udp_events env ready)"
proof (induction ready)
  case (Cons e es)
  then show ?case by (cases e, simp, intro reactor_rules preserves_dispatchFlowEvent)
qed (simp add: preserves_return)

lemma preserves_udp_loop: "serving env P \<Longrightarrow> preserves P (udp_loop env fuel)"
proof (induction fuel)
  case (Suc n)
  show ?case unfolding udp_loop.simps by (intro reactor_rules preserves_udp_events Suc)
qed (simp add: preserves_throw)

lemma preserves_runUdpEventLoop: "serving env P \<Longrightarrow> preserves P (runUdpEventLoop env fuel)"
  unfolding runUdpEventLoop_def by (intro reactor_rules preserves_udp_loop)

text \<open>Predicates that do not look at the members either.\<close>

definition memberless :: "('w UdpReactor \<Rightarrow> bool) \<Rightarrow> bool" where
  "memberless P \<longleftrightarrow> (\<forall>s fd fds b. P s \<longrightarrow>
     P (s\<lparr>ur_listenerFd := fd\<rparr>) \<and> P (s\<lparr>ur_members := fds\<rparr>) \<and> P (s\<lparr>ur_masked := b\<rparr>))"

lemma preserves_constructUdp:
  assumes "steady env P" and "memberless P"
  shows "preserves P (constructUdpReactor env)"
proof -
  have members: "preserves P (modifyC (\<lambda>s. s\<lparr>ur_listenerFd := fd\<rparr>))" "preserves P (modifyC (\<lambda>s. s\<lparr>ur_members := fds\<rparr>))"
    "preserves P (modifyC (\<lambda>s. s\<lparr>ur_masked := b\<rparr>))" for fd fds b
    using assms(2) by (auto intro!: preserves_modify simp: memberless_def)
  show ?thesis
    unfolding constructUdpReactor_def blockUdpSignals_def opened_fd_def setup_step_def
    by (intro preserves_rules world_rules assms(1) members)
qed

lemma destroyUdpMembers_keeps:
  assumes "steady env P" and "memberless P" and "P s"
  shows "P (destroyUdpMembers env s)"
proof -
  have closed: "P (s\<lparr>ur_world := fold (ue_close env) fds w\<rparr>)" if "P (s\<lparr>ur_world := w\<rparr>)" for fds w
    using that
  proof (induction fds arbitrary: w)
    case (Cons fd fds)
    from steadyD[OF assms(1) udp_calls.close_fd Cons.prems] Cons.IH show ?case by simp
  qed simp
  let ?s = "s\<lparr>ur_world := fold (ue_close env) (ur_members s) (ur_world s)\<rparr>"
  have "P ?s" using closed[of "ur_world s"] assms(3) by simp
  with steadyD[OF assms(1) udp_calls.sigrestore this]
  have "P (if ur_masked s then ?s\<lparr>ur_world := ue_sigrestore env (ur_world ?s)\<rparr> else ?s)" by simp
  moreover have "destroyUdpMembers env s =
      (if ur_masked s then ?s\<lparr>ur_world := ue_sigrestore env (ur_world ?s)\<rparr> else ?s)\<lparr>ur_members := []\<rparr>\<lparr>ur_masked := False\<rparr>"
    by (simp add: destroyUdpMembers_def)
  ultimately show ?thesis using assms(2) unfolding memberless_def by metis
qed

lemma preserves_runUdpReactor:
  assumes "serving env P" and "memberless P"
  shows "preserves P (runUdpReactor env fuel)"
  unfolding runUdpReactor_def
proof (intro reactor_rules preserves_constructUdp preserves_runUdpEventLoop assms)
  show "P (destroyUdpMembers env s)" if "P s" for s
    using that by (rule destroyUdpMembers_keeps[rotated 2]) (use assms in \<open>auto dest: servingD\<close>)
  show "P (destroyUdpReactor env s)" if "P s" for s
    unfolding destroyUdpReactor_def
    by (rule preserves_snd[OF preserves_closeAllFlows[OF servingD(2)[OF assms(1)]] that])
qed

lemma preserves_run_flows_ok: "preserves (flows_ok env s0) (runUdpReactor env fuel)"
  by (rule preserves_runUdpReactor[OF serving_flows_ok]) (simp add: memberless_def flows_ok_def udp_inv_def bindings_kept_def)

section \<open>Leaving nothing behind\<close>

lemma closeFlow_shrinks:
  assumes "map_of (ur_flows s) token = Some flow" and "closeFlow env token reason error s = (r, t)"
  shows "length (ur_flows t) < length (ur_flows s)"
  by (rule closeFlow_after_drop[OF _ assms(1) _ assms(2)])
     (auto simp: table_pred_def length_delete_Some[OF assms(1)])

lemma closeAllLoop_empties:
  assumes order: "\<And>ks. set (ue_order env ks) = set ks"
    and "length (ur_flows s) \<le> fuel" and "closeAllLoop env fuel failure s = (r, t)"
  shows "ur_flows t = []"
  using assms(2,3)
proof (induction fuel arbitrary: s failure)
  case 0
  then have "ue_order env [] = []" using order[of "[]"] by simp
  with 0 show ?case
    by (subst (asm) closeAllLoop.simps) (auto simp: run_simps rethrowC_def split: option.splits)
next
  case (Suc n)
  show ?case
  proof (cases "ue_order env (map fst (ur_flows s))")
    case Nil
    with order[of "map fst (ur_flows s)"] have "ur_flows s = []" by simp
    with Nil Suc.prems(2) show ?thesis
      by (subst (asm) closeAllLoop.simps) (auto simp: run_simps rethrowC_def split: option.splits)
  next
    case (Cons token rest)
    with order[of "map fst (ur_flows s)"] have "token \<in> set (map fst (ur_flows s))" by (metis list.set_intros(1))
    then obtain flow where flow: "map_of (ur_flows s) token = Some flow"
      by (metis map_of_eq_None_iff not_None_eq set_map)
    obtain u x where close: "attemptC (closeFlow env token ''service-stop'' 0) failure s = (x, u)"
      by fastforce
    with attemptC_Inr[OF close] closeFlow_shrinks[OF flow] obtain f where
      u: "x = Inr f" "length (ur_flows u) < length (ur_flows s)" by blast
    from Suc.prems(2) Cons close u(1) have "closeAllLoop env n f u = (r, t)"
      by (subst (asm) closeAllLoop.simps) (simp add: run_simps bindC_run)
    with Suc.IH[of u f] u(2) Suc.prems(1) show ?thesis by simp
  qed
qed

lemma closeAllFlows_empties:
  assumes "\<And>ks. set (ue_order env ks) = set ks" and "closeAllFlows env s = (r, t)"
  shows "ur_flows t = []"
  using closeAllLoop_empties[OF assms(1), of s "length (ur_flows s)" None r t] assms(2)
  by (simp add: closeAllFlows_def run_simps)

lemma udp_inv_empty: "udp_inv env s \<Longrightarrow> ur_flows s = [] \<Longrightarrow> ur_flowTokensByKey s = []"
  unfolding udp_inv_def by (cases "ur_flowTokensByKey s") (auto split: if_splits)

lemma construct_keeps_tables:
  "preserves (\<lambda>s. ur_flows s = [] \<and> ur_flowTokensByKey s = []) (constructUdpReactor env)"
  by (rule preserves_constructUdp[OF steady_table]) (simp_all add: table_pred_def memberless_def)

lemma udp_run_released:
  assumes order: "\<And>ks. set (ue_order env ks) = set ks"
    and run: "runUdpReactor env fuel (emptyUdpReactor w) = (r, t)"
  shows "ur_flows t = [] \<and> ur_flowTokensByKey t = [] \<and> ur_members t = [] \<and> \<not> ur_masked t"
proof -
  let ?P = "\<lambda>s. ur_flows s = [] \<and> ur_flowTokensByKey s = []"
  let ?life = "thenC (constructUdpReactor env) (finallyC (bindC (runUdpEventLoop env fuel)
    (\<lambda>result. thenC (closeAllFlows env) (returnC result))) (destroyUdpReactor env))"
  have inv: "flows_ok env (emptyUdpReactor w) (emptyUdpReactor w)"
    by (simp add: flows_ok_def udp_inv_def bindings_kept_def emptyUdpReactor_def)
  have init: "?P (emptyUdpReactor w)" by (simp add: emptyUdpReactor_def)
  have t: "udp_inv env t"
    using preservesD[OF preserves_run_flows_ok inv run] by (simp add: flows_ok_def)
  obtain x u where u: "constructUdpReactor env (emptyUdpReactor w) = (x, u)" by fastforce
  with init have Pu: "?P u" by (rule preservesD[OF construct_keeps_tables])
  obtain y v where v: "?life (emptyUdpReactor w) = (y, v)" by fastforce
  have "ur_flows v = []"
  proof (cases x)
    case (Inl e)
    with u v Pu show ?thesis by (simp add: thenC_def bindC_def)
  next
    case (Inr a)
    with u v obtain z where "v = destroyUdpReactor env z"
      by (auto simp: thenC_def bindC_def finallyC_def split: prod.splits)
    then show ?thesis using closeAllFlows_empties[OF order] by (metis destroyUdpReactor_def prod.collapse)
  qed
  moreover have "t = emptyUdpReactor w \<or> t = destroyUdpMembers env v"
    using run v by (auto simp: runUdpReactor_def finallyC_def throwC_def split: if_splits prod.splits)
  ultimately have "ur_flows t = [] \<and> ur_members t = [] \<and> \<not> ur_masked t"
    by (auto simp: destroyUdpMembers_def emptyUdpReactor_def)
  with t udp_inv_empty show ?thesis by blast
qed

text \<open>Every flow the expiry pass visits is gone or not yet expired afterwards.\<close>

definition unexpired :: "'w udp_env \<Rightarrow> time \<Rightarrow> u64 \<Rightarrow> 'w UdpReactor \<Rightarrow> bool" where
  "unexpired env time token s \<longleftrightarrow> (\<forall>flow. map_of (ur_flows s) token = Some flow \<longrightarrow>
     \<not> deadline_expired (uf_deadline flow) time (ue_idleTimeout env))"

lemma table_pred_unexpired: "table_pred (unexpired env time token)"
  by (simp add: table_pred_def unexpired_def)

lemma drop_stable_unexpired: "drop_stable (unexpired env time token)"
  by (simp add: drop_stable_def table_pred_unexpired) (simp add: unexpired_def delete_conv)

lemma closeIfExpired_unexpired:
  assumes "closeIfExpired env time token s = (Inr (), t)"
  shows "unexpired env time token t"
proof (cases "map_of (ur_flows s) token")
  case None
  with assms show ?thesis by (simp add: closeIfExpired_def run_simps unexpired_def)
next
  case (Some flow)
  show ?thesis
  proof (cases "deadline_expired (uf_deadline flow) time (ue_idleTimeout env)")
    case False
    with Some assms show ?thesis by (simp add: closeIfExpired_def run_simps unexpired_def whenC_def)
  next
    case True
    with Some assms obtain x u where u: "reportStatEvent env kTimeout 1 s = (x, u)"
      "closeFlow env token ''idle-timeout'' 0 u = (Inr (), t)"
      by (auto simp: closeIfExpired_def run_simps whenC_def)
    have "table_pred (\<lambda>s. map_of (ur_flows s) token = Some flow)" by (simp add: table_pred_def)
    from preservesD[OF table_rules(3)[OF this] Some u(1)] closeFlow_removes[OF _ u(2)]
    show ?thesis by (simp add: unexpired_def)
  qed
qed

lemma expire_pass:
  assumes "forC tokens (closeIfExpired env time) s = (Inr (), t)" and "token \<in> set tokens"
  shows "unexpired env time token t"
  using assms
proof (induction tokens arbitrary: s)
  case (Cons x xs)
  then obtain u where u: "closeIfExpired env time x s = (Inr (), u)"
    "forC xs (closeIfExpired env time) u = (Inr (), t)" by auto
  have "preserves (unexpired env time x) (forC xs (closeIfExpired env time))"
    unfolding closeIfExpired_def
    by (intro preserves_rules world_rules steady_table table_pred_unexpired preserves_closeFlow drop_stable_closing
          drop_stable_unexpired)
  with u Cons closeIfExpired_unexpired[OF u(1)] show ?case by (auto dest: preservesD)
qed simp

lemma preserves_absent: "preserves (\<lambda>s. map_of (ur_flows s) token = None) (expireIdleFlows env)"
  by (rule preserves_expireIdleFlows[OF drop_stable_closing]) (simp add: drop_stable_def table_pred_def delete_conv)

section \<open>Properties\<close>

text \<open>A small world for the witnesses: a step counter that is also the clock, one datagram, then a stop.\<close>

definition demo_udp_key :: UdpFlowKey where
  "demo_udp_key = \<lparr>fk_client = \<lparr>ep_address = (10, 0, 0, 1), ep_port = 4000\<rparr>, fk_localAddress = (10, 0, 0, 9)\<rparr>"

definition demo_udp_message :: udp_message where
  "demo_udp_message = \<lparr>um_data = [1, 2], um_namelenOk = True, um_inet = True, um_port = 4000,
     um_address = (10, 0, 0, 1), um_trunc = False, um_ctrunc = False,
     um_control = [Some \<lparr>pi_lengthOk = True, pi_addr = (10, 0, 0, 9), pi_spec_dst = (10, 0, 0, 9)\<rparr>]\<rparr>"

definition demo_udp_env :: "nat udp_env" where
  "demo_udp_env = \<lparr>ue_listen = \<lparr>ep_address = (0, 0, 0, 0), ep_port = 53\<rparr>, ue_maxFlows = 4, ue_idleTimeout = 50,
     ue_pollInterval = 5, ue_receiveSize = 2048, ue_now = (\<lambda>w. (int w, w)), ue_order = (\<lambda>ks. ks),
     ue_selector = Some (\<lambda>w. (Inr (Some \<lparr>ep_address = (10, 0, 1, 1), ep_port = 53\<rparr>), w)),
     ue_maintenance = None, ue_ready = None, ue_statistics = None, ue_observation = None, ue_flow = None,
     ue_diagnostic = None, ue_sigmask = (\<lambda>w. (None, w)), ue_sigrestore = (\<lambda>w. w), ue_open = (\<lambda>_ w. (Inr 7, w)), ue_setup = (\<lambda>_ w. (None, w)),
     ue_bind = (\<lambda>_ w. (None, w)), ue_connect = (\<lambda>_ _ w. (None, w)), ue_setupEpoll = (\<lambda>_ w. (None, w)),
     ue_epollAdd = (\<lambda>_ _ w. (None, w)), ue_epollDel = (\<lambda>_ w. (None, w)), ue_close = (\<lambda>_ w. w),
     ue_recv = (\<lambda>_ _ w. (if w < 4 then Inr demo_udp_message else Inl EAGAIN, w + 2)),
     ue_send = (\<lambda>q w. (Inr (length (sr_data q)), w)), ue_socketError = (\<lambda>_ w. (Inr 0, w)),
     ue_signalRead = (\<lambda>w. (if w < 5 then Inl EAGAIN else Inr 128, w + 1)),
     ue_epollWait = (\<lambda>w. (Inr [(1, 1)], w))\<rparr>"

definition demo_udp_flow :: UdpFlow where
  "demo_udp_flow = \<lparr>uf_key = demo_udp_key, uf_backend = \<lparr>ep_address = (10, 0, 1, 1), ep_port = 53\<rparr>, uf_fd = 7,
     uf_token = 3, uf_deadline = \<lparr>lastSubmissionTime = 0\<rparr>\<rparr>"

definition demo_udp_state :: "nat \<Rightarrow> nat UdpReactor" where
  "demo_udp_state w = \<lparr>ur_flowTokensByKey = [(demo_udp_key, 3)], ur_flows = [(3, demo_udp_flow)],
     ur_nextFlowToken = 4, ur_lastDiagnosticTimes = [], ur_listenerFd = 7, ur_members = [7], ur_masked = True, ur_world = w\<rparr>"

lemma demo_udp_inv: "udp_inv demo_udp_env (demo_udp_state w)"
  by (auto simp: udp_inv_def demo_udp_env_def demo_udp_state_def demo_udp_flow_def)

text \<open>
  Claim C18. From any state in which the two indexes of the flow table agree, the whole event
  loop, however it ends (a stop signal, an exception of a callback, a fatal socket error),
  leaves them in agreement and within \<open>maxFlows\<close>; a token issued before names the same client,
  local address, backend and socket as before or is gone, and no token is issued twice.
\<close>

theorem udp_loop_keeps_flow_table:
  assumes "udp_inv env s" and "runUdpEventLoop env fuel s = (r, t)"
  shows "udp_inv env t \<and> bindings_kept s t"
proof -
  have "flows_ok env s s" using assms(1) by (simp add: flows_ok_def bindings_kept_def same_binding_def)
  from preservesD[OF preserves_runUdpEventLoop[OF serving_flows_ok] this assms(2)] show ?thesis by (simp add: flows_ok_def)
qed

theorem udp_loop_keeps_flow_table_witness:
  "case runUdpEventLoop demo_udp_env 3 (demo_udp_state 0) of (r, t) \<Rightarrow>
     udp_inv demo_udp_env t \<and> bindings_kept (demo_udp_state 0) t"
  using udp_loop_keeps_flow_table[OF demo_udp_inv] by (cases "runUdpEventLoop demo_udp_env 3 (demo_udp_state 0)") simp



text \<open>
  A datagram of a known client within its idle time stays on its flow: the token is
  returned as it is and neither index changes.
\<close>

theorem udp_flow_affinity:
  assumes "udp_inv env s" and "map_of (ur_flowTokensByKey s) key = Some token"
    and "map_of (ur_flows s) token = Some flow" and "ue_now env (ur_world s) = (now, w)"
    and "\<not> deadline_expired (uf_deadline flow) now (ue_idleTimeout env)"
  shows "resolveFlowTokenForDatagram env key s = (Inr token, s\<lparr>ur_world := w\<rparr>)"
  using assms udp_inv_token[OF assms(1,2)]
  by (simp add: resolveFlowTokenForDatagram_def Let_def run_simps
      bindC_run[of "sysU (ue_now env)" s now "s\<lparr>ur_world := w\<rparr>"] returnC_def)

theorem udp_flow_affinity_witness:
  "resolveFlowTokenForDatagram demo_udp_env demo_udp_key (demo_udp_state 9) = (Inr 3, demo_udp_state 9)"
  using udp_flow_affinity[OF demo_udp_inv[of 9], of demo_udp_key 3 demo_udp_flow 9 9]
  by (simp add: demo_udp_env_def demo_udp_state_def demo_udp_flow_def deadline_expired_def)

text \<open>
  An expiry pass that returns leaves no flow in the table whose idle time had run
  out at the time the pass read the clock.
\<close>

theorem expireIdleFlows_complete:
  assumes order: "\<And>ks. set (ue_order env ks) = set ks"
    and run: "expireIdleFlows env s = (Inr (), t)" and now: "fst (ue_now env (ur_world s)) = now"
    and flow: "map_of (ur_flows t) token = Some flow"
  shows "\<not> deadline_expired (uf_deadline flow) now (ue_idleTimeout env)"
proof -
  obtain w where w: "ue_now env (ur_world s) = (now, w)" using now by (metis prod.collapse)
  then have pass: "forC (ue_order env (map fst (ur_flows s))) (closeIfExpired env now) (s\<lparr>ur_world := w\<rparr>) = (Inr (), t)"
    using run by (simp add: expireIdleFlows_def run_simps)
  have "map_of (ur_flows s) token \<noteq> None"
    using preservesD[OF preserves_absent _ run] flow by fastforce
  then have "token \<in> set (ue_order env (map fst (ur_flows s)))"
    by (metis order map_of_eq_None_iff set_map)
  from expire_pass[OF pass this] flow show ?thesis by (simp add: unexpired_def)
qed

theorem expireIdleFlows_complete_witness:
  "snd (expireIdleFlows demo_udp_env (demo_udp_state 9)) = demo_udp_state 9 \<and>
   \<not> deadline_expired (uf_deadline demo_udp_flow) 9 (ue_idleTimeout demo_udp_env)"
proof -
  have run: "expireIdleFlows demo_udp_env (demo_udp_state 9) = (Inr (), demo_udp_state 9)"
    by (simp add: expireIdleFlows_def closeIfExpired_def demo_udp_env_def demo_udp_state_def demo_udp_flow_def
        deadline_expired_def bindC_def thenC_def returnC_def getC_def whenC_def sysU_def)
  then show ?thesis
    using expireIdleFlows_complete[OF _ run, of 9 3 demo_udp_flow] by (simp add: demo_udp_env_def demo_udp_state_def)
qed

end
