(* ===== verification/UdpServed.thy ===== *)
theory UdpServed
  imports UdpFlowTable
begin

text \<open>
  The UDP reactor and the world its callbacks share: as for the TCP reactor, a relation between
  the world and the open flows, given by their tokens and backends, holds through any run.
\<close>

section \<open>Flows as the world sees them\<close>

definition flow_links :: "(u64 \<times> UdpFlow) list \<Rightarrow> (u64 \<times> Endpoint) list" where
  "flow_links al = map (\<lambda>(token, flow). (token, uf_backend flow)) al"

lemma flow_links_simps [simp]:
  "flow_links [] = []" "length (flow_links al) = length al" "map fst (flow_links al) = map fst al"
  by (simp_all add: flow_links_def case_prod_unfold comp_def)

lemma flow_links_map_entry: "(\<And>f. uf_backend (g f) = uf_backend f) \<Longrightarrow> flow_links (AList.map_entry token g al) = flow_links al"
  by (induction al) (auto simp: flow_links_def)

lemma flow_links_delete: "flow_links (AList.delete token al) = AList.delete token (flow_links al)"
  by (induction al) (auto simp: flow_links_def AList.delete_eq)

lemma map_of_flow_links: "map_of (flow_links al) token = map_option uf_backend (map_of al token)"
  by (induction al) (auto simp: flow_links_def)

lemma flow_links_emplace: "flow_links (emplace token flow al) = emplace token (uf_backend flow) (flow_links al)"
proof -
  have "flow_links (AList.update token flow al) = AList.update token (uf_backend flow) (flow_links al)"
    by (induction al) (auto simp: flow_links_def)
  then show ?thesis by (simp add: emplace_def map_of_flow_links)
qed

lemma delete_emplace: "map_of al token = None \<Longrightarrow> AList.delete token (emplace token flow al) = al"
  by (induction al) (auto simp: emplace_def AList.delete_eq filter_id_conv split: if_splits)

definition flow_world :: "'w udp_env \<Rightarrow> StatKind \<Rightarrow> 'w \<Rightarrow> 'w" where
  "flow_world env kind w = (case ue_statistics env of None \<Rightarrow> w | Some f \<Rightarrow> snd (f \<lparr>se_kind = kind, se_amount = 1\<rparr> w))"

definition attended :: "('w \<Rightarrow> (u64 \<times> Endpoint) list \<Rightarrow> bool) \<Rightarrow> 'w UdpReactor \<Rightarrow> bool" where
  "attended R s \<longleftrightarrow> R (ur_world s) (flow_links (ur_flows s)) \<and> (\<forall>token \<in> fst ` set (ur_flows s). token < ur_nextFlowToken s)"

text \<open>Between a change of the table and its report the world lags behind.\<close>

definition pending :: "('w \<Rightarrow> (u64 \<times> Endpoint) list \<Rightarrow> bool) \<Rightarrow> (u64 \<times> Endpoint) list \<Rightarrow> (u64 \<times> UdpFlow) list \<Rightarrow> u64 \<Rightarrow>
    'w UdpReactor \<Rightarrow> bool" where
  "pending R l flows n s \<longleftrightarrow> R (ur_world s) l \<and> ur_flows s = flows \<and> ur_nextFlowToken s = n"

section \<open>The relation through a run\<close>

locale udp_world =
  fixes env :: "'w udp_env" and R :: "'w \<Rightarrow> (u64 \<times> Endpoint) list \<Rightarrow> bool" and B :: "Endpoint \<Rightarrow> bool"
  assumes call: "f \<in> udp_calls env \<Longrightarrow> R w l \<Longrightarrow> R (f w) l"
    and select: "ue_selector env = Some g \<Longrightarrow> R w l \<Longrightarrow> g w = (r, w') \<Longrightarrow> R w' l \<and> (\<forall>b. r = Inr (Some b) \<longrightarrow> B b)"
    and created: "R w l \<Longrightarrow> map_of l token = None \<Longrightarrow> length l < ue_maxFlows env \<Longrightarrow> B b \<Longrightarrow>
      R (flow_world env kCreated w) (emplace token b l)"
    and closed: "R w l \<Longrightarrow> map_of l token = Some b \<Longrightarrow> R (flow_world env kClosed w) (AList.delete token l)"
begin

lemma steady_attended: "steady env (attended R)"
  by (simp add: steady_def attended_def call)

lemma steady_pending: "steady env (pending R l flows n)"
  by (simp add: steady_def pending_def call)

lemma stat_attended:
  assumes "\<And>w. R w l \<Longrightarrow> R (flow_world env kind w) (flow_links flows)" and "\<forall>token \<in> fst ` set flows. token < n"
  shows "triple (pending R l flows n) (reportStatEvent env kind 1) (\<lambda>_. attended R) (\<lambda>_. attended R)"
proof (rule tripleI)
  fix s r t
  assume "pending R l flows n s"
  then have new: "R (flow_world env kind (ur_world s)) (flow_links flows)" and s: "ur_flows s = flows" "ur_nextFlowToken s = n"
    using assms(1) by (simp_all add: pending_def)
  { fix x assume "reportStatEvent env kind 1 s = (x, t)"
    then have "ur_world t = flow_world env kind (ur_world s) \<and> ur_flows t = ur_flows s \<and> ur_nextFlowToken t = ur_nextFlowToken s"
      by (cases "ue_statistics env")
         (auto simp: reportStatEvent_def callbackU_def flow_world_def bindC_def rethrowC_def returnC_def throwC_def sysU_def
            split: prod.splits option.splits)
    then have "attended R t" using new s assms(2) by (simp add: attended_def) }
  then show "reportStatEvent env kind 1 s = (Inr r, t) \<Longrightarrow> attended R t" "reportStatEvent env kind 1 s = (Inl e, t) \<Longrightarrow> attended R t" for e
    by blast+
qed

lemma avoids_world: "avoids E (sysU f)" "avoids E (actU h)"
  by (simp_all add: avoids_def sysU_def actU_def modifyC_def split: prod.splits)

lemma avoids_diagnose: "avoids UNIV (if b then returnC None else bindC (attemptC m f) (attemptC (k :: ('w UdpReactor, unit) comp)))"
  by (intro avoids_rules avoids_attempt)

lemma preserves_close: "preserves (attended R) (closeFlow env token reason error)"
proof (rule preservesI)
  fix s r t
  assume P: "attended R s" and run: "closeFlow env token reason error s = (r, t)"
  show "attended R t"
  proof (cases "map_of (ur_flows s) token")
    case None
    with run P show ?thesis by (simp add: closeFlow_absent)
  next
    case (Some flow)
    let ?flows = "AList.delete token (ur_flows s)"
    let ?Q = "pending R (flow_links (ur_flows s)) ?flows (ur_nextFlowToken s)"
    have drop: "?Q (drop_flow flow token s)" using P by (simp add: pending_def attended_def)
    have below: "\<forall>token \<in> fst ` set ?flows. token < ur_nextFlowToken s"
      using P by (auto simp: attended_def AList.delete_eq)
    have stat: "triple ?Q (attemptC (reportStatEvent env kClosed 1) failure) (\<lambda>_. attended R) (\<lambda>_. attended R)" for failure
    proof -
      have "R (flow_world env kClosed w) (flow_links ?flows)" if "R w (flow_links (ur_flows s))" for w
        using closed[OF that, of token] Some by (simp add: flow_links_delete map_of_flow_links)
      from triple_attempt[OF stat_attended[OF this below]] show ?thesis .
    qed
    have last: "preserves (attended R) (bindC (attemptC (reportObservation env reason token (int (uf_fd flow))) failure) (\<lambda>failure3.
        bindC (attemptC (callbackU (map_option (\<lambda>f. f \<lparr>fe_id = token, fe_backend = uf_backend flow,
               fe_reason = reason, fe_error = error\<rparr>) (ue_flow env))) failure3) rethrowC))" for failure
      by (intro preserves_rules world_rules steady_attended)
    have diagnose: "preserves ?Q (if d = 0 then returnC None
                 else bindC (attemptC (reportStatEvent env kError 1) None)
                        (attemptC (callbackU (map_option (\<lambda>f. f ''UDP epoll DEL'' d) (ue_diagnostic env)))))" for d
      by (intro preserves_rules world_rules steady_pending)
    have "triple ?Q (bindC (sysU (ue_epollDel env (uf_fd flow))) (\<lambda>del.
         let detachError = (case del of None \<Rightarrow> 0 | Some e \<Rightarrow> if e = ENOENT \<or> e = EBADF then 0 else e)
         in thenC (actU (ue_close env (uf_fd flow)))
           (bindC (if detachError = 0 then returnC None
                   else bindC (attemptC (reportStatEvent env kError 1) None)
                          (attemptC (callbackU (map_option (\<lambda>f. f ''UDP epoll DEL'' detachError)
                             (ue_diagnostic env))))) (\<lambda>failure1.
            bindC (attemptC (reportStatEvent env kClosed 1) failure1) (\<lambda>failure2.
            bindC (attemptC (reportObservation env reason token (int (uf_fd flow))) failure2) (\<lambda>failure3.
            bindC (attemptC (callbackU (map_option (\<lambda>f. f \<lparr>fe_id = token, fe_backend = uf_backend flow,
               fe_reason = reason, fe_error = error\<rparr>) (ue_flow env))) failure3) rethrowC)))))) (\<lambda>_. attended R) (\<lambda>_. attended R)"
      unfolding Let_def
      by (intro silent_bind[OF preserves_udp_calls(8)[OF steady_pending] avoids_world(1)]
            silent_then[OF preserves_udp_calls(9)[OF steady_pending] avoids_world(2)]
            silent_bind[OF diagnose avoids_diagnose] triple_bind[OF stat] triple_preserves_weaken[OF last])
    from triple_end[OF this drop] run Some show ?thesis by (simp add: closeFlow_def run_simps)
  qed
qed

lemma closing_attended: "closing env (attended R)"
  by (simp add: closing_def steady_attended preserves_close)

lemma relaying_attended: "relaying env (attended R)"
  unfolding relaying_def
proof (intro conjI allI impI closing_attended)
  show "attended R (s\<lparr>ur_flows := AList.map_entry token (\<lambda>f. f\<lparr>uf_deadline := recordSubmission now (uf_deadline f)\<rparr>) (ur_flows s)\<rparr>)"
    if "attended R s" for s token now
    using that by (fastforce simp: attended_def flow_links_map_entry dest!: set_map_entry)
qed

text \<open>A flow with a fresh token is entered into the tables, or taken out again if it cannot be polled.\<close>

definition issuable :: "u64 \<Rightarrow> 'w UdpReactor \<Rightarrow> bool" where
  "issuable token s \<longleftrightarrow> (attended R s \<and> length (ur_flows s) < ue_maxFlows env) \<and>
     map_of (ur_flows s) token = None \<and> token < ur_nextFlowToken s"

lemma steady_issuable: "steady env (issuable token)" "steady env (\<lambda>s. attended R s \<and> length (ur_flows s) < ue_maxFlows env)"
  using steady_attended by (simp_all add: steady_def issuable_def)

lemma triple_enter:
  assumes s: "issuable token s" and "X = emplace token flow (ur_flows s)"
  shows "triple (\<lambda>x. x = s) (registerFlowIndexesAndSocket env key token flow)
    (\<lambda>registered. if registered then pending R (flow_links (ur_flows s)) X (ur_nextFlowToken s) else attended R) (\<lambda>_. attended R)"
proof -
  let ?Q = "pending R (flow_links (ur_flows s)) X (ur_nextFlowToken s)"
  have rest: "preserves (attended R) (thenC (actU (ue_close env (uf_fd flow)))
        (if e = EBADF \<or> e = EINVAL then throwC (SystemError ''UDP epoll add'' e)
         else thenC (setupDrop env e) (returnC False)))" for e
    by (intro preserves_rules world_rules steady_attended)
  have erase: "triple ?Q (eraseFlow key token) (\<lambda>_. attended R) (\<lambda>_. attended R)"
    using s delete_emplace[of "ur_flows s" token flow]
    by (auto intro!: tripleI simp: eraseFlow_def pending_def attended_def issuable_def assms(2))
  have failed: "triple ?Q (thenC (eraseFlow key token) (thenC (actU (ue_close env (uf_fd flow)))
        (if e = EBADF \<or> e = EINVAL then throwC (SystemError ''UDP epoll add'' e)
         else thenC (setupDrop env e) (returnC False))))
      (\<lambda>registered. if registered then ?Q else attended R) (\<lambda>_. attended R)" for e
  proof (rule triple_then[OF erase], rule tripleI)
    fix u a v
    assume "attended R u" and run: "thenC (actU (ue_close env (uf_fd flow)))
        (if e = EBADF \<or> e = EINVAL then throwC (SystemError ''UDP epoll add'' e)
         else thenC (setupDrop env e) (returnC False)) u = (Inr a, v)"
    with preservesD[OF rest] have "attended R v" by blast
    moreover have "\<not> a" using run by (auto simp: comp_defs split: if_splits prod.splits sum.splits)
    ultimately show "(if a then ?Q else attended R) v" by simp
  qed (use preservesD[OF rest] in blast)
  show ?thesis
    unfolding registerFlowIndexesAndSocket_def
  proof (rule triple_then[where B = ?Q])
    show "triple (\<lambda>x. x = s) (modifyC (\<lambda>s. s\<lparr>ur_flowTokensByKey := emplace key token (ur_flowTokensByKey s),
        ur_flows := emplace token flow (ur_flows s)\<rparr>)) (\<lambda>_. ?Q) (\<lambda>_. attended R)"
      using s by (auto intro!: tripleI simp: pending_def assms(2) issuable_def attended_def)
  qed (intro silent_bind[OF preserves_udp_calls(7)[OF steady_pending] avoids_world(1)] triple_case_option failed;
       auto intro!: tripleI)
qed

lemma triple_new_flow:
  assumes backend: "B (uf_backend flow)" and rest: "preserves (attended R) (rest :: ('w UdpReactor, u64) comp)"
  shows "triple (issuable token) (bindC (registerFlowIndexesAndSocket env key token flow) (\<lambda>registered.
     if \<not> registered then returnC 0 else thenC (reportStatEvent env kCreated 1) rest)) (\<lambda>_. attended R) (\<lambda>_. attended R)"
proof (rule triple_state, rule triple_bind)
  fix s
  assume s: "issuable token s"
  let ?X = "emplace token flow (ur_flows s)"
  show "triple (\<lambda>x. x = s) (registerFlowIndexesAndSocket env key token flow) (\<lambda>registered.
      if registered then pending R (flow_links (ur_flows s)) ?X (ur_nextFlowToken s) else attended R) (\<lambda>_. attended R)"
    by (rule triple_enter[OF s refl])
  have "R (flow_world env kCreated w) (flow_links ?X)" if "R w (flow_links (ur_flows s))" for w
    using created[OF that, of token "uf_backend flow"] s backend
    by (simp add: flow_links_emplace map_of_flow_links issuable_def)
  moreover have "\<forall>t \<in> fst ` set ?X. t < ur_nextFlowToken s"
    using s set_update[of token flow "ur_flows s"] by (auto simp: emplace_def issuable_def attended_def)
  ultimately have stat: "triple (pending R (flow_links (ur_flows s)) ?X (ur_nextFlowToken s))
      (reportStatEvent env kCreated 1) (\<lambda>_. attended R) (\<lambda>_. attended R)" by (rule stat_attended)
  show "triple (if registered then pending R (flow_links (ur_flows s)) ?X (ur_nextFlowToken s) else attended R)
      (if \<not> registered then returnC 0 else thenC (reportStatEvent env kCreated 1) rest) (\<lambda>_. attended R) (\<lambda>_. attended R)"
    for registered
    using triple_then[OF stat triple_preserves_weaken[OF rest, where Q = "\<lambda>_. attended R" and E = "\<lambda>_. attended R"]]
    by (cases registered) (auto intro!: tripleI)
qed

lemma preserves_create: "preserves (attended R) (createFlow env key)"
proof -
  let ?room = "\<lambda>s. attended R s \<and> length (ur_flows s) < ue_maxFlows env"
  have leaf: "triple P m (\<lambda>_. attended R) (\<lambda>_. attended R)"
    if "preserves (attended R) m" "\<And>s. P s \<Longrightarrow> attended R s" for P and m :: "('w UdpReactor, u64) comp"
    by (rule triple_preserves_weaken[OF that])
  have select_call: "triple ?room (bindC (case ue_selector env of None \<Rightarrow> throwC (LogicError ''bad_function_call'')
         | Some f \<Rightarrow> (\<lambda>s. case f (ur_world s) of (r, w) \<Rightarrow> (r, s\<lparr>ur_world := w\<rparr>))) f) (\<lambda>_. attended R) (\<lambda>_. attended R)"
    if f: "\<And>selected. (\<And>b. selected = Some b \<Longrightarrow> B b) \<Longrightarrow> triple ?room (f selected) (\<lambda>_. attended R) (\<lambda>_. attended R)"
    for f :: "Endpoint option \<Rightarrow> ('w UdpReactor, u64) comp"
  proof (rule triple_bind[where B = "\<lambda>selected s. ?room s \<and> (\<forall>b. selected = Some b \<longrightarrow> B b)"])
    show "triple ?room (case ue_selector env of None \<Rightarrow> throwC (LogicError ''bad_function_call'')
         | Some f \<Rightarrow> (\<lambda>s. case f (ur_world s) of (r, w) \<Rightarrow> (r, s\<lparr>ur_world := w\<rparr>)))
        (\<lambda>selected s. ?room s \<and> (\<forall>b. selected = Some b \<longrightarrow> B b)) (\<lambda>_. attended R)"
    proof (cases "ue_selector env")
      case (Some g)
      have "attended R (s\<lparr>ur_world := w\<rparr>) \<and> (\<forall>b. r = Inr (Some b) \<longrightarrow> B b)"
        if "attended R s" "g (ur_world s) = (r, w)" for s r w
        using select[OF Some _ that(2), of "flow_links (ur_flows s)"] that(1) by (auto simp: attended_def)
      with Some show ?thesis by (auto intro!: tripleI split: prod.splits)
    qed (auto intro!: tripleI)
  qed (use f in \<open>auto simp: triple_def\<close>)
  have issue: "triple (\<lambda>s. ?room s \<and> ur_nextFlowToken s = token) (thenC (modifyC (\<lambda>s. s\<lparr>ur_nextFlowToken := token + 1\<rparr>)) m)
      (\<lambda>_. attended R) (\<lambda>_. attended R)"
    if "token \<noteq> - 1" "triple (issuable token) m (\<lambda>_. attended R) (\<lambda>_. attended R)" for token and m :: "('w UdpReactor, u64) comp"
  proof (rule triple_then[OF _ that(2)], rule tripleI)
    fix s a t
    assume P: "?room s \<and> ur_nextFlowToken s = token"
      and "modifyC (\<lambda>s. s\<lparr>ur_nextFlowToken := token + 1\<rparr>) s = (Inr a, t)"
    then have t: "t = s\<lparr>ur_nextFlowToken := token + 1\<rparr>" by simp
    have "map_of (ur_flows s) token = None"
      using P by (cases "map_of (ur_flows s) token") (force simp: attended_def dest: map_of_SomeD)+
    with P show "issuable token t"
      by (auto simp: t issuable_def attended_def word_le_inc[OF that(1)] intro: less_imp_le)
  qed (simp add: modifyC_def)
  note call = silent_bind[OF _ avoids_world(1)]
  note room = preserves_udp_calls[OF steady_issuable(2)] preserves_udp_calls[OF steady_issuable(1)]
  note simple = preserves_rules world_rules steady_attended
  show ?thesis
    unfolding createFlow_def Let_def
  proof (rule preserves_then[OF preserves_expireIdleFlows[OF closing_attended] triple_preserves],
      intro triple_get_bind triple_if, goal_cases)
    case (1 count)
    show ?case by (rule leaf) (intro simple, simp)
  next
    case (2 count)
    show ?case
    proof (rule triple_pre[where P = ?room], rule select_call, intro triple_case_option, goal_cases)
      case (1 selected)
      show ?case by (rule leaf) (intro simple, simp)
    next
      case (2 selected backend)
      then have backend: "B backend" by simp
      show ?case
        by (intro call room triple_case_sum triple_case_option triple_get_bind triple_if issue triple_new_flow;
            (assumption | (simp add: backend; fail) | (intro simple; fail) |
             (rule leaf, (intro simple)[1], simp add: issuable_def; fail)))
    qed (use 2 in simp)
  qed
qed

lemma serving_attended: "serving env (attended R)"
proof -
  have "preserves (attended R) (resolveFlowTokenForDatagram env key)" for key
    unfolding resolveFlowTokenForDatagram_def Let_def
    by (intro preserves_create preserves_rules world_rules steady_attended preserves_close)
  with relaying_attended show ?thesis by (simp add: serving_def)
qed

lemma attended_loop:
  "attended R s \<Longrightarrow> runUdpEventLoop env fuel s = (r, t) \<Longrightarrow> attended R t"
  by (rule preservesD[OF preserves_runUdpEventLoop[OF serving_attended]])

lemma attended_run:
  assumes "R w []" and "runUdpReactor env fuel (emptyUdpReactor w) = (r, t)"
  shows "attended R t"
proof (rule preservesD[OF preserves_runUdpReactor[OF serving_attended] _ assms(2)])
  show "attended R (emptyUdpReactor w)" using assms(1) by (simp add: attended_def emptyUdpReactor_def)
qed (simp add: memberless_def attended_def)

end

text \<open>A run that returns returns 0.\<close>

lemma udp_loop_returns_zero: "yields (\<lambda>n. n = 0) (udp_loop env fuel)"
  by (induction fuel) (simp_all, (intro yields_rules; simp?)+)

lemma udp_returns_zero: "yields (\<lambda>n. n = 0) (runUdpReactor env fuel)"
  unfolding runUdpReactor_def runUdpEventLoop_def
  by (intro yields_rules yields_bind_result[OF yields_then[OF udp_loop_returns_zero]]; simp)

end
