(* ===== verification/UdpHost.thy ===== *)
theory UdpHost
  imports UdpServed
begin

text \<open>
  The interface of \<open>src/net/UdpReactor.h\<close>: the options with their defaults, the callbacks, and the
  environment a reactor gets from them when the system calls act on a part of the callbacks' world.
\<close>

section \<open>Options and callbacks\<close>

text \<open>The injected calls of the options stand for faults in tests; unset, the reactor makes the real calls.\<close>

record 'w UdpReactorOptions =
  up_maxFlows :: nat
  up_idleTimeout :: time
  up_pollInterval :: time
  up_receiveSize :: nat
  up_observation :: "(UdpObservation \<Rightarrow> 'w \<Rightarrow> exn option \<times> 'w) option"

definition defaultUdpOptions :: "'w UdpReactorOptions" where
  "defaultUdpOptions = \<lparr>up_maxFlows = 1024, up_idleTimeout = ms 60000, up_pollInterval = ms 100,
     up_receiveSize = kUdpPayloadLimit, up_observation = None\<rparr>"

record 'w UdpReactorCallbacks =
  ucb_backendSelector :: "('w \<Rightarrow> (exn + Endpoint option) \<times> 'w) option"
  ucb_maintenance :: "('w \<Rightarrow> exn option \<times> 'w) option"
  ucb_statistics :: "(StatEvent \<Rightarrow> 'w \<Rightarrow> exn option \<times> 'w) option"
  ucb_ready :: "('w \<Rightarrow> exn option \<times> 'w) option"
  ucb_flow :: "(UdpFlowEvent \<Rightarrow> 'w \<Rightarrow> exn option \<times> 'w) option"
  ucb_diagnostic :: "(string \<Rightarrow> errno \<Rightarrow> 'w \<Rightarrow> exn option \<times> 'w) option"

definition noUdpCallbacks :: "'w UdpReactorCallbacks" where
  "noUdpCallbacks = \<lparr>ucb_backendSelector = None, ucb_maintenance = None, ucb_statistics = None, ucb_ready = None,
     ucb_flow = None, ucb_diagnostic = None\<rparr>"

section \<open>The environment of a reactor\<close>

text \<open>The calls of \<open>sys\<close> act on the part of the world that \<open>get\<close> and \<open>put\<close> give; its own callbacks are not used.\<close>

definition udp_reactor_env :: "('w \<Rightarrow> 'v) \<Rightarrow> ('v \<Rightarrow> 'w \<Rightarrow> 'w) \<Rightarrow> 'v udp_env \<Rightarrow> Endpoint \<Rightarrow> 'w UdpReactorCallbacks \<Rightarrow>
    'w UdpReactorOptions \<Rightarrow> 'w udp_env" where
  "udp_reactor_env get put sys listen callbacks options = \<lparr>
     ue_listen = listen, ue_maxFlows = up_maxFlows options, ue_idleTimeout = up_idleTimeout options,
     ue_pollInterval = up_pollInterval options, ue_receiveSize = up_receiveSize options,
     ue_now = within get put (ue_now sys), ue_order = ue_order sys, ue_selector = ucb_backendSelector callbacks,
     ue_maintenance = ucb_maintenance callbacks, ue_ready = ucb_ready callbacks, ue_statistics = ucb_statistics callbacks,
     ue_observation = up_observation options, ue_flow = ucb_flow callbacks, ue_diagnostic = ucb_diagnostic callbacks,
     ue_sigmask = within get put (ue_sigmask sys), ue_sigrestore = (\<lambda>w. put (ue_sigrestore sys (get w)) w),
     ue_open = (\<lambda>operation. within get put (ue_open sys operation)),
     ue_setup = (\<lambda>operation. within get put (ue_setup sys operation)), ue_bind = (\<lambda>fd. within get put (ue_bind sys fd)),
     ue_connect = (\<lambda>fd e. within get put (ue_connect sys fd e)), ue_setupEpoll = (\<lambda>fd w. (None, w)),
     ue_epollAdd = (\<lambda>fd token. within get put (ue_epollAdd sys fd token)),
     ue_epollDel = (\<lambda>fd. within get put (ue_epollDel sys fd)), ue_close = (\<lambda>n w. put (ue_close sys n (get w)) w),
     ue_recv = (\<lambda>fd n. within get put (ue_recv sys fd n)), ue_send = (\<lambda>request. within get put (ue_send sys request)),
     ue_socketError = (\<lambda>fd. within get put (ue_socketError sys fd)), ue_signalRead = within get put (ue_signalRead sys),
     ue_epollWait = within get put (ue_epollWait sys)\<rparr>"

text \<open>What the calls of such a reactor keep: what writing the part back and the callbacks keep.\<close>

lemma udp_reactor_calls:
  assumes "f \<in> udp_calls (udp_reactor_env get put sys listen callbacks options)" and "I w"
    and part: "\<And>v w. I w \<Longrightarrow> I (put v w)"
    and "\<And>g. ucb_maintenance callbacks = Some g \<Longrightarrow> I (snd (g w))" and "\<And>g. ucb_ready callbacks = Some g \<Longrightarrow> I (snd (g w))"
    and "\<And>g ob. up_observation options = Some g \<Longrightarrow> I (snd (g ob w))"
    and "\<And>g ev. ucb_flow callbacks = Some g \<Longrightarrow> I (snd (g ev w))"
    and "\<And>g what e. ucb_diagnostic callbacks = Some g \<Longrightarrow> I (snd (g what e w))"
    and "\<And>g kind n. ucb_statistics callbacks = Some g \<Longrightarrow> kind \<noteq> kCreated \<Longrightarrow> kind \<noteq> kClosed \<Longrightarrow>
      I (snd (g \<lparr>se_kind = kind, se_amount = n\<rparr> w))"
  shows "I (f w)"
  using assms(1)
  by (cases rule: udp_calls.cases) (simp_all add: udp_reactor_env_def snd_within part assms)

text \<open>A run of the reactor on the world its callbacks share; the reactor itself is gone afterwards.\<close>

definition hostUdpReactor :: "'w udp_env \<Rightarrow> nat \<Rightarrow> ('w, int) comp" where
  "hostUdpReactor env fuel w = (case runUdpReactor env fuel (emptyUdpReactor w) of (r, t) \<Rightarrow> (r, ur_world t))"

end
