(* ===== verification/UdpService.thy ===== *)
theory UdpService
  imports UdpHost ServiceWorld
begin

text \<open>
  The UDP service: \<open>src/control/UdpService.cpp\<close>, \<open>UdpServiceRuntime\<close> on the UDP reactor. The members
  the TCP service has as well are in \<open>ServiceWorld\<close>.
\<close>

type_synonym 'v UdpServiceRuntime = "'v service_world"

section \<open>Lines\<close>

definition udp_started :: string where
  "udp_started = ''UDP '' @ [CHR 0xE6, CHR 0x9C, CHR 0x8D, CHR 0xE5, CHR 0x8A, CHR 0xA1, CHR 0xE5, CHR 0xB7,
     CHR 0xB2, CHR 0xE5, CHR 0x90, CHR 0xAF, CHR 0xE5, CHR 0x8A, CHR 0xA8, CHR 0xEF, CHR 0xBC, CHR 0x9A]"

definition udp_stopped :: string where
  "udp_stopped = ''UDP '' @ [CHR 0xE6, CHR 0x9C, CHR 0x8D, CHR 0xE5, CHR 0x8A, CHR 0xA1, CHR 0xE5, CHR 0xB7,
     CHR 0xB2, CHR 0xE5, CHR 0x81, CHR 0x9C, CHR 0xE6, CHR 0xAD, CHR 0xA2, CHR 0xEF, CHR 0xBC, CHR 0x9A,
     CHR 0xE5, CHR 0x85, CHR 0xA8, CHR 0xE9, CHR 0x83, CHR 0xA8] @ '' flow '' @ [CHR 0xE5, CHR 0xB7, CHR 0xB2,
     CHR 0xE5, CHR 0x85, CHR 0xB3, CHR 0xE9, CHR 0x97, CHR 0xAD, CHR 0xEF, CHR 0xBC, CHR 0x88, CHR 0xE4,
     CHR 0xB8, CHR 0x8D, CHR 0xE4, CHR 0xBF, CHR 0x9D, CHR 0xE8, CHR 0xAF, CHR 0x81, CHR 0xE5, CHR 0x9C,
     CHR 0xA8, CHR 0xE9, CHR 0x80, CHR 0x94, CHR 0xE6, CHR 0x95, CHR 0xB0, CHR 0xE6, CHR 0x8D, CHR 0xAE,
     CHR 0xE6, CHR 0x8E, CHR 0x92, CHR 0xE7, CHR 0xA9, CHR 0xBA, CHR 0xEF, CHR 0xBC, CHR 0x89, CHR 0x0A]"

definition udp_only :: string where
  "udp_only = ''UDP '' @ [CHR 0xE5, CHR 0x85, CHR 0xA5, CHR 0xE5, CHR 0x8F, CHR 0xA3, CHR 0xE4, CHR 0xBB,
     CHR 0x85, CHR 0xE6, CHR 0x94, CHR 0xAF, CHR 0xE6, CHR 0x8C, CHR 0x81] @ '' UDP '' @ [CHR 0xE5, CHR 0x8D,
     CHR 0x8F, CHR 0xE8, CHR 0xAE, CHR 0xAE]"

definition onFlow :: "'v service_host \<Rightarrow> UdpFlowEvent \<Rightarrow> ('v service_world, unit) comp" where
  "onFlow host ev = printed (sh_stderr host)
     (''flow='' @ dec_string (unat (fe_id ev)) @ '' backend='' @ formatEndpoint (fe_backend ev) @ '' reason='' @ fe_reason ev @
      (if fe_error ev = 0 then [] else '' errno='' @ dec_string (fe_error ev)) @ [CHR 0x0A])"

definition onDiagnostic :: "'v service_host \<Rightarrow> string \<Rightarrow> errno \<Rightarrow> ('v service_world, unit) comp" where
  "onDiagnostic host reason error = printed (sh_stderr host)
     (''UDP '' @ reason @ (if error = 0 then [] else '' errno='' @ dec_string error) @ [CHR 0x0A])"

section \<open>The service\<close>

definition bindReactorCallbacks :: "'v service_host \<Rightarrow> Config \<Rightarrow> 'v service_world \<Rightarrow> 'v service_world UdpReactorCallbacks \<Rightarrow>
    'v service_world UdpReactorCallbacks" where
  "bindReactorCallbacks host config w callbacks = callbacks\<lparr>
     ucb_backendSelector := Some (serviceSelectBackend host),
     ucb_statistics := (if metrics_enabled w then Some (\<lambda>ev. as_callback (onStatistics ev)) else ucb_statistics callbacks),
     ucb_maintenance := (if selection_enabled w \<or> metrics_enabled w then Some (as_callback (onMaintenance host config))
       else ucb_maintenance callbacks),
     ucb_ready := Some (as_callback (onReady host config udp_started)),
     ucb_flow := Some (\<lambda>ev. as_callback (onFlow host ev)),
     ucb_diagnostic := Some (\<lambda>reason error. as_callback (onDiagnostic host reason error))\<rparr>"

text \<open>\<open>sys\<close> gives the calls of a reactor that listens on the given endpoint.\<close>

definition udp_service_env :: "(Endpoint \<Rightarrow> 'v udp_env) \<Rightarrow> 'v service_host \<Rightarrow> Config \<Rightarrow> 'v service_world \<Rightarrow> 'v service_world udp_env" where
  "udp_service_env sys host config w = udp_reactor_env sw_world put_world (sys (cfg_listen config)) (cfg_listen config)
     (bindReactorCallbacks host config w noUdpCallbacks) defaultUdpOptions"

text \<open>Unlike the TCP service, this one also announces the stop when it ends in error.\<close>

definition runUdpServiceLifecycle :: "(Endpoint \<Rightarrow> 'v udp_env) \<Rightarrow> 'v service_host \<Rightarrow> Config \<Rightarrow> nat \<Rightarrow> ('v service_world, int) comp" where
  "runUdpServiceLifecycle sys host config fuel = catchC
     (thenC (makeSelection host config)
     (bindC (getC (udp_service_env sys host config)) (\<lambda>env.
      bindC (hostUdpReactor env fuel) (\<lambda>result.
      thenC (printed (sh_stderr host) udp_stopped)
     (thenC (serviceFinish host config False)
            (returnC result))))))
     (\<lambda>e. thenC (serviceFinish host config True)
          (thenC (printed (sh_stderr host) udp_stopped) (throwC e)))"

definition runUdpService :: "(Endpoint \<Rightarrow> 'v udp_env) \<Rightarrow> 'v service_host \<Rightarrow> Config \<Rightarrow> nat \<Rightarrow> ('v service_world, int) comp" where
  "runUdpService sys host config fuel =
     (if cfg_protocol config \<noteq> kUdp then throwC (InvalidArgument udp_only)
      else thenC (newServiceRuntime host config) (finallyC (runUdpServiceLifecycle sys host config fuel) (destroyServiceRuntime host)))"

section \<open>The reactor in the service\<close>

lemma udp_service_env_simps:
  "ue_maxFlows (udp_service_env sys host config w0) = 1024"
  "ue_selector (udp_service_env sys host config w0) = Some (serviceSelectBackend host)"
  "ue_order (udp_service_env sys host config w0) = ue_order (sys (cfg_listen config))"
  "flow_world (udp_service_env sys host config w0) kind = reported (metrics_enabled w0) kind"
  by (auto simp: udp_service_env_def udp_reactor_env_def bindReactorCallbacks_def defaultUdpOptions_def noUdpCallbacks_def
        flow_world_def reported_def snd_as_callback fun_eq_iff)

lemma udp_service_calls:
  assumes "f \<in> udp_calls (udp_service_env sys host config w0)" and ok: "service_ok config metered w l"
  shows "service_ok config metered (f w) l"
proof (rule udp_reactor_calls[OF assms(1)[unfolded udp_service_env_def], of "\<lambda>w. service_ok config metered w l", OF ok])
  show "service_ok config metered (put_world v w) l" if "service_ok config metered w l" for v w
    using that by (rule service_ok_world)
qed (auto simp: bindReactorCallbacks_def noUdpCallbacks_def defaultUdpOptions_def snd_as_callback onFlow_def
       onDiagnostic_def callbacks_ok[OF ok] split: if_splits)

interpretation udp_service: udp_world "udp_service_env sys host config w0" "service_ok config (metrics_enabled w0)"
    "\<lambda>b. b \<in> set (cfg_backends config)" for sys host config w0
proof (unfold_locales, goal_cases)
  case (1 f w l)
  then show ?case by (rule udp_service_calls)
next
  case (2 g w l r w')
  then show ?case using selected_ok[of config _ w l host r w'] by (simp add: udp_service_env_simps)
next
  case (3 w l token b)
  then show ?case by (simp add: udp_service_env_simps reported_created)
next
  case (4 w l token b)
  then show ?case by (simp add: udp_service_env_simps reported_closed)
qed

lemma udp_service_returns:
  assumes order: "\<And>ks. set (ue_order (sys (cfg_listen config)) ks) = set ks" and ok: "service_ok config (metrics_enabled w) w []"
    and run: "hostUdpReactor (udp_service_env sys host config w) fuel w = (r, t)"
  shows "service_ok config (metrics_enabled w) t []"
proof -
  let ?env = "udp_service_env sys host config w"
  obtain s where s: "runUdpReactor ?env fuel (emptyUdpReactor w) = (r, s)" "t = ur_world s"
    using run by (auto simp: hostUdpReactor_def split: prod.splits)
  have "ur_flows s = []"
    using udp_run_released[OF _ s(1)] order by (simp add: udp_service_env_simps)
  with udp_service.attended_run[OF ok s(1)] s(2) show ?thesis by (simp add: attended_def)
qed

end
