(* ===== verification/Services.thy ===== *)
theory Services
  imports TcpService UdpService
begin

text \<open>
  \<open>src/control/Service.cpp\<close>, which runs the service the configuration asks for, and what holds of both
  services: the accounts of a running service and of one that has ended.
\<close>

text \<open>\<open>Protocol\<close> has no third value, so the \<open>throw\<close> behind the \<open>switch\<close> is not reached.\<close>

definition runConfiguredService :: "(Endpoint \<Rightarrow> 'v tcp_env) \<Rightarrow> (Endpoint \<Rightarrow> 'v udp_env) \<Rightarrow> 'v service_host \<Rightarrow> Config \<Rightarrow> nat \<Rightarrow>
    ('v service_world, int) comp" where
  "runConfiguredService tcp udp host config fuel =
     (case cfg_protocol config of kTcp \<Rightarrow> runTcpService tcp host config fuel | kUdp \<Rightarrow> runUdpService udp host config fuel)"

section \<open>The end of a service\<close>

lemma bind_get_host: "bindC (getC env) (\<lambda>e. bindC (host e) k) = bindC (\<lambda>w. host (env w) w) k"
  by (rule ext) (simp add: comp_defs)

lemma metrics_ok_of: "service_ok config metered w l \<Longrightarrow> metrics_ok metered (length l) (sw_metrics w)"
  by (simp add: service_ok_def)

text \<open>Making the selection leaves the metrics as they are, so the callbacks are bound for the metrics made first.\<close>

lemma metered_iff: "metrics_ok metered n (sw_metrics w) \<Longrightarrow> metrics_enabled w = metered"
  by (auto simp: metrics_ok_def metrics_enabled_def svc_enabled_def split: option.splits)

lemma tcp_lifecycle_settles:
  assumes batch: "\<And>timeout v es v'. te_epollWait (sys (cfg_listen config)) timeout v = (Inr es, v') \<Longrightarrow> length es \<le> 128"
    and order: "\<And>ks. set (te_order (sys (cfg_listen config)) ks) = set ks" and fuel: "8192 * fuel < 18446744073709551615"
    and "metrics_ok metered 0 (sw_metrics w)" and "runTcpServiceLifecycle sys host config fuel w = (r, t)"
  shows "settled metered (isl r) t"
proof (rule lifecycle_settles[OF assms(4) _ _ assms(5)[unfolded runTcpServiceLifecycle_def bind_get_host]])
  fix u x v
  assume ok: "service_ok config metered u []" and run: "hostTcpReactor (tcp_service_env sys host config u) fuel u = (x, v)"
  have "metrics_enabled u = metered" using metered_iff[OF metrics_ok_of[OF ok]] .
  with tcp_service_returns[where sys = sys and config = config, OF batch order fuel _ run] ok
  have "service_ok config metered v []" by simp
  from metrics_ok_of[OF this] show "metrics_ok metered 0 (sw_metrics v)" by simp
qed (simp add: throwC_def)

lemma udp_lifecycle_settles:
  assumes order: "\<And>ks. set (ue_order (sys (cfg_listen config)) ks) = set ks"
    and "metrics_ok metered 0 (sw_metrics w)" and "runUdpServiceLifecycle sys host config fuel w = (r, t)"
  shows "settled metered (isl r) t"
proof (rule lifecycle_settles[OF assms(2) _ _ assms(3)[unfolded runUdpServiceLifecycle_def bind_get_host]])
  fix u x v
  assume ok: "service_ok config metered u []" and run: "hostUdpReactor (udp_service_env sys host config u) fuel u = (x, v)"
  have "metrics_enabled u = metered" using metered_iff[OF metrics_ok_of[OF ok]] .
  with udp_service_returns[where sys = sys and config = config, OF order _ run] ok have "service_ok config metered v []" by simp
  from metrics_ok_of[OF this] show "metrics_ok metered 0 (sw_metrics v)" by simp
qed (auto simp: printed_def comp_defs)

lemma service_starts_settles:
  assumes life: "\<And>w r t. metrics_ok (cfg_metrics config = kStderr) 0 (sw_metrics w) \<Longrightarrow>
      m w = (r, t) \<Longrightarrow> settled (cfg_metrics config = kStderr) (isl r) t"
    and run: "thenC (newServiceRuntime host config) (finallyC m (destroyServiceRuntime host)) (no_service v) = (r, t)"
  shows "(settled (cfg_metrics config = kStderr) (isl r) t \<or> isl r \<and> svc_output (sw_metrics t) = None) \<and> sw_selection t = None"
proof -
  obtain x u where new: "newServiceRuntime host config (no_service v) = (x, u)" by fastforce
  note start = newServiceRuntime_ok[OF new]
  show ?thesis
  proof (cases x)
    case (Inl e)
    with new start run show ?thesis
      by (auto simp: thenC_def bindC_def no_service_def newServiceRuntime_def split: prod.splits sum.splits)
  next
    case (Inr y)
    with new run obtain z where z: "m u = (r, z)" "t = destroyServiceRuntime host z"
      by (auto simp: thenC_run finallyC_def split: prod.splits)
    from start have "metrics_ok (cfg_metrics config = kStderr) 0 (sw_metrics u)" by (simp add: Inr)
    from life[OF this z(1)] show ?thesis by (simp add: z(2))
  qed
qed

lemma configured_settles:
  assumes batch: "\<And>timeout v es v'. te_epollWait (tcp (cfg_listen config)) timeout v = (Inr es, v') \<Longrightarrow> length es \<le> 128"
    and order: "\<And>ks. set (te_order (tcp (cfg_listen config)) ks) = set ks" "\<And>ks. set (ue_order (udp (cfg_listen config)) ks) = set ks"
    and fuel: "8192 * fuel < 18446744073709551615"
    and run: "runConfiguredService tcp udp host config fuel (no_service v) = (r, t)"
  shows "(settled (cfg_metrics config = kStderr) (isl r) t \<or> isl r \<and> svc_output (sw_metrics t) = None) \<and> sw_selection t = None"
proof (cases "cfg_protocol config")
  case kTcp
  with run have "thenC (newServiceRuntime host config) (finallyC (runTcpServiceLifecycle tcp host config fuel)
      (destroyServiceRuntime host)) (no_service v) = (r, t)"
    by (simp add: runConfiguredService_def runTcpService_def)
  from service_starts_settles[OF tcp_lifecycle_settles[where sys = tcp and config = config, OF batch order(1) fuel] this] show ?thesis .
next
  case kUdp
  with run have "thenC (newServiceRuntime host config) (finallyC (runUdpServiceLifecycle udp host config fuel)
      (destroyServiceRuntime host)) (no_service v) = (r, t)"
    by (simp add: runConfiguredService_def runUdpService_def)
  from service_starts_settles[OF udp_lifecycle_settles[where sys = udp and config = config, OF order(2)] this] show ?thesis .
qed

lemma host_returns_zero:
  "yields (\<lambda>n. n = 0) (hostTcpReactor tcp fuel)" "yields (\<lambda>n. n = 0) (hostUdpReactor udp fuel)"
  using tcp_returns_zero[of tcp fuel] udp_returns_zero[of udp fuel]
  by (fastforce simp: yields_def hostTcpReactor_def hostUdpReactor_def split: prod.splits)+

lemma service_returns_zero: "yields (\<lambda>n. n = 0) (runConfiguredService tcp udp host config fuel)"
  unfolding runConfiguredService_def runTcpService_def runUdpService_def runTcpServiceLifecycle_def runUdpServiceLifecycle_def
  by (cases "cfg_protocol config")
     (simp_all, (intro yields_rules yields_bind_result[OF host_returns_zero(1)] yields_bind_result[OF host_returns_zero(2)]; simp?)+)

section \<open>Properties\<close>

text \<open>
  Claim C12. While the TCP service runs, its accounts follow the sessions: from any sound state of
  reactor, selection and metrics, the whole event loop, however it ends, leaves every session on a backend
  of the configuration, the gauge of the metrics at the number of open sessions, and, unless a counter has
  reached its maximum, created sessions exceeding closed ones by that number.
\<close>

theorem tcp_service_accounts:
  assumes batch: "\<And>timeout v es v'. te_epollWait (sys (cfg_listen config)) timeout v = (Inr es, v') \<Longrightarrow> length es \<le> 128"
    and inv: "tcp_inv (tcp_service_env sys host config w0) s" "unat (tr_nextSessionId s) + 8192 * fuel < 18446744073709551616"
    and sound: "served (service_ok config (metrics_enabled w0)) s"
    and run: "runTcpEventLoop (tcp_service_env sys host config w0) fuel s = (r, t)"
  shows "tcp_inv (tcp_service_env sys host config w0) t \<and> served (service_ok config (metrics_enabled w0)) t \<and>
    (\<forall>(sid, ss) \<in> set (tr_sessions t). ss_backend ss \<in> set (cfg_backends config)) \<and>
    (\<forall>out. svc_output (sw_metrics (tr_world t)) = Some out \<longrightarrow>
       ms_sessionsActive (mo_collector out) = of_nat (length (tr_sessions t)) \<and>
       (\<not> ms_counterSaturated (mo_collector out) \<longrightarrow> unat (ms_sessionsCreatedTotal (mo_collector out)) =
          unat (ms_sessionsClosedTotal (mo_collector out)) + length (tr_sessions t)))"
proof -
  have "tcp_inv (tcp_service_env sys host config w0) t \<and> served (service_ok config (metrics_enabled w0)) t"
    by (rule tcp_service.served_loop[OF tcp_service_batch[OF batch] inv sound run])
  then show ?thesis
    by (fastforce simp: served_def service_ok_def metrics_ok_def gauge_ok_def links_def)
qed

text \<open>
  Claim C13. While the UDP service runs, its accounts follow the flows in the same way: however the
  event loop ends, every flow is on a backend of the configuration and the gauge is the number of open flows.
\<close>

theorem udp_service_accounts:
  assumes sound: "attended (service_ok config (metrics_enabled w0)) s"
    and run: "runUdpEventLoop (udp_service_env sys host config w0) fuel s = (r, t)"
  shows "attended (service_ok config (metrics_enabled w0)) t \<and>
    (\<forall>(token, flow) \<in> set (ur_flows t). uf_backend flow \<in> set (cfg_backends config)) \<and>
    (\<forall>out. svc_output (sw_metrics (ur_world t)) = Some out \<longrightarrow>
       ms_sessionsActive (mo_collector out) = of_nat (length (ur_flows t)) \<and>
       (\<not> ms_counterSaturated (mo_collector out) \<longrightarrow> unat (ms_sessionsCreatedTotal (mo_collector out)) =
          unat (ms_sessionsClosedTotal (mo_collector out)) + length (ur_flows t)))"
proof -
  have "attended (service_ok config (metrics_enabled w0)) t"
    by (rule udp_service.attended_loop[OF sound run])
  then show ?thesis
    by (fastforce simp: attended_def service_ok_def metrics_ok_def gauge_ok_def flow_links_def)
qed

text \<open>
  Claim C11. However the configured service ends, it has settled its accounts: with metrics on, unless
  already their construction threw, the output is final, the gauge is zero, the same number of sessions
  or flows was created and closed unless a counter has reached its maximum, and an error was counted
  if the service threw. The selection is destroyed, and a service that returns returns 0.
\<close>

theorem service_settles_accounts:
  assumes batch: "\<And>timeout v es v'. te_epollWait (tcp (cfg_listen config)) timeout v = (Inr es, v') \<Longrightarrow> length es \<le> 128"
    and order: "\<And>ks. set (te_order (tcp (cfg_listen config)) ks) = set ks" "\<And>ks. set (ue_order (udp (cfg_listen config)) ks) = set ks"
    and fuel: "8192 * fuel < 18446744073709551615"
    and run: "runConfiguredService tcp udp host config fuel (no_service v) = (r, t)"
  shows "(case svc_output (sw_metrics t) of
      None \<Rightarrow> cfg_metrics config = MetricsKind.kOff \<or> isl r
    | Some out \<Rightarrow> cfg_metrics config = kStderr \<and> svc_finalized (sw_metrics t) \<and> mo_finalized out \<and>
        ms_sessionsActive (mo_collector out) = 0 \<and>
        (\<not> ms_counterSaturated (mo_collector out) \<longrightarrow>
           ms_sessionsCreatedTotal (mo_collector out) = ms_sessionsClosedTotal (mo_collector out)) \<and>
        (isl r \<longrightarrow> ms_errorsTotal (mo_collector out) \<noteq> 0)) \<and>
    sw_selection t = None \<and> (\<forall>n. r = Inr n \<longrightarrow> n = 0)"
proof (intro conjI)
  show "sw_selection t = None" using configured_settles[OF batch order fuel run] by simp
  show "\<forall>n. r = Inr n \<longrightarrow> n = 0" using yieldsD[OF service_returns_zero] run by blast
  show "case svc_output (sw_metrics t) of
      None \<Rightarrow> cfg_metrics config = MetricsKind.kOff \<or> isl r
    | Some out \<Rightarrow> cfg_metrics config = kStderr \<and> svc_finalized (sw_metrics t) \<and> mo_finalized out \<and>
        ms_sessionsActive (mo_collector out) = 0 \<and>
        (\<not> ms_counterSaturated (mo_collector out) \<longrightarrow>
           ms_sessionsCreatedTotal (mo_collector out) = ms_sessionsClosedTotal (mo_collector out)) \<and>
        (isl r \<longrightarrow> ms_errorsTotal (mo_collector out) \<noteq> 0)"
    using configured_settles[OF batch order fuel run] MetricsKind.exhaust[of "cfg_metrics config"]
    by (auto simp: settled_def gauge_ok_def word_unat_eq_iff split: option.splits)
qed

section \<open>Witnesses\<close>

text \<open>A host whose clock is a counter, sockets on which nothing happens, and a configuration with metrics.\<close>

definition demo_host :: "nat service_host" where
  "demo_host = \<lparr>sh_health = silent_net, sh_epoll = (\<lambda>w. (None, w)), sh_epollClose = (\<lambda>w. w), sh_clock = (\<lambda>w. (Inr (int w), w + 1)),
     sh_writeMetrics = (\<lambda>line w. (Inr (int (length line)), w)), sh_message = (\<lambda>_. []), sh_stdout = (\<lambda>_ w. w),
     sh_stderr = (\<lambda>_ w. w)\<rparr>"

definition demo_sockets :: "Endpoint \<Rightarrow> nat tcp_env" where
  "demo_sockets listen = tcp_reactor_env (\<lambda>_. quiet_world) (\<lambda>_ w. w) demo_tcp_env noTcpCallbacks defaultTcpOptions"

definition metered_config :: "Protocol \<Rightarrow> Config" where
  "metered_config protocol = checked_config\<lparr>cfg_metrics := kStderr, cfg_protocol := protocol\<rparr>"

lemma demo_sockets_laws:
  "te_epollWait (demo_sockets listen) timeout v = (Inr es, v') \<Longrightarrow> length es \<le> 128"
  "set (te_order (demo_sockets listen) ks) = set ks" "set (ue_order demo_udp_env ks) = set ks"
  by (auto simp: demo_sockets_def tcp_reactor_env_def within_def demo_tcp_env_def demo_udp_env_def)

text \<open>A service that has made its metrics and its selection.\<close>

definition demo_service :: "Protocol \<Rightarrow> nat service_world" where
  "demo_service protocol = snd (thenC (newServiceRuntime demo_host (metered_config protocol))
     (makeSelection demo_host (metered_config protocol)) (no_service 0))"

lemma demo_service_ok:
  "service_ok (metered_config protocol) True (demo_service protocol) []" "metrics_enabled (demo_service protocol)"
proof -
  let ?config = "metered_config protocol"
  obtain r u where new: "newServiceRuntime demo_host ?config (no_service 0) = (r, u)" by fastforce
  have "r = Inr ()"
    using new by (auto simp: newServiceRuntime_def newMetricsService_def newMetricsCollector_def newMetricsOutput_def
      service_metrics_env_def service_env_def demo_host_def metered_config_def checked_config_def sample_config_def
      default_config_def within_def no_service_def)
  with new newServiceRuntime_ok[OF new] have u: "metrics_ok True 0 (sw_metrics u)" by (simp add: metered_config_def)
  obtain x t where made: "makeSelection demo_host ?config u = (x, t)" by fastforce
  have "x = Inr ()"
    using made by (auto simp: makeSelection_def newHealthSelection_def newTcpHealthChecker_def createBackendScheduler_def
      newRoundRobinScheduler_def selection_env_def demo_host_def silent_net_def metered_config_def checked_config_def
      sample_config_def default_config_def split: if_splits)
  moreover have "demo_service protocol = t"
    using new made \<open>r = Inr ()\<close> by (simp add: demo_service_def thenC_run)
  ultimately show "service_ok ?config True (demo_service protocol) []"
    using makeSelection_ok[OF made u] by simp
  then show "metrics_enabled (demo_service protocol)" using metered_iff[OF metrics_ok_of] by fastforce
qed

theorem tcp_service_accounts_witness:
  "let env = tcp_service_env demo_sockets demo_host (metered_config kTcp) (demo_service kTcp);
       t = snd (runTcpEventLoop env 3 (emptyTcpReactor (demo_service kTcp)))
   in tcp_inv env t \<and> served (service_ok (metered_config kTcp) True) t"
proof -
  let ?env = "tcp_service_env demo_sockets demo_host (metered_config kTcp) (demo_service kTcp)"
  let ?s = "emptyTcpReactor (demo_service kTcp)"
  obtain r t where run: "runTcpEventLoop ?env 3 ?s = (r, t)" by fastforce
  have "tcp_inv ?env ?s" "unat (tr_nextSessionId ?s) + 8192 * 3 < 18446744073709551616"
    by (simp_all add: tcp_inv_def emptyTcpReactor_def newEndpointTokens_def tokens_inv_def findEndpoint_def tcp_service_env_simps)
  moreover have "served (service_ok (metered_config kTcp) (metrics_enabled (demo_service kTcp))) ?s"
    using demo_service_ok by (simp add: served_def emptyTcpReactor_def)
  ultimately show ?thesis
    using tcp_service_accounts[OF demo_sockets_laws(1) _ _ _ run] run demo_service_ok(2) by (simp add: Let_def)
qed

theorem udp_service_accounts_witness:
  "attended (service_ok (metered_config kUdp) True)
     (snd (runUdpEventLoop (udp_service_env (\<lambda>_. demo_udp_env) demo_host (metered_config kUdp) (demo_service kUdp)) 3
        (emptyUdpReactor (demo_service kUdp))))"
proof -
  let ?env = "udp_service_env (\<lambda>_. demo_udp_env) demo_host (metered_config kUdp) (demo_service kUdp)"
  obtain r t where run: "runUdpEventLoop ?env 3 (emptyUdpReactor (demo_service kUdp)) = (r, t)" by fastforce
  have "attended (service_ok (metered_config kUdp) (metrics_enabled (demo_service kUdp))) (emptyUdpReactor (demo_service kUdp))"
    using demo_service_ok by (simp add: attended_def emptyUdpReactor_def)
  from udp_service_accounts[OF this run] run demo_service_ok(2) show ?thesis by simp
qed

theorem service_settles_accounts_witness:
  "case runConfiguredService demo_sockets (\<lambda>_. demo_udp_env) demo_host (metered_config kTcp) 3 (no_service 0) of (r, t) \<Rightarrow>
     sw_selection t = None \<and>
     (case svc_output (sw_metrics t) of None \<Rightarrow> isl r | Some out \<Rightarrow> mo_finalized out \<and> ms_sessionsActive (mo_collector out) = 0)"
proof -
  obtain r t where run: "runConfiguredService demo_sockets (\<lambda>_. demo_udp_env) demo_host (metered_config kTcp) 3 (no_service 0) = (r, t)"
    by fastforce
  have "(case svc_output (sw_metrics t) of
      None \<Rightarrow> cfg_metrics (metered_config kTcp) = MetricsKind.kOff \<or> isl r
    | Some out \<Rightarrow> cfg_metrics (metered_config kTcp) = kStderr \<and> svc_finalized (sw_metrics t) \<and> mo_finalized out \<and>
        ms_sessionsActive (mo_collector out) = 0 \<and>
        (\<not> ms_counterSaturated (mo_collector out) \<longrightarrow>
           ms_sessionsCreatedTotal (mo_collector out) = ms_sessionsClosedTotal (mo_collector out)) \<and>
        (isl r \<longrightarrow> ms_errorsTotal (mo_collector out) \<noteq> 0)) \<and>
    sw_selection t = None \<and> (\<forall>n. r = Inr n \<longrightarrow> n = 0)"
    by (rule service_settles_accounts[OF _ _ _ _ run]) (simp_all add: demo_sockets_laws)
  with run show ?thesis by (auto simp: metered_config_def split: option.splits)
qed

end
