(* ===== verification/Cli.thy ===== *)
theory Cli
  imports Services
begin

text \<open>
  The program \<open>l4lb\<close>: \<open>src/cli/main.cpp\<close>, its command line over the configuration file and the configured
  service. The Chinese texts are written out as their UTF-8 bytes; the texts of exceptions, of which the
  model keeps only a part, are a parameter.
\<close>

section \<open>Texts\<close>

definition helpText :: string where
  "helpText = ([CHR 0xE7, CHR 0x94, CHR 0xA8, CHR 0xE6, CHR 0xB3, CHR 0x95, CHR 0xEF, CHR 0xBC, CHR 0x9A] @ ''l4lb
    --help | --check-config <path> | --run <path>'' @ [CHR 0x0A]) @
     (''TCP '' @ [CHR 0xE4, CHR 0xBB, CHR 0xA3, CHR 0xE7, CHR 0x90, CHR 0x86, CHR 0xEF, CHR 0xBC, CHR 0x9A,
       CHR 0xE5, CHR 0x9B, CHR 0xBA, CHR 0xE5, CHR 0xAE, CHR 0x9A, CHR 0xE8, CHR 0xBD, CHR 0xAE, CHR 0xE8, CHR 0xAF,
       CHR 0xA2, CHR 0xEF, CHR 0xBC, CHR 0x8C, CHR 0xE6, CHR 0x97, CHR 0xA0, CHR 0xE5, CHR 0xA4, CHR 0xB1, CHR 0xE8,
       CHR 0xB4, CHR 0xA5, CHR 0xE9, CHR 0x87, CHR 0x8D, CHR 0xE8, CHR 0xAF, CHR 0x95, CHR 0xE3, CHR 0x80, CHR 0x82]
       @ ''UDP '' @ [CHR 0xE6, CHR 0x8C, CHR 0x89] @ '' flow '' @ [CHR 0xE5, CHR 0x9B, CHR 0xBA, CHR 0xE5, CHR 0xAE,
       CHR 0x9A, CHR 0xE5, CHR 0x90, CHR 0x8E, CHR 0xE7, CHR 0xAB, CHR 0xAF, CHR 0xEF, CHR 0xBC, CHR 0x8C, CHR 0xE5,
       CHR 0xB0, CHR 0xBD, CHR 0xE5, CHR 0x8A, CHR 0x9B, CHR 0xE8, CHR 0xBD, CHR 0xAC, CHR 0xE5, CHR 0x8F, CHR 0x91,
       CHR 0xE3, CHR 0x80, CHR 0x82] @ ''TCP/UDP '' @ [CHR 0xE5, CHR 0x9D, CHR 0x87, CHR 0xE5, CHR 0x8F, CHR 0xAF,
       CHR 0xE8, CHR 0xBF, CHR 0x90, CHR 0xE8, CHR 0xA1, CHR 0x8C, CHR 0xE3, CHR 0x80, CHR 0x82, CHR 0xE8, CHR 0xB7,
       CHR 0xAF, CHR 0xE5, CHR 0xBE, CHR 0x84, CHR 0xE7, CHR 0x9B, CHR 0xB8, CHR 0xE5, CHR 0xAF, CHR 0xB9, CHR 0xE4,
       CHR 0xBA, CHR 0x8E, CHR 0xE5, CHR 0xBD, CHR 0x93, CHR 0xE5, CHR 0x89, CHR 0x8D, CHR 0xE5, CHR 0xB7, CHR 0xA5,
       CHR 0xE4, CHR 0xBD, CHR 0x9C, CHR 0xE7, CHR 0x9B, CHR 0xAE, CHR 0xE5, CHR 0xBD, CHR 0x95, CHR 0xE3, CHR 0x80,
       CHR 0x82, CHR 0x0A]) @
     (''health_check '' @ [CHR 0xE9, CHR 0xBB, CHR 0x98, CHR 0xE8, CHR 0xAE, CHR 0xA4] @ '' off'' @ [CHR 0xEF,
       CHR 0xBC, CHR 0x9B] @ ''tcp_connect '' @ [CHR 0xE4, CHR 0xBB, CHR 0x85, CHR 0xE6, CHR 0xA3, CHR 0x80,
       CHR 0xE6, CHR 0x9F, CHR 0xA5] @ '' TCP '' @ [CHR 0xE6, CHR 0x8F, CHR 0xA1, CHR 0xE6, CHR 0x89, CHR 0x8B,
       CHR 0xE3, CHR 0x80, CHR 0x82] @ ''Unknown '' @ [CHR 0xE9, CHR 0xA2, CHR 0x84, CHR 0xE7, CHR 0x83, CHR 0xAD,
       CHR 0xE6, CHR 0x9C, CHR 0x9F, CHR 0xE6, CHR 0x8B, CHR 0x92, CHR 0xE7, CHR 0xBB, CHR 0x9D, CHR 0xE6, CHR 0x96,
       CHR 0xB0, CHR 0xE4, CHR 0xBC, CHR 0x9A, CHR 0xE8, CHR 0xAF, CHR 0x9D] @ ''/flow'' @ [CHR 0xE3, CHR 0x80,
       CHR 0x82, CHR 0x0A]) @
     (''metrics '' @ [CHR 0xE9, CHR 0xBB, CHR 0x98, CHR 0xE8, CHR 0xAE, CHR 0xA4] @ '' off'' @ [CHR 0xEF, CHR 0xBC,
       CHR 0x8C, CHR 0xE5, CHR 0x8F, CHR 0xAF, CHR 0xE9, CHR 0x80, CHR 0x89] @ '' stderr'' @ [CHR 0xEF, CHR 0xBC,
       CHR 0x88, CHR 0xE5, CHR 0x8D, CHR 0x95, CHR 0xE8, CHR 0xA1, CHR 0x8C] @ '' metrics JSON'' @ [CHR 0xEF,
       CHR 0xBC, CHR 0x8C, CHR 0xE7, CHR 0x8B, CHR 0xAC, CHR 0xE7, CHR 0xAB, CHR 0x8B, CHR 0xE4, CHR 0xBA, CHR 0x8E]
       @ '' health_check'' @ [CHR 0xEF, CHR 0xBC, CHR 0x89, CHR 0xEF, CHR 0xBC, CHR 0x9B, CHR 0xE5, CHR 0x90,
       CHR 0x8C, CHR 0xE6, CHR 0xAD, CHR 0xA5] @ '' stderr '' @ [CHR 0xE5, CHR 0x8F, CHR 0xAF, CHR 0xE8, CHR 0x83,
       CHR 0xBD, CHR 0xE9, CHR 0x98, CHR 0xBB, CHR 0xE5, CHR 0xA1, CHR 0x9E, CHR 0xE4, CHR 0xB8, CHR 0x9A, CHR 0xE5,
       CHR 0x8A, CHR 0xA1, CHR 0xE3, CHR 0x80, CHR 0x82, CHR 0x0A]) @
     (''UDP '' @ [CHR 0xE4, CHR 0xBB, CHR 0x85, CHR 0xE5, CHR 0x9C, CHR 0xA8, CHR 0xE5, CHR 0x90, CHR 0xAF,
       CHR 0xE7, CHR 0x94, CHR 0xA8] @ '' health_check=tcp_connect '' @ [CHR 0xE6, CHR 0x97, CHR 0xB6, CHR 0xE9,
       CHR 0x9C, CHR 0x80, CHR 0xE5, CHR 0x9C, CHR 0xA8, CHR 0xE7, CHR 0x9B, CHR 0xB8, CHR 0xE5, CHR 0x90, CHR 0x8C]
       @ '' IP/'' @ [CHR 0xE7, CHR 0xAB, CHR 0xAF, CHR 0xE5, CHR 0x8F, CHR 0xA3, CHR 0xE6, CHR 0x8F, CHR 0x90,
       CHR 0xE4, CHR 0xBE, CHR 0x9B, CHR 0xE4, CHR 0xBB, CHR 0xA3, CHR 0xE8, CHR 0xA1, CHR 0xA8] @ '' UDP '' @
       [CHR 0xE6, CHR 0x9C, CHR 0x8D, CHR 0xE5, CHR 0x8A, CHR 0xA1, CHR 0xE7, CHR 0x9A, CHR 0x84] @ '' TCP '' @
       [CHR 0xE5, CHR 0x81, CHR 0xA5, CHR 0xE5, CHR 0xBA, CHR 0xB7, CHR 0xE7, CHR 0xAB, CHR 0xAF, CHR 0xE7,
       CHR 0x82, CHR 0xB9, CHR 0xEF, CHR 0xBC, CHR 0x9B, CHR 0xE6, CHR 0x97, CHR 0xA2, CHR 0xE6, CHR 0x9C, CHR 0x89]
       @ '' flow '' @ [CHR 0xE4, CHR 0xB8, CHR 0x8D, CHR 0xE8, CHR 0xBF, CHR 0x81, CHR 0xE7, CHR 0xA7, CHR 0xBB,
       CHR 0xE3, CHR 0x80, CHR 0x82, CHR 0x0A]) @
     (''ready '' @ [CHR 0xE4, CHR 0xBB, CHR 0x85, CHR 0xE8, CHR 0xA1, CHR 0xA8, CHR 0xE7, CHR 0xA4, CHR 0xBA,
       CHR 0xE7, CHR 0x9B, CHR 0x91, CHR 0xE5, CHR 0x90, CHR 0xAC, CHR 0xE5, CHR 0xB0, CHR 0xB1, CHR 0xE7, CHR 0xBB,
       CHR 0xAA, CHR 0xEF, CHR 0xBC, CHR 0x8C, CHR 0xE4, CHR 0xB8, CHR 0x8D, CHR 0xE4, CHR 0xBF, CHR 0x9D, CHR 0xE8,
       CHR 0xAF, CHR 0x81, CHR 0xE5, CHR 0x90, CHR 0x8E, CHR 0xE7, CHR 0xAB, CHR 0xAF, CHR 0xE5, CHR 0x8F, CHR 0xAF,
       CHR 0xE8, CHR 0xBE, CHR 0xBE, CHR 0xE6, CHR 0x88, CHR 0x96] @ '' Healthy'' @ [CHR 0xE3, CHR 0x80, CHR 0x82,
       CHR 0x0A]) @
     (''TCP '' @ [CHR 0xE5, CHR 0x81, CHR 0x9C, CHR 0xE6, CHR 0xAD, CHR 0xA2, CHR 0xE4, CHR 0xBB, CHR 0x85,
       CHR 0xE5, CHR 0xB0, CHR 0x9D, CHR 0xE8, CHR 0xAF, CHR 0x95, CHR 0xE5, CHR 0x9C, CHR 0xA8, CHR 0xE5, CHR 0x9B,
       CHR 0xBA, CHR 0xE5, CHR 0xAE, CHR 0x9A] @ '' 1 '' @ [CHR 0xE7, CHR 0xA7, CHR 0x92, CHR 0xE5, CHR 0x86,
       CHR 0x85, CHR 0xE6, CHR 0x8E, CHR 0x92, CHR 0xE7, CHR 0xA9, CHR 0xBA, CHR 0xE7, CHR 0x94, CHR 0xA8, CHR 0xE6,
       CHR 0x88, CHR 0xB7, CHR 0xE6, CHR 0x80, CHR 0x81] @ '' pending'' @ [CHR 0xEF, CHR 0xBC, CHR 0x8C, CHR 0xE4,
       CHR 0xB8, CHR 0x8D, CHR 0xE4, CHR 0xBF, CHR 0x9D, CHR 0xE8, CHR 0xAF, CHR 0x81, CHR 0xE9, CHR 0x80, CHR 0x81,
       CHR 0xE8, CHR 0xBE, CHR 0xBE, CHR 0xEF, CHR 0xBC, CHR 0x9B] @ ''UDP '' @ [CHR 0xE5, CHR 0x81, CHR 0x9C,
       CHR 0xE6, CHR 0xAD, CHR 0xA2, CHR 0xE5, CHR 0x85, CHR 0xB3, CHR 0xE9, CHR 0x97, CHR 0xAD] @ '' flows'' @
       [CHR 0xEF, CHR 0xBC, CHR 0x8C, CHR 0xE4, CHR 0xB8, CHR 0x8D, CHR 0xE4, CHR 0xBF, CHR 0x9D, CHR 0xE8,
       CHR 0xAF, CHR 0x81, CHR 0xE6, CHR 0x8E, CHR 0x92, CHR 0xE7, CHR 0xA9, CHR 0xBA, CHR 0xE3, CHR 0x80, CHR 0x82,
       CHR 0xE5, CHR 0x90, CHR 0x8C, CHR 0xE6, CHR 0xAD, CHR 0xA5, CHR 0xE8, CHR 0xBE, CHR 0x93, CHR 0xE5, CHR 0x87,
       CHR 0xBA, CHR 0xE9, CHR 0x98, CHR 0xBB, CHR 0xE5, CHR 0xA1, CHR 0x9E, CHR 0xE6, CHR 0x97, CHR 0xB6, CHR 0xE4,
       CHR 0xB8, CHR 0x8D, CHR 0xE4, CHR 0xBF, CHR 0x9D, CHR 0xE8, CHR 0xAF, CHR 0x81, CHR 0xE8, CHR 0xBF, CHR 0x9B,
       CHR 0xE7, CHR 0xA8, CHR 0x8B, CHR 0xE6, CHR 0x8C, CHR 0x89, CHR 0xE6, CHR 0x97, CHR 0xB6, CHR 0xE9, CHR 0x80,
       CHR 0x80, CHR 0xE5, CHR 0x87, CHR 0xBA, CHR 0xE3, CHR 0x80, CHR 0x82, CHR 0x0A])"

definition usageText :: string where
  "usageText = [CHR 0xE7, CHR 0x94, CHR 0xA8, CHR 0xE6, CHR 0xB3, CHR 0x95, CHR 0xE9, CHR 0x94, CHR 0x99, CHR 0xE8,
    CHR 0xAF, CHR 0xAF, CHR 0xEF, CHR 0xBC, CHR 0x9A, CHR 0xE8, CHR 0xAF, CHR 0xB7, CHR 0xE4, CHR 0xBD, CHR 0xBF,
    CHR 0xE7, CHR 0x94, CHR 0xA8] @ '' l4lb --help '' @ [CHR 0xE6, CHR 0x9F, CHR 0xA5, CHR 0xE7, CHR 0x9C, CHR 0x8B,
    CHR 0xE5, CHR 0xB8, CHR 0xAE, CHR 0xE5, CHR 0x8A, CHR 0xA9, CHR 0x0A]"

definition configMessageText :: "(errno \<Rightarrow> string) \<Rightarrow> config_message \<Rightarrow> string" where
  "configMessageText strerror message = (case message of
     MsgTextTooLarge \<Rightarrow> [CHR 0xE9, CHR 0x85, CHR 0x8D, CHR 0xE7, CHR 0xBD, CHR 0xAE, CHR 0xE8, CHR 0xB6,
       CHR 0x85, CHR 0xE8, CHR 0xBF, CHR 0x87] @ '' 65536 '' @ [CHR 0xE5, CHR 0xAD, CHR 0x97, CHR 0xE8, CHR 0x8A,
       CHR 0x82]
   | MsgForbiddenByte \<Rightarrow> [CHR 0xE4, CHR 0xB8, CHR 0x8D, CHR 0xE5, CHR 0x85, CHR 0x81, CHR 0xE8, CHR 0xAE,
     CHR 0xB8] @ '' NUL'' @ [CHR 0xE3, CHR 0x80, CHR 0x81] @ ''BOM '' @ [CHR 0xE6, CHR 0x88, CHR 0x96, CHR 0xE5,
     CHR 0xAD, CHR 0xA4, CHR 0xE7, CHR 0xAB, CHR 0x8B] @ '' CR''
   | MsgExactlyOneEquals \<Rightarrow> [CHR 0xE6, CHR 0xAF, CHR 0x8F, CHR 0xE4, CHR 0xB8, CHR 0xAA, CHR 0xE5,
     CHR 0xAD, CHR 0x97, CHR 0xE6, CHR 0xAE, CHR 0xB5, CHR 0xE5, CHR 0xBF, CHR 0x85, CHR 0xE9, CHR 0xA1, CHR 0xBB,
     CHR 0xE6, CHR 0x81, CHR 0xB0, CHR 0xE6, CHR 0x9C, CHR 0x89, CHR 0xE4, CHR 0xB8, CHR 0x80, CHR 0xE4, CHR 0xB8,
     CHR 0xAA, CHR 0xE7, CHR 0xAD, CHR 0x89, CHR 0xE5, CHR 0x8F, CHR 0xB7]
   | MsgEmptyKeyOrValue \<Rightarrow> [CHR 0xE9, CHR 0x94, CHR 0xAE, CHR 0xE5, CHR 0x92, CHR 0x8C, CHR 0xE5,
     CHR 0x80, CHR 0xBC, CHR 0xE4, CHR 0xB8, CHR 0x8D, CHR 0xE8, CHR 0x83, CHR 0xBD, CHR 0xE4, CHR 0xB8, CHR 0xBA,
     CHR 0xE7, CHR 0xA9, CHR 0xBA]
   | MsgDuplicateKey key \<Rightarrow> key @ '' '' @ [CHR 0xE4, CHR 0xB8, CHR 0x8D, CHR 0xE8, CHR 0x83, CHR 0xBD,
     CHR 0xE9, CHR 0x87, CHR 0x8D, CHR 0xE5, CHR 0xA4, CHR 0x8D]
   | MsgUnsupportedValue key \<Rightarrow> key @ '' '' @ [CHR 0xE4, CHR 0xBB, CHR 0x85, CHR 0xE6, CHR 0x94,
     CHR 0xAF, CHR 0xE6, CHR 0x8C, CHR 0x81] @ '' '' @
       (if key = ''protocol'' then ''tcp/udp'' else if key = ''metrics'' then ''off/stderr''
        else if key = ''health_check'' then ''off/tcp_connect'' else ''round_robin'')
   | MsgUnknownKey \<Rightarrow> [CHR 0xE6, CHR 0x9C, CHR 0xAA, CHR 0xE7, CHR 0x9F, CHR 0xA5, CHR 0xE9, CHR 0x85,
     CHR 0x8D, CHR 0xE7, CHR 0xBD, CHR 0xAE, CHR 0xE9, CHR 0x94, CHR 0xAE]
   | MsgInvalidEndpoint \<Rightarrow> [CHR 0xE6, CHR 0x97, CHR 0xA0, CHR 0xE6, CHR 0x95, CHR 0x88, CHR 0xE7,
     CHR 0x9A, CHR 0x84] @ '' IPv4 '' @ [CHR 0xE5, CHR 0x9C, CHR 0xB0, CHR 0xE5, CHR 0x9D, CHR 0x80, CHR 0xE6,
     CHR 0x88, CHR 0x96, CHR 0xE7, CHR 0xAB, CHR 0xAF, CHR 0xE5, CHR 0x8F, CHR 0xA3]
   | MsgTooManyBackends \<Rightarrow> ''backend '' @ [CHR 0xE6, CHR 0x9C, CHR 0x80, CHR 0xE5, CHR 0xA4, CHR 0x9A] @
     '' 256 '' @ [CHR 0xE4, CHR 0xB8, CHR 0xAA]
   | MsgDuplicateBackend \<Rightarrow> ''backend '' @ [CHR 0xE7, CHR 0xAB, CHR 0xAF, CHR 0xE7, CHR 0x82, CHR 0xB9,
     CHR 0xE4, CHR 0xB8, CHR 0x8D, CHR 0xE8, CHR 0x83, CHR 0xBD, CHR 0xE9, CHR 0x87, CHR 0x8D, CHR 0xE5, CHR 0xA4,
     CHR 0x8D]
   | MsgListenAndBackendRequired \<Rightarrow> [CHR 0xE5, CHR 0xBF, CHR 0x85, CHR 0xE9, CHR 0xA1, CHR 0xBB,
     CHR 0xE5, CHR 0x8C, CHR 0x85, CHR 0xE5, CHR 0x90, CHR 0xAB, CHR 0xE4, CHR 0xB8, CHR 0x80, CHR 0xE4, CHR 0xB8,
     CHR 0xAA] @ '' listen '' @ [CHR 0xE5, CHR 0x92, CHR 0x8C, CHR 0xE8, CHR 0x87, CHR 0xB3, CHR 0xE5, CHR 0xB0,
     CHR 0x91, CHR 0xE4, CHR 0xB8, CHR 0x80, CHR 0xE4, CHR 0xB8, CHR 0xAA] @ '' backend''
   | MsgFile path reason \<Rightarrow> [CHR 0xE6, CHR 0x96, CHR 0x87, CHR 0xE4, CHR 0xBB, CHR 0xB6] @ '' '' @ path @
     [CHR 0xEF, CHR 0xBC, CHR 0x9A] @
       (case reason of Errno e \<Rightarrow> strerror e
        | NotRegularFile \<Rightarrow> [CHR 0xE5, CHR 0xBF, CHR 0x85, CHR 0xE9, CHR 0xA1, CHR 0xBB, CHR 0xE4,
          CHR 0xB8, CHR 0xBA, CHR 0xE6, CHR 0x99, CHR 0xAE, CHR 0xE9, CHR 0x80, CHR 0x9A, CHR 0xE6, CHR 0x96,
          CHR 0x87, CHR 0xE4, CHR 0xBB, CHR 0xB6]
        | FileTooLarge \<Rightarrow> [CHR 0xE9, CHR 0x85, CHR 0x8D, CHR 0xE7, CHR 0xBD, CHR 0xAE, CHR 0xE8,
          CHR 0xB6, CHR 0x85, CHR 0xE8, CHR 0xBF, CHR 0x87] @ '' 65536 '' @ [CHR 0xE5, CHR 0xAD, CHR 0x97, CHR 0xE8,
          CHR 0x8A, CHR 0x82]))"

definition configErrorLine :: "(errno \<Rightarrow> string) \<Rightarrow> ConfigError \<Rightarrow> string" where
  "configErrorLine strerror error = [CHR 0xE9, CHR 0x85, CHR 0x8D, CHR 0xE7, CHR 0xBD, CHR 0xAE, CHR 0xE9, CHR 0x94,
    CHR 0x99, CHR 0xE8, CHR 0xAF, CHR 0xAF, CHR 0xEF, CHR 0xBC, CHR 0x9A] @
     (if err_eof error then ''EOF'' @ [CHR 0xEF, CHR 0xBC, CHR 0x88, CHR 0xE7, CHR 0xAC, CHR 0xAC] @ '' '' @
       dec_string (err_line error) @ '' '' @ [CHR 0xE8, CHR 0xA1, CHR 0x8C, CHR 0xEF, CHR 0xBC, CHR 0x89, CHR 0xEF,
       CHR 0xBC, CHR 0x9A]
      else if err_line error \<noteq> 0 then [CHR 0xE7, CHR 0xAC, CHR 0xAC] @ '' '' @ dec_string (err_line error) @
        '' '' @ [CHR 0xE8, CHR 0xA1, CHR 0x8C, CHR 0xEF, CHR 0xBC, CHR 0x9A] else []) @
     configMessageText strerror (err_message error) @ [CHR 0x0A]"

definition configValidLine :: "Config \<Rightarrow> string" where
  "configValidLine config = [CHR 0xE9, CHR 0x85, CHR 0x8D, CHR 0xE7, CHR 0xBD, CHR 0xAE, CHR 0xE6, CHR 0x9C,
    CHR 0x89, CHR 0xE6, CHR 0x95, CHR 0x88, CHR 0xEF, CHR 0xBC, CHR 0x9A] @ (if cfg_protocol config = kTcp then
    ''TCP'' else ''UDP'') @
     [CHR 0xEF, CHR 0xBC, CHR 0x8C, CHR 0xE5, CHR 0x90, CHR 0x8E, CHR 0xE7, CHR 0xAB, CHR 0xAF, CHR 0xE6, CHR 0x95,
       CHR 0xB0, CHR 0xE9, CHR 0x87, CHR 0x8F] @ ''='' @ dec_string (length (cfg_backends config)) @ [CHR 0x0A]"

section \<open>The program\<close>

record 'v cli_env =
  cl_files :: "'v config_file_ops"
  cl_tcp :: "Endpoint \<Rightarrow> 'v tcp_env"
  cl_udp :: "Endpoint \<Rightarrow> 'v udp_env"
  cl_host :: "'v service_host"
  cl_what :: "exn \<Rightarrow> string"

text \<open>
  What \<open>catch (const std::exception&)\<close> catches: not the reactor's own \<open>SessionFailure\<close>, nothing a callback
  threw of another type, and no run that has not ended.
\<close>

definition std_exception :: "exn \<Rightarrow> bool" where
  "std_exception e \<longleftrightarrow> (case e of SessionFailure _ _ \<Rightarrow> False | ForeignException _ \<Rightarrow> False | OutOfFuel \<Rightarrow> False | _ \<Rightarrow> True)"

text \<open>\<open>args\<close> is the command line without the program's name.\<close>

definition usage_ok :: "string list \<Rightarrow> bool" where
  "usage_ok args \<longleftrightarrow> (case args of
     [command, path] \<Rightarrow> (command = ''--check-config'' \<or> command = ''--run'') \<and> path \<noteq> [] \<and> take 2 path \<noteq> ''--''
   | _ \<Rightarrow> False)"

definition readConfig :: "'v cli_env \<Rightarrow> string \<Rightarrow> ('v service_world, ConfigResult) comp" where
  "readConfig env path w = (case loadConfig (cl_files env) path (sw_world w) of (result, v) \<Rightarrow> (Inr result, put_world v w))"

definition runService :: "'v cli_env \<Rightarrow> nat \<Rightarrow> Config \<Rightarrow> ('v service_world, int) comp" where
  "runService env fuel config = catchC (runConfiguredService (cl_tcp env) (cl_udp env) (cl_host env) config fuel)
     (\<lambda>e. if std_exception e
          then thenC (printed (sh_stderr (cl_host env)) ([CHR 0xE6, CHR 0x9C, CHR 0x8D, CHR 0xE5, CHR 0x8A,
            CHR 0xA1, CHR 0xE9, CHR 0x94, CHR 0x99, CHR 0xE8, CHR 0xAF, CHR 0xAF, CHR 0xEF, CHR 0xBC, CHR 0x9A] @
            cl_what env e @ [CHR 0x0A])) (returnC 1)
          else throwC e)"

definition cliMain :: "'v cli_env \<Rightarrow> nat \<Rightarrow> string list \<Rightarrow> ('v service_world, int) comp" where
  "cliMain env fuel args =
     (if args = [''--help''] then thenC (printed (sh_stdout (cl_host env)) helpText) (returnC 0)
      else if \<not> usage_ok args then thenC (printed (sh_stderr (cl_host env)) usageText) (returnC 2)
      else bindC (readConfig env (args ! 1)) (\<lambda>result. case result of
          Inl error \<Rightarrow> thenC (printed (sh_stderr (cl_host env)) (configErrorLine (sh_message (cl_host env)) error)) (returnC 1)
        | Inr config \<Rightarrow>
            if args ! 0 = ''--run'' then runService env fuel config
            else thenC (printed (sh_stdout (cl_host env)) (configValidLine config)) (returnC 0)))"

section \<open>Properties\<close>

lemma runService_ends:
  assumes "runService env fuel config w = (r, t)"
  shows "case r of
      Inl e \<Rightarrow> \<not> std_exception e
    | Inr code \<Rightarrow> code = (if isl (fst (runConfiguredService (cl_tcp env) (cl_udp env) (cl_host env) config fuel w)) then 1 else 0)"
proof -
  obtain x u where run: "runConfiguredService (cl_tcp env) (cl_udp env) (cl_host env) config fuel w = (x, u)" by fastforce
  show ?thesis
  proof (cases x)
    case (Inl e)
    with assms run show ?thesis by (auto simp: runService_def catchC_def printed_def comp_defs split: if_splits)
  next
    case (Inr n)
    with run have "n = 0" using yieldsD[OF service_returns_zero] by blast
    with assms run Inr show ?thesis by (auto simp: runService_def catchC_def)
  qed
qed

text \<open>
  Claim C25. The program ends with code 2 exactly on a wrong command line. On any other it ends with 1
  if the configuration is rejected or its service ended in an exception, and with 0 otherwise: after help,
  after a check and after a service that stopped. Only what is not a \<open>std::exception\<close> leaves \<open>main\<close>,
  and only from a service that was started.
\<close>

theorem cli_exit_codes:
  assumes load: "loadConfig (cl_files env) (args ! 1) (sw_world w) = (result, v)"
    and run: "cliMain env fuel args w = (r, t)"
  shows "case r of
      Inl e \<Rightarrow> \<not> std_exception e \<and> usage_ok args \<and> args ! 0 = ''--run'' \<and> \<not> isl result
    | Inr code \<Rightarrow>
        (code = 2 \<longleftrightarrow> args \<noteq> [''--help''] \<and> \<not> usage_ok args) \<and>
        (code = 1 \<longleftrightarrow> usage_ok args \<and> (case result of
             Inl _ \<Rightarrow> True
           | Inr config \<Rightarrow> args ! 0 = ''--run'' \<and>
               isl (fst (runConfiguredService (cl_tcp env) (cl_udp env) (cl_host env) config fuel (put_world v w))))) \<and>
        code \<in> {0, 1, 2}"
proof -
  have no_help: "\<not> usage_ok [''--help'']" by (simp add: usage_ok_def)
  show ?thesis
  proof (cases "usage_ok args")
    case False
    with run show ?thesis by (auto simp: cliMain_def printed_def comp_defs split: if_splits)
  next
    case ok: True
    then have args: "args \<noteq> [''--help'']" using no_help by metis
    show ?thesis
    proof (cases result)
      case (Inl error)
      with run load ok args show ?thesis by (auto simp: cliMain_def readConfig_def printed_def comp_defs)
    next
      case (Inr config)
      show ?thesis
      proof (cases "args ! 0 = ''--run''")
        case True
        with run load ok args Inr have "runService env fuel config (put_world v w) = (r, t)"
          by (simp add: cliMain_def readConfig_def bindC_def)
        from runService_ends[OF this] ok args Inr True show ?thesis by (cases r) auto
      next
        case False
        with run load ok args Inr show ?thesis by (auto simp: cliMain_def readConfig_def printed_def comp_defs)
      qed
    qed
  qed
qed

text \<open>Files that do not exist.\<close>

definition no_files :: "nat config_file_ops" where
  "no_files = \<lparr>cf_open = (\<lambda>_ w. (Inl 2, w)), cf_isreg = (\<lambda>_ w. (Inr True, w)), cf_read = (\<lambda>_ _ w. (Inr [], w)),
     cf_close = (\<lambda>_ w. w)\<rparr>"

definition demo_cli :: "nat cli_env" where
  "demo_cli = \<lparr>cl_files = no_files, cl_tcp = demo_sockets, cl_udp = (\<lambda>_. demo_udp_env), cl_host = demo_host, cl_what = (\<lambda>_. [])\<rparr>"

theorem cli_exit_codes_witness:
  "\<exists>t. cliMain demo_cli 3 [''--run'', ''a.conf''] (no_service 0) = (Inr 1, t)"
proof -
  let ?args = "[''--run'', ''a.conf'']"
  obtain r t where run: "cliMain demo_cli 3 ?args (no_service 0) = (r, t)" by fastforce
  obtain result v where load: "loadConfig (cl_files demo_cli) (?args ! 1) (sw_world (no_service 0)) = (result, v)" by fastforce
  then have "isl result" by (auto simp: demo_cli_def no_files_def loadConfig_def)
  moreover have "usage_ok ?args" by (simp add: usage_ok_def)
  ultimately have "r = Inr 1" using cli_exit_codes[OF load run] by (cases r; cases result) auto
  with run show ?thesis by blast
qed

end
