(* ===== verification/MetricsBounds.thy ===== *)
theory MetricsBounds
  imports Metrics
begin

text \<open>
  The size of a metrics line (\<open>src/metrics/Metrics.cpp\<close>): the limit of 32768 bytes that
  \<open>formatMetricsSnapshot\<close> checks is above what any snapshot of at most 256 backends needs.
\<close>

lemma dec_string_length: "n < 10 ^ k \<Longrightarrow> k \<noteq> 0 \<Longrightarrow> length (dec_string n) \<le> k"
proof (induction n arbitrary: k rule: dec_string.induct)
  case (1 n)
  show ?case
  proof (cases "n < 10")
    case True
    with 1 show ?thesis by (subst dec_string.simps) simp
  next
    case False
    with 1 obtain j where k: "k = Suc j" "j \<noteq> 0" by (cases k; cases "k - 1") auto
    with 1(2) have "n div 10 < 10 ^ j" by (simp add: less_mult_imp_div_less mult.commute)
    from 1(1)[OF False this k(2)] k False show ?thesis by (subst dec_string.simps) simp
  qed
qed

lemma dec_u64_length: "length (dec_string (unat (x :: u64))) \<le> 20"
proof (rule dec_string_length)
  have "unat x < 2 ^ 64" using unsigned_less[of x] by simp
  then show "unat x < 10 ^ 20" by simp
qed simp

lemma backend_entries_length: "i + length bs \<le> 1000 \<Longrightarrow> length (backend_entries i bs) \<le> 53 * length bs"
proof (induction bs arbitrary: i)
  case (Cons b bs)
  have "length (dec_string i) \<le> 3" by (rule dec_string_length) (use Cons.prems in auto)
  moreover have "length (backendHealthName (bh_health b)) \<le> 9"
    by (cases "bh_health b") (simp_all add: backendHealthName_def)
  moreover have "length (backend_entries (Suc i) bs) \<le> 53 * length bs" by (rule Cons.IH) (use Cons.prems in simp)
  ultimately show ?case by (cases "i = 0") auto
qed simp

lemma counters_length:
  "length (foldl (\<lambda>line (key, value). appendCounterField line key value) line al) \<le>
     length line + (\<Sum>(key, value) \<leftarrow> al. length key + 24)"
proof (induction al arbitrary: line)
  case (Cons f fs)
  obtain key x where f: "f = (key, x)" by fastforce
  have "length (appendCounterField line key x) \<le> length line + (length key + 24)"
    using dec_u64_length[of x] by (simp add: appendCounterField_def)
  with Cons.IH[of "appendCounterField line key x"] show ?case by (simp add: f)
qed simp

text \<open>
  Claim C28. A line of metrics always fits: a snapshot of at most 256 backends in one of the four
  phases is formatted, and its line is shorter than half the limit, so the limit is never what fails.
\<close>

theorem metrics_line_fits:
  assumes "ms_backendCount d \<le> 256" and "phase \<in> {''ready'', ''periodic'', ''final'', ''error''}"
  shows "formatMetricsSnapshot d phase = Inr (snapshot_line d phase) \<and> length (snapshot_line d phase) < 16384"
proof -
  let ?backends = "take (ms_backendCount d) (ms_backends d)"
  have head: "length (snapshot_head d phase) \<le> 120"
    using assms(2) dec_u64_length[of "ms_seq d"] dec_u64_length[of "ms_uptimeMs d"] by (auto simp: snapshot_head_def)
  have "length (foldl (\<lambda>line (key, value). appendCounterField line key value) (snapshot_head d phase) (counter_fields d))
      \<le> length (snapshot_head d phase) + 464"
    using counters_length[of "snapshot_head d phase" "counter_fields d"] by (simp add: counter_fields_def)
  moreover have "length ?backends \<le> 256" using assms(1) by simp
  then have "length (backend_entries 0 ?backends) \<le> 53 * 256" using backend_entries_length[of 0 ?backends] by linarith
  ultimately have "length (snapshot_line d phase) < 16384" using head by (simp add: snapshot_line_def)
  with assms show ?thesis by (auto simp: formatMetricsSnapshot_def)
qed

theorem metrics_line_fits_witness:
  "let d = (projr (newMetricsCollector kTcp 256)) in
   formatMetricsSnapshot d ''ready'' = Inr (snapshot_line d ''ready'') \<and> length (snapshot_line d ''ready'') < 16384"
  using metrics_line_fits[of "projr (newMetricsCollector kTcp 256)" "''ready''"]
  by (simp add: newMetricsCollector_def)

end
