(* ===== verification/XdpDsr.thy ===== *)
theory XdpDsr
  imports L4_Prelude
begin

unbundle bit_operations_syntax

text \<open>
  The XDP programs: \<open>src/xdp/xdp_pass.bpf.c\<close>, \<open>src/xdp/xdp_maps.bpf.c\<close>,
  \<open>src/xdp/xdp_udp_dsr.bpf.c\<close> and \<open>src/xdp/xdp_udp_runtime.bpf.c\<close> with the map values of
  \<open>src/xdp/MapSchema.h\<close>, \<open>src/xdp/UdpDsrSchema.h\<close> and \<open>src/xdp/UdpRuntimeSchema.h\<close>. A packet is
  the byte list from \<open>data\<close> to \<open>data_end\<close>; a load or store beyond it throws \<open>OutOfRange\<close>,
  which stands for the memory fault the kernel verifier must exclude.
\<close>

section \<open>Map values\<close>

type_synonym mac = "u8 \<times> u8 \<times> u8 \<times> u8 \<times> u8 \<times> u8"

record UdpDsrConfigValue =
  dc_schemaVersion :: u32
  dc_backendCount :: u32
  dc_vipAddress :: u32
  dc_vipPort :: u16
  dc_reserved :: u16

record UdpDsrBackendValue =
  db_ifindex :: u32
  db_destinationMac :: mac
  db_sourceMac :: mac

record UdpDsrStatsValue =
  ds_totalPackets :: u64
  ds_passPackets :: u64
  ds_redirectRequests :: u64
  ds_dropPackets :: u64
  ds_unsupportedPackets :: u64
  ds_noBackendPackets :: u64
  ds_invalidConfigPackets :: u64
  ds_helperErrorPackets :: u64

record UdpRuntimeSnapshot =
  rs_schemaVersion :: u32
  rs_backendCount :: u32
  rs_generation :: u64
  rs_vipAddress :: u32
  rs_vipPort :: u16
  rs_reserved :: u16
  rs_backends :: "UdpDsrBackendValue list"

definition L4LB_DSR_MAX_BACKENDS :: u32 where
  "L4LB_DSR_MAX_BACKENDS = 64"

datatype xdp_action = XDP_DROP | XDP_PASS | XDP_REDIRECT

text \<open>An array map: the value at an index, or the null pointer.\<close>

definition array_lookup :: "'a list \<Rightarrow> u32 \<Rightarrow> 'a option" where
  "array_lookup values key = (if unat key < length values then Some (values ! unat key) else None)"

section \<open>Packet access\<close>

record xdp_state =
  px_data :: "u8 list"
  px_stats :: UdpDsrStatsValue

definition load8 :: "nat \<Rightarrow> (xdp_state, u8) comp" where
  "load8 i s = (if i < length (px_data s) then (Inr (px_data s ! i), s) else (Inl OutOfRange, s))"

definition store8 :: "nat \<Rightarrow> u8 \<Rightarrow> (xdp_state, unit) comp" where
  "store8 i b s = (if i < length (px_data s) then (Inr (), s\<lparr>px_data := (px_data s)[i := b]\<rparr>)
     else (Inl OutOfRange, s))"

text \<open>Two bytes in network order, as \<open>((__u32)data[i] << 8) | data[i + 1]\<close>.\<close>

definition load16be :: "nat \<Rightarrow> (xdp_state, u32) comp" where
  "load16be i = bindC (load8 i) (\<lambda>h. bindC (load8 (i + 1)) (\<lambda>l.
     returnC (push_bit 8 (ucast h) OR ucast l)))"

text \<open>\<open>__builtin_memcpy\<close> into a native (little-endian) integer.\<close>

definition le16 :: "u8 \<Rightarrow> u8 \<Rightarrow> u16" where
  "le16 a b = ucast a OR push_bit 8 (ucast b)"

definition le32 :: "u8 \<Rightarrow> u8 \<Rightarrow> u8 \<Rightarrow> u8 \<Rightarrow> u32" where
  "le32 a b c d = ucast a OR push_bit 8 (ucast b) OR push_bit 16 (ucast c) OR push_bit 24 (ucast d)"

definition memcpy16 :: "nat \<Rightarrow> (xdp_state, u16) comp" where
  "memcpy16 i = bindC (load8 i) (\<lambda>a. bindC (load8 (i + 1)) (\<lambda>b. returnC (le16 a b)))"

definition memcpy32 :: "nat \<Rightarrow> (xdp_state, u32) comp" where
  "memcpy32 i = bindC (load8 i) (\<lambda>a. bindC (load8 (i + 1)) (\<lambda>b.
     bindC (load8 (i + 2)) (\<lambda>c. bindC (load8 (i + 3)) (\<lambda>d. returnC (le32 a b c d)))))"

definition mac_bytes :: "mac \<Rightarrow> u8 list" where
  "mac_bytes m = (case m of (a, b, c, d, e, f) \<Rightarrow> [a, b, c, d, e, f])"

definition store_mac :: "nat \<Rightarrow> mac \<Rightarrow> (xdp_state, unit) comp" where
  "store_mac i m = forC (zip [i..<i + 6] (mac_bytes m)) (\<lambda>(j, b). store8 j b)"

definition validMac :: "mac \<Rightarrow> bool" where
  "validMac m = (case m of (a, b, c, d, e, f) \<Rightarrow>
     a AND 1 = 0 \<and> a OR b OR c OR d OR e OR f \<noteq> 0)"

section \<open>Header checks and the flow hash\<close>

fun checksum_loop :: "nat list \<Rightarrow> u32 \<Rightarrow> (xdp_state, u32) comp" where
  "checksum_loop [] checksum = returnC checksum"
| "checksum_loop (i # is) checksum = bindC (load16be i) (\<lambda>w. checksum_loop is (checksum + w))"

definition fold_checksum :: "u32 \<Rightarrow> u32" where
  "fold_checksum checksum = (checksum AND 0xffff) + drop_bit 16 checksum"

text \<open>
  The checks before any map is read: fixed headers, plain IPv4 UDP without options or
  fragments, consistent lengths, a correct header checksum. False is \<open>goto unsupported\<close>.
\<close>

definition check_headers :: "(xdp_state, bool) comp" where
  "check_headers =
     bindC (getC (\<lambda>s. length (px_data s))) (\<lambda>end.
     if end < 42 then returnC False else
     bindC (load8 12) (\<lambda>d12. bindC (load8 13) (\<lambda>d13. bindC (load8 14) (\<lambda>d14.
     bindC (load8 23) (\<lambda>d23. bindC (load8 20) (\<lambda>d20. bindC (load8 21) (\<lambda>d21.
     if d12 \<noteq> 8 \<or> d13 \<noteq> 0 \<or> d14 \<noteq> 0x45 \<or> d23 \<noteq> 17 \<or> d20 AND 0xbf \<noteq> 0 \<or> d21 \<noteq> 0 then returnC False else
     bindC (load16be 16) (\<lambda>ipLength. bindC (load16be 38) (\<lambda>udpLength.
     if ipLength < 28 \<or> 1500 < ipLength \<or> end < 14 + unat ipLength \<or> udpLength \<noteq> ipLength - 20
     then returnC False else
     bindC (checksum_loop [14, 16, 18, 20, 22, 24, 26, 28, 30, 32] 0) (\<lambda>checksum.
     returnC (fold_checksum (fold_checksum checksum) = 0xffff)))))))))))"

fun hash_loop :: "nat list \<Rightarrow> u32 \<Rightarrow> (xdp_state, u32) comp" where
  "hash_loop [] hash = returnC hash"
| "hash_loop (i # is) hash = bindC (load8 i) (\<lambda>b. hash_loop is ((hash XOR ucast b) * 16777619))"

text \<open>FNV-1a over both addresses and both ports, then the protocol number.\<close>

definition flow_hash :: "(xdp_state, u32) comp" where
  "flow_hash = bindC (hash_loop [26..<38] 2166136261) (\<lambda>hash. returnC ((hash XOR 17) * 16777619))"

section \<open>Statistics and exits\<close>

definition bump :: "((u64 \<Rightarrow> u64) \<Rightarrow> UdpDsrStatsValue \<Rightarrow> UdpDsrStatsValue) \<Rightarrow> (xdp_state, unit) comp" where
  "bump upd = modifyC (\<lambda>s. s\<lparr>px_stats := upd (\<lambda>n. n + 1) (px_stats s)\<rparr>)"

definition goto_pass :: "(xdp_state, xdp_action) comp" where
  "goto_pass = thenC (bump ds_passPackets_update) (returnC XDP_PASS)"

definition goto_unsupported :: "(xdp_state, xdp_action) comp" where
  "goto_unsupported = thenC (bump ds_unsupportedPackets_update) goto_pass"

definition goto_invalidConfig :: "(xdp_state, xdp_action) comp" where
  "goto_invalidConfig = thenC (bump ds_invalidConfigPackets_update) goto_pass"

text \<open>The tail both programs share: check the backend, ask for the redirect, rewrite the MACs.\<close>

definition redirect_to ::
  "(u32 \<Rightarrow> xdp_action) \<Rightarrow> UdpDsrBackendValue option \<Rightarrow> (xdp_state, xdp_action) comp" where
  "redirect_to redirectPacket backend =
     (case backend of
        None \<Rightarrow> goto_invalidConfig
      | Some b \<Rightarrow>
          if db_ifindex b = 0 \<or> \<not> validMac (db_destinationMac b) \<or> \<not> validMac (db_sourceMac b)
          then goto_invalidConfig
          else if redirectPacket (db_ifindex b) \<noteq> XDP_REDIRECT
          then thenC (bump ds_helperErrorPackets_update)
              (thenC (bump ds_dropPackets_update) (returnC XDP_DROP))
          else thenC (store_mac 0 (db_destinationMac b))
              (thenC (store_mac 6 (db_sourceMac b))
              (thenC (bump ds_redirectRequests_update) (returnC XDP_REDIRECT))))"

section \<open>The programs\<close>

text \<open>\<open>statsPresent\<close> is whether the per-CPU statistics lookup returned a value.\<close>

definition xdp_udp_dsr ::
  "bool \<Rightarrow> UdpDsrConfigValue option \<Rightarrow> UdpDsrBackendValue list \<Rightarrow> (u32 \<Rightarrow> xdp_action) \<Rightarrow>
   (xdp_state, xdp_action) comp" where
  "xdp_udp_dsr statsPresent cfg backends redirectPacket =
     (if \<not> statsPresent then returnC XDP_PASS else
      thenC (bump ds_totalPackets_update)
     (bindC check_headers (\<lambda>supported.
      if \<not> supported then goto_unsupported else
      case cfg of
        None \<Rightarrow> goto_invalidConfig
      | Some config \<Rightarrow>
          if dc_schemaVersion config \<noteq> 2 \<or> 64 < dc_backendCount config \<or> dc_reserved config \<noteq> 0
          then goto_invalidConfig else
          bindC (memcpy32 30) (\<lambda>address. bindC (memcpy16 36) (\<lambda>port.
          if address \<noteq> dc_vipAddress config \<or> port \<noteq> dc_vipPort config then goto_unsupported else
          let count = dc_backendCount config in
          if count = 0 then thenC (bump ds_noBackendPackets_update) goto_pass else
          bindC flow_hash (\<lambda>hash.
          redirect_to redirectPacket (array_lookup backends (hash mod count))))))))"

text \<open>\<open>active\<close> is the snapshot behind the outer map's only slot, if both lookups succeed.\<close>

definition xdp_udp_rt ::
  "bool \<Rightarrow> UdpRuntimeSnapshot option \<Rightarrow> (u32 \<Rightarrow> xdp_action) \<Rightarrow> (xdp_state, xdp_action) comp" where
  "xdp_udp_rt statsPresent active redirectPacket =
     (if \<not> statsPresent then returnC XDP_PASS else
      thenC (bump ds_totalPackets_update)
     (bindC check_headers (\<lambda>supported.
      if \<not> supported then goto_unsupported else
      case active of
        None \<Rightarrow> goto_invalidConfig
      | Some config \<Rightarrow>
          if rs_schemaVersion config \<noteq> 3 \<or> 64 < rs_backendCount config \<or> rs_reserved config \<noteq> 0 \<or>
             rs_generation config = 0
          then goto_invalidConfig else
          bindC (memcpy32 30) (\<lambda>address. bindC (memcpy16 36) (\<lambda>port.
          if address \<noteq> rs_vipAddress config \<or> port \<noteq> rs_vipPort config then goto_unsupported else
          let count = rs_backendCount config in
          if count = 0
          then thenC (bump ds_noBackendPackets_update)
              (thenC (bump ds_dropPackets_update) (returnC XDP_DROP)) else
          bindC flow_hash (\<lambda>hash.
          let key = (hash mod count) AND (L4LB_DSR_MAX_BACKENDS - 1)
          in redirect_to redirectPacket (array_lookup (rs_backends config) key)))))))"

definition xdp_pass :: "u8 list \<Rightarrow> xdp_action" where
  "xdp_pass ctx = XDP_PASS"

text \<open>\<open>xdp_maps_pass\<close> only counts; \<open>passPackets\<close> is the statistics value, if present.\<close>

definition xdp_maps_pass :: "u8 list \<Rightarrow> u64 option \<Rightarrow> xdp_action \<times> u64 option" where
  "xdp_maps_pass ctx passPackets = (XDP_PASS, map_option (\<lambda>n. n + 1) passPackets)"

section \<open>What the loads and loops compute\<close>

definition be16 :: "u8 list \<Rightarrow> nat \<Rightarrow> nat" where
  "be16 p i = 256 * unat (p ! i) + unat (p ! (i + 1))"

lemma unat_be: "unat (push_bit 8 (ucast (h :: u8)) OR ucast (l :: u8) :: u32) = 256 * unat h + unat l"
proof -
  have "push_bit 8 (ucast h) OR ucast l = (push_bit 8 (ucast h) + ucast l :: u32)"
  proof (rule disjunctive_add_eq_or[symmetric], rule bit_word_eqI)
    fix n
    assume "n < LENGTH(32)"
    have "\<not> (8 \<le> n \<and> bit l n)" by (auto dest: bit_imp_le_length)
    then show "bit (push_bit 8 (ucast h) AND ucast l :: u32) n = bit (0 :: u32) n"
      by (auto simp: bit_simps)
  qed
  moreover have "unat (push_bit 8 (ucast h) :: u32) = 256 * unat h"
    using unat_u8_less[of h] by (simp add: push_bit_eq_mult unat_word_ariths unat_ucast_less)
  moreover have "unat (ucast l :: u32) = unat l"
    using unat_u8_less[of l] by (simp add: unsigned_ucast_eq take_bit_nat_eq_self)
  ultimately show ?thesis
    using unat_u8_less[of h] unat_u8_less[of l] by (simp add: unat_word_ariths)
qed

lemma load8_run: "i < length (px_data s) \<Longrightarrow> load8 i s = (Inr (px_data s ! i), s)"
  by (simp add: load8_def)

lemma load16be_run:
  "i + 1 < length (px_data s) \<Longrightarrow>
   \<exists>w. load16be i s = (Inr w, s) \<and> unat w = be16 (px_data s) i"
  by (simp add: load16be_def bindC_def load8_def returnC_def unat_be be16_def)

lemma be16_less: "be16 p i < 65536"
  using unat_u8_less[of "p ! i"] unat_u8_less[of "p ! (i + 1)"] by (simp add: be16_def)

lemma checksum_loop_run:
  assumes "\<forall>i \<in> set is. i + 1 < length (px_data s)" and "unat c + 65536 * length is < 2 ^ 32"
  shows "\<exists>w. checksum_loop is c s = (Inr w, s) \<and> unat w = unat c + (\<Sum>i \<leftarrow> is. be16 (px_data s) i)"
  using assms
proof (induction "is" arbitrary: c)
  case Nil
  then show ?case by simp
next
  case (Cons i "is")
  from load16be_run[of i s] Cons.prems obtain w where
    w: "load16be i s = (Inr w, s)" "unat w = be16 (px_data s) i" by auto
  have "unat (c + w) = unat c + be16 (px_data s) i"
    using w(2) be16_less[of "px_data s" i] Cons.prems(2) by (simp add: unat_word_ariths)
  with Cons.IH[of "c + w"] Cons.prems w be16_less[of "px_data s" i] show ?case
    by (simp add: bindC_run add.assoc)
qed

lemma unat_fold_checksum:
  assumes "unat c < 2 ^ 20"
  shows "unat (fold_checksum c) = unat c mod 65536 + unat c div 65536"
proof -
  have "unat (c AND 0xffff) = unat c mod 65536"
  proof -
    have "c AND 0xffff = c mod 65536"
      using take_bit_eq_mask[of 16 c] by (simp add: mask_eq_exp_minus_1 take_bit_eq_mod)
    then show ?thesis by (simp add: unat_mod_distrib)
  qed
  moreover have "unat (drop_bit 16 c) = unat c div 65536"
    by (simp add: drop_bit_eq_div unat_div_distrib)
  ultimately show ?thesis
    using assms by (simp add: fold_checksum_def unat_word_ariths)
qed

lemma ones_complement_zero:
  assumes "m \<le> 65545"
  shows "m mod 65536 + m div 65536 = 65535 \<longleftrightarrow> m mod 65535 = 0 \<and> m \<noteq> (0 :: nat)"
proof -
  consider "m < 65535" | "m = 65535" | "65536 \<le> m" by linarith
  then show ?thesis
  proof cases
    case 3
    then obtain k where k: "m = 65536 + k" "k \<le> 9" using assms le_Suc_ex by fastforce
    have "(65536 + k) mod 65536 = k" "(65536 + k) div 65536 = 1" "(65536 + k) mod 65535 = Suc k"
      using k(2) by (simp_all add: le_mod_geq le_div_geq)
    with k show ?thesis by simp
  qed auto
qed

lemma fold_mod: "(n mod 65536 + n div 65536) mod 65535 = n mod (65535 :: nat)"
proof -
  have "n = n mod 65536 + 65536 * (n div 65536)" by simp
  then have "n = (n mod 65536 + n div 65536) + 65535 * (n div 65536)" by simp
  then show ?thesis by (metis mod_mult_self2)
qed

text \<open>Two folds finish the one's complement sum of ten 16-bit words.\<close>

lemma fold_twice:
  assumes "unat c \<le> 655350"
  shows "fold_checksum (fold_checksum c) = 0xffff \<longleftrightarrow> unat c mod 65535 = 0 \<and> unat c \<noteq> 0"
proof -
  have f: "unat (fold_checksum c) = unat c mod 65536 + unat c div 65536"
    using assms by (intro unat_fold_checksum) simp
  have "unat c mod 65536 < 65536" "unat c div 65536 \<le> 655350 div 65536"
    using assms by (simp, intro div_le_mono)
  then have le: "unat (fold_checksum c) \<le> 65545" using f by linarith
  have zero: "unat (fold_checksum c) = 0 \<longleftrightarrow> unat c = 0"
    unfolding f by (metis add_is_0 add.commute div_0 mod_0 mod_div_trivial mod_mult_div_eq mult_0_right)
  from le have "unat (fold_checksum (fold_checksum c)) =
      unat (fold_checksum c) mod 65536 + unat (fold_checksum c) div 65536"
    by (intro unat_fold_checksum) simp
  then have "fold_checksum (fold_checksum c) = 0xffff \<longleftrightarrow>
      unat (fold_checksum c) mod 65536 + unat (fold_checksum c) div 65536 = 65535"
    by (subst word_unat_eq_iff) simp
  also have "\<dots> \<longleftrightarrow> unat c mod 65535 = 0 \<and> unat c \<noteq> 0"
    unfolding ones_complement_zero[OF le] zero by (simp only: f fold_mod)
  finally show ?thesis .
qed

lemma hash_loop_run:
  "\<forall>i \<in> set is. i < length (px_data s) \<Longrightarrow>
   hash_loop is h s = (Inr (foldl (\<lambda>h b. (h XOR ucast b) * 16777619) h (map ((!) (px_data s)) is)), s)"
  by (induction "is" arbitrary: h) (simp_all add: bindC_def load8_def returnC_def)

section \<open>The specification\<close>

text \<open>
  A supported frame in terms of numbers: Ethernet type IPv4, a 20-byte header, UDP, neither
  fragmented nor with a reserved flag, lengths that fit each other and the frame, and a header
  whose ten words add up to zero in one's complement.
\<close>

definition supported_frame :: "u8 list \<Rightarrow> bool" where
  "supported_frame p \<longleftrightarrow> 42 \<le> length p \<and>
     p ! 12 = 8 \<and> p ! 13 = 0 \<and> p ! 14 = 0x45 \<and> p ! 23 = 17 \<and> p ! 20 AND 0xbf = 0 \<and> p ! 21 = 0 \<and>
     28 \<le> be16 p 16 \<and> be16 p 16 \<le> 1500 \<and> 14 + be16 p 16 \<le> length p \<and>
     be16 p 38 = be16 p 16 - 20 \<and>
     (\<Sum>i \<leftarrow> [14, 16, 18, 20, 22, 24, 26, 28, 30, 32]. be16 p i) mod 65535 = 0"

definition frame_hash :: "u8 list \<Rightarrow> u32" where
  "frame_hash p =
     (foldl (\<lambda>h b. (h XOR ucast b) * 16777619) 2166136261 (map ((!) p) [26..<38]) XOR 17) * 16777619"

definition to_vip :: "u8 list \<Rightarrow> u32 \<Rightarrow> u16 \<Rightarrow> bool" where
  "to_vip p address port \<longleftrightarrow>
     le32 (p ! 30) (p ! 31) (p ! 32) (p ! 33) = address \<and> le16 (p ! 36) (p ! 37) = port"

datatype dsr_outcome = Unsupported | InvalidConfig | NoBackend | HelperError | Redirected mac mac

definition backend_outcome :: "(u32 \<Rightarrow> xdp_action) \<Rightarrow> UdpDsrBackendValue option \<Rightarrow> dsr_outcome" where
  "backend_outcome redirectPacket backend = (case backend of
     None \<Rightarrow> InvalidConfig
   | Some b \<Rightarrow> if db_ifindex b = 0 \<or> \<not> validMac (db_destinationMac b) \<or> \<not> validMac (db_sourceMac b)
       then InvalidConfig
       else if redirectPacket (db_ifindex b) = XDP_REDIRECT
       then Redirected (db_destinationMac b) (db_sourceMac b) else HelperError)"

definition dsr_outcome_of ::
  "UdpDsrConfigValue option \<Rightarrow> UdpDsrBackendValue list \<Rightarrow> (u32 \<Rightarrow> xdp_action) \<Rightarrow> u8 list \<Rightarrow> dsr_outcome" where
  "dsr_outcome_of cfg backends redirectPacket p =
     (if \<not> supported_frame p then Unsupported else case cfg of
        None \<Rightarrow> InvalidConfig
      | Some c \<Rightarrow>
          if dc_schemaVersion c \<noteq> 2 \<or> 64 < dc_backendCount c \<or> dc_reserved c \<noteq> 0 then InvalidConfig
          else if \<not> to_vip p (dc_vipAddress c) (dc_vipPort c) then Unsupported
          else if dc_backendCount c = 0 then NoBackend
          else backend_outcome redirectPacket (array_lookup backends (frame_hash p mod dc_backendCount c)))"

definition rt_outcome_of ::
  "UdpRuntimeSnapshot option \<Rightarrow> (u32 \<Rightarrow> xdp_action) \<Rightarrow> u8 list \<Rightarrow> dsr_outcome" where
  "rt_outcome_of active redirectPacket p =
     (if \<not> supported_frame p then Unsupported else case active of
        None \<Rightarrow> InvalidConfig
      | Some c \<Rightarrow>
          if rs_schemaVersion c \<noteq> 3 \<or> 64 < rs_backendCount c \<or> rs_reserved c \<noteq> 0 \<or> rs_generation c = 0
          then InvalidConfig
          else if \<not> to_vip p (rs_vipAddress c) (rs_vipPort c) then Unsupported
          else if rs_backendCount c = 0 then NoBackend
          else backend_outcome redirectPacket
                 (array_lookup (rs_backends c) (frame_hash p mod rs_backendCount c)))"

text \<open>The verdict and the packet an outcome stands for; the runtime drops without backends.\<close>

definition outcome_action :: "bool \<Rightarrow> dsr_outcome \<Rightarrow> xdp_action" where
  "outcome_action runtime r = (case r of
     Redirected d m \<Rightarrow> XDP_REDIRECT | HelperError \<Rightarrow> XDP_DROP
   | NoBackend \<Rightarrow> (if runtime then XDP_DROP else XDP_PASS) | _ \<Rightarrow> XDP_PASS)"

definition outcome_data :: "dsr_outcome \<Rightarrow> u8 list \<Rightarrow> u8 list" where
  "outcome_data r p = (case r of
     Redirected d m \<Rightarrow> mac_bytes d @ mac_bytes m @ drop 12 p | _ \<Rightarrow> p)"

definition outcome_stats :: "bool \<Rightarrow> dsr_outcome \<Rightarrow> UdpDsrStatsValue \<Rightarrow> UdpDsrStatsValue" where
  "outcome_stats runtime r st = (let st = st\<lparr>ds_totalPackets := ds_totalPackets st + 1\<rparr> in case r of
     Unsupported \<Rightarrow> st\<lparr>ds_unsupportedPackets := ds_unsupportedPackets st + 1,
                      ds_passPackets := ds_passPackets st + 1\<rparr>
   | InvalidConfig \<Rightarrow> st\<lparr>ds_invalidConfigPackets := ds_invalidConfigPackets st + 1,
                      ds_passPackets := ds_passPackets st + 1\<rparr>
   | NoBackend \<Rightarrow> if runtime
       then st\<lparr>ds_noBackendPackets := ds_noBackendPackets st + 1, ds_dropPackets := ds_dropPackets st + 1\<rparr>
       else st\<lparr>ds_noBackendPackets := ds_noBackendPackets st + 1, ds_passPackets := ds_passPackets st + 1\<rparr>
   | HelperError \<Rightarrow> st\<lparr>ds_helperErrorPackets := ds_helperErrorPackets st + 1,
                      ds_dropPackets := ds_dropPackets st + 1\<rparr>
   | Redirected d m \<Rightarrow> st\<lparr>ds_redirectRequests := ds_redirectRequests st + 1\<rparr>)"

definition outcome_state :: "bool \<Rightarrow> dsr_outcome \<Rightarrow> xdp_state \<Rightarrow> xdp_state" where
  "outcome_state runtime r s =
     \<lparr>px_data = outcome_data r (px_data s), px_stats = outcome_stats runtime r (px_stats s)\<rparr>"

section \<open>The programs meet the specification\<close>

lemma check_headers_run: "check_headers s = (Inr (supported_frame (px_data s)), s)"
proof (cases "length (px_data s) < 42")
  case True
  then show ?thesis by (simp add: check_headers_def run_simps supported_frame_def)
next
  case False
  let ?p = "px_data s" and ?is = "[14, 16, 18, 20, 22, 24, 26, 28, 30, 32] :: nat list"
  obtain ip where ip: "load16be 16 s = (Inr ip, s)" "unat ip = be16 ?p 16"
    using load16be_run[of 16 s] False by auto
  obtain udp where udp: "load16be 38 s = (Inr udp, s)" "unat udp = be16 ?p 38"
    using load16be_run[of 38 s] False by auto
  obtain sum where sum: "checksum_loop ?is 0 s = (Inr sum, s)" "unat sum = (\<Sum>i \<leftarrow> ?is. be16 ?p i)"
    using checksum_loop_run[of ?is s 0] False by auto
  have "unat sum \<le> 655350"
    using sum(2) be16_less[of ?p 14] be16_less[of ?p 16] be16_less[of ?p 18] be16_less[of ?p 20]
      be16_less[of ?p 22] be16_less[of ?p 24] be16_less[of ?p 26] be16_less[of ?p 28]
      be16_less[of ?p 30] be16_less[of ?p 32] by simp
  note check = fold_twice[OF this]
  have nz: "unat sum \<noteq> 0" if "?p ! 14 = 0x45"
    using sum(2) that by (simp add: be16_def)
  have len: "(ip < 28) = (be16 ?p 16 < 28)" "(1500 < ip) = (1500 < be16 ?p 16)"
    by (simp_all add: word_less_nat_alt ip)
  have ul: "(udp = ip - 20) = (be16 ?p 38 = be16 ?p 16 - 20)" if "28 \<le> be16 ?p 16"
    using that ip(2) by (simp add: word_unat_eq_iff udp(2) unat_sub word_le_nat_alt)
  show ?thesis
    using False nz ul
    by (auto simp: check_headers_def run_simps bindC_run[OF load8_run] bindC_run[of "load16be 16", OF ip(1)]
        bindC_run[of "load16be 38", OF udp(1)] bindC_run[of "checksum_loop ?is 0", OF sum(1)]
        supported_frame_def check len ip(2) returnC_def not_less sum(2)
        simp del: checksum_loop.simps bindC_Inr_iff)
qed

lemma hash_run:
  "38 \<le> length (px_data s) \<Longrightarrow> flow_hash s = (Inr (frame_hash (px_data s)), s)"
  by (simp add: flow_hash_def frame_hash_def bindC_run[OF hash_loop_run] returnC_def
      del: upt_rec_numeral hash_loop.simps)

lemma memcpy_run:
  assumes "42 \<le> length (px_data s)"
  shows "memcpy32 30 s = (Inr (le32 (px_data s ! 30) (px_data s ! 31) (px_data s ! 32) (px_data s ! 33)), s)"
    and "memcpy16 36 s = (Inr (le16 (px_data s ! 36) (px_data s ! 37)), s)"
  using assms by (simp_all add: memcpy32_def memcpy16_def bindC_run[OF load8_run] returnC_def)

lemma store_mac_run:
  assumes "i + 6 \<le> length (px_data s)"
  shows "store_mac i m s = (Inr (), s\<lparr>px_data := take i (px_data s) @ mac_bytes m @ drop (i + 6) (px_data s)\<rparr>)"
proof -
  obtain a b c d e f where m: "m = (a, b, c, d, e, f)" by (cases m)
  let ?p = "px_data s"
  have idx: "[i..<i + 6] = [i, i + 1, i + 2, i + 3, i + 4, i + 5]"
    by (simp add: upt_rec)
  have "?p[i := a, i + 1 := b, i + 2 := c, i + 3 := d, i + 4 := e, i + 5 := f] =
      take i ?p @ [a, b, c, d, e, f] @ drop (i + 6) ?p" (is "?l = ?r")
  proof (rule nth_equalityI)
    fix j
    assume "j < length ?l"
    then have j: "j < length ?p" by simp
    consider "j < i" | "i + 6 \<le> j" | "j = i" | "j = i + 1" | "j = i + 2" | "j = i + 3" | "j = i + 4" | "j = i + 5"
      by linarith
    then show "?l ! j = ?r ! j"
      using assms j by cases (auto simp: nth_append nth_list_update_if nth_Cons' min_def)
  qed (use assms in simp)
  then show ?thesis
    using assms by (simp add: store_mac_def m mac_bytes_def idx store8_def comp_defs)
qed

lemma redirect_to_run:
  assumes "12 \<le> length (px_data s)"
  shows "redirect_to redirectPacket backend (s\<lparr>px_stats := (px_stats s)\<lparr>ds_totalPackets := ds_totalPackets (px_stats s) + 1\<rparr>\<rparr>) =
    (Inr (outcome_action rt (backend_outcome redirectPacket backend)),
     outcome_state rt (backend_outcome redirectPacket backend) s)"
proof (cases backend)
  case None
  then show ?thesis
    by (simp add: redirect_to_def backend_outcome_def goto_invalidConfig_def goto_pass_def bump_def run_simps
        returnC_def outcome_action_def outcome_state_def outcome_data_def outcome_stats_def Let_def)
next
  case (Some b)
  let ?bad = "db_ifindex b = 0 \<or> \<not> validMac (db_destinationMac b) \<or> \<not> validMac (db_sourceMac b)"
  consider "?bad" | "\<not> ?bad" "redirectPacket (db_ifindex b) \<noteq> XDP_REDIRECT"
    | "\<not> ?bad" "redirectPacket (db_ifindex b) = XDP_REDIRECT" by blast
  then show ?thesis
  proof cases
    case 3
    have "length (mac_bytes m) = 6" for m by (cases m) (simp add: mac_bytes_def)
    with 3 Some assms show ?thesis
      by (simp add: redirect_to_def backend_outcome_def thenC_run[OF store_mac_run] bump_def run_simps
          returnC_def outcome_action_def outcome_state_def outcome_data_def outcome_stats_def Let_def)
  qed (use Some in \<open>auto simp: redirect_to_def backend_outcome_def goto_invalidConfig_def goto_pass_def
        bump_def run_simps returnC_def outcome_action_def outcome_state_def outcome_data_def
        outcome_stats_def Let_def\<close>)
qed

lemma total_run:
  "thenC (bump ds_totalPackets_update) k s =
   k (s\<lparr>px_stats := (px_stats s)\<lparr>ds_totalPackets := ds_totalPackets (px_stats s) + 1\<rparr>\<rparr>)"
  by (cases "px_stats s") (simp add: bump_def run_simps)

lemma goto_run:
  fixes s :: xdp_state
  defines "u \<equiv> s\<lparr>px_stats := (px_stats s)\<lparr>ds_totalPackets := ds_totalPackets (px_stats s) + 1\<rparr>\<rparr>"
  shows "goto_unsupported u = (Inr (outcome_action rt Unsupported), outcome_state rt Unsupported s)"
    and "goto_invalidConfig u = (Inr (outcome_action rt InvalidConfig), outcome_state rt InvalidConfig s)"
    and "thenC (bump ds_noBackendPackets_update) goto_pass u =
      (Inr (outcome_action False NoBackend), outcome_state False NoBackend s)"
    and "thenC (bump ds_noBackendPackets_update) (thenC (bump ds_dropPackets_update) (returnC XDP_DROP)) u =
      (Inr (outcome_action True NoBackend), outcome_state True NoBackend s)"
  by (simp_all add: u_def goto_unsupported_def goto_invalidConfig_def goto_pass_def bump_def run_simps
      returnC_def outcome_action_def outcome_state_def outcome_data_def outcome_stats_def Let_def)

lemma xdp_udp_dsr_run:
  "xdp_udp_dsr True cfg backends redirectPacket s =
   (let r = dsr_outcome_of cfg backends redirectPacket (px_data s)
    in (Inr (outcome_action False r), outcome_state False r s))"
proof (cases "supported_frame (px_data s)")
  case False
  then show ?thesis
    by (simp add: xdp_udp_dsr_def total_run bindC_run[OF check_headers_run] goto_run dsr_outcome_of_def Let_def)
next
  case True
  then have len: "42 \<le> length (px_data s)" by (simp add: supported_frame_def)
  let ?u = "s\<lparr>px_stats := (px_stats s)\<lparr>ds_totalPackets := ds_totalPackets (px_stats s) + 1\<rparr>\<rparr>"
  from len have u: "42 \<le> length (px_data ?u)" by simp
  note runs = bindC_run[OF check_headers_run] bindC_run[of "memcpy32 30", OF memcpy_run(1)[OF u]]
    bindC_run[of "memcpy16 36", OF memcpy_run(2)[OF u]]
    bindC_run[of flow_hash, OF hash_run[of ?u]]
  show ?thesis
    using True len
    by (cases cfg)
       (simp_all add: xdp_udp_dsr_def total_run runs goto_run redirect_to_run[where rt = False]
          dsr_outcome_of_def to_vip_def Let_def)
qed

lemma key_mask:
  assumes "count \<noteq> 0" and "count \<le> (64 :: u32)"
  shows "(hash mod count) AND (L4LB_DSR_MAX_BACKENDS - 1) = hash mod count"
proof -
  have "hash mod count < count"
    using assms(1) by (simp add: word_less_nat_alt unat_mod_distrib unat_gt_0)
  with assms(2) have "hash mod count < 64" by simp
  then have "take_bit 6 (hash mod count) = hash mod count"
    by (simp add: word_unat_eq_iff word_less_nat_alt unsigned_take_bit_eq take_bit_nat_eq_self
        del: take_bit_numeral_numeral)
  moreover have "L4LB_DSR_MAX_BACKENDS - 1 = mask 6"
    by (simp add: L4LB_DSR_MAX_BACKENDS_def mask_eq_exp_minus_1)
  ultimately show ?thesis by (simp add: take_bit_eq_mask)
qed

lemma xdp_udp_rt_run:
  "xdp_udp_rt True active redirectPacket s =
   (let r = rt_outcome_of active redirectPacket (px_data s)
    in (Inr (outcome_action True r), outcome_state True r s))"
proof (cases "supported_frame (px_data s)")
  case False
  then show ?thesis
    by (simp add: xdp_udp_rt_def total_run bindC_run[OF check_headers_run] goto_run rt_outcome_of_def Let_def)
next
  case True
  then have len: "42 \<le> length (px_data s)" by (simp add: supported_frame_def)
  let ?u = "s\<lparr>px_stats := (px_stats s)\<lparr>ds_totalPackets := ds_totalPackets (px_stats s) + 1\<rparr>\<rparr>"
  from len have u: "42 \<le> length (px_data ?u)" by simp
  note runs = bindC_run[OF check_headers_run] bindC_run[of "memcpy32 30", OF memcpy_run(1)[OF u]]
    bindC_run[of "memcpy16 36", OF memcpy_run(2)[OF u]]
    bindC_run[of flow_hash, OF hash_run[of ?u]]
  show ?thesis
    using True len
    by (cases active)
       (simp_all add: xdp_udp_rt_def total_run runs goto_run redirect_to_run[where rt = True]
          rt_outcome_of_def to_vip_def key_mask not_less Let_def, auto dest: leD)
qed

section \<open>Properties\<close>

text \<open>A frame from 10.0.0.9:1234 to 10.0.0.1:53 with a correct header checksum, and two backends.\<close>

definition sample_frame :: "u8 list" where
  "sample_frame = [2, 0, 0, 0, 0, 1, 2, 0, 0, 0, 0, 2, 8, 0, 69, 0, 0, 28, 0, 0, 64, 0, 64, 17, 38, 200, 10, 0, 0, 9, 10, 0, 0, 1, 4, 210, 0, 53, 0, 8, 0, 0]"

definition sample_backends :: "UdpDsrBackendValue list" where
  "sample_backends =
     [\<lparr>db_ifindex = 3, db_destinationMac = (2, 0, 0, 0, 1, 1), db_sourceMac = (2, 0, 0, 0, 1, 9)\<rparr>,
      \<lparr>db_ifindex = 4, db_destinationMac = (2, 0, 0, 0, 1, 2), db_sourceMac = (2, 0, 0, 0, 1, 9)\<rparr>]"

definition sample_dsr_config :: UdpDsrConfigValue where
  "sample_dsr_config = \<lparr>dc_schemaVersion = 2, dc_backendCount = 2, dc_vipAddress = 16777226,
     dc_vipPort = 13568, dc_reserved = 0\<rparr>"

definition zero_stats :: UdpDsrStatsValue where
  "zero_stats = \<lparr>ds_totalPackets = 0, ds_passPackets = 0, ds_redirectRequests = 0, ds_dropPackets = 0,
     ds_unsupportedPackets = 0, ds_noBackendPackets = 0, ds_invalidConfigPackets = 0,
     ds_helperErrorPackets = 0\<rparr>"

lemma sample_frame_supported: "supported_frame sample_frame"
  by (simp add: supported_frame_def sample_frame_def be16_def)

lemma sample_outcome:
  "dsr_outcome_of (Some sample_dsr_config) sample_backends (\<lambda>_. XDP_REDIRECT) sample_frame =
   Redirected (2, 0, 0, 0, 1, 2) (2, 0, 0, 0, 1, 9)"
  unfolding dsr_outcome_of_def using sample_frame_supported
  by (simp add: sample_dsr_config_def sample_backends_def array_lookup_def backend_outcome_def
      to_vip_def le32_def le16_def frame_hash_def sample_frame_def validMac_def)

lemma dsr_redirected:
  assumes "xdp_udp_dsr True (Some c) backends redirectPacket s = (Inr XDP_REDIRECT, s')"
  defines "i \<equiv> unat (frame_hash (px_data s)) mod unat (dc_backendCount c)"
  shows "i < unat (dc_backendCount c) \<and> i < length backends \<and> 42 \<le> length (px_data s) \<and>
    redirectPacket (db_ifindex (backends ! i)) = XDP_REDIRECT \<and>
    px_data s' = mac_bytes (db_destinationMac (backends ! i)) @ mac_bytes (db_sourceMac (backends ! i)) @
      drop 12 (px_data s)"
proof -
  let ?r = "dsr_outcome_of (Some c) backends redirectPacket (px_data s)"
  from assms(1) have r: "outcome_action False ?r = XDP_REDIRECT" and s': "s' = outcome_state False ?r s"
    by (auto simp: xdp_udp_dsr_run Let_def)
  from r obtain d m where dm: "?r = Redirected d m"
    by (cases ?r) (auto simp: outcome_action_def)
  then have len: "42 \<le> length (px_data s)" and c: "dc_backendCount c \<noteq> 0"
    and b: "backend_outcome redirectPacket (array_lookup backends (frame_hash (px_data s) mod dc_backendCount c)) =
      Redirected d m"
    by (auto simp: dsr_outcome_of_def supported_frame_def split: if_splits)
  have key: "unat (frame_hash (px_data s) mod dc_backendCount c) = i"
    by (simp add: i_def unat_mod_distrib)
  from b have "i < length backends \<and> redirectPacket (db_ifindex (backends ! i)) = XDP_REDIRECT \<and>
      d = db_destinationMac (backends ! i) \<and> m = db_sourceMac (backends ! i)"
    by (auto simp: backend_outcome_def array_lookup_def key split: if_splits)
  moreover have "i < unat (dc_backendCount c)" using c by (simp add: i_def unat_gt_0)
  ultimately show ?thesis using len s' dm by (simp add: outcome_state_def outcome_data_def)
qed

text \<open>
  Claim C1. The static DSR program never reads or writes outside the packet, ends on every
  packet and does exactly what the specification over numbers says: verdict, bytes and counters.
\<close>

theorem xdp_udp_dsr_meets_spec:
  "xdp_udp_dsr True cfg backends redirectPacket s =
   (let r = dsr_outcome_of cfg backends redirectPacket (px_data s)
    in (Inr (outcome_action False r), outcome_state False r s))"
  by (rule xdp_udp_dsr_run)

text \<open>
  Claim C2. The runtime DSR program likewise meets its specification; in particular the extra
  mask on the backend index never changes it.
\<close>

theorem xdp_udp_rt_meets_spec:
  "xdp_udp_rt True active redirectPacket s =
   (let r = rt_outcome_of active redirectPacket (px_data s)
    in (Inr (outcome_action True r), outcome_state True r s))"
  by (rule xdp_udp_rt_run)

text \<open>
  Claim C4. Flow affinity and direct server return: when two packets agree on addresses and
  ports and both are redirected under one configuration, they go to the same backend, and of
  each packet only the two MAC addresses are replaced.
\<close>

theorem dsr_flow_affinity:
  assumes "xdp_udp_dsr True (Some c) backends redirectPacket s = (Inr XDP_REDIRECT, s')"
    and "xdp_udp_dsr True (Some c) backends redirectPacket t = (Inr XDP_REDIRECT, t')"
    and "\<forall>i \<in> {26..<38}. px_data s ! i = px_data t ! i"
  shows "take 12 (px_data s') = take 12 (px_data t') \<and>
    length (px_data s') = length (px_data s) \<and> drop 12 (px_data s') = drop 12 (px_data s) \<and>
    (\<exists>i < unat (dc_backendCount c). i < length backends \<and>
       take 12 (px_data s') =
         mac_bytes (db_destinationMac (backends ! i)) @ mac_bytes (db_sourceMac (backends ! i)))"
proof -
  have len: "length (mac_bytes m) = 6" for m by (cases m) (simp add: mac_bytes_def)
  have "map ((!) (px_data s)) [26..<38] = map ((!) (px_data t)) [26..<38]"
    using assms(3) by (intro map_cong) auto
  then have hash: "frame_hash (px_data s) = frame_hash (px_data t)" by (simp only: frame_hash_def)
  note s = dsr_redirected[OF assms(1)] and t = dsr_redirected[OF assms(2)]
  from s t hash have "take 12 (px_data s') = take 12 (px_data t')" by (simp add: len)
  moreover from s have "length (px_data s') = length (px_data s)" "drop 12 (px_data s') = drop 12 (px_data s)"
    by (simp_all add: len)
  moreover have "\<exists>i < unat (dc_backendCount c). i < length backends \<and>
       take 12 (px_data s') =
         mac_bytes (db_destinationMac (backends ! i)) @ mac_bytes (db_sourceMac (backends ! i))"
    using s by (intro exI[of _ "unat (frame_hash (px_data s)) mod unat (dc_backendCount c)"])
      (simp add: len)
  ultimately show ?thesis by blast
qed

theorem dsr_flow_affinity_witness:
  "\<exists>s'. xdp_udp_dsr True (Some sample_dsr_config) sample_backends (\<lambda>_. XDP_REDIRECT)
      \<lparr>px_data = sample_frame, px_stats = zero_stats\<rparr> = (Inr XDP_REDIRECT, s') \<and>
     drop 12 (px_data s') = drop 12 sample_frame"
proof -
  let ?s = "\<lparr>px_data = sample_frame, px_stats = zero_stats\<rparr>"
  have run: "xdp_udp_dsr True (Some sample_dsr_config) sample_backends (\<lambda>_. XDP_REDIRECT) ?s =
      (Inr XDP_REDIRECT, outcome_state False (Redirected (2, 0, 0, 0, 1, 2) (2, 0, 0, 0, 1, 9)) ?s)"
    by (simp add: xdp_udp_dsr_run sample_outcome Let_def outcome_action_def)
  from dsr_flow_affinity[OF run run] run show ?thesis by auto
qed

text \<open>Counters add up: every counted packet was passed, redirected or dropped, for a stated reason.\<close>

definition accounted :: "bool \<Rightarrow> UdpDsrStatsValue \<Rightarrow> bool" where
  "accounted runtime st \<longleftrightarrow>
     ds_totalPackets st = ds_passPackets st + ds_redirectRequests st + ds_dropPackets st \<and>
     ds_passPackets st = ds_unsupportedPackets st + ds_invalidConfigPackets st +
       (if runtime then 0 else ds_noBackendPackets st) \<and>
     ds_dropPackets st = ds_helperErrorPackets st + (if runtime then ds_noBackendPackets st else 0)"

lemma accounted_step: "accounted runtime st \<Longrightarrow> accounted runtime (outcome_stats runtime r st)"
  by (cases r) (auto simp: accounted_def outcome_stats_def Let_def)

text \<open>The statistics after a sequence of packets, each with the maps it met.\<close>

fun rt_stats_after ::
  "(UdpRuntimeSnapshot option \<times> (u32 \<Rightarrow> xdp_action) \<times> u8 list) list \<Rightarrow> UdpDsrStatsValue \<Rightarrow> UdpDsrStatsValue" where
  "rt_stats_after [] st = st"
| "rt_stats_after ((active, redirectPacket, p) # ps) st =
     rt_stats_after ps (px_stats (snd (xdp_udp_rt True active redirectPacket \<lparr>px_data = p, px_stats = st\<rparr>)))"

fun dsr_stats_after ::
  "(UdpDsrConfigValue option \<times> UdpDsrBackendValue list \<times> (u32 \<Rightarrow> xdp_action) \<times> u8 list) list \<Rightarrow>
   UdpDsrStatsValue \<Rightarrow> UdpDsrStatsValue" where
  "dsr_stats_after [] st = st"
| "dsr_stats_after ((cfg, backends, redirectPacket, p) # ps) st =
     dsr_stats_after ps
       (px_stats (snd (xdp_udp_dsr True cfg backends redirectPacket \<lparr>px_data = p, px_stats = st\<rparr>)))"

lemma dsr_accounted: "accounted False st \<Longrightarrow> accounted False (dsr_stats_after ps st)"
  by (induction ps st rule: dsr_stats_after.induct)
     (simp_all add: xdp_udp_dsr_run Let_def outcome_state_def accounted_step)

lemma rt_accounted: "accounted True st \<Longrightarrow> accounted True (rt_stats_after ps st)"
  by (induction ps st rule: rt_stats_after.induct)
     (simp_all add: xdp_udp_rt_run Let_def outcome_state_def accounted_step)

lemma outcome_stats_total: "ds_totalPackets (outcome_stats rt r st) = ds_totalPackets st + 1"
  by (cases r) (simp_all add: outcome_stats_def Let_def)

lemma dsr_total: "ds_totalPackets (dsr_stats_after ps st) = ds_totalPackets st + of_nat (length ps)"
  by (induction ps st rule: dsr_stats_after.induct)
     (simp_all add: xdp_udp_dsr_run Let_def outcome_state_def outcome_stats_total)

lemma rt_total: "ds_totalPackets (rt_stats_after ps st) = ds_totalPackets st + of_nat (length ps)"
  by (induction ps st rule: rt_stats_after.induct)
     (simp_all add: xdp_udp_rt_run Let_def outcome_state_def outcome_stats_total)

text \<open>
  After any sequence of packets, under any maps and helper results, the counters of
  both programs add up modulo \<open>2^64\<close>: the total is the number of packets and splits into
  passed, redirected and dropped ones, and these into their reasons.
\<close>

theorem xdp_stats_accounted:
  "accounted False (dsr_stats_after ps zero_stats) \<and>
   ds_totalPackets (dsr_stats_after ps zero_stats) = of_nat (length ps) \<and>
   accounted True (rt_stats_after qs zero_stats) \<and>
   ds_totalPackets (rt_stats_after qs zero_stats) = of_nat (length qs)"
  using dsr_accounted[of zero_stats ps] rt_accounted[of zero_stats qs]
  by (simp add: dsr_total rt_total) (simp add: accounted_def zero_stats_def)

text \<open>
  Claim C40. On a published snapshot with the fields of a static configuration, the runtime
  program gives the same verdict and packet as the static one for every packet, except that
  with no backend the runtime drops what the static program passes.
\<close>

theorem runtime_agrees_with_static:
  assumes "rs_schemaVersion snap = 3" and "rs_generation snap \<noteq> 0" and "dc_schemaVersion c = 2"
    and "rs_backendCount snap = dc_backendCount c" and "rs_reserved snap = dc_reserved c"
    and "rs_vipAddress snap = dc_vipAddress c" and "rs_vipPort snap = dc_vipPort c"
  shows "let r = xdp_udp_rt True (Some snap) redirectPacket s;
             d = xdp_udp_dsr True (Some c) (rs_backends snap) redirectPacket s
         in px_data (snd r) = px_data (snd d) \<and>
            (fst r = fst d \<or> dc_backendCount c = 0 \<and> fst r = Inr XDP_DROP \<and> fst d = Inr XDP_PASS)"
proof -
  let ?r = "rt_outcome_of (Some snap) redirectPacket (px_data s)"
  have same: "dsr_outcome_of (Some c) (rs_backends snap) redirectPacket (px_data s) = ?r"
    using assms by (simp add: rt_outcome_of_def dsr_outcome_of_def)
  have zero: "dc_backendCount c = 0" if "?r = NoBackend"
    using that assms
    by (auto simp: rt_outcome_of_def backend_outcome_def split: if_splits option.splits)
  show ?thesis
    by (cases ?r)
       (use zero in \<open>simp_all add: xdp_udp_rt_run xdp_udp_dsr_run same Let_def outcome_state_def outcome_action_def\<close>)
qed

theorem runtime_agrees_with_static_witness:
  "let snap = \<lparr>rs_schemaVersion = 3, rs_backendCount = 2, rs_generation = 1, rs_vipAddress = 16777226,
       rs_vipPort = 13568, rs_reserved = 0, rs_backends = sample_backends\<rparr>;
     r = xdp_udp_rt True (Some snap) (\<lambda>_. XDP_REDIRECT) \<lparr>px_data = sample_frame, px_stats = zero_stats\<rparr>;
     d = xdp_udp_dsr True (Some sample_dsr_config) sample_backends (\<lambda>_. XDP_REDIRECT)
           \<lparr>px_data = sample_frame, px_stats = zero_stats\<rparr>
   in px_data (snd r) = px_data (snd d) \<and> fst r = fst d"
  using runtime_agrees_with_static[of "\<lparr>rs_schemaVersion = 3, rs_backendCount = 2, rs_generation = 1,
       rs_vipAddress = 16777226, rs_vipPort = 13568, rs_reserved = 0, rs_backends = sample_backends\<rparr>"
     sample_dsr_config "\<lambda>_. XDP_REDIRECT" "\<lparr>px_data = sample_frame, px_stats = zero_stats\<rparr>"]
  by (simp add: sample_dsr_config_def Let_def)

end
