(* ===== verification/XdpMaps.thy ===== *)
theory XdpMaps
  imports XdpDsr "HOL-Library.Multiset"
begin

unbundle bit_operations_syntax

text \<open>
  The map stores: \<open>src/xdp/MapSchema.h\<close>, \<open>src/xdp/MapStore.cpp\<close> and
  \<open>src/xdp/DsrMapStore.cpp\<close>. The kernel's array maps are parameters; what the control plane
  relies on is the locale \<open>config_maps\<close>. Diagnostic texts of exceptions are abbreviated.
\<close>

section \<open>Values and whitelists\<close>

record XdpConfigValue =
  xc_schemaVersion :: u32
  xc_backendCount :: u32

record XdpBackendValue =
  xb_address :: u32
  xb_port :: u16
  xb_reserved :: u16

datatype bpf_map_type = BPF_MAP_TYPE_ARRAY | BPF_MAP_TYPE_PERCPU_ARRAY | BPF_MAP_TYPE_OTHER nat

text \<open>A map of a BPF object, and equally an entry of a whitelist; \<open>key_size\<close> is 4 in every entry.\<close>

record MapSpec =
  mapName :: string
  mapType :: bpf_map_type
  keySize :: nat
  valueSize :: nat
  maxEntries :: nat
  mapFlags :: nat

definition BPF_F_RDONLY_PROG :: nat where
  "BPF_F_RDONLY_PROG = 128"

definition map_spec :: "string \<Rightarrow> bpf_map_type \<Rightarrow> nat \<Rightarrow> nat \<Rightarrow> nat \<Rightarrow> MapSpec" where
  "map_spec name type vsize entries flags = \<lparr>mapName = name, mapType = type, keySize = 4,
     valueSize = vsize, maxEntries = entries, mapFlags = flags\<rparr>"

definition kMapSpecs :: "MapSpec list" where
  "kMapSpecs =
     [map_spec ''l4lb_cfg_v1'' BPF_MAP_TYPE_ARRAY 8 1 BPF_F_RDONLY_PROG,
      map_spec ''l4lb_be_v1'' BPF_MAP_TYPE_ARRAY 8 64 BPF_F_RDONLY_PROG,
      map_spec ''l4lb_stats_v1'' BPF_MAP_TYPE_PERCPU_ARRAY 8 1 0]"

definition kDsrMapSpecs :: "MapSpec list" where
  "kDsrMapSpecs =
     [map_spec ''l4lb_cfg_v2'' BPF_MAP_TYPE_ARRAY 16 1 BPF_F_RDONLY_PROG,
      map_spec ''l4lb_be_v2'' BPF_MAP_TYPE_ARRAY 16 64 BPF_F_RDONLY_PROG,
      map_spec ''l4lb_stats_v2'' BPF_MAP_TYPE_PERCPU_ARRAY 64 1 0]"

section \<open>Validation\<close>

text \<open>The inner loop stops at the first entry of that name.\<close>

fun spec_matches :: "MapSpec list \<Rightarrow> MapSpec \<Rightarrow> bool" where
  "spec_matches [] m = False"
| "spec_matches (spec # specs) m =
     (if mapName m \<noteq> mapName spec then spec_matches specs m
      else mapType m = mapType spec \<and> keySize m = 4 \<and> valueSize m = valueSize spec \<and>
           maxEntries m = maxEntries spec \<and> mapFlags m = mapFlags spec)"

definition find_map :: "MapSpec list \<Rightarrow> string \<Rightarrow> MapSpec option" where
  "find_map maps name = find (\<lambda>m. mapName m = name) maps"

fun whitelist_loop :: "MapSpec list \<Rightarrow> MapSpec list \<Rightarrow> exn option" where
  "whitelist_loop specs [] = None"
| "whitelist_loop specs (m # maps) =
     (if spec_matches specs m then whitelist_loop specs maps
      else Some (RuntimeError (''map whitelist mismatch: '' @ mapName m)))"

definition validate_maps :: "MapSpec list \<Rightarrow> MapSpec list \<Rightarrow> exn + unit" where
  "validate_maps specs maps = (case whitelist_loop specs maps of
     Some e \<Rightarrow> Inl e
   | None \<Rightarrow>
       if length maps \<noteq> length specs then Inl (RuntimeError ''maps mode needs exactly three maps'')
       else case find (\<lambda>spec. find_map maps (mapName spec) = None) specs of
         Some spec \<Rightarrow> Inl (RuntimeError (''missing map '' @ mapName spec))
       | None \<Rightarrow> Inr ())"

definition validateConfigMapObject :: "MapSpec list \<Rightarrow> exn + unit" where
  "validateConfigMapObject maps = validate_maps kMapSpecs maps"

definition validateDsrMapObject :: "MapSpec list \<Rightarrow> exn + unit" where
  "validateDsrMapObject maps = validate_maps kDsrMapSpecs maps"

text \<open>
  After loading: the kernel's own description of the map behind the descriptor must agree.
  \<open>fd_of\<close> is the descriptor of a map, \<open>info\<close> the kernel's answer.
\<close>

definition validateMapDescriptor ::
  "MapSpec list \<Rightarrow> (MapSpec \<Rightarrow> nat) \<Rightarrow> (nat \<Rightarrow> errno + MapSpec) \<Rightarrow> MapSpec \<Rightarrow> exn + nat" where
  "validateMapDescriptor maps fd_of info spec =
     (case find_map maps (mapName spec) of
        None \<Rightarrow> Inl (RuntimeError (''missing map '' @ mapName spec))
      | Some m \<Rightarrow>
          case info (fd_of m) of
            Inl e \<Rightarrow> Inl (SystemError (''map metadata '' @ mapName spec) e)
          | Inr i \<Rightarrow>
              if mapName i \<noteq> mapName spec \<or> mapType i \<noteq> mapType spec \<or> keySize i \<noteq> 4 \<or>
                 valueSize i \<noteq> valueSize spec \<or> maxEntries i \<noteq> maxEntries spec \<or> mapFlags i \<noteq> mapFlags spec
              then Inl (RuntimeError (''loaded map metadata mismatch: '' @ mapName spec))
              else Inr (fd_of m))"

section \<open>The store\<close>

text \<open>One array map of the kernel behind a descriptor.\<close>

record ('v, 'w) bpf_array =
  ba_update :: "u32 \<Rightarrow> 'v \<Rightarrow> 'w \<Rightarrow> errno option \<times> 'w"
  ba_lookup :: "u32 \<Rightarrow> 'w \<Rightarrow> (errno + 'v) \<times> 'w"
  ba_freeze :: "'w \<Rightarrow> errno option \<times> 'w"

record ('c, 'b, 'w) MapStore =
  configFd :: "('c, 'w) bpf_array"
  backendFd :: "('b, 'w) bpf_array"

definition check_errno :: "string \<Rightarrow> ('w \<Rightarrow> errno option \<times> 'w) \<Rightarrow> ('w, unit) comp" where
  "check_errno operation f w = (case f w of
     (None, w') \<Rightarrow> (Inr (), w') | (Some e, w') \<Rightarrow> (Inl (SystemError operation e), w'))"

definition check_value :: "string \<Rightarrow> ('w \<Rightarrow> (errno + 'v) \<times> 'w) \<Rightarrow> ('w, 'v) comp" where
  "check_value operation f w = (case f w of
     (Inr v, w') \<Rightarrow> (Inr v, w') | (Inl e, w') \<Rightarrow> (Inl (SystemError operation e), w'))"

definition writeBackend :: "('c, 'b, 'w) MapStore \<Rightarrow> u32 \<Rightarrow> 'b \<Rightarrow> ('w, unit) comp" where
  "writeBackend m index v = check_errno ''write backend'' (ba_update (backendFd m) index v)"

definition writeConfig :: "('c, 'b, 'w) MapStore \<Rightarrow> 'c \<Rightarrow> ('w, unit) comp" where
  "writeConfig m v = check_errno ''write cfg'' (ba_update (configFd m) 0 v)"

definition readBackend :: "('c, 'b, 'w) MapStore \<Rightarrow> u32 \<Rightarrow> ('w, 'b) comp" where
  "readBackend m index = check_value ''read backend'' (ba_lookup (backendFd m) index)"

definition readConfig :: "('c, 'b, 'w) MapStore \<Rightarrow> ('w, 'c) comp" where
  "readConfig m = check_value ''read cfg'' (ba_lookup (configFd m) 0)"

definition freezeBackends :: "('c, 'b, 'w) MapStore \<Rightarrow> ('w, unit) comp" where
  "freezeBackends m = check_errno ''freeze backends'' (ba_freeze (backendFd m))"

definition freezeConfig :: "('c, 'b, 'w) MapStore \<Rightarrow> ('w, unit) comp" where
  "freezeConfig m = check_errno ''freeze cfg'' (ba_freeze (configFd m))"

section \<open>Per-CPU statistics\<close>

definition size_max :: nat where
  "size_max = 18446744073709551615"

definition perCpuStatsBufferSize :: "int \<Rightarrow> exn + nat" where
  "perCpuStatsBufferSize possibleCpus =
     (if possibleCpus \<le> 0 \<or> size_max div 8 < nat possibleCpus
      then Inl (RuntimeError ''invalid possible CPU count'') else Inr (nat possibleCpus * 8))"

text \<open>\<open>memcpy\<close> of eight bytes into a native \<open>__u64\<close>.\<close>

definition le64 :: "u8 list \<Rightarrow> u64" where
  "le64 bytes = foldr (\<lambda>b acc. ucast b OR push_bit 8 acc) (take 8 bytes) 0"

fun sum_cpus :: "nat \<Rightarrow> u8 list \<Rightarrow> u64 \<Rightarrow> u64" where
  "sum_cpus 0 bytes acc = acc"
| "sum_cpus (Suc cpus) bytes acc = sum_cpus cpus (drop 8 bytes) (acc + le64 bytes)"

definition sumPerCpuPassPackets :: "u8 list \<Rightarrow> int \<Rightarrow> exn + u64" where
  "sumPerCpuPassPackets bytes possibleCpus = (case perCpuStatsBufferSize possibleCpus of
     Inl e \<Rightarrow> Inl e
   | Inr needed \<Rightarrow> if length bytes \<noteq> needed then Inl (RuntimeError ''per-CPU buffer size mismatch'')
       else Inr (sum_cpus (nat possibleCpus) bytes 0))"

definition readPassPackets :: "int \<Rightarrow> (nat \<Rightarrow> errno + u8 list) \<Rightarrow> exn + u64" where
  "readPassPackets possibleCpus lookup = (case perCpuStatsBufferSize possibleCpus of
     Inl e \<Rightarrow> Inl e
   | Inr needed \<Rightarrow> (case lookup needed of
       Inl e \<Rightarrow> Inl (SystemError ''read stats'' e)
     | Inr bytes \<Rightarrow> sumPerCpuPassPackets bytes possibleCpus))"

definition add_stats :: "UdpDsrStatsValue \<Rightarrow> UdpDsrStatsValue \<Rightarrow> UdpDsrStatsValue" where
  "add_stats a b = \<lparr>
     ds_totalPackets = ds_totalPackets a + ds_totalPackets b,
     ds_passPackets = ds_passPackets a + ds_passPackets b,
     ds_redirectRequests = ds_redirectRequests a + ds_redirectRequests b,
     ds_dropPackets = ds_dropPackets a + ds_dropPackets b,
     ds_unsupportedPackets = ds_unsupportedPackets a + ds_unsupportedPackets b,
     ds_noBackendPackets = ds_noBackendPackets a + ds_noBackendPackets b,
     ds_invalidConfigPackets = ds_invalidConfigPackets a + ds_invalidConfigPackets b,
     ds_helperErrorPackets = ds_helperErrorPackets a + ds_helperErrorPackets b\<rparr>"

definition readDsrStatistics ::
  "int \<Rightarrow> (nat \<Rightarrow> errno + UdpDsrStatsValue list) \<Rightarrow> exn + UdpDsrStatsValue" where
  "readDsrStatistics possibleCpus lookup =
     (if possibleCpus \<le> 0 \<or> size_max div 64 < nat possibleCpus
      then Inl (RuntimeError ''invalid possible CPU count'')
      else case lookup (nat possibleCpus) of
        Inl e \<Rightarrow> Inl (SystemError ''read stats'' e)
      | Inr per_cpu \<Rightarrow> Inr (foldl add_stats zero_stats per_cpu))"

section \<open>What the control plane relies on\<close>

text \<open>
  The read and freeze half of a store: a read that succeeds returns the content and leaves
  both maps alone, a freeze that succeeds marks its map and leaves the contents alone. Nothing
  is assumed about writes.
\<close>

locale config_maps =
  fixes store :: "('c, 'b, 'w) MapStore"
    and backend_at :: "'w \<Rightarrow> u32 \<Rightarrow> 'b"
    and config_at :: "'w \<Rightarrow> 'c"
    and backends_frozen :: "'w \<Rightarrow> bool"
    and config_frozen :: "'w \<Rightarrow> bool"
  assumes read_backend: "readBackend store i w = (Inr v, w') \<Longrightarrow>
      v = backend_at w i \<and> backend_at w' = backend_at w \<and> config_at w' = config_at w"
    and read_config: "readConfig store w = (Inr c, w') \<Longrightarrow>
      c = config_at w \<and> backend_at w' = backend_at w \<and> config_at w' = config_at w"
    and freeze_backends: "freezeBackends store w = (Inr (), w') \<Longrightarrow>
      backends_frozen w' \<and> backend_at w' = backend_at w \<and> config_at w' = config_at w"
    and freeze_config: "freezeConfig store w = (Inr (), w') \<Longrightarrow>
      config_frozen w' \<and> (backends_frozen w \<longrightarrow> backends_frozen w') \<and>
      backend_at w' = backend_at w \<and> config_at w' = config_at w"

text \<open>
  The kernel's array maps as documented, with failures injected from a list: an update of a
  frozen map fails with \<open>EPERM\<close>, of a missing index with \<open>E2BIG\<close> (7), a lookup of a missing index
  with \<open>ENOENT\<close>.
\<close>

record ('c, 'b) kernel_maps =
  km_config :: 'c
  km_backends :: "'b list"
  km_configFrozen :: bool
  km_backendsFrozen :: bool
  km_faults :: "errno option list"

definition km_syscall :: "(('c, 'b) kernel_maps \<Rightarrow> 'a \<times> ('c, 'b) kernel_maps) \<Rightarrow> (errno \<Rightarrow> 'a) \<Rightarrow>
   ('c, 'b) kernel_maps \<Rightarrow> 'a \<times> ('c, 'b) kernel_maps" where
  "km_syscall f fail w = (case km_faults w of
     Some e # faults \<Rightarrow> (fail e, w\<lparr>km_faults := faults\<rparr>)
   | None # faults \<Rightarrow> f (w\<lparr>km_faults := faults\<rparr>)
   | [] \<Rightarrow> f w)"

definition kernel_store :: "('c, 'b, ('c, 'b) kernel_maps) MapStore" where
  "kernel_store = \<lparr>
     configFd = \<lparr>
       ba_update = \<lambda>i v. km_syscall (\<lambda>w. if km_configFrozen w then (Some EPERM, w)
          else if i \<noteq> 0 then (Some 7, w) else (None, w\<lparr>km_config := v\<rparr>)) Some,
       ba_lookup = \<lambda>i. km_syscall (\<lambda>w. if i \<noteq> 0 then (Inl ENOENT, w) else (Inr (km_config w), w)) Inl,
       ba_freeze = km_syscall (\<lambda>w. (None, w\<lparr>km_configFrozen := True\<rparr>)) Some\<rparr>,
     backendFd = \<lparr>
       ba_update = \<lambda>i v. km_syscall (\<lambda>w. if km_backendsFrozen w then (Some EPERM, w)
          else if length (km_backends w) \<le> unat i then (Some 7, w)
          else (None, w\<lparr>km_backends := (km_backends w)[unat i := v]\<rparr>)) Some,
       ba_lookup = \<lambda>i. km_syscall (\<lambda>w. if length (km_backends w) \<le> unat i then (Inl ENOENT, w)
          else (Inr (km_backends w ! unat i), w)) Inl,
       ba_freeze = km_syscall (\<lambda>w. (None, w\<lparr>km_backendsFrozen := True\<rparr>)) Some\<rparr>\<rparr>"

lemmas store_defs = readBackend_def readConfig_def freezeBackends_def freezeConfig_def writeBackend_def
  writeConfig_def check_errno_def check_value_def kernel_store_def km_syscall_def

interpretation kernel: config_maps kernel_store "\<lambda>w i. km_backends w ! unat i" km_config
  km_backendsFrozen km_configFrozen
  by unfold_locales (auto simp: store_defs split: prod.splits option.splits sum.splits list.splits if_splits)

section \<open>Properties\<close>

lemma spec_matches_iff:
  "distinct (map mapName specs) \<Longrightarrow> list_all (\<lambda>s. keySize s = 4) specs \<Longrightarrow>
   spec_matches specs m \<longleftrightarrow> m \<in> set specs"
  by (induction specs) (auto simp: image_iff)

lemma whitelist_loop_None: "whitelist_loop specs maps = None \<longleftrightarrow> list_all (spec_matches specs) maps"
  by (induction maps) auto

lemma validate_maps_iff:
  assumes "distinct (map mapName specs)" and "list_all (\<lambda>s. keySize s = 4) specs"
  shows "validate_maps specs maps = Inr () \<longleftrightarrow> mset maps = mset specs"
proof
  assume "validate_maps specs maps = Inr ()"
  then have sub: "set maps \<subseteq> set specs" and len: "length maps = length specs"
    and found: "\<forall>s \<in> set specs. find_map maps (mapName s) \<noteq> None"
    using spec_matches_iff[OF assms]
    by (auto simp: validate_maps_def whitelist_loop_None list_all_iff find_None_iff
        split: option.splits if_splits)
  have "set specs \<subseteq> set maps"
  proof
    fix s
    assume s: "s \<in> set specs"
    with found obtain m where m: "m \<in> set maps" "mapName m = mapName s"
      by (fastforce simp: find_map_def find_None_iff)
    with sub s assms(1) have "m = s" by (auto simp: distinct_map inj_on_def)
    with m show "s \<in> set maps" by simp
  qed
  with sub have set: "set maps = set specs" by blast
  have dist: "distinct specs" using assms(1) by (simp add: distinct_map)
  with set len have "distinct maps" by (metis card_distinct distinct_card)
  with dist set show "mset maps = mset specs" by (simp add: set_eq_iff_mset_eq_distinct)
next
  assume ms: "mset maps = mset specs"
  then have set: "set maps = set specs" and len: "length maps = length specs"
    by (metis set_mset_mset, metis size_mset)
  have "find (\<lambda>spec. find_map maps (mapName spec) = None) specs = None"
    using set by (auto simp: find_None_iff find_map_def)
  then show "validate_maps specs maps = Inr ()"
    using set len spec_matches_iff[OF assms]
    by (auto simp: validate_maps_def whitelist_loop_None list_all_iff split: option.splits)
qed

text \<open>
  A BPF object passes the whitelist exactly when its maps are, in some order, the
  three expected ones with the expected types, sizes and flags: nothing missing, nothing extra.
\<close>

theorem map_whitelist_exact:
  "(validateConfigMapObject maps = Inr () \<longleftrightarrow> mset maps = mset kMapSpecs) \<and>
   (validateDsrMapObject maps = Inr () \<longleftrightarrow> mset maps = mset kDsrMapSpecs)"
  unfolding validateConfigMapObject_def validateDsrMapObject_def
  by (intro conjI validate_maps_iff) (simp_all add: kMapSpecs_def kDsrMapSpecs_def map_spec_def)

text \<open>The bytes of a native \<open>__u64\<close>.\<close>

fun le_bytes :: "nat \<Rightarrow> u64 \<Rightarrow> u8 list" where
  "le_bytes 0 w = []"
| "le_bytes (Suc n) w = ucast w # le_bytes n (drop_bit 8 w)"

lemma length_le_bytes [simp]: "length (le_bytes n w) = n"
  by (induction n arbitrary: w) auto

lemma fold_le_bytes:
  "foldr (\<lambda>b acc. ucast b OR push_bit 8 acc) (le_bytes n w) 0 = take_bit (8 * n) (w :: u64)"
proof (induction n arbitrary: w)
  case 0
  then show ?case by simp
next
  case (Suc n)
  have "ucast (ucast w :: u8) OR push_bit 8 (take_bit (8 * n) (drop_bit 8 w)) = take_bit (8 * Suc n) w"
    by (rule bit_word_eqI) (auto simp: bit_simps)
  with Suc show ?case by simp
qed

lemma le64_le_bytes: "le64 (le_bytes 8 w @ rest) = w"
  using fold_le_bytes[of 8 w] by (simp add: le64_def take_bit_word_eq_self)

lemma sum_cpus_encoded:
  "sum_cpus (length ws) (concat (map (le_bytes 8) ws)) acc = acc + sum_list ws"
  by (induction ws arbitrary: acc) (simp_all add: le64_le_bytes add.assoc del: le_bytes.simps)

text \<open>
  Reading the per-CPU pass counters of \<open>n\<close> CPUs yields their sum modulo \<open>2^64\<close> for
  every \<open>n\<close> whose buffer size fits; a CPU count that is not positive is refused.
\<close>

theorem readPassPackets_sum:
  assumes "possibleCpus = int (length ws)"
    and "lookup = (\<lambda>needed. Inr (take needed (concat (map (le_bytes 8) ws))))"
  shows "readPassPackets possibleCpus lookup =
    (if ws = [] \<or> size_max div 8 < length ws then Inl (RuntimeError ''invalid possible CPU count'')
     else Inr (sum_list ws))"
proof -
  have len: "length (concat (map (le_bytes 8) ws)) = 8 * length ws"
    by (simp add: length_concat comp_def sum_list_triv del: le_bytes.simps)
  show ?thesis
    by (auto simp: readPassPackets_def perCpuStatsBufferSize_def sumPerCpuPassPackets_def assms len
        sum_cpus_encoded mult.commute simp del: le_bytes.simps)
qed

theorem readPassPackets_sum_witness:
  "readPassPackets 2 (\<lambda>needed. Inr (take needed (concat (map (le_bytes 8) [- 1, 3])))) = Inr 2"
  using readPassPackets_sum[of 2 "[- 1, 3]" "\<lambda>needed. Inr (take needed (concat (map (le_bytes 8) [- 1, 3])))"]
  by (simp add: size_max_def del: le_bytes.simps)

end
