(* ===== verification/XdpConfig.thy ===== *)
theory XdpConfig
  imports XdpMaps Config
begin

unbundle bit_operations_syntax

text \<open>
  The XDP control plane's configuration: \<open>src/control/XdpConfigSync.cpp\<close> and
  \<open>src/control/DsrConfigSync.cpp\<close>. Literals are parsed and checked before any kernel object is
  touched; then all slots are written, read back and frozen. \<open>inet_pton\<close> and the interface
  queries are parameters. Diagnostic texts of exceptions are abbreviated.
\<close>

section \<open>Library functions the parsers use\<close>

text \<open>\<open>std::from_chars\<close> into \<open>unsigned\<close>: success, characters consumed, value.\<close>

definition hex_digit :: "char \<Rightarrow> nat option" where
  "hex_digit c = (let n = of_char c :: nat in
     if is_digit c then Some (digit_value c)
     else if of_char CHR ''a'' \<le> n \<and> n \<le> of_char CHR ''f'' then Some (n - of_char CHR ''a'' + 10)
     else if of_char CHR ''A'' \<le> n \<and> n \<le> of_char CHR ''F'' then Some (n - of_char CHR ''A'' + 10)
     else None)"

definition dec_digit :: "char \<Rightarrow> nat option" where
  "dec_digit c = (if is_digit c then Some (digit_value c) else None)"

definition from_chars :: "(char \<Rightarrow> nat option) \<Rightarrow> nat \<Rightarrow> string \<Rightarrow> bool \<times> nat \<times> nat" where
  "from_chars digit base txt =
     (let ds = takeWhile (\<lambda>c. digit c \<noteq> None) txt;
          v = foldl (\<lambda>acc c. acc * base + the (digit c)) 0 ds
      in if ds = [] then (False, 0, 0)
         else if 4294967296 \<le> v then (False, length ds, 0) else (True, length ds, v))"

text \<open>Byte order on a little-endian host.\<close>

definition ntohl :: "u32 \<Rightarrow> u32" where
  "ntohl w = push_bit 24 (w AND 0xff) OR push_bit 8 (w AND 0xff00) OR drop_bit 8 (w AND 0xff0000) OR
     drop_bit 24 w"

definition htons :: "u16 \<Rightarrow> u16" where
  "htons w = push_bit 8 (w AND 0xff) OR drop_bit 8 w"

definition unicast_host :: "u32 \<Rightarrow> bool" where
  "unicast_host a \<longleftrightarrow> \<not> (a = 0 \<or> a = 0xffffffff \<or> a AND 0xf0000000 = 0xe0000000)"

section \<open>Backend literals\<close>

text \<open>One pass of the loop of \<open>parseXdpBackends\<close>; \<open>inet_pton\<close> gives the native value it stores.\<close>

definition parse_xdp_backend :: "(string \<Rightarrow> u32 option) \<Rightarrow> XdpBackendValue list \<Rightarrow> string \<Rightarrow> exn + XdpBackendValue" where
  "parse_xdp_backend inet_pton seen endpoint =
     (case find_char CHR '':'' endpoint of
        None \<Rightarrow> Inl (InvalidArgument ''backend must be IPv4:PORT'')
      | Some separator \<Rightarrow>
          let address = take separator endpoint;
              portText = drop (separator + 1) endpoint;
              (ok, used, port) = from_chars dec_digit 10 portText
          in case inet_pton (takeWhile (\<lambda>c. c \<noteq> CHR 0x00) address) of
               None \<Rightarrow> Inl (InvalidArgument ''invalid IPv4 backend'')
             | Some a \<Rightarrow>
                 if \<not> ok \<or> used \<noteq> length portText \<or> port = 0 \<or> 65535 < port
                 then Inl (InvalidArgument ''invalid IPv4 backend'')
                 else if \<not> unicast_host (ntohl a) then Inl (InvalidArgument ''backend must be unicast'')
                 else let backend = \<lparr>xb_address = a, xb_port = htons (of_nat port), xb_reserved = 0\<rparr>
                      in if (xb_address backend, xb_port backend) \<in> (\<lambda>b. (xb_address b, xb_port b)) ` set seen
                         then Inl (InvalidArgument ''duplicate backend'') else Inr backend)"

fun parse_xdp_loop ::
  "(string \<Rightarrow> u32 option) \<Rightarrow> string list \<Rightarrow> XdpBackendValue list \<Rightarrow> exn + XdpBackendValue list" where
  "parse_xdp_loop inet_pton [] backends = Inr backends"
| "parse_xdp_loop inet_pton (e # es) backends = (case parse_xdp_backend inet_pton backends e of
     Inl x \<Rightarrow> Inl x | Inr b \<Rightarrow> parse_xdp_loop inet_pton es (backends @ [b]))"

definition parseXdpBackends :: "(string \<Rightarrow> u32 option) \<Rightarrow> string list \<Rightarrow> exn + XdpBackendValue list" where
  "parseXdpBackends inet_pton endpoints =
     (if 64 < length endpoints then Inl (InvalidArgument ''at most 64 backends'')
      else parse_xdp_loop inet_pton endpoints [])"

section \<open>DSR literals and interfaces\<close>

text \<open>One group of \<open>parseMac\<close>: two hexadecimal digits and, except after the last, a colon.\<close>

definition parse_mac_group :: "string \<Rightarrow> nat \<Rightarrow> u8 option" where
  "parse_mac_group txt i =
     (let begin = drop (3 * i) txt; (ok, used, byte) = from_chars hex_digit 16 (take 2 begin)
      in if \<not> ok \<or> used \<noteq> 2 \<or> (i < 5 \<and> begin ! 2 \<noteq> CHR '':'') then None else Some (of_nat byte))"

definition parseMac :: "string \<Rightarrow> exn + mac" where
  "parseMac txt =
     (if length txt \<noteq> 17 then Inl (InvalidArgument ''MAC must be six hex groups'')
      else case map (parse_mac_group txt) [0, 1, 2, 3, 4, 5] of
        [Some a, Some b, Some c, Some d, Some e, Some f] \<Rightarrow>
          if validMac (a, b, c, d, e, f) then Inr (a, b, c, d, e, f)
          else Inl (InvalidArgument ''MAC must be nonzero unicast'')
      | _ \<Rightarrow> Inl (InvalidArgument ''invalid MAC''))"

record InterfaceInfo =
  if_index :: u32
  if_mac :: mac

text \<open>The socket and the four queries; \<open>None\<close> is a failed call.\<close>

record 'w interface_env =
  ie_socket :: "('w, bool) comp"
  ie_index :: "string \<Rightarrow> ('w, u32 option) comp"
  ie_flags :: "string \<Rightarrow> ('w, nat option) comp"
  ie_mtu :: "string \<Rightarrow> ('w, int option) comp"
  ie_hwaddr :: "string \<Rightarrow> ('w, (nat \<times> mac) option) comp"

definition inspectInterface :: "'w interface_env \<Rightarrow> string \<Rightarrow> ('w, InterfaceInfo) comp" where
  "inspectInterface env name =
     (if name = [] \<or> 16 \<le> length name \<or> (\<exists>c \<in> set name. c \<in> set ''/ :@'' \<or> c \<in> {CHR 0x09, CHR 0x0D, CHR 0x0A})
      then throwC (InvalidArgument ''invalid interface name'')
      else bindC (ie_socket env) (\<lambda>opened.
        if \<not> opened then throwC (RuntimeError ''interface query socket'') else
        bindC (ie_index env name) (\<lambda>index. case index of
          None \<Rightarrow> throwC (InvalidArgument ''interface does not exist'')
        | Some ifindex \<Rightarrow>
            bindC (ie_flags env name) (\<lambda>flags.
            if (case flags of None \<Rightarrow> True | Some f \<Rightarrow> even f) then throwC (InvalidArgument ''interface must be up'') else
            bindC (ie_mtu env name) (\<lambda>mtu.
            if (case mtu of None \<Rightarrow> True | Some m \<Rightarrow> m < 1500) then throwC (InvalidArgument ''interface MTU'') else
            bindC (ie_hwaddr env name) (\<lambda>hw. case hw of
              None \<Rightarrow> throwC (InvalidArgument ''interface must be Ethernet'')
            | Some (family, m) \<Rightarrow>
                if family \<noteq> 1 then throwC (InvalidArgument ''interface must be Ethernet'')
                else if \<not> validMac m then throwC (InvalidArgument ''interface MAC invalid'')
                else returnC \<lparr>if_index = ifindex, if_mac = m\<rparr>))))))"

record DsrConfiguration =
  dsr_config :: UdpDsrConfigValue
  dsr_backends :: "UdpDsrBackendValue list"

fun parse_targets :: "string list \<Rightarrow> exn + (string \<times> mac) list" where
  "parse_targets [] = Inr []"
| "parse_targets (t # ts) = (case find_char CHR ''@'' t of
     None \<Rightarrow> Inl (InvalidArgument ''target must be EGRESS@MAC'')
   | Some separator \<Rightarrow> (case parseMac (drop (separator + 1) t) of
       Inl e \<Rightarrow> Inl e
     | Inr m \<Rightarrow> (case parse_targets ts of Inl e \<Rightarrow> Inl e | Inr rest \<Rightarrow> Inr ((take separator t, m) # rest))))"

fun resolve_targets ::
  "'w interface_env \<Rightarrow> u32 \<Rightarrow> (string \<times> mac) list \<Rightarrow> UdpDsrBackendValue list \<Rightarrow>
   ('w, UdpDsrBackendValue list) comp" where
  "resolve_targets env input [] backends = returnC backends"
| "resolve_targets env input ((name, m) # ts) backends =
     bindC (inspectInterface env name) (\<lambda>out.
       if if_index out = input then throwC (InvalidArgument ''egress equals ingress'')
       else if (if_index out, m) \<in> (\<lambda>b. (db_ifindex b, db_destinationMac b)) ` set backends
       then throwC (InvalidArgument ''duplicate target'')
       else resolve_targets env input ts (backends @
              [\<lparr>db_ifindex = if_index out, db_destinationMac = m, db_sourceMac = if_mac out\<rparr>]))"

definition parseDsrConfiguration ::
  "(string \<Rightarrow> u32 option) \<Rightarrow> 'w interface_env \<Rightarrow> string \<Rightarrow> string \<Rightarrow> string list \<Rightarrow> ('w, DsrConfiguration) comp" where
  "parseDsrConfiguration inet_pton env ingress vip targets =
     (case parseXdpBackends inet_pton [vip] of
        Inl e \<Rightarrow> throwC e
      | Inr endpoints \<Rightarrow>
          if 64 < length targets then throwC (InvalidArgument ''at most 64 backends'') else
          case parse_targets targets of
            Inl e \<Rightarrow> throwC e
          | Inr parsedTargets \<Rightarrow>
              bindC (inspectInterface env ingress) (\<lambda>input.
              bindC (resolve_targets env (if_index input) parsedTargets []) (\<lambda>backends.
              returnC \<lparr>dsr_config = \<lparr>dc_schemaVersion = 2, dc_backendCount = of_nat (length targets),
                         dc_vipAddress = xb_address (hd endpoints), dc_vipPort = xb_port (hd endpoints),
                         dc_reserved = 0\<rparr>,
                       dsr_backends = backends\<rparr>)))"

section \<open>Synchronization\<close>

definition slot :: "'b \<Rightarrow> 'b list \<Rightarrow> u32 \<Rightarrow> 'b" where
  "slot zero backends index = (if unat index < length backends then backends ! unat index else zero)"

definition all_slots :: "u32 list" where
  "all_slots = map of_nat [0..<64]"

text \<open>The common body of \<open>synchronizeXdpConfig\<close> and \<open>synchronizeDsrConfig\<close> after their checks.\<close>

definition synchronize_maps :: "('c, 'b, 'w) MapStore \<Rightarrow> 'b \<Rightarrow> 'b list \<Rightarrow> 'c \<Rightarrow> ('w, unit) comp" where
  "synchronize_maps store zero backends config =
     thenC (forC all_slots (\<lambda>index. writeBackend store index (slot zero backends index)))
    (thenC (writeConfig store config)
    (bindC (readConfig store) (\<lambda>actualConfig.
     if actualConfig \<noteq> config then throwC (RuntimeError ''cfg readback mismatch'') else
     thenC (forC all_slots (\<lambda>index. bindC (readBackend store index) (\<lambda>actual.
              if actual \<noteq> slot zero backends index then throwC (RuntimeError ''backend readback mismatch'')
              else returnC ())))
    (thenC (freezeBackends store) (freezeConfig store)))))"

definition zero_xdp_backend :: XdpBackendValue where
  "zero_xdp_backend = \<lparr>xb_address = 0, xb_port = 0, xb_reserved = 0\<rparr>"

definition zero_dsr_backend :: UdpDsrBackendValue where
  "zero_dsr_backend = \<lparr>db_ifindex = 0, db_destinationMac = (0, 0, 0, 0, 0, 0), db_sourceMac = (0, 0, 0, 0, 0, 0)\<rparr>"

definition synchronizeXdpConfig ::
  "(XdpConfigValue, XdpBackendValue, 'w) MapStore \<Rightarrow> XdpBackendValue list \<Rightarrow> ('w, unit) comp" where
  "synchronizeXdpConfig store backends =
     (if 64 < length backends then throwC (InvalidArgument ''at most 64 backends'')
      else synchronize_maps store zero_xdp_backend backends
             \<lparr>xc_schemaVersion = 1, xc_backendCount = of_nat (length backends)\<rparr>)"

definition dsr_configuration_valid :: "DsrConfiguration \<Rightarrow> bool" where
  "dsr_configuration_valid c \<longleftrightarrow>
     dc_schemaVersion (dsr_config c) = 2 \<and>
     unat (dc_backendCount (dsr_config c)) = length (dsr_backends c) \<and>
     dc_reserved (dsr_config c) = 0 \<and> dc_vipPort (dsr_config c) \<noteq> 0 \<and>
     unicast_host (ntohl (dc_vipAddress (dsr_config c)))"

definition synchronizeDsrConfig ::
  "(UdpDsrConfigValue, UdpDsrBackendValue, 'w) MapStore \<Rightarrow> DsrConfiguration \<Rightarrow> ('w, unit) comp" where
  "synchronizeDsrConfig store configuration =
     (if 64 < length (dsr_backends configuration) then throwC (InvalidArgument ''at most 64 backends'')
      else if \<not> dsr_configuration_valid configuration then throwC (InvalidArgument ''invalid DSR configuration'')
      else if \<exists>b \<in> set (dsr_backends configuration). db_ifindex b = 0 \<or>
              \<not> validMac (db_destinationMac b) \<or> \<not> validMac (db_sourceMac b)
      then throwC (InvalidArgument ''invalid DSR backend'')
      else synchronize_maps store zero_dsr_backend (dsr_backends configuration) (dsr_config configuration))"

section \<open>Parsed literals are well-formed\<close>

lemma htons_take_bit: "htons w = push_bit 8 (take_bit 8 w) OR drop_bit 8 w"
  by (simp add: htons_def take_bit_eq_mask mask_eq_exp_minus_1)

lemma htons_htons: "htons (htons w) = w"
  unfolding htons_take_bit by (rule bit_word_eqI) (auto simp: bit_simps)

lemma htons_neq_0: "w \<noteq> 0 \<Longrightarrow> htons w \<noteq> 0"
  by (metis htons_htons htons_take_bit drop_bit_of_0 or.right_neutral push_bit_of_0 take_bit_of_0)

definition xdp_backend_ok :: "XdpBackendValue \<Rightarrow> bool" where
  "xdp_backend_ok b \<longleftrightarrow> unicast_host (ntohl (xb_address b)) \<and> xb_port b \<noteq> 0 \<and> xb_reserved b = 0"

lemma parse_xdp_backend_ok:
  assumes "parse_xdp_backend inet_pton seen e = Inr b"
  shows "xdp_backend_ok b \<and> b \<notin> set seen"
proof -
  from assms obtain port where p: "port \<noteq> 0" "port \<le> 65535" "xb_port b = htons (of_nat port)"
    and rest: "unicast_host (ntohl (xb_address b))" "xb_reserved b = 0"
    "(xb_address b, xb_port b) \<notin> (\<lambda>b. (xb_address b, xb_port b)) ` set seen"
    by (auto simp: parse_xdp_backend_def Let_def not_less split: option.splits if_splits prod.splits)
  have "unat (of_nat port :: u16) = port" using p(2) by (simp add: unat_of_nat)
  with p(1) have "(of_nat port :: u16) \<noteq> 0" by auto
  with p rest show ?thesis by (auto simp: xdp_backend_ok_def htons_neq_0)
qed

lemma parse_xdp_loop_ok:
  "parse_xdp_loop inet_pton es bs = Inr out \<Longrightarrow> distinct bs \<Longrightarrow> list_all xdp_backend_ok bs \<Longrightarrow>
   length out = length bs + length es \<and> distinct out \<and> list_all xdp_backend_ok out"
proof (induction es arbitrary: bs)
  case Nil
  then show ?case by simp
next
  case (Cons e es)
  from Cons.prems(1) obtain b where b: "parse_xdp_backend inet_pton bs e = Inr b"
    "parse_xdp_loop inet_pton es (bs @ [b]) = Inr out"
    by (auto split: sum.splits)
  from Cons.IH[OF b(2)] parse_xdp_backend_ok[OF b(1)] Cons.prems show ?case by simp
qed

lemma parseXdpBackends_ok:
  "parseXdpBackends inet_pton es = Inr bs \<Longrightarrow>
   length bs = length es \<and> length es \<le> 64 \<and> distinct bs \<and> list_all xdp_backend_ok bs"
  using parse_xdp_loop_ok[of inet_pton es "[]" bs] by (auto simp: parseXdpBackends_def split: if_splits)

text \<open>The printed form of a MAC address.\<close>

definition hex_char :: "nat \<Rightarrow> char" where
  "hex_char n = ''0123456789abcdef'' ! n"

definition format_octet :: "u8 \<Rightarrow> string" where
  "format_octet b = [hex_char (unat b div 16), hex_char (unat b mod 16)]"

definition format_mac :: "mac \<Rightarrow> string" where
  "format_mac m = (case m of (a, b, c, d, e, f) \<Rightarrow>
     format_octet a @ '':'' @ format_octet b @ '':'' @ format_octet c @ '':'' @ format_octet d @ '':'' @
     format_octet e @ '':'' @ format_octet f)"

lemma hex_digit_char: "n < 16 \<Longrightarrow> hex_digit (hex_char n) = Some n"
proof -
  have "list_all (\<lambda>n. hex_digit (hex_char n) = Some n) [0..<16]" by code_simp
  then show "n < 16 \<Longrightarrow> ?thesis" by (simp add: list_all_iff)
qed

lemma from_chars_octet: "from_chars hex_digit 16 (format_octet b) = (True, 2, unat b)"
proof -
  have "unat b div 16 < 16" "unat b mod 16 < 16" using unat_u8_less[of b] by auto
  then show ?thesis
    using unat_u8_less[of b] by (simp add: from_chars_def format_octet_def hex_digit_char Let_def)
qed

lemma parseMac_format: "parseMac (format_mac m) = (if validMac m then Inr m
   else Inl (InvalidArgument ''MAC must be nonzero unicast''))"
proof -
  obtain a b c d e f where m: "m = (a, b, c, d, e, f)" by (cases m)
  have len: "length (format_octet x) = 2" for x by (simp add: format_octet_def)
  show ?thesis
    by (simp add: parseMac_def parse_mac_group_def m format_mac_def len from_chars_octet nth_append)
qed

section \<open>Synchronization publishes what it was given\<close>

lemma set_all_slots: "i \<in> set all_slots \<longleftrightarrow> unat i < 64"
proof -
  have "i = of_nat (unat i)" by simp
  then show ?thesis
    unfolding all_slots_def by (auto simp: unat_of_nat image_iff intro!: bexI[of _ "unat i"])
qed

context config_maps
begin

lemma check_loop:
  "forC is (\<lambda>i. bindC (readBackend store i) (\<lambda>actual.
      if actual \<noteq> slot zero backends i then throwC e else returnC ())) w = (Inr (), w') \<Longrightarrow>
   (\<forall>i \<in> set is. backend_at w' i = slot zero backends i) \<and> backend_at w' = backend_at w \<and>
   config_at w' = config_at w"
proof (induction "is" arbitrary: w)
  case Nil
  then show ?case by simp
next
  case (Cons i "is")
  from Cons.prems obtain u where u: "readBackend store i w = (Inr (slot zero backends i), u)"
    and rest: "forC is (\<lambda>i. bindC (readBackend store i) (\<lambda>actual.
      if actual \<noteq> slot zero backends i then throwC e else returnC ())) u = (Inr (), w')"
    by (auto split: if_splits)
  from Cons.IH[OF rest] read_backend[OF u] show ?case by auto
qed

text \<open>Whatever the writes did, a synchronization that returns has verified every slot.\<close>

lemma synchronize_publishes:
  assumes "synchronize_maps store zero backends config w = (Inr (), w')"
  shows "config_at w' = config \<and> (\<forall>i. unat i < 64 \<longrightarrow> backend_at w' i = slot zero backends i) \<and>
    backends_frozen w' \<and> config_frozen w'"
proof -
  from assms obtain w2 w3 w4 w5 where
    cfg: "readConfig store w2 = (Inr config, w3)" and
    chk: "forC all_slots (\<lambda>i. bindC (readBackend store i) (\<lambda>actual.
      if actual \<noteq> slot zero backends i then throwC (RuntimeError ''backend readback mismatch'')
      else returnC ())) w3 = (Inr (), w4)" and
    fb: "freezeBackends store w4 = (Inr (), w5)" and fc: "freezeConfig store w5 = (Inr (), w')"
    by (auto simp: synchronize_maps_def split: if_splits)
  note facts = read_config[OF cfg] check_loop[OF chk] freeze_backends[OF fb] freeze_config[OF fc]
  then have "\<forall>i \<in> set all_slots. backend_at w' i = slot zero backends i" by metis
  with facts show ?thesis by (simp add: set_all_slots)
qed

end

text \<open>On the kernel's maps, unfrozen and without failures, it does return.\<close>

lemma kernel_write_loop:
  assumes "km_faults w = []" and "\<not> km_backendsFrozen w" and "\<forall>i \<in> set is. unat i < length (km_backends w)"
  shows "forC is (\<lambda>i. writeBackend kernel_store i (g i)) w =
    (Inr (), w\<lparr>km_backends := foldl (\<lambda>xs i. xs[unat i := g i]) (km_backends w) is\<rparr>)"
  using assms
proof (induction "is" arbitrary: w)
  case Nil
  then show ?case by (simp add: returnC_def)
next
  case (Cons i "is")
  let ?u = "w\<lparr>km_backends := (km_backends w)[unat i := g i]\<rparr>"
  have u: "writeBackend kernel_store i (g i) w = (Inr (), ?u)"
    using Cons.prems by (simp add: store_defs)
  have "forC is (\<lambda>i. writeBackend kernel_store i (g i)) ?u =
      (Inr (), ?u\<lparr>km_backends := foldl (\<lambda>xs i. xs[unat i := g i]) (km_backends ?u) is\<rparr>)"
    using Cons.prems by (intro Cons.IH) auto
  then show ?case
    unfolding forC.simps thenC_run[of "writeBackend kernel_store i (g i)", OF u] by simp
qed

lemma length_foldl_update:
  "length (foldl (\<lambda>xs i. xs[unat i := g i]) xs is) = length xs"
  by (induction "is" arbitrary: xs) simp_all

lemma nth_foldl_update_other:
  "(j :: u32) \<notin> set is \<Longrightarrow> foldl (\<lambda>xs i. xs[unat i := g i]) xs is ! unat j = xs ! unat j"
  by (induction "is" arbitrary: xs) (auto simp: nth_list_update_if simp flip: word_unat_eq_iff)

lemma nth_foldl_update:
  "(j :: u32) \<in> set is \<Longrightarrow> unat j < length xs \<Longrightarrow>
   foldl (\<lambda>xs i. xs[unat i := g i]) xs is ! unat j = g j"
proof (induction "is" arbitrary: xs)
  case (Cons i "is")
  show ?case
  proof (cases "j \<in> set is")
    case True
    with Cons show ?thesis by simp
  next
    case False
    with Cons.prems show ?thesis by (simp add: nth_foldl_update_other)
  qed
qed simp

lemma kernel_check_loop:
  assumes "km_faults w = []" and "\<forall>i \<in> set is. unat i < length (km_backends w) \<and> km_backends w ! unat i = g i"
  shows "forC is (\<lambda>i. bindC (readBackend kernel_store i) (\<lambda>actual.
      if actual \<noteq> g i then throwC e else returnC ())) w = (Inr (), w)"
  using assms
proof (induction "is")
  case Nil
  then show ?case by (simp add: returnC_def)
next
  case (Cons i "is")
  have "readBackend kernel_store i w = (Inr (g i), w)" using Cons.prems by (simp add: store_defs)
  then have "bindC (readBackend kernel_store i) (\<lambda>actual. if actual \<noteq> g i then throwC e else returnC ()) w =
      (Inr (), w)" by (simp add: bindC_def returnC_def)
  with Cons show ?case by (simp add: thenC_def bindC_def)
qed

lemma kernel_synchronize:
  assumes "km_faults w = []" "\<not> km_backendsFrozen w" "\<not> km_configFrozen w" "length (km_backends w) = 64"
  shows "\<exists>w'. synchronize_maps kernel_store zero backends config w = (Inr (), w')"
proof -
  let ?g = "slot zero backends"
  let ?bs = "foldl (\<lambda>xs i. xs[unat i := ?g i]) (km_backends w) all_slots"
  let ?w = "w\<lparr>km_backends := ?bs\<rparr>"
  have wr: "forC all_slots (\<lambda>i. writeBackend kernel_store i (?g i)) w = (Inr (), ?w)"
    using assms by (intro kernel_write_loop) (auto simp: set_all_slots)
  let ?w2 = "?w\<lparr>km_config := config\<rparr>"
  have len: "length ?bs = 64" using assms(4) by (simp add: length_foldl_update)
  have cfg: "writeConfig kernel_store config ?w = (Inr (), ?w2)" "readConfig kernel_store ?w2 = (Inr config, ?w2)"
    using assms by (simp_all add: store_defs)
  have chk: "forC all_slots (\<lambda>i. bindC (readBackend kernel_store i) (\<lambda>actual.
      if actual \<noteq> ?g i then throwC (RuntimeError ''backend readback mismatch'') else returnC ())) ?w2 = (Inr (), ?w2)"
    using assms len by (intro kernel_check_loop) (simp_all add: set_all_slots nth_foldl_update)
  have "\<exists>w'. thenC (freezeBackends kernel_store) (freezeConfig kernel_store) ?w2 = (Inr (), w')"
    using assms by (simp add: store_defs)
  then show ?thesis
    unfolding synchronize_maps_def by (simp add: wr cfg chk)
qed

section \<open>A parsed DSR configuration passes the synchronization checks\<close>

definition dsr_backend_ok :: "UdpDsrBackendValue \<Rightarrow> bool" where
  "dsr_backend_ok b \<longleftrightarrow> db_ifindex b \<noteq> 0 \<and> validMac (db_destinationMac b) \<and> validMac (db_sourceMac b)"

text \<open>Linux numbers network interfaces from one.\<close>

definition positive_ifindex :: "'w interface_env \<Rightarrow> bool" where
  "positive_ifindex env \<longleftrightarrow> (\<forall>name w i w'. ie_index env name w = (Inr (Some i), w') \<longrightarrow> i \<noteq> 0)"

lemma inspectInterface_ok:
  "inspectInterface env name w = (Inr info, w') \<Longrightarrow> positive_ifindex env \<Longrightarrow>
   if_index info \<noteq> 0 \<and> validMac (if_mac info)"
  by (auto simp: inspectInterface_def positive_ifindex_def split: if_splits option.splits prod.splits)

lemma parseMac_valid: "parseMac txt = Inr m \<Longrightarrow> validMac m"
  by (auto simp: parseMac_def split: if_splits list.splits option.splits)

lemma parse_targets_ok:
  "parse_targets ts = Inr out \<Longrightarrow> length out = length ts \<and> list_all (\<lambda>(n, m). validMac m) out"
  by (induction ts arbitrary: out) (auto split: option.splits sum.splits dest: parseMac_valid)

lemma resolve_targets_ok:
  assumes "resolve_targets env input ts bs w = (Inr out, w')" and "positive_ifindex env"
    and "list_all (\<lambda>(n, m). validMac m) ts" and "list_all dsr_backend_ok bs" and "distinct bs"
    and "\<forall>b \<in> set bs. db_ifindex b \<noteq> input"
  shows "length out = length bs + length ts \<and> list_all dsr_backend_ok out \<and> distinct out \<and>
    (\<forall>b \<in> set out. db_ifindex b \<noteq> input)"
  using assms
proof (induction ts arbitrary: bs w)
  case Nil
  then show ?case by simp
next
  case (Cons t ts)
  obtain name m where t: "t = (name, m)" by (cases t)
  from Cons.prems(1) t obtain info u where info: "inspectInterface env name w = (Inr info, u)"
    "if_index info \<noteq> input" "(if_index info, m) \<notin> (\<lambda>b. (db_ifindex b, db_destinationMac b)) ` set bs"
    and rest: "resolve_targets env input ts (bs @
      [\<lparr>db_ifindex = if_index info, db_destinationMac = m, db_sourceMac = if_mac info\<rparr>]) u = (Inr out, w')"
    by (auto split: if_splits)
  from inspectInterface_ok[OF info(1) Cons.prems(2)] Cons.prems(3) t
  have "dsr_backend_ok \<lparr>db_ifindex = if_index info, db_destinationMac = m, db_sourceMac = if_mac info\<rparr>"
    by (simp add: dsr_backend_ok_def)
  moreover have "\<lparr>db_ifindex = if_index info, db_destinationMac = m, db_sourceMac = if_mac info\<rparr> \<notin> set bs"
    using info(3) by (metis (mono_tags, lifting) UdpDsrBackendValue.select_convs(1,2) image_eqI)
  ultimately show ?case
    using Cons.IH[OF rest Cons.prems(2)] Cons.prems info(2) t by simp
qed

lemma parseDsrConfiguration_ok:
  assumes run: "parseDsrConfiguration inet_pton env ingress vip targets w = (Inr c, w')"
    and pos: "positive_ifindex env"
  shows "dsr_configuration_valid c \<and> length (dsr_backends c) \<le> 64 \<and> list_all dsr_backend_ok (dsr_backends c) \<and>
    distinct (dsr_backends c)"
proof -
  from run obtain es parsed ifindex u bs where
    vip: "parseXdpBackends inet_pton [vip] = Inr es" and n: "length targets \<le> 64" and
    ts: "parse_targets targets = Inr parsed" and
    bs: "resolve_targets env ifindex parsed [] u = (Inr bs, w')" and
    c: "c = \<lparr>dsr_config = \<lparr>dc_schemaVersion = 2, dc_backendCount = of_nat (length targets),
          dc_vipAddress = xb_address (hd es), dc_vipPort = xb_port (hd es), dc_reserved = 0\<rparr>,
        dsr_backends = bs\<rparr>"
    by (auto simp: parseDsrConfiguration_def not_less split: sum.splits if_splits)
  from parseXdpBackends_ok[OF vip] have "xdp_backend_ok (hd es)" by (cases es) auto
  moreover from resolve_targets_ok[OF bs pos] parse_targets_ok[OF ts]
  have "length bs = length targets" "list_all dsr_backend_ok bs" "distinct bs" by simp_all
  moreover have "unat (of_nat (length targets) :: u32) = length targets"
    using n by (simp add: unat_of_nat)
  ultimately show ?thesis
    using n c by (simp add: dsr_configuration_valid_def xdp_backend_ok_def)
qed

lemma synchronizeDsr_unfold:
  assumes "dsr_configuration_valid c" "length (dsr_backends c) \<le> 64" "list_all dsr_backend_ok (dsr_backends c)"
  shows "synchronizeDsrConfig store c =
    synchronize_maps store zero_dsr_backend (dsr_backends c) (dsr_config c)"
  using assms by (auto simp: synchronizeDsrConfig_def list_all_iff dsr_backend_ok_def)

lemma synchronizeDsr_checked:
  assumes "synchronizeDsrConfig store c w = (Inr (), w')"
  shows "dsr_configuration_valid c \<and> length (dsr_backends c) \<le> 64 \<and> list_all dsr_backend_ok (dsr_backends c) \<and>
    synchronize_maps store zero_dsr_backend (dsr_backends c) (dsr_config c) w = (Inr (), w')"
  using assms by (auto simp: synchronizeDsrConfig_def list_all_iff dsr_backend_ok_def split: if_splits)

section \<open>Properties\<close>

text \<open>
  Parsing backend literals keeps their order and number; every accepted backend is a
  unicast address with a non-zero port and zero padding, there are no duplicates and at most 64.
\<close>

theorem parseXdpBackends_valid:
  assumes "parseXdpBackends inet_pton endpoints = Inr backends"
  shows "length backends = length endpoints \<and> length endpoints \<le> 64 \<and> distinct backends \<and>
    (\<forall>b \<in> set backends. unicast_host (ntohl (xb_address b)) \<and> xb_port b \<noteq> 0 \<and> xb_reserved b = 0)"
  using parseXdpBackends_ok[OF assms] by (auto simp: list_all_iff xdp_backend_ok_def)

theorem parseXdpBackends_valid_witness:
  "\<exists>bs. parseXdpBackends (\<lambda>t. if t = ''10.0.0.1'' then Some 16777226 else None)
      [''10.0.0.1:80'', ''10.0.0.1:81''] = Inr bs \<and> distinct bs \<and> length bs = 2"
proof -
  let ?pton = "\<lambda>t. if t = ''10.0.0.1'' then Some 16777226 else None"
  have "\<exists>bs. parseXdpBackends ?pton [''10.0.0.1:80'', ''10.0.0.1:81''] = Inr bs"
    by (simp add: parseXdpBackends_def parse_xdp_backend_def from_chars_def dec_digit_def is_digit_def
        digit_value_def unicast_host_def ntohl_def htons_def Let_def)
  then obtain bs where bs: "parseXdpBackends ?pton [''10.0.0.1:80'', ''10.0.0.1:81''] = Inr bs" by blast
  from parseXdpBackends_valid[OF bs] bs show ?thesis by auto
qed

text \<open>
  Every valid MAC address is parsed back from its printed form; a multicast or
  all-zero address is refused in that same form.
\<close>

theorem parseMac_format_mac:
  "parseMac (format_mac m) = (if validMac m then Inr m
     else Inl (InvalidArgument ''MAC must be nonzero unicast''))"
  by (rule parseMac_format)

text \<open>
  On any store whose reads and freezes are sound, a synchronization of the v1 maps that
  returns leaves the schema version and the number of backends in the configuration, the
  backends in order in the first slots and zeros in the rest, and both maps frozen, whatever
  the writes did.
\<close>

theorem synchronizeXdpConfig_publishes:
  assumes "config_maps store backend_at config_at backends_frozen config_frozen"
    and "synchronizeXdpConfig store backends w = (Inr (), w')"
  shows "length backends \<le> 64 \<and>
    config_at w' = \<lparr>xc_schemaVersion = 1, xc_backendCount = of_nat (length backends)\<rparr> \<and>
    (\<forall>i. unat i < 64 \<longrightarrow> backend_at w' i = slot zero_xdp_backend backends i) \<and>
    backends_frozen w' \<and> config_frozen w'"
proof -
  from assms(2) have len: "length backends \<le> 64"
    and run: "synchronize_maps store zero_xdp_backend backends
      \<lparr>xc_schemaVersion = 1, xc_backendCount = of_nat (length backends)\<rparr> w = (Inr (), w')"
    by (auto simp: synchronizeXdpConfig_def split: if_splits)
  from config_maps.synchronize_publishes[OF assms(1) run] len show ?thesis by simp
qed

definition fresh_kernel :: "'c \<Rightarrow> 'b \<Rightarrow> ('c, 'b) kernel_maps" where
  "fresh_kernel c b = \<lparr>km_config = c, km_backends = replicate 64 b, km_configFrozen = False,
     km_backendsFrozen = False, km_faults = []\<rparr>"

theorem synchronizeXdpConfig_publishes_witness:
  "\<exists>w'. synchronizeXdpConfig kernel_store [\<lparr>xb_address = 16777226, xb_port = 13568, xb_reserved = 0\<rparr>]
      (fresh_kernel \<lparr>xc_schemaVersion = 0, xc_backendCount = 0\<rparr> zero_xdp_backend) = (Inr (), w') \<and>
     km_config w' = \<lparr>xc_schemaVersion = 1, xc_backendCount = 1\<rparr> \<and> km_configFrozen w'"
proof -
  let ?bs = "[\<lparr>xb_address = 16777226, xb_port = 13568, xb_reserved = 0\<rparr>] :: XdpBackendValue list"
  let ?w = "fresh_kernel \<lparr>xc_schemaVersion = 0, xc_backendCount = 0\<rparr> zero_xdp_backend"
  obtain w' where w': "synchronizeXdpConfig kernel_store ?bs ?w = (Inr (), w')"
    using kernel_synchronize[of ?w] by (fastforce simp: synchronizeXdpConfig_def fresh_kernel_def)
  from synchronizeXdpConfig_publishes[OF kernel.config_maps_axioms w'] w' show ?thesis by auto
qed

text \<open>
  Claim C3. End to end for the static DSR profile: whatever configuration the parser accepts
  passes the synchronizer's own checks, on fresh kernel maps without failures the
  synchronization returns, and with the maps it leaves the XDP program never takes the
  invalid-configuration exit, for any packet and any helper result.
\<close>

theorem parsed_dsr_never_invalid:
  assumes "positive_ifindex env"
    and "parseDsrConfiguration inet_pton env ingress vip targets w = (Inr c, w')"
    and "km_faults k = []" "\<not> km_backendsFrozen k" "\<not> km_configFrozen k" "length (km_backends k) = 64"
  shows "\<exists>k'. synchronizeDsrConfig kernel_store c k = (Inr (), k') \<and>
    (\<forall>redirectPacket s. ds_invalidConfigPackets (px_stats (snd (xdp_udp_dsr True (Some (km_config k'))
        (map (\<lambda>i. km_backends k' ! unat i) all_slots) redirectPacket s))) =
      ds_invalidConfigPackets (px_stats s))"
proof -
  note ok = parseDsrConfiguration_ok[OF assms(2,1)]
  obtain k' where k': "synchronize_maps kernel_store zero_dsr_backend (dsr_backends c) (dsr_config c) k = (Inr (), k')"
    using kernel_synchronize[OF assms(3-6)] by blast
  note maps = kernel.synchronize_publishes[OF k']
  have count: "dc_backendCount (dsr_config c) \<le> 64"
    using ok by (simp add: dsr_configuration_valid_def word_le_nat_alt)
  have slots: "array_lookup (map (\<lambda>i. km_backends k' ! unat i) all_slots) i = Some (dsr_backends c ! unat i)"
    if "unat i < length (dsr_backends c)" for i
    using that maps ok by (simp add: array_lookup_def all_slots_def slot_def)
  have "dsr_outcome_of (Some (km_config k')) (map (\<lambda>i. km_backends k' ! unat i) all_slots) redirectPacket p \<noteq>
      InvalidConfig" for redirectPacket p
  proof -
    let ?n = "dc_backendCount (dsr_config c)"
    have "backend_outcome redirectPacket (array_lookup (map (\<lambda>i. km_backends k' ! unat i) all_slots)
        (frame_hash p mod ?n)) \<noteq> InvalidConfig" if "?n \<noteq> 0"
    proof -
      have i: "unat (frame_hash p mod ?n) < length (dsr_backends c)"
        using that ok by (simp add: unat_mod_distrib dsr_configuration_valid_def flip: unat_gt_0)
      then have "dsr_backend_ok (dsr_backends c ! unat (frame_hash p mod ?n))"
        using ok by (simp add: list_all_length)
      then show ?thesis by (simp add: slots[OF i] backend_outcome_def dsr_backend_ok_def)
    qed
    with maps ok count show ?thesis
      by (auto simp: dsr_outcome_of_def dsr_configuration_valid_def)
  qed
  then have "ds_invalidConfigPackets (px_stats (snd (xdp_udp_dsr True (Some (km_config k'))
        (map (\<lambda>i. km_backends k' ! unat i) all_slots) redirectPacket s))) =
      ds_invalidConfigPackets (px_stats s)" for redirectPacket s
    by (cases "dsr_outcome_of (Some (km_config k')) (map (\<lambda>i. km_backends k' ! unat i) all_slots) redirectPacket (px_data s)")
       (simp_all add: xdp_udp_dsr_run Let_def outcome_state_def outcome_stats_def)
  with k' ok show ?thesis by (auto simp: synchronizeDsr_unfold)
qed

text \<open>A host with the interfaces \<open>eth0\<close> and \<open>eth1\<close>.\<close>

definition two_interfaces :: "unit interface_env" where
  "two_interfaces = \<lparr>ie_socket = returnC True,
     ie_index = \<lambda>n. returnC (if n = ''eth0'' then Some 2 else if n = ''eth1'' then Some 3 else None),
     ie_flags = \<lambda>n. returnC (Some 1), ie_mtu = \<lambda>n. returnC (Some 1500),
     ie_hwaddr = \<lambda>n. returnC (Some (1, (2, 0, 0, 0, 0, 7)))\<rparr>"

lemma two_interfaces_positive: "positive_ifindex two_interfaces"
  by (auto simp: positive_ifindex_def two_interfaces_def split: if_splits)

lemma two_interfaces_parse:
  "\<exists>c. parseDsrConfiguration (\<lambda>t. Some 16777226) two_interfaces ''eth0'' ''10.0.0.1:53''
      [''eth1@02:00:00:00:01:01''] () = (Inr c, ())"
proof -
  have "format_mac (2, 0, 0, 0, 1, 1) = ''02:00:00:00:01:01''"
    by (simp add: format_mac_def format_octet_def hex_char_def)
  with parseMac_format[of "(2, 0, 0, 0, 1, 1)"]
  have m: "parseMac ''02:00:00:00:01:01'' = Inr (2, 0, 0, 0, 1, 1)" by (simp add: validMac_def)
  show ?thesis
    by (simp add: parseDsrConfiguration_def parseXdpBackends_def parse_xdp_backend_def from_chars_def
        dec_digit_def is_digit_def digit_value_def unicast_host_def ntohl_def htons_def Let_def m
        inspectInterface_def two_interfaces_def comp_defs validMac_def)
qed

theorem parsed_dsr_never_invalid_witness:
  "\<exists>c k'. parseDsrConfiguration (\<lambda>t. Some 16777226) two_interfaces ''eth0'' ''10.0.0.1:53''
      [''eth1@02:00:00:00:01:01''] () = (Inr c, ()) \<and>
     synchronizeDsrConfig kernel_store c (fresh_kernel sample_dsr_config zero_dsr_backend) = (Inr (), k')"
proof -
  obtain c where c: "parseDsrConfiguration (\<lambda>t. Some 16777226) two_interfaces ''eth0'' ''10.0.0.1:53''
      [''eth1@02:00:00:00:01:01''] () = (Inr c, ())"
    using two_interfaces_parse by blast
  from parsed_dsr_never_invalid[OF two_interfaces_positive c, of "fresh_kernel sample_dsr_config zero_dsr_backend"] c
  show ?thesis by (auto simp: fresh_kernel_def)
qed

end
