(* ===== verification/UdpProbeChecker.thy ===== *)
theory UdpProbeChecker
  imports HealthState XdpMaps
begin

unbundle bit_operations_syntax

text \<open>
  The UDP echo prober of the XDP runtime: \<open>src/health/UdpProbeChecker.h\<close> and
  \<open>src/health/UdpProbeChecker.cpp\<close>. The transport, the nonce source and the completion clock
  are abstract classes of the source, so they are parameters over an abstract world and may
  throw; the socket transport and the nonce sequence the source provides are modelled below.
  A socket handle is an integer, negative when there is none, as in the source.
\<close>

section \<open>Data\<close>

text \<open>\<open>ProbeState\<close> has the enumerators of \<open>HealthStatus\<close>, in the same order.\<close>

type_synonym ProbeState = HealthStatus

record ProbeTarget =
  pt_id :: string
  pt_interfaceName :: string
  pt_ifindex :: u32
  pt_sourceMac :: mac
  pt_destinationMac :: mac
  pt_probeAddress :: u32
  pt_probePort :: u16

record ProbeSnapshot =
  sn_target :: ProbeTarget
  sn_state :: ProbeState
  sn_consecutiveSuccesses :: nat
  sn_consecutiveFailures :: nat

record ProbeTransition =
  pr_id :: string
  pr_from :: ProbeState
  pr_to :: ProbeState
  pr_reason :: string
  pr_error :: errno

record ProbeIoResult =
  io_bytes :: int
  io_error :: errno

record Probe =
  up_snapshot :: ProbeSnapshot
  up_handle :: int
  up_awaitingReply :: bool
  up_token :: "u8 list"
  up_nextProbeTime :: time
  up_probeDeadline :: time

text \<open>\<open>uc_transitions\<close> is the vector one poll collects and its helpers append to.\<close>

record 'w UdpProbeChecker =
  uc_probes :: "Probe list"
  uc_lastPollTime :: time
  uc_hasPolled :: bool
  uc_receiveCursor :: nat
  uc_lastReceiveEventCount :: nat
  uc_transitions :: "ProbeTransition list"
  uc_world :: 'w

record 'w probe_env =
  pv_open :: "ProbeTarget \<Rightarrow> 'w \<Rightarrow> (exn + int) \<times> 'w"
  pv_close :: "int \<Rightarrow> 'w \<Rightarrow> 'w"
  pv_send :: "int \<Rightarrow> u8 list \<Rightarrow> 'w \<Rightarrow> (exn + ProbeIoResult) \<times> 'w"
  pv_receive :: "int \<Rightarrow> nat \<Rightarrow> 'w \<Rightarrow> (exn + ProbeIoResult \<times> u8 list) \<times> 'w"
  pv_nonce :: "'w \<Rightarrow> (exn + u8 list) \<times> 'w"
  pv_completed :: "time \<Rightarrow> 'w \<Rightarrow> (exn + time) \<times> 'w"

definition probe_interval :: time where "probe_interval = seconds 1"

definition probe_timeout :: time where "probe_timeout = ms 500"

definition kReceiveBudget :: nat where "kReceiveBudget = 256"

definition callP :: "('w \<Rightarrow> (exn + 'a) \<times> 'w) \<Rightarrow> ('w UdpProbeChecker, 'a) comp" where
  "callP f s = (case f (uc_world s) of (r, w) \<Rightarrow> (r, s\<lparr>uc_world := w\<rparr>))"

definition theProbe :: "nat \<Rightarrow> ('w UdpProbeChecker, Probe) comp" where
  "theProbe i = getC (\<lambda>s. uc_probes s ! i)"

definition modProbe :: "nat \<Rightarrow> (Probe \<Rightarrow> Probe) \<Rightarrow> ('w UdpProbeChecker, unit) comp" where
  "modProbe i f = modifyC (\<lambda>s. s\<lparr>uc_probes := (uc_probes s)[i := f (uc_probes s ! i)]\<rparr>)"

section \<open>Identity and results\<close>

definition probeStateName :: "ProbeState \<Rightarrow> string" where
  "probeStateName state =
     (case state of kUnknown \<Rightarrow> ''Unknown'' | kHealthy \<Rightarrow> ''Healthy'' | kUnhealthy \<Rightarrow> ''Unhealthy'')"

definition sameProbeIdentity :: "ProbeTarget \<Rightarrow> ProbeTarget \<Rightarrow> bool" where
  "sameProbeIdentity first second \<longleftrightarrow> pt_id first = pt_id second \<and> pt_ifindex first = pt_ifindex second \<and>
     pt_sourceMac first = pt_sourceMac second \<and> pt_destinationMac first = pt_destinationMac second \<and>
     pt_probeAddress first = pt_probeAddress second \<and> pt_probePort first = pt_probePort second"

definition isLocalProbeError :: "errno \<Rightarrow> bool" where
  "isLocalProbeError error \<longleftrightarrow> error = ENOBUFS \<or> error = ENOMEM \<or> error = EMFILE \<or> error = ENFILE \<or>
     error = EAGAIN \<or> error = EINTR \<or> error = EADDRNOTAVAIL \<or> error = EACCES \<or> error = EPERM"

definition validateProbeIoResult :: "ProbeIoResult \<Rightarrow> ('w UdpProbeChecker, unit) comp" where
  "validateProbeIoResult r =
     (if 0 \<le> io_bytes r \<and> io_error r \<noteq> 0 \<or> io_bytes r < 0 \<and> io_error r = 0 \<or> io_error r = EBADF \<or>
         io_error r = ENOTSOCK \<or> io_error r = EFAULT \<or> io_error r = EINVAL
      then throwC (RuntimeError ''probe transport invariant failed'') else returnC ())"

text \<open>The health rule of \<open>completeProbeResult\<close>.\<close>

definition apply_result :: "bool \<Rightarrow> ProbeSnapshot \<Rightarrow> ProbeSnapshot" where
  "apply_result success n =
     (if success
      then let s = min (sn_consecutiveSuccesses n + 1) 2
           in n\<lparr>sn_consecutiveFailures := 0, sn_consecutiveSuccesses := s,
                sn_state := (if s = 2 then kHealthy else sn_state n)\<rparr>
      else let f = min (sn_consecutiveFailures n + 1) 3
           in n\<lparr>sn_consecutiveSuccesses := 0, sn_consecutiveFailures := f,
                sn_state := (if f = 3 then kUnhealthy else sn_state n)\<rparr>)"

interpretation udp_probe: threshold_monitor apply_result sn_state sn_consecutiveSuccesses
  sn_consecutiveFailures
  by unfold_locales (simp_all add: apply_result_def Let_def)

definition zero_packet :: "u8 list" where
  "zero_packet = replicate 24 0"

definition settled :: "Probe \<Rightarrow> bool \<Rightarrow> Probe" where
  "settled p success = p\<lparr>up_awaitingReply := False, up_token := zero_packet,
     up_snapshot := apply_result success (up_snapshot p)\<rparr>"

definition transition_of :: "Probe \<Rightarrow> bool \<Rightarrow> string \<Rightarrow> errno \<Rightarrow> ProbeTransition list" where
  "transition_of p success reason error =
     (let old = up_snapshot p; new = apply_result success old in
      if sn_state old \<noteq> sn_state new
      then [\<lparr>pr_id = pt_id (sn_target new), pr_from = sn_state old, pr_to = sn_state new,
             pr_reason = reason, pr_error = error\<rparr>]
      else [])"

definition completeProbeResult ::
  "nat \<Rightarrow> bool \<Rightarrow> string \<Rightarrow> errno \<Rightarrow> ('w UdpProbeChecker, unit) comp" where
  "completeProbeResult i success reason error = modifyC (\<lambda>s. s\<lparr>
     uc_probes := (uc_probes s)[i := settled (uc_probes s ! i) success],
     uc_transitions := uc_transitions s @ transition_of (uc_probes s ! i) success reason error\<rparr>)"

section \<open>Cancelling\<close>

definition cancelled :: "Probe \<Rightarrow> Probe" where
  "cancelled p = p\<lparr>up_awaitingReply := False, up_token := zero_packet, up_handle := - 1\<rparr>"

definition close_handle :: "'w probe_env \<Rightarrow> Probe \<Rightarrow> 'w \<Rightarrow> 'w" where
  "close_handle env p = (if 0 \<le> up_handle p then pv_close env (up_handle p) else (\<lambda>w. w))"

definition cancelAllProbes :: "'w probe_env \<Rightarrow> 'w UdpProbeChecker \<Rightarrow> 'w UdpProbeChecker" where
  "cancelAllProbes env s = s\<lparr>uc_probes := map cancelled (uc_probes s),
     uc_world := fold (close_handle env) (uc_probes s) (uc_world s)\<rparr>"

text \<open>\<open>try { m } catch (...) { cancelAllProbes(); throw; }\<close>, and the destructor.\<close>

definition or_cancel :: "'w probe_env \<Rightarrow> ('w UdpProbeChecker, 'a) comp \<Rightarrow> ('w UdpProbeChecker, 'a) comp" where
  "or_cancel env m = catchC m (\<lambda>e. thenC (modifyC (cancelAllProbes env)) (throwC e))"

definition destroyUdpProbeChecker :: "'w probe_env \<Rightarrow> 'w UdpProbeChecker \<Rightarrow> 'w UdpProbeChecker" where
  "destroyUdpProbeChecker = cancelAllProbes"

section \<open>Construction\<close>

fun targets_valid :: "ProbeTarget list \<Rightarrow> string set \<Rightarrow> bool" where
  "targets_valid [] ids \<longleftrightarrow> True"
| "targets_valid (target # targets) ids \<longleftrightarrow>
     \<not> (pt_id target = [] \<or> pt_id target \<in> ids \<or> pt_ifindex target = 0 \<or> pt_interfaceName target = [] \<or>
        16 \<le> length (pt_interfaceName target) \<or> pt_probeAddress target = 0 \<or> pt_probePort target = 0) \<and>
     targets_valid targets (insert (pt_id target) ids)"

definition new_probe :: "ProbeTarget \<Rightarrow> Probe" where
  "new_probe target = \<lparr>up_snapshot = \<lparr>sn_target = target, sn_state = kUnknown, sn_consecutiveSuccesses = 0,
     sn_consecutiveFailures = 0\<rparr>, up_handle = - 1, up_awaitingReply = False, up_token = zero_packet,
     up_nextProbeTime = 0, up_probeDeadline = 0\<rparr>"

definition counters_valid :: "ProbeSnapshot \<Rightarrow> bool" where
  "counters_valid n \<longleftrightarrow> \<not> (2 < sn_consecutiveSuccesses n \<or> 3 < sn_consecutiveFailures n \<or>
     sn_consecutiveSuccesses n \<noteq> 0 \<and> sn_consecutiveFailures n \<noteq> 0)"

text \<open>A candidate probe takes over what an earlier checker knew of the same target.\<close>

definition import_probe :: "ProbeSnapshot list \<Rightarrow> ProbeTarget \<Rightarrow> exn + Probe" where
  "import_probe previous target =
     (case find (\<lambda>old. sameProbeIdentity target (sn_target old)) previous of
        None \<Rightarrow> Inr (new_probe target)
      | Some old \<Rightarrow>
          if \<not> counters_valid old then Inl (RuntimeError ''invalid imported probe counters'')
          else Inr ((new_probe target)\<lparr>up_snapshot := \<lparr>sn_target = target, sn_state = sn_state old,
            sn_consecutiveSuccesses = sn_consecutiveSuccesses old,
            sn_consecutiveFailures = sn_consecutiveFailures old\<rparr>\<rparr>))"

definition prepareProbe ::
  "'w probe_env \<Rightarrow> ProbeSnapshot list \<Rightarrow> ProbeTarget \<Rightarrow> ('w UdpProbeChecker, unit) comp" where
  "prepareProbe env previous target =
     (case import_probe previous target of
        Inl e \<Rightarrow> throwC e
      | Inr probe \<Rightarrow>
          thenC (modifyC (\<lambda>s. s\<lparr>uc_probes := uc_probes s @ [probe]\<rparr>))
         (bindC (callP (pv_open env target)) (\<lambda>handle.
          thenC (modifyC (\<lambda>s. s\<lparr>uc_probes := butlast (uc_probes s) @ [(last (uc_probes s))\<lparr>up_handle := handle\<rparr>]\<rparr>))
            (if handle < 0 then throwC (RuntimeError ''probe transport returned invalid handle'') else returnC ()))))"

definition emptyUdpProbeChecker :: "'w \<Rightarrow> 'w UdpProbeChecker" where
  "emptyUdpProbeChecker w = \<lparr>uc_probes = [], uc_lastPollTime = 0, uc_hasPolled = False, uc_receiveCursor = 0,
     uc_lastReceiveEventCount = 0, uc_transitions = [], uc_world = w\<rparr>"

definition constructUdpProbeChecker ::
  "'w probe_env \<Rightarrow> ProbeTarget list \<Rightarrow> ProbeSnapshot list \<Rightarrow> ('w UdpProbeChecker, unit) comp" where
  "constructUdpProbeChecker env targets previous =
     (if 64 < length targets then throwC (InvalidArgument ''probe target limit is 64'')
      else if \<not> targets_valid targets {} then throwC (InvalidArgument ''invalid or duplicate probe target'')
      else or_cancel env (forC targets (prepareProbe env previous)))"

section \<open>Polling\<close>

text \<open>The result of a send, the send of a probe that is due, and the body of the loop over the probes.\<close>

definition finishSend :: "nat \<Rightarrow> ProbeIoResult \<Rightarrow> ('w UdpProbeChecker, unit) comp" where
  "finishSend i sent =
     thenC (validateProbeIoResult sent)
       (if io_bytes sent \<noteq> 24 then
          (if 0 \<le> io_bytes sent then throwC (RuntimeError ''partial UDP probe send'')
           else completeProbeResult i False
                  (if isLocalProbeError (io_error sent) then ''local_error'' else ''target_error'') (io_error sent))
        else modProbe i (\<lambda>x. x\<lparr>up_awaitingReply := True\<rparr>))"

definition startProbe :: "'w probe_env \<Rightarrow> time \<Rightarrow> nat \<Rightarrow> int \<Rightarrow> ('w UdpProbeChecker, unit) comp" where
  "startProbe env pollTime i handle =
     bindC (callP (pv_nonce env)) (\<lambda>token.
     thenC (modProbe i (\<lambda>x. x\<lparr>up_token := token, up_nextProbeTime := pollTime + probe_interval,
              up_probeDeadline := pollTime + probe_timeout\<rparr>))
    (bindC (callP (pv_send env handle token)) (finishSend i)))"

definition sendDueProbePacket :: "'w probe_env \<Rightarrow> time \<Rightarrow> nat \<Rightarrow> ('w UdpProbeChecker, unit) comp" where
  "sendDueProbePacket env pollTime i =
     bindC (theProbe i) (\<lambda>p0.
     if up_handle p0 < 0 then throwC (RuntimeError ''probe checker has terminated'') else
     thenC (whenC (up_awaitingReply p0 \<and> up_probeDeadline p0 \<le> pollTime)
              (completeProbeResult i False ''timeout'' ETIMEDOUT))
    (bindC (theProbe i) (\<lambda>p.
     if up_awaitingReply p \<or> pollTime < up_nextProbeTime p then returnC ()
     else startProbe env pollTime i (up_handle p))))"

definition sendDueProbePackets :: "'w probe_env \<Rightarrow> time \<Rightarrow> ('w UdpProbeChecker, unit) comp" where
  "sendDueProbePackets env pollTime =
     bindC (getC (\<lambda>s. length (uc_probes s))) (\<lambda>n. forC [0..<n] (sendDueProbePacket env pollTime))"

text \<open>What a receive completed at \<open>completedAt\<close> means for the probe; false is \<open>break\<close>.\<close>

definition wouldBlock :: "ProbeIoResult \<Rightarrow> bool" where
  "wouldBlock received \<longleftrightarrow> io_bytes received < 0 \<and> (io_error received = EAGAIN \<or> io_error received = EWOULDBLOCK)"

definition judgeReply :: "nat \<Rightarrow> Probe \<Rightarrow> ProbeIoResult \<Rightarrow> u8 list \<Rightarrow> time \<Rightarrow> ('w UdpProbeChecker, bool) comp" where
  "judgeReply i p received reply completedAt =
     (if up_probeDeadline p \<le> completedAt
      then thenC (completeProbeResult i False ''timeout'' ETIMEDOUT) (returnC False)
      else if wouldBlock received then returnC False
      else if io_bytes received < 0 then
        (if io_error received = EINTR then returnC True
         else thenC (completeProbeResult i False
                (if isLocalProbeError (io_error received) then ''local_error'' else ''target_error'') (io_error received))
              (returnC False))
      else thenC (whenC (io_bytes received = 24 \<and> take 24 reply = up_token p)
                    (completeProbeResult i True ''success'' 0))
                 (returnC True))"

text \<open>The body of the \<open>while\<close> loop over one probe's replies.\<close>

definition receiveReply :: "'w probe_env \<Rightarrow> time \<Rightarrow> nat \<Rightarrow> Probe \<Rightarrow> ('w UdpProbeChecker, bool) comp" where
  "receiveReply env pollTime i p =
     bindC (callP (pv_receive env (up_handle p) 25)) (\<lambda>(received, reply).
     thenC (validateProbeIoResult received)
    (thenC (whenC (\<not> wouldBlock received)
              (modifyC (\<lambda>s. s\<lparr>uc_lastReceiveEventCount := uc_lastReceiveEventCount s + 1\<rparr>)))
    (bindC (callP (pv_completed env pollTime)) (\<lambda>completedAt.
     if completedAt < pollTime then throwC (RuntimeError ''probe completion clock moved backwards'')
     else judgeReply i p received reply completedAt))))"

text \<open>The loop itself; every turn that goes on uses up budget, so \<open>kReceiveBudget + 1\<close> turns are enough.\<close>

fun receive_replies :: "'w probe_env \<Rightarrow> time \<Rightarrow> nat \<Rightarrow> nat \<Rightarrow> ('w UdpProbeChecker, unit) comp" where
  "receive_replies env pollTime i 0 = throwC OutOfFuel"
| "receive_replies env pollTime i (Suc fuel) =
     bindC (theProbe i) (\<lambda>p.
     bindC (getC uc_lastReceiveEventCount) (\<lambda>events.
     if \<not> (up_awaitingReply p \<and> events < kReceiveBudget) then returnC () else
     bindC (receiveReply env pollTime i p) (\<lambda>continue.
     if continue then receive_replies env pollTime i fuel else returnC ())))"

fun receive_pass :: "'w probe_env \<Rightarrow> time \<Rightarrow> nat \<Rightarrow> nat list \<Rightarrow> ('w UdpProbeChecker, unit) comp" where
  "receive_pass env pollTime n [] = returnC ()"
| "receive_pass env pollTime n (offset # offsets) =
     bindC (getC (\<lambda>s. (uc_lastReceiveEventCount s, uc_receiveCursor s))) (\<lambda>(events, cursor).
     if kReceiveBudget \<le> events then returnC ()
     else thenC (receive_replies env pollTime ((cursor + offset) mod n) (kReceiveBudget + 1))
                (receive_pass env pollTime n offsets))"

definition receivePendingProbeReplies :: "'w probe_env \<Rightarrow> time \<Rightarrow> ('w UdpProbeChecker, unit) comp" where
  "receivePendingProbeReplies env pollTime =
     bindC (getC (\<lambda>s. length (uc_probes s))) (\<lambda>n.
     thenC (receive_pass env pollTime n [0..<n])
       (whenC (n \<noteq> 0) (modifyC (\<lambda>s. s\<lparr>uc_receiveCursor := (uc_receiveCursor s + 1) mod n\<rparr>))))"

definition pollProbeTransitions :: "'w probe_env \<Rightarrow> time \<Rightarrow> ('w UdpProbeChecker, ProbeTransition list) comp" where
  "pollProbeTransitions env pollTime =
     thenC (modifyC (\<lambda>s. s\<lparr>uc_transitions := []\<rparr>))
    (thenC (or_cancel env
       (bindC (getC (\<lambda>s. uc_hasPolled s \<and> pollTime < uc_lastPollTime s)) (\<lambda>backwards.
        if backwards then throwC (RuntimeError ''probe clock moved backwards'') else
        thenC (modifyC (\<lambda>s. s\<lparr>uc_lastPollTime := pollTime, uc_hasPolled := True, uc_lastReceiveEventCount := 0\<rparr>))
       (thenC (sendDueProbePackets env pollTime) (receivePendingProbeReplies env pollTime)))))
     (getC uc_transitions))"

section \<open>Queries\<close>

definition copyProbeSnapshots :: "'w UdpProbeChecker \<Rightarrow> ProbeSnapshot list" where
  "copyProbeSnapshots s = map up_snapshot (uc_probes s)"

definition copyHealthyProbeTargets :: "'w UdpProbeChecker \<Rightarrow> ProbeTarget list" where
  "copyHealthyProbeTargets s =
     map (\<lambda>p. sn_target (up_snapshot p)) (filter (\<lambda>p. sn_state (up_snapshot p) = kHealthy) (uc_probes s))"

definition time_max :: time where "time_max = 9223372036854775807"

definition nextProbeWakeup :: "'w UdpProbeChecker \<Rightarrow> time" where
  "nextProbeWakeup s = fold (\<lambda>p result. min result (if up_awaitingReply p then up_probeDeadline p else up_nextProbeTime p))
     (uc_probes s) time_max"

definition inFlightProbeCount :: "'w UdpProbeChecker \<Rightarrow> nat" where
  "inFlightProbeCount s = length (filter up_awaitingReply (uc_probes s))"

section \<open>The socket transport\<close>

text \<open>The system calls behind the default transport, over their own world.\<close>

record 'w probe_sys =
  sy_nametoindex :: "string \<Rightarrow> 'w \<Rightarrow> u32 \<times> 'w"
  sy_socket :: "'w \<Rightarrow> (errno + nat) \<times> 'w"
  sy_bindToDevice :: "nat \<Rightarrow> string \<Rightarrow> 'w \<Rightarrow> errno option \<times> 'w"
  sy_connect :: "nat \<Rightarrow> u32 \<Rightarrow> u16 \<Rightarrow> 'w \<Rightarrow> errno option \<times> 'w"
  sy_close :: "nat \<Rightarrow> 'w \<Rightarrow> 'w"
  sy_send :: "nat \<Rightarrow> u8 list \<Rightarrow> 'w \<Rightarrow> (errno + nat) \<times> 'w"
  sy_recv :: "nat \<Rightarrow> nat \<Rightarrow> 'w \<Rightarrow> (errno + nat \<times> u8 list) \<times> 'w"
  sy_now :: "'w \<Rightarrow> time \<times> 'w"
  sy_getrandom :: "nat \<Rightarrow> 'w \<Rightarrow> (errno + u8 list) \<times> 'w"

definition syscall :: "('w \<Rightarrow> 'a \<times> 'w) \<Rightarrow> ('w, 'a) comp" where
  "syscall f w = (case f w of (a, w') \<Rightarrow> (Inr a, w'))"

text \<open>\<open>setsockopt(...) || connect(...)\<close>: the second call only when the first one succeeds.\<close>

definition prepare_socket :: "'w probe_sys \<Rightarrow> nat \<Rightarrow> ProbeTarget \<Rightarrow> ('w, errno option) comp" where
  "prepare_socket sys fd target =
     bindC (syscall (sy_bindToDevice sys fd (pt_interfaceName target))) (\<lambda>r.
     if r \<noteq> None then returnC r
     else syscall (sy_connect sys fd (pt_probeAddress target) (pt_probePort target)))"

definition openProbeSocket :: "'w probe_sys \<Rightarrow> ProbeTarget \<Rightarrow> ('w, int) comp" where
  "openProbeSocket sys target =
     bindC (syscall (sy_nametoindex sys (pt_interfaceName target))) (\<lambda>index.
     if index \<noteq> pt_ifindex target then throwC (RuntimeError ''probe interface identity changed'') else
     bindC (syscall (sy_socket sys)) (\<lambda>opened.
     case opened of
       Inl e \<Rightarrow> throwC (SystemError ''probe socket'' e)
     | Inr fd \<Rightarrow>
         bindC (prepare_socket sys fd target) (\<lambda>r.
         case r of
           Some e \<Rightarrow> thenC (modifyC (sy_close sys fd)) (throwC (SystemError ''prepare bound UDP probe'' e))
         | None \<Rightarrow> returnC (int fd))))"

definition sendProbePacket :: "'w probe_sys \<Rightarrow> int \<Rightarrow> u8 list \<Rightarrow> ('w, ProbeIoResult) comp" where
  "sendProbePacket sys handle packet =
     bindC (syscall (sy_send sys (nat handle) packet)) (\<lambda>r. returnC (case r of
       Inl e \<Rightarrow> \<lparr>io_bytes = - 1, io_error = e\<rparr> | Inr n \<Rightarrow> \<lparr>io_bytes = int n, io_error = 0\<rparr>))"

text \<open>With \<open>MSG_TRUNC\<close> the count is the length of the datagram, whatever fits the buffer.\<close>

definition receiveProbePacket :: "'w probe_sys \<Rightarrow> int \<Rightarrow> nat \<Rightarrow> ('w, ProbeIoResult \<times> u8 list) comp" where
  "receiveProbePacket sys handle buffer_size =
     bindC (syscall (sy_recv sys (nat handle) buffer_size)) (\<lambda>r. returnC (case r of
       Inl e \<Rightarrow> (\<lparr>io_bytes = - 1, io_error = e\<rparr>, [])
     | Inr (n, bytes) \<Rightarrow> (\<lparr>io_bytes = int n, io_error = 0\<rparr>, take buffer_size bytes)))"

section \<open>Nonces\<close>

record ProbeNonceSequence =
  nq_epoch :: u64
  nq_lastSequence :: u64

definition be_bytes :: "u64 \<Rightarrow> u8 list" where
  "be_bytes w = map (\<lambda>index. ucast (drop_bit (56 - 8 * index) w)) [0..<8]"

definition probe_header :: "u8 list" where
  "probe_header = [0x4C, 0x34, 0x4C, 0x42, 0x48, 0x43, 0x30, 0x31]"

definition generateProbePacket :: "(ProbeNonceSequence, u8 list) comp" where
  "generateProbePacket =
     bindC (getC nq_lastSequence) (\<lambda>lastSequence.
     if lastSequence = - 1 then throwC (RuntimeError ''probe sequence exhausted'') else
     thenC (modifyC (\<lambda>s. s\<lparr>nq_lastSequence := lastSequence + 1\<rparr>))
       (getC (\<lambda>s. probe_header @ be_bytes (nq_epoch s) @ be_bytes (nq_lastSequence s))))"

text \<open>Eight random bytes, however \<open>getrandom\<close> splits them; only \<open>EINTR\<close> uses up fuel.\<close>

function random_bytes :: "'w probe_sys \<Rightarrow> nat \<Rightarrow> u8 list \<Rightarrow> ('w, u8 list) comp" where
  "random_bytes sys fuel bytes =
     (if 8 \<le> length bytes then returnC bytes else
      bindC (syscall (sy_getrandom sys (8 - length bytes))) (\<lambda>r.
      case r of
        Inl e \<Rightarrow>
          if e = EINTR then (case fuel of 0 \<Rightarrow> throwC OutOfFuel | Suc k \<Rightarrow> random_bytes sys k bytes)
          else throwC (SystemError ''probe random epoch'' e)
      | Inr chunk \<Rightarrow>
          if chunk = [] then throwC (SystemError ''probe random epoch'' EIO)
          else random_bytes sys fuel (bytes @ chunk)))"
  by pat_completeness auto

termination
  by (relation "measures [\<lambda>(sys, fuel, bytes). 8 - length bytes, \<lambda>(sys, fuel, bytes). fuel]")
     (auto simp: length_greater_0_conv[symmetric] simp del: length_greater_0_conv)

declare random_bytes.simps [simp del]

definition createRandomProbeEpoch :: "'w probe_sys \<Rightarrow> nat \<Rightarrow> ('w, u64) comp" where
  "createRandomProbeEpoch sys fuel = bindC (random_bytes sys fuel []) (\<lambda>bytes. returnC (le64 bytes))"

text \<open>
  The defaults of the constructor: sockets, the nonce sequence all checkers of the process share,
  and the steady clock, over a world made of the system's and the sequence.
\<close>

definition on_system :: "('w, 'a) comp \<Rightarrow> ('w \<times> 'n, 'a) comp" where
  "on_system m w = (case m (fst w) of (r, w') \<Rightarrow> (r, (w', snd w)))"

definition on_sequence :: "('n, 'a) comp \<Rightarrow> ('w \<times> 'n, 'a) comp" where
  "on_sequence m w = (case m (snd w) of (r, n) \<Rightarrow> (r, (fst w, n)))"

definition default_probe_env :: "'w probe_sys \<Rightarrow> ('w \<times> ProbeNonceSequence) probe_env" where
  "default_probe_env sys = \<lparr>pv_open = \<lambda>target. on_system (openProbeSocket sys target),
     pv_close = \<lambda>handle (w, n). (sy_close sys (nat handle) w, n),
     pv_send = \<lambda>handle packet. on_system (sendProbePacket sys handle packet),
     pv_receive = \<lambda>handle buffer_size. on_system (receiveProbePacket sys handle buffer_size),
     pv_nonce = on_sequence generateProbePacket,
     pv_completed = \<lambda>pollTime. on_system (syscall (sy_now sys))\<rparr>"

end
