(* ===== verification/UdpProbes.thy ===== *)
theory UdpProbes
  imports UdpProbeChecker Alists
begin

unbundle bit_operations_syntax

text \<open>
  What the UDP prober keeps and what one poll does: the probes stay well formed however a poll
  ends, a poll treats each probe as specified and reports exactly the changes of health it
  made, it always ends within its budget, and no nonce is used twice.
\<close>

section \<open>Elementary steps\<close>

lemma callP_iff [simp]:
  "callP f s = (r, t) \<longleftrightarrow> (\<exists>w. f (uc_world s) = (r, w) \<and> t = s\<lparr>uc_world := w\<rparr>)"
  by (auto simp: callP_def split: prod.splits)

lemma theProbe_iff [simp]: "theProbe i s = (r, t) \<longleftrightarrow> r = Inr (uc_probes s ! i) \<and> t = s"
  by (simp add: theProbe_def)

lemma whenC_Inr [simp]: "whenC b m s = (Inr (), t) \<longleftrightarrow> (if b then m s = (Inr (), t) else t = s)"
  by (auto simp: whenC_def)

lemma validate_iff [simp]: "validateProbeIoResult r s = (Inr (), t) \<Longrightarrow> t = s"
  by (auto simp: validateProbeIoResult_def split: if_splits)

text \<open>Predicates over \<open>n\<close> probes that the calls and the ends of probes cannot break.\<close>

definition steady :: "nat \<Rightarrow> ('w UdpProbeChecker \<Rightarrow> bool) \<Rightarrow> bool" where
  "steady n P \<longleftrightarrow> (\<forall>s. P s \<longrightarrow> length (uc_probes s) = n \<and> (\<forall>w. P (s\<lparr>uc_world := w\<rparr>)) \<and>
     (\<forall>k. P (s\<lparr>uc_lastReceiveEventCount := k\<rparr>)) \<and> (\<forall>c. P (s\<lparr>uc_receiveCursor := c\<rparr>)) \<and>
     (\<forall>t k. P (s\<lparr>uc_lastPollTime := t, uc_hasPolled := True, uc_lastReceiveEventCount := k\<rparr>)) \<and>
     (\<forall>i success reason error. i < n \<longrightarrow> P (snd (completeProbeResult i success reason error s))))"

lemma steadyI:
  assumes "\<And>s. P s \<Longrightarrow> length (uc_probes s) = n"
    and "\<And>s t. P s \<Longrightarrow> uc_probes t = uc_probes s \<Longrightarrow> uc_transitions t = uc_transitions s \<Longrightarrow> P t"
    and "\<And>s i success reason error. P s \<Longrightarrow> i < n \<Longrightarrow> P (snd (completeProbeResult i success reason error s))"
  shows "steady n P"
  unfolding steady_def by (intro allI impI conjI assms(1,3); (rule assms(2), assumption)?; simp)

lemma steady_rules:
  assumes "steady n P"
  shows "preserves P (callP f)" and "preserves P (theProbe i)" and "preserves P (validateProbeIoResult r)"
    and "preserves P (modifyC (\<lambda>s. s\<lparr>uc_lastReceiveEventCount := uc_lastReceiveEventCount s + 1\<rparr>))"
    and "preserves P (modifyC (\<lambda>s. s\<lparr>uc_receiveCursor := (uc_receiveCursor s + 1) mod m\<rparr>))"
    and "preserves P (modifyC (\<lambda>s. s\<lparr>uc_lastPollTime := t, uc_hasPolled := True, uc_lastReceiveEventCount := 0\<rparr>))"
    and "i < n \<Longrightarrow> preserves P (completeProbeResult i success reason error)"
  using assms unfolding steady_def validateProbeIoResult_def theProbe_def
  by (auto simp: preserves_def modifyC_def callP_def getC_def returnC_def throwC_def split: prod.splits)

lemma preserves_receive_replies:
  assumes "steady n P" and "i < n"
  shows "preserves P (receive_replies env pollTime i fuel)"
proof (induction fuel)
  case (Suc fuel)
  show ?case
    unfolding receive_replies.simps receiveReply_def judgeReply_def
    by (intro preserves_rules steady_rules[OF assms(1)] assms(2) Suc)
qed (simp add: preserves_throw)

lemma preserves_receive_pass:
  assumes "steady n P"
  shows "(\<And>k. k \<in> set offsets \<Longrightarrow> k < n) \<Longrightarrow> preserves P (receive_pass env pollTime n offsets)"
proof (induction offsets)
  case (Cons k ks)
  then have "0 < n" by fastforce
  then show ?case
    unfolding receive_pass.simps
    by (intro preserves_rules preserves_receive_replies[OF assms] Cons.IH) (simp_all add: Cons.prems)
qed (simp add: preserves_return)

lemma preserves_length_bind:
  assumes "steady n P" and "preserves P (k n)"
  shows "preserves P (bindC (getC (\<lambda>s. length (uc_probes s))) k)"
  using assms by (auto simp: steady_def preserves_def bindC_getC)

lemma preserves_receive:
  assumes "steady n P"
  shows "preserves P (receivePendingProbeReplies env pollTime)"
  unfolding receivePendingProbeReplies_def
  by (rule preserves_length_bind[OF assms])
     (intro preserves_rules preserves_receive_pass[OF assms] steady_rules[OF assms]; simp)

lemma preserves_send:
  assumes "steady n P" and "\<And>i. i < n \<Longrightarrow> preserves P (sendDueProbePacket env pollTime i)"
  shows "preserves P (sendDueProbePackets env pollTime)"
  unfolding sendDueProbePackets_def
  by (rule preserves_length_bind[OF assms(1)]) (intro preserves_rules assms(2); simp)

text \<open>If also the changes of the sending phase keep snapshots and handles, they keep the predicate.\<close>

definition neutral :: "(Probe \<Rightarrow> Probe) \<Rightarrow> bool" where
  "neutral f \<longleftrightarrow> (\<forall>p. up_snapshot (f p) = up_snapshot p \<and> up_handle (f p) = up_handle p)"

lemma preserves_send_neutral:
  assumes steady: "steady n P" and mod: "\<And>i f. neutral f \<Longrightarrow> preserves P (modProbe i f)" and "i < n"
  shows "preserves P (sendDueProbePacket env pollTime i)"
  unfolding sendDueProbePacket_def startProbe_def finishSend_def
  by (intro preserves_rules steady_rules[OF steady] assms(3) mod) (simp_all add: neutral_def)

section \<open>The probes stay well formed\<close>

definition snapshots_ok :: "ProbeTarget list \<Rightarrow> 'w UdpProbeChecker \<Rightarrow> bool" where
  "snapshots_ok targets s \<longleftrightarrow> map (\<lambda>p. sn_target (up_snapshot p)) (uc_probes s) = targets \<and>
     list_all (\<lambda>p. counters_valid (up_snapshot p)) (uc_probes s)"

text \<open>A probe whose socket is open; a reply is awaited for half the interval at most.\<close>

definition open_probe :: "Probe \<Rightarrow> bool" where
  "open_probe p \<longleftrightarrow> 0 \<le> up_handle p \<and>
     (up_awaitingReply p \<longrightarrow> up_nextProbeTime p = up_probeDeadline p + (probe_interval - probe_timeout))"

definition all_open :: "'w UdpProbeChecker \<Rightarrow> bool" where
  "all_open s \<longleftrightarrow> list_all open_probe (uc_probes s)"

definition all_closed :: "'w UdpProbeChecker \<Rightarrow> bool" where
  "all_closed s \<longleftrightarrow> list_all (\<lambda>p. up_handle p = - 1 \<and> \<not> up_awaitingReply p) (uc_probes s)"

lemma counters_apply: "counters_valid n \<Longrightarrow> counters_valid (apply_result success n)"
  by (auto simp: counters_valid_def apply_result_def Let_def)

lemma target_apply: "sn_target (apply_result success n) = sn_target n"
  by (simp add: apply_result_def Let_def)

lemma settled_simps [simp]:
  "up_snapshot (settled p success) = apply_result success (up_snapshot p)"
  "up_handle (settled p success) = up_handle p" "\<not> up_awaitingReply (settled p success)"
  "up_nextProbeTime (settled p success) = up_nextProbeTime p"
  by (simp_all add: settled_def)

lemma snd_complete:
  "snd (completeProbeResult i success reason error s) =
     s\<lparr>uc_probes := (uc_probes s)[i := settled (uc_probes s ! i) success],
       uc_transitions := uc_transitions s @ transition_of (uc_probes s ! i) success reason error\<rparr>"
  by (simp add: completeProbeResult_def modifyC_def)

lemma list_all_update: "list_all Q xs \<Longrightarrow> (i < length xs \<Longrightarrow> Q (xs ! i) \<Longrightarrow> Q x) \<Longrightarrow> list_all Q (xs[i := x])"
  by (auto simp: list_all_length nth_list_update_if)

lemma map_update_same: "(i < length xs \<Longrightarrow> f x = f (xs ! i)) \<Longrightarrow> map f (xs[i := x]) = map f xs"
  by (auto simp: list_eq_iff_nth_eq nth_list_update_if)

lemma snapshots_length: "snapshots_ok targets s \<Longrightarrow> length (uc_probes s) = length targets"
  by (auto simp: snapshots_ok_def)

lemma snapshots_update:
  assumes "snapshots_ok targets s" and "sn_target (up_snapshot p) = sn_target (up_snapshot (uc_probes s ! i))"
    and "counters_valid (up_snapshot (uc_probes s ! i)) \<Longrightarrow> counters_valid (up_snapshot p)"
    and "uc_probes t = (uc_probes s)[i := p]"
  shows "snapshots_ok targets t"
proof -
  have "map (\<lambda>p. sn_target (up_snapshot p)) (uc_probes t) = map (\<lambda>p. sn_target (up_snapshot p)) (uc_probes s)"
    unfolding assms(4) by (rule map_update_same) (simp add: assms(2))
  moreover have "list_all (\<lambda>p. counters_valid (up_snapshot p)) (uc_probes t)"
    unfolding assms(4) by (rule list_all_update) (use assms(1,3) in \<open>simp_all add: snapshots_ok_def\<close>)
  ultimately show ?thesis using assms(1) by (simp add: snapshots_ok_def)
qed

lemma steady_snapshots: "steady (length targets) (snapshots_ok targets)"
proof (rule steadyI)
  fix s :: "'w UdpProbeChecker" and i success reason error
  assume ok: "snapshots_ok targets s"
  show "snapshots_ok targets (snd (completeProbeResult i success reason error s))"
    by (rule snapshots_update[OF ok, of "settled (uc_probes s ! i) success" i])
       (simp_all add: snd_complete target_apply counters_apply)
qed (simp_all add: snapshots_ok_def snapshots_length[unfolded snapshots_ok_def])

lemma modProbe_snapshots: "neutral f \<Longrightarrow> preserves (snapshots_ok targets) (modProbe i f)"
  unfolding modProbe_def
  by (rule preserves_modify, erule snapshots_update[where i = i]) (simp_all add: neutral_def)

lemma open_update:
  assumes "all_open s" and "open_probe (uc_probes s ! i) \<Longrightarrow> open_probe p" and "uc_probes t = (uc_probes s)[i := p]"
  shows "all_open t"
  using assms unfolding all_open_def by (auto intro: list_all_update)

lemma open_settled: "open_probe p \<Longrightarrow> open_probe (settled p success)"
  by (simp add: open_probe_def)

definition opened_probes :: "nat \<Rightarrow> 'w UdpProbeChecker \<Rightarrow> bool" where
  "opened_probes n s \<longleftrightarrow> length (uc_probes s) = n \<and> all_open s"

lemma opened_complete:
  "opened_probes n s \<Longrightarrow> opened_probes n (snd (completeProbeResult i success reason error s))"
  using open_update[of s i "settled (uc_probes s ! i) success" "snd (completeProbeResult i success reason error s)"]
  by (simp add: opened_probes_def snd_complete open_settled)

lemma steady_open: "steady n (opened_probes n)"
  by (rule steadyI) (simp_all add: opened_complete, auto simp: opened_probes_def all_open_def)

text \<open>Between arming a probe and the end of its send, the times already fit a reply.\<close>

definition armed :: "nat \<Rightarrow> nat \<Rightarrow> 'w UdpProbeChecker \<Rightarrow> bool" where
  "armed n i s \<longleftrightarrow> opened_probes n s \<and> (i < n \<longrightarrow>
     up_nextProbeTime (uc_probes s ! i) = up_probeDeadline (uc_probes s ! i) + (probe_interval - probe_timeout))"

lemma steady_armed: "steady n (armed n i)"
  by (rule steadyI)
     (auto simp: armed_def opened_complete, auto simp: opened_probes_def all_open_def snd_complete nth_list_update_if settled_def)

lemma triple_arm_probe:
  "triple (opened_probes n) (modProbe i (\<lambda>x. x\<lparr>up_token := token, up_nextProbeTime := pollTime + probe_interval,
      up_probeDeadline := pollTime + probe_timeout\<rparr>)) (\<lambda>_. armed n i) (\<lambda>_. opened_probes n)"
proof (rule tripleI)
  fix s a t
  assume s: "opened_probes n s"
  let ?p = "(uc_probes s ! i)\<lparr>up_token := token, up_nextProbeTime := pollTime + probe_interval,
      up_probeDeadline := pollTime + probe_timeout\<rparr>"
  assume "modProbe i (\<lambda>x. x\<lparr>up_token := token, up_nextProbeTime := pollTime + probe_interval,
      up_probeDeadline := pollTime + probe_timeout\<rparr>) s = (Inr a, t)"
  then have t: "uc_probes t = (uc_probes s)[i := ?p]" by (auto simp: modProbe_def)
  have "all_open t"
    by (rule open_update[OF _ _ t]) (use s in \<open>simp_all add: opened_probes_def open_probe_def\<close>)
  with s t show "armed n i t" by (simp add: armed_def opened_probes_def)
qed (simp add: modProbe_def)

lemma preserves_await: "preserves (armed n i) (modProbe i (\<lambda>x. x\<lparr>up_awaitingReply := True\<rparr>))"
proof (rule preservesI)
  fix s r t
  assume s: "armed n i s" and "modProbe i (\<lambda>x. x\<lparr>up_awaitingReply := True\<rparr>) s = (r, t)"
  then have t: "uc_probes t = (uc_probes s)[i := (uc_probes s ! i)\<lparr>up_awaitingReply := True\<rparr>]"
    by (auto simp: modProbe_def)
  have "all_open t"
  proof (cases "i < n")
    case True
    with s show ?thesis by (intro open_update[OF _ _ t]) (simp_all add: armed_def opened_probes_def open_probe_def)
  next
    case False
    with s t show ?thesis by (simp add: armed_def opened_probes_def all_open_def list_update_beyond)
  qed
  with s t show "armed n i t" by (simp add: armed_def opened_probes_def)
qed

lemma preserves_send_open:
  assumes "i < n"
  shows "preserves (opened_probes n) (sendDueProbePacket env pollTime i)"
  unfolding sendDueProbePacket_def startProbe_def finishSend_def
  by (intro preserves_then_stronger[OF triple_arm_probe] preserves_rules steady_rules[OF steady_open]
      steady_rules[OF steady_armed] preserves_await assms) (simp add: armed_def)

section \<open>Events of one poll\<close>

text \<open>No callback of the environment reports exhausted fuel, which is no exception of the code.\<close>

definition fuel_free :: "('w \<Rightarrow> (exn + 'a) \<times> 'w) \<Rightarrow> bool" where
  "fuel_free f \<longleftrightarrow> (\<forall>w. fst (f w) \<noteq> Inl OutOfFuel)"

definition probe_env_fuel_free :: "'w probe_env \<Rightarrow> bool" where
  "probe_env_fuel_free env \<longleftrightarrow> fuel_free (pv_nonce env) \<and> (\<forall>h p. fuel_free (pv_send env h p)) \<and>
     (\<forall>h n. fuel_free (pv_receive env h n)) \<and> (\<forall>t. fuel_free (pv_completed env t))"

definition within_budget :: "'w UdpProbeChecker \<Rightarrow> bool" where
  "within_budget s \<longleftrightarrow> uc_lastReceiveEventCount s \<le> kReceiveBudget"

text \<open>Calls may end with any exception, but with exhausted fuel only if the environment says so.\<close>

definition faults :: "'w probe_env \<Rightarrow> exn \<Rightarrow> 'w UdpProbeChecker \<Rightarrow> bool" where
  "faults env e s \<longleftrightarrow> within_budget s \<and> (probe_env_fuel_free env \<longrightarrow> e \<noteq> OutOfFuel)"

definition event_pred :: "('w UdpProbeChecker \<Rightarrow> bool) \<Rightarrow> bool" where
  "event_pred P \<longleftrightarrow> (\<forall>s. P s \<longrightarrow> within_budget s \<and>
     (\<forall>t. uc_lastReceiveEventCount t = uc_lastReceiveEventCount s \<longrightarrow> P t))"

lemma triple_events:
  assumes P: "event_pred P"
  shows "probe_env_fuel_free env \<longrightarrow> fuel_free f \<Longrightarrow> triple P (callP f) (\<lambda>_. P) (faults env)"
    and "triple P (validateProbeIoResult r) (\<lambda>_. P) (faults env)"
    and "triple P (completeProbeResult i success reason error) (\<lambda>_. P) (faults env)"
    and "triple P (theProbe i) (\<lambda>_. P) (faults env)"
    and "triple P (modProbe i g) (\<lambda>_. P) (faults env)"
    and "triple P (returnC a) (\<lambda>_. P) (faults env)"
    and "e \<noteq> OutOfFuel \<Longrightarrow> triple P (throwC e) (\<lambda>_. P) (faults env)"
proof -
  have assms: "P s \<Longrightarrow> uc_lastReceiveEventCount t = uc_lastReceiveEventCount s \<Longrightarrow> P t" "P s \<Longrightarrow> within_budget s" for s t
    using P by (auto simp: event_pred_def)
  show "triple P (callP f) (\<lambda>_. P) (faults env)" if "probe_env_fuel_free env \<longrightarrow> fuel_free f"
  proof (rule tripleI)
    fix s a t assume "P s" "callP f s = (Inr a, t)"
    then show "P t" using assms(1) by auto
  next
    fix s e t assume s: "P s" and run: "callP f s = (Inl e, t)"
    then have "within_budget t" using assms(1,2) by auto
    with that run show "faults env e t" by (auto simp: faults_def fuel_free_def) (metis fst_conv)
  qed
qed (use P in \<open>auto simp: event_pred_def triple_def validateProbeIoResult_def completeProbeResult_def theProbe_def modProbe_def
  returnC_def throwC_def getC_def modifyC_def faults_def within_budget_def split: prod.split\<close>)

lemma triple_post: "triple P m (\<lambda>_. R) E \<Longrightarrow> (\<And>s. R s \<Longrightarrow> Q s) \<Longrightarrow> triple P m (\<lambda>_. Q) E"
  by (rule tripleI) (blast dest: triple_Inr triple_Inl)+

lemma triple_get: "(\<And>a. triple P (k a) Q E) \<Longrightarrow> triple P (bindC (getC f) k) Q E"
  by (auto simp: triple_def bindC_getC)

lemma triple_receiveReply:
  fixes fuel :: nat
  defines "S \<equiv> \<lambda>b s. within_budget s \<and> (b \<longrightarrow> kReceiveBudget < fuel + uc_lastReceiveEventCount s)"
  shows "triple (\<lambda>s. uc_lastReceiveEventCount s < kReceiveBudget \<and> kReceiveBudget < Suc fuel + uc_lastReceiveEventCount s)
    (receiveReply env now i p) S (faults env)"
proof -
  define R :: "'a UdpProbeChecker \<Rightarrow> bool" where
    "R = (\<lambda>s. uc_lastReceiveEventCount s < kReceiveBudget \<and> kReceiveBudget < Suc fuel + uc_lastReceiveEventCount s)"
  have free: "probe_env_fuel_free env \<longrightarrow> fuel_free (pv_receive env h k)"
    "probe_env_fuel_free env \<longrightarrow> fuel_free (pv_completed env now)" for h k
    by (simp_all add: probe_env_fuel_free_def)
  have "event_pred R" and S: "event_pred (S b)" for b by (auto simp: event_pred_def R_def S_def within_budget_def)
  note inR = triple_events[OF \<open>event_pred R\<close>] and inS = triple_events[OF S]
  have count: "triple R (whenC b (modifyC (\<lambda>s. s\<lparr>uc_lastReceiveEventCount := uc_lastReceiveEventCount s + 1\<rparr>)))
      (\<lambda>_. S b) (faults env)" for b
    by (auto simp: triple_def whenC_def modifyC_def returnC_def R_def S_def within_budget_def)
  have stop: "triple (S b) (returnC c) S (faults env)" if "c \<longrightarrow> b" for b c
    using that by (auto simp: triple_def returnC_def S_def)
  have judge: "triple (S (\<not> wouldBlock received)) (judgeReply i p received reply completedAt) S (faults env)"
    for received reply completedAt
    unfolding judgeReply_def whenC_def
    by (cases "wouldBlock received")
       (auto intro!: triple_if triple_then[OF inS(3)] stop triple_then[OF triple_if[OF inS(3) inS(6)]] triple_then[OF inS(6)])
  have "triple R (receiveReply env now i p) S (faults env)"
    unfolding receiveReply_def case_prod_unfold
    by (rule triple_bind[OF inR(1)[OF free(1)]], rule triple_then[OF inR(2)], rule triple_then[OF count],
        rule triple_bind[OF inS(1)[OF free(2)]], rule triple_if, use stop in \<open>fastforce simp: triple_def throwC_def faults_def S_def\<close>,
        rule judge)
  then show ?thesis unfolding R_def .
qed

lemma triple_receive_replies:
  "triple (\<lambda>s. within_budget s \<and> kReceiveBudget < fuel + uc_lastReceiveEventCount s)
     (receive_replies env pollTime i fuel) (\<lambda>_. within_budget) (faults env)"
proof (induction fuel)
  case 0
  show ?case by (auto simp: triple_def within_budget_def throwC_def)
next
  case (Suc fuel)
  have "triple (\<lambda>s. within_budget s \<and> (b \<longrightarrow> kReceiveBudget < fuel + uc_lastReceiveEventCount s))
      (if b then receive_replies env pollTime i fuel else returnC ()) (\<lambda>_. within_budget) (faults env)" for b
    by (cases b) (use Suc in \<open>simp_all add: triple_def returnC_def\<close>)
  note reply = triple_bind[OF triple_receiveReply this]
  show ?case
    unfolding receive_replies.simps
    apply (rule triple_bind[OF triple_events(4)])
    apply (simp add: event_pred_def within_budget_def)
    apply (rule triple_get_bind, rule triple_if)
    apply (simp add: triple_def returnC_def)
    apply (rule triple_pre[OF reply])
    apply simp
    done
qed

lemma events_pred [simp]: "event_pred within_budget"
  by (simp add: event_pred_def within_budget_def)

lemma triple_receive_pass:
  "triple within_budget (receive_pass env pollTime n offsets) (\<lambda>_. within_budget) (faults env)"
proof (induction offsets)
  case (Cons k ks)
  have "triple within_budget (receive_replies env pollTime i (kReceiveBudget + 1)) (\<lambda>_. within_budget) (faults env)" for i
    by (rule triple_pre[OF triple_receive_replies]) simp
  then show ?case
    unfolding receive_pass.simps
    by (intro triple_get)
       (auto intro!: triple_if triple_events triple_then Cons)
qed (simp add: triple_events)

lemma triple_sendDueProbePacket:
  "triple within_budget (sendDueProbePacket env pollTime i) (\<lambda>_. within_budget) (faults env)"
proof -
  have free: "probe_env_fuel_free env \<longrightarrow> fuel_free (pv_nonce env)" "probe_env_fuel_free env \<longrightarrow> fuel_free (pv_send env h p)" for h p
    by (simp_all add: probe_env_fuel_free_def)
  show ?thesis
    unfolding sendDueProbePacket_def startProbe_def finishSend_def whenC_def
    by (intro triple_bind[where B = "\<lambda>_. within_budget"] triple_then[where B = within_budget] triple_if
        triple_events free events_pred)
       simp_all
qed

lemma triple_or_cancel:
  assumes "triple P m Q B" and "\<And>e s. B e s \<Longrightarrow> E e (cancelAllProbes env s)"
  shows "triple P (or_cancel env m) Q E"
  unfolding or_cancel_def
  by (rule triple_catch[OF assms(1)]) (use assms(2) in \<open>simp add: triple_def thenC_modifyC throwC_def\<close>)

lemma triple_poll:
  assumes "triple within_budget (sendDueProbePackets env pollTime) (\<lambda>_. within_budget) (faults env)"
  shows "triple within_budget (pollProbeTransitions env pollTime) (\<lambda>_. within_budget) (faults env)"
proof -
  have receive: "triple within_budget (receivePendingProbeReplies env pollTime) (\<lambda>_. within_budget) (faults env)"
    unfolding receivePendingProbeReplies_def whenC_def
    by (intro triple_get triple_then[OF triple_receive_pass] triple_if)
       (auto simp: triple_def modifyC_def returnC_def within_budget_def)
  have reset: "triple within_budget (modifyC (\<lambda>s. s\<lparr>uc_lastPollTime := pollTime, uc_hasPolled := True,
      uc_lastReceiveEventCount := 0\<rparr>)) (\<lambda>_. within_budget) (faults env)"
    "triple within_budget (modifyC (\<lambda>s. s\<lparr>uc_transitions := []\<rparr>)) (\<lambda>_. within_budget) (faults env)"
    "triple within_budget (getC uc_transitions) (\<lambda>_. within_budget) (faults env)"
    by (auto simp: triple_def modifyC_def getC_def within_budget_def)
  show ?thesis
    unfolding pollProbeTransitions_def
    apply (rule triple_then[OF reset(2)], rule triple_then[OF triple_or_cancel[where B = "faults env"] reset(3)])
     apply (intro triple_get triple_if triple_then[OF reset(1)] triple_then[OF assms] receive triple_events events_pred)
     apply simp
    apply (simp add: faults_def cancelAllProbes_def within_budget_def)
    done
qed

lemma triple_send_all:
  "triple within_budget (sendDueProbePackets env pollTime) (\<lambda>_. within_budget) (faults env)"
proof -
  have "triple within_budget (forC is (sendDueProbePacket env pollTime)) (\<lambda>_. within_budget) (faults env)" for "is"
    by (induction "is") (auto intro!: triple_then[OF triple_sendDueProbePacket] triple_events)
  then show ?thesis
    unfolding sendDueProbePackets_def by (intro triple_get) simp_all
qed

lemmas triple_poll_events = triple_poll[OF triple_send_all]

section \<open>Open and closed\<close>

lemma closed_cancel: "all_closed (cancelAllProbes env s)"
  by (auto simp: all_closed_def cancelAllProbes_def cancelled_def list_all_iff)

lemma snapshots_cancel: "snapshots_ok targets s \<Longrightarrow> snapshots_ok targets (cancelAllProbes env s)"
  by (auto simp: snapshots_ok_def cancelAllProbes_def cancelled_def list_all_iff)

lemma preserves_body:
  assumes steady: "steady n P" and send: "\<And>i. i < n \<Longrightarrow> preserves P (sendDueProbePacket env pollTime i)"
  shows "preserves P (bindC (getC (\<lambda>s. uc_hasPolled s \<and> pollTime < uc_lastPollTime s)) (\<lambda>backwards.
        if backwards then throwC (RuntimeError ''probe clock moved backwards'') else
        thenC (modifyC (\<lambda>s. s\<lparr>uc_lastPollTime := pollTime, uc_hasPolled := True, uc_lastReceiveEventCount := 0\<rparr>))
       (thenC (sendDueProbePackets env pollTime) (receivePendingProbeReplies env pollTime))))"
  by (intro preserves_rules steady_rules[OF steady] preserves_send[OF steady] preserves_receive[OF steady] send)

lemma triple_preserved: "preserves P m \<Longrightarrow> triple P m (\<lambda>_. P) (\<lambda>_. P)"
  by (auto simp: preserves_def triple_def split: prod.split sum.split)

lemma poll_open: "triple (opened_probes n) (pollProbeTransitions env pollTime) (\<lambda>_. opened_probes n) (\<lambda>_. all_closed)"
proof -
  note body = triple_preserved[OF preserves_body[OF steady_open preserves_send_open]]
  have rest: "triple (opened_probes n) (modifyC (\<lambda>s. s\<lparr>uc_transitions := []\<rparr>)) (\<lambda>_. opened_probes n) (\<lambda>_. all_closed)"
    "triple (opened_probes n) (getC uc_transitions) (\<lambda>_. opened_probes n) (\<lambda>_. all_closed)"
    by (auto simp: triple_def modifyC_def getC_def opened_probes_def all_open_def)
  show ?thesis
    unfolding pollProbeTransitions_def
    by (rule triple_then[OF rest(1)], rule triple_then[OF triple_or_cancel rest(2)], rule body) (simp_all add: closed_cancel)
qed

lemma poll_closed:
  assumes "all_closed s" and "uc_probes s \<noteq> []" and "pollProbeTransitions env pollTime s = (r, t)"
  shows "all_closed t"
proof -
  have "up_handle (uc_probes s ! 0) < 0" using assms(1,2) by (cases "uc_probes s") (auto simp: all_closed_def)
  moreover have "[0..<length (uc_probes s)] = 0 # [1..<length (uc_probes s)]" using assms(2) by (simp add: upt_conv_Cons)
  ultimately have send: "sendDueProbePackets env pollTime v = (Inl (RuntimeError ''probe checker has terminated''), v)"
    if "uc_probes v = uc_probes s" for v
    using that by (simp add: sendDueProbePackets_def bindC_getC thenC_def bindC_def sendDueProbePacket_def theProbe_def getC_def throwC_def)
  have "\<exists>u. t = cancelAllProbes env u"
    using assms(3)
    by (auto simp: pollProbeTransitions_def or_cancel_def send
        thenC_def bindC_def modifyC_def getC_def throwC_def catchC_def split: if_splits)
  then show ?thesis using closed_cancel by auto
qed

lemma preserves_or_cancel:
  "preserves P m \<Longrightarrow> (\<And>s. P s \<Longrightarrow> P (cancelAllProbes env s)) \<Longrightarrow> preserves P (or_cancel env m)"
  unfolding or_cancel_def by (intro preserves_rules preserves_modify)

lemma preserves_poll_snapshots: "preserves (snapshots_ok targets) (pollProbeTransitions env pollTime)"
proof -
  have "preserves (snapshots_ok targets) (modifyC (\<lambda>s. s\<lparr>uc_transitions := []\<rparr>))"
    by (rule preserves_modify) (simp add: snapshots_ok_def)
  then show ?thesis
    unfolding pollProbeTransitions_def
    by (intro preserves_then preserves_get preserves_or_cancel snapshots_cancel
        preserves_body[OF steady_snapshots] preserves_send_neutral[OF steady_snapshots modProbe_snapshots])
qed

section \<open>Construction\<close>

definition prepared :: "ProbeTarget list \<Rightarrow> 'w UdpProbeChecker \<Rightarrow> bool" where
  "prepared targets s \<longleftrightarrow> snapshots_ok targets s \<and> all_open s \<and> within_budget s \<and> uc_receiveCursor s = 0"

lemma prepareProbe_prepared:
  assumes "prepared targets s" and "prepareProbe env previous target s = (Inr (), t)"
  shows "prepared (targets @ [target]) t"
proof -
  from assms(2) obtain p handle where p: "import_probe previous target = Inr p" and "\<not> handle < 0"
    and t: "uc_probes t = uc_probes s @ [p\<lparr>up_handle := handle\<rparr>]" "uc_lastReceiveEventCount t = uc_lastReceiveEventCount s"
    "uc_receiveCursor t = uc_receiveCursor s"
    by (auto simp: prepareProbe_def split: sum.splits if_splits)
  moreover from p have "sn_target (up_snapshot p) = target" "counters_valid (up_snapshot p)" "\<not> up_awaitingReply p"
    by (auto simp: import_probe_def new_probe_def counters_valid_def split: option.splits if_splits)
  ultimately show ?thesis
    using assms(1) by (simp add: prepared_def snapshots_ok_def all_open_def open_probe_def within_budget_def)
qed

lemma constructed_prepared:
  assumes "constructUdpProbeChecker env targets previous (emptyUdpProbeChecker w) = (Inr (), s)"
  shows "prepared targets s"
proof -
  have loop: "prepared (done' @ todo) t"
    if "prepared done' u" "forC todo (prepareProbe env previous) u = (Inr (), t)" for done' todo u t
    using that
  proof (induction todo arbitrary: done' u)
    case (Cons target todo)
    from Cons.prems(2) obtain v where "prepareProbe env previous target u = (Inr (), v)"
      "forC todo (prepareProbe env previous) v = (Inr (), t)" by auto
    with Cons.IH[OF prepareProbe_prepared[OF Cons.prems(1)]] show ?case by simp
  qed simp
  have "prepared [] (emptyUdpProbeChecker w)"
    by (simp add: prepared_def snapshots_ok_def all_open_def within_budget_def emptyUdpProbeChecker_def)
  moreover have "forC targets (prepareProbe env previous) (emptyUdpProbeChecker w) = (Inr (), s)"
    using assms by (auto simp: constructUdpProbeChecker_def or_cancel_def catchC_def split: if_splits prod.splits sum.splits)
  ultimately show ?thesis using loop[of "[]"] by simp
qed

definition sound_checker :: "ProbeTarget list \<Rightarrow> 'w UdpProbeChecker \<Rightarrow> bool" where
  "sound_checker targets s \<longleftrightarrow> snapshots_ok targets s \<and> within_budget s \<and> (all_open s \<or> all_closed s)"

text \<open>Any number of polls, whether they return or throw.\<close>

fun poll_all :: "'w probe_env \<Rightarrow> time list \<Rightarrow> 'w UdpProbeChecker \<Rightarrow> 'w UdpProbeChecker" where
  "poll_all env [] s = s"
| "poll_all env (now # later) s = poll_all env later (snd (pollProbeTransitions env now s))"

lemma triple_to_end: "triple P m (\<lambda>_. Q) E \<Longrightarrow> P s \<Longrightarrow> m s = (r, t) \<Longrightarrow> Q t \<or> (\<exists>e. r = Inl e \<and> E e t)"
  by (cases r) (auto dest: triple_Inr triple_Inl)

lemma sound_poll:
  assumes "sound_checker targets s" and run: "pollProbeTransitions env time s = (r, t)"
  shows "sound_checker targets t" and "isl r \<Longrightarrow> all_closed t"
proof -
  have snaps: "snapshots_ok targets t"
    using preservesD[OF preserves_poll_snapshots _ run] assms(1) by (simp add: sound_checker_def)
  moreover have "within_budget t"
    using triple_to_end[OF triple_poll_events _ run] assms(1) by (auto simp: sound_checker_def faults_def)
  moreover have ends: "(all_open t \<or> all_closed t) \<and> (isl r \<longrightarrow> all_closed t)"
  proof (cases "all_open s")
    case True
    then have "opened_probes (length (uc_probes s)) s" by (simp add: opened_probes_def)
    from poll_open[THEN triple_Inr, OF this] poll_open[THEN triple_Inl, OF this] run
    show ?thesis by (cases r) (auto simp: opened_probes_def)
  next
    case False
    with assms(1) have "all_closed s" "uc_probes s \<noteq> []" by (auto simp: sound_checker_def all_open_def)
    then show ?thesis using poll_closed run by blast
  qed
  ultimately show "sound_checker targets t" "isl r \<Longrightarrow> all_closed t" by (simp_all add: sound_checker_def)
qed

lemma sound_poll_all: "sound_checker targets s \<Longrightarrow> sound_checker targets (poll_all env moments s)"
proof (induction moments arbitrary: s)
  case (Cons now later)
  obtain r t where "pollProbeTransitions env now s = (r, t)" by fastforce
  with sound_poll(1)[OF Cons.prems this] Cons.IH[of t] show ?case by simp
qed simp

section \<open>Reported changes\<close>

definition statuses :: "'w UdpProbeChecker \<Rightarrow> (string \<times> ProbeState) list" where
  "statuses s = map (\<lambda>p. (pt_id (sn_target (up_snapshot p)), sn_state (up_snapshot p))) (uc_probes s)"

text \<open>Applying reported transitions to what was known before; each must start where the last one ended.\<close>

fun replay :: "ProbeTransition list \<Rightarrow> (string \<times> ProbeState) list \<Rightarrow> (string \<times> ProbeState) list option" where
  "replay [] known = Some known"
| "replay (tr # trs) known =
     (if map_of known (pr_id tr) = Some (pr_from tr) \<and> pr_from tr \<noteq> pr_to tr
      then replay trs (AList.update (pr_id tr) (pr_to tr) known) else None)"

lemma replay_append: "replay (xs @ ys) known = Option.bind (replay xs known) (replay ys)"
  by (induction xs arbitrary: known) simp_all

lemma update_nth:
  "distinct (map fst xs) \<Longrightarrow> i < length xs \<Longrightarrow> AList.update (fst (xs ! i)) v xs = xs[i := (fst (xs ! i), v)]"
proof (induction xs arbitrary: i)
  case (Cons x xs)
  obtain k u where "x = (k, u)" by (cases x)
  with Cons show ?case by (cases i) auto
qed simp

definition told :: "(string \<times> ProbeState) list \<Rightarrow> 'w UdpProbeChecker \<Rightarrow> bool" where
  "told known s \<longleftrightarrow> length (uc_probes s) = length known \<and> map fst (statuses s) = map fst known \<and>
     replay (uc_transitions s) known = Some (statuses s)"

lemma told_complete:
  assumes "distinct (map fst known)" and told: "told known s" and i: "i < length known"
  shows "told known (snd (completeProbeResult i success reason error s))"
proof -
  let ?p = "uc_probes s ! i" and ?t = "snd (completeProbeResult i success reason error s)"
  have len: "i < length (statuses s)" using told i by (simp add: told_def statuses_def)
  have nth: "statuses s ! i = (pt_id (sn_target (up_snapshot ?p)), sn_state (up_snapshot ?p))"
    using len by (simp add: statuses_def)
  have t: "statuses ?t = (statuses s)[i := (fst (statuses s ! i), sn_state (apply_result success (up_snapshot ?p)))]"
    by (simp add: statuses_def snd_complete map_update target_apply nth[unfolded statuses_def])
  have keys: "map fst (statuses ?t) = map fst (statuses s)"
    unfolding t by (rule map_update_same) simp
  have dist: "distinct (map fst (statuses s))" using assms(1) told by (simp add: told_def)
  have "replay (uc_transitions ?t) known = Some (statuses ?t)"
  proof (cases "sn_state (up_snapshot ?p) = sn_state (apply_result success (up_snapshot ?p))")
    case True
    then have "statuses ?t = statuses s" unfolding t by (metis list_update_id nth prod.sel(1))
    with True told show ?thesis by (simp add: told_def snd_complete transition_of_def Let_def)
  next
    case False
    have "map_of (statuses s) (fst (statuses s ! i)) = Some (snd (statuses s ! i))"
      using dist len by (simp add: map_of_eq_Some_iff)
    with False told show ?thesis
      using update_nth[OF dist len] t
      by (simp add: told_def snd_complete transition_of_def Let_def replay_append nth target_apply)
  qed
  with told keys show ?thesis by (simp add: told_def snd_complete)
qed

lemma steady_told: "distinct (map fst known) \<Longrightarrow> steady (length known) (told known)"
  by (rule steadyI) (simp add: told_def, simp add: told_def statuses_def, rule told_complete)

lemma modProbe_told:
  assumes "neutral f"
  shows "preserves (told known) (modProbe i f)"
proof -
  have "statuses (s\<lparr>uc_probes := (uc_probes s)[i := f (uc_probes s ! i)]\<rparr>) = statuses s" for s :: "'a UdpProbeChecker"
    using assms unfolding statuses_def by (simp add: neutral_def map_update_same)
  then show ?thesis unfolding modProbe_def by (intro preserves_modify) (simp add: told_def)
qed

section \<open>What one poll does to a probe\<close>

text \<open>
  Sending: an unanswered probe at or past its deadline fails first; then a probe that is due
  gets a fresh token and times, and either awaits the reply or fails at once.
\<close>

definition send_spec :: "time \<Rightarrow> Probe \<Rightarrow> Probe \<Rightarrow> bool" where
  "send_spec now p p' \<longleftrightarrow>
     (let q = (if up_awaitingReply p \<and> up_probeDeadline p \<le> now then settled p False else p) in
      if up_awaitingReply q \<or> now < up_nextProbeTime q then p' = q
      else \<exists>token. let a = q\<lparr>up_token := token, up_nextProbeTime := now + seconds 1, up_probeDeadline := now + ms 500\<rparr>
                   in p' = a\<lparr>up_awaitingReply := True\<rparr> \<or> p' = settled a False)"

text \<open>A datagram equal to the token and completed before the deadline.\<close>

definition echoed :: "'w probe_env \<Rightarrow> time \<Rightarrow> Probe \<Rightarrow> bool" where
  "echoed env now p \<longleftrightarrow> (\<exists>w w' e reply. pv_receive env (up_handle p) 25 w = (Inr (\<lparr>io_bytes = 24, io_error = e\<rparr>, reply), w') \<and>
       take 24 reply = up_token p) \<and>
     (\<exists>w w' completedAt. pv_completed env now w = (Inr completedAt, w') \<and> completedAt < up_probeDeadline p)"

definition receive_spec :: "'w probe_env \<Rightarrow> time \<Rightarrow> Probe \<Rightarrow> Probe \<Rightarrow> bool" where
  "receive_spec env now p p' \<longleftrightarrow>
     p' = p \<or> up_awaitingReply p \<and> (p' = settled p False \<or> p' = settled p True \<and> echoed env now p)"

lemma complete_probes:
  "completeProbeResult i success reason error s = (r, t) \<Longrightarrow>
   r = Inr () \<and> uc_probes t = (uc_probes s)[i := settled (uc_probes s ! i) success]"
  by (auto simp: completeProbeResult_def)

lemma modProbe_probes: "modProbe i f s = (r, t) \<Longrightarrow> r = Inr () \<and> uc_probes t = (uc_probes s)[i := f (uc_probes s ! i)]"
  by (auto simp: modProbe_def)

lemma finishSend_spec:
  "finishSend i sent s = (Inr (), t) \<Longrightarrow>
   uc_probes t = (uc_probes s)[i := (uc_probes s ! i)\<lparr>up_awaitingReply := True\<rparr>] \<or>
   uc_probes t = (uc_probes s)[i := settled (uc_probes s ! i) False]"
  unfolding finishSend_def
  by (auto dest!: complete_probes modProbe_probes validate_iff split: if_splits)

lemma startProbe_spec:
  assumes i: "i < length (uc_probes u)" and run: "startProbe env now i handle u = (Inr (), t)"
  shows "\<exists>token. let a = (uc_probes u ! i)\<lparr>up_token := token, up_nextProbeTime := now + seconds 1, up_probeDeadline := now + ms 500\<rparr>
     in uc_probes t = (uc_probes u)[i := a\<lparr>up_awaitingReply := True\<rparr>] \<or> uc_probes t = (uc_probes u)[i := settled a False]"
proof -
  from run obtain token sent v where fin: "finishSend i sent v = (Inr (), t)"
    and v: "uc_probes v = (uc_probes u)[i := (uc_probes u ! i)\<lparr>up_token := token, up_nextProbeTime := now + seconds 1,
      up_probeDeadline := now + ms 500\<rparr>]"
    unfolding startProbe_def by (fastforce simp: modProbe_def modifyC_def probe_interval_def probe_timeout_def)
  from finishSend_spec[OF fin] v i show ?thesis unfolding Let_def by auto
qed

lemma send_probe_spec:
  assumes i: "i < length (uc_probes s)" and run: "sendDueProbePacket env now i s = (Inr (), t)"
  shows "\<exists>p'. send_spec now (uc_probes s ! i) p' \<and> uc_probes t = (uc_probes s)[i := p']"
proof -
  define p0 where "p0 = uc_probes s ! i"
  define q where "q = (if up_awaitingReply p0 \<and> up_probeDeadline p0 \<le> now then settled p0 False else p0)"
  from run obtain u where
    first: "whenC (up_awaitingReply p0 \<and> up_probeDeadline p0 \<le> now) (completeProbeResult i False ''timeout'' ETIMEDOUT) s = (Inr (), u)"
    and rest: "(if up_awaitingReply (uc_probes u ! i) \<or> now < up_nextProbeTime (uc_probes u ! i) then returnC ()
      else startProbe env now i (up_handle (uc_probes u ! i))) u = (Inr (), t)"
    unfolding sendDueProbePacket_def p0_def by (fastforce split: if_splits)
  have u: "uc_probes u = (uc_probes s)[i := q]"
    using first i by (auto simp: q_def p0_def dest: complete_probes split: if_splits)
  have ui: "uc_probes u ! i = q" "i < length (uc_probes u)" using u i by simp_all
  show ?thesis
  proof (cases "up_awaitingReply q \<or> now < up_nextProbeTime q")
    case True
    with rest ui u show ?thesis unfolding send_spec_def p0_def[symmetric] q_def[symmetric] Let_def by auto
  next
    case False
    with rest ui have "startProbe env now i (up_handle q) u = (Inr (), t)" by simp
    from startProbe_spec[OF ui(2) this] False u ui show ?thesis
      unfolding send_spec_def p0_def[symmetric] q_def[symmetric] Let_def by auto
  qed
qed

lemma receive_spec_settled: "receive_spec env now (settled p success) p' \<longleftrightarrow> p' = settled p success"
  by (auto simp: receive_spec_def)

lemma receive_spec_trans: "receive_spec env now p q \<Longrightarrow> receive_spec env now q r \<Longrightarrow> receive_spec env now p r"
  by (auto simp: receive_spec_def)

lemma validate_then: "thenC (validateProbeIoResult r) k s = (Inr b, t) \<Longrightarrow> k s = (Inr b, t)"
  by (auto dest: validate_iff)

lemma receiveReply_spec:
  assumes "i < length (uc_probes s)" and p: "uc_probes s ! i = p" "up_awaitingReply p"
    and "receiveReply env now i p s = (Inr continue, t)"
  shows "uc_probes t = uc_probes s \<or> uc_probes t = (uc_probes s)[i := settled p False] \<and> \<not> continue \<or>
    uc_probes t = (uc_probes s)[i := settled p True] \<and> echoed env now p"
proof -
  from assms(4)[unfolded receiveReply_def, THEN bindC_Inr_iff[THEN iffD1]] obtain received reply w where
    call: "pv_receive env (up_handle p) 25 (uc_world s) = (Inr (received, reply), w)"
    and after: "thenC (validateProbeIoResult received) (thenC (whenC (\<not> wouldBlock received)
        (modifyC (\<lambda>s. s\<lparr>uc_lastReceiveEventCount := uc_lastReceiveEventCount s + 1\<rparr>)))
      (bindC (callP (pv_completed env now)) (\<lambda>completedAt.
       if completedAt < now then throwC (RuntimeError ''probe completion clock moved backwards'')
       else judgeReply i p received reply completedAt))) (s\<lparr>uc_world := w\<rparr>) = (Inr continue, t)"
    by (auto simp del: bindC_Inr_iff thenC_Inr_iff)
  from validate_then[OF after, THEN thenC_Inr_iff[THEN iffD1]] obtain a v where
    count: "whenC (\<not> wouldBlock received)
        (modifyC (\<lambda>s. s\<lparr>uc_lastReceiveEventCount := uc_lastReceiveEventCount s + 1\<rparr>)) (s\<lparr>uc_world := w\<rparr>) = (Inr a, v)"
    and rest: "bindC (callP (pv_completed env now)) (\<lambda>completedAt.
       if completedAt < now then throwC (RuntimeError ''probe completion clock moved backwards'')
       else judgeReply i p received reply completedAt) v = (Inr continue, t)" by blast
  from count have v: "uc_probes v = uc_probes s" "uc_world v = w" by (auto simp: whenC_def split: if_splits)
  from rest[THEN bindC_Inr_iff[THEN iffD1]] obtain completedAt u where
    clocked: "callP (pv_completed env now) v = (Inr completedAt, u)"
    and "(if completedAt < now then throwC (RuntimeError ''probe completion clock moved backwards'')
       else judgeReply i p received reply completedAt) u = (Inr continue, t)" by blast
  then have u: "uc_probes u = uc_probes s" and clock: "\<exists>w w'. pv_completed env now w = (Inr completedAt, w')"
    and judge: "judgeReply i p received reply completedAt u = (Inr continue, t)"
    using v by (auto split: if_splits)
  obtain n e where received: "received = \<lparr>io_bytes = n, io_error = e\<rparr>" by (cases received)
  obtain wc wc' where clock': "pv_completed env now wc = (Inr completedAt, wc')" using clock by blast
  have "echoed env now p" if "io_bytes received = 24" "take 24 reply = up_token p" "completedAt < up_probeDeadline p"
  proof -
    from call that(1) have "pv_receive env (up_handle p) 25 (uc_world s) = (Inr (\<lparr>io_bytes = 24, io_error = e\<rparr>, reply), w)"
      by (simp add: received)
    with that(2,3) clock' show ?thesis unfolding echoed_def by blast
  qed
  then show ?thesis
    using judge u p(1)
    by (auto simp: judgeReply_def not_le dest!: complete_probes split: if_splits)
qed

lemma receive_replies_spec:
  assumes "i < length (uc_probes s)" and "receive_replies env now i fuel s = (Inr (), t)"
  shows "\<exists>p'. receive_spec env now (uc_probes s ! i) p' \<and> uc_probes t = (uc_probes s)[i := p']"
  using assms
proof (induction fuel arbitrary: s)
  case (Suc fuel)
  let ?p = "uc_probes s ! i"
  show ?case
  proof (cases "up_awaitingReply ?p \<and> uc_lastReceiveEventCount s < kReceiveBudget")
    case False
    with Suc.prems(2) have "uc_probes t = uc_probes s" by (auto simp: bindC_getC theProbe_def)
    then show ?thesis by (auto simp: receive_spec_def intro: exI[of _ ?p])
  next
    case True
    with Suc.prems(2) have "bindC (receiveReply env now i ?p)
        (\<lambda>continue. if continue then receive_replies env now i fuel else returnC ()) s = (Inr (), t)"
      by (simp add: bindC_getC theProbe_def del: bindC_Inr_iff)
    from this[THEN bindC_Inr_iff[THEN iffD1]] obtain continue u where
      reply: "receiveReply env now i ?p s = (Inr continue, u)"
      and rest: "(if continue then receive_replies env now i fuel else returnC ()) u = (Inr (), t)" by blast
    from receiveReply_spec[OF Suc.prems(1) refl _ reply] True obtain q where q: "receive_spec env now ?p q"
      "uc_probes u = (uc_probes s)[i := q]"
      by (auto simp: receive_spec_def intro: that[of ?p] that[of "settled ?p False"] that[of "settled ?p True"])
    then have u: "uc_probes u ! i = q" "i < length (uc_probes u)" using Suc.prems(1) by simp_all
    show ?thesis
    proof (cases continue)
      case True
      with rest Suc.IH[of u] u obtain r where "receive_spec env now q r" "uc_probes t = (uc_probes u)[i := r]" by auto
      with q show ?thesis by (auto intro: receive_spec_trans)
    next
      case False
      with rest q show ?thesis by auto
    qed
  qed
qed simp

lemma receive_pass_spec:
  assumes "receive_pass env now n offsets s = (Inr (), t)" and "length (uc_probes s) = n"
    and "\<And>k. k \<in> set offsets \<Longrightarrow> k < n"
  shows "length (uc_probes t) = n \<and> (\<forall>i < n. receive_spec env now (uc_probes s ! i) (uc_probes t ! i))"
  using assms
proof (induction offsets arbitrary: s)
  case Nil
  then show ?case by (simp add: receive_spec_def)
next
  case (Cons k ks)
  show ?case
  proof (cases "kReceiveBudget \<le> uc_lastReceiveEventCount s")
    case True
    with Cons.prems show ?thesis by (auto simp: bindC_getC receive_spec_def)
  next
    case False
    define i where "i = (uc_receiveCursor s + k) mod n"
    from False Cons.prems(1) have "thenC (receive_replies env now i (kReceiveBudget + 1)) (receive_pass env now n ks) s = (Inr (), t)"
      by (simp add: bindC_getC i_def del: thenC_Inr_iff)
    from this[THEN thenC_Inr_iff[THEN iffD1]] obtain a u where
      u: "receive_replies env now i (kReceiveBudget + 1) s = (Inr a, u)" "receive_pass env now n ks u = (Inr (), t)" by blast
    have "i < n" using Cons.prems(3)[of k] by (simp add: i_def)
    with receive_replies_spec[of i s env now "kReceiveBudget + 1" u] u(1) Cons.prems(2) obtain q where
      q: "receive_spec env now (uc_probes s ! i) q" "uc_probes u = (uc_probes s)[i := q]" by (cases a) auto
    with Cons.IH[OF u(2)] Cons.prems(2,3) have "length (uc_probes t) = n"
      and t: "j < n \<Longrightarrow> receive_spec env now (uc_probes u ! j) (uc_probes t ! j)" for j by auto
    moreover have "receive_spec env now (uc_probes s ! j) (uc_probes t ! j)" if "j < n" for j
      using t[OF that] q Cons.prems(2) that receive_spec_trans[OF q(1)] by (cases "i = j") auto
    ultimately show ?thesis by simp
  qed
qed

lemma poll_finished:
  assumes "pollProbeTransitions env now s = (Inr trs, t)"
  shows "trs = uc_transitions t \<and> (\<exists>v u. uc_probes v = uc_probes s \<and> uc_transitions v = [] \<and>
    sendDueProbePackets env now v = (Inr (), u) \<and> receivePendingProbeReplies env now u = (Inr (), t))"
proof -
  from assms obtain b where b: "or_cancel env (bindC (getC (\<lambda>s. uc_hasPolled s \<and> now < uc_lastPollTime s)) (\<lambda>backwards.
        if backwards then throwC (RuntimeError ''probe clock moved backwards'') else
        thenC (modifyC (\<lambda>s. s\<lparr>uc_lastPollTime := now, uc_hasPolled := True, uc_lastReceiveEventCount := 0\<rparr>))
       (thenC (sendDueProbePackets env now) (receivePendingProbeReplies env now)))) (s\<lparr>uc_transitions := []\<rparr>) = (Inr b, t)"
    and trs: "trs = uc_transitions t"
    unfolding pollProbeTransitions_def by (auto simp: thenC_modifyC)
  have inner: "m v = (Inr c, t)" if "or_cancel env m v = (Inr c, t)" for m :: "('a UdpProbeChecker, unit) comp" and v c
    using that by (auto simp: or_cancel_def catchC_def split: prod.splits sum.splits)
  let ?v = "s\<lparr>uc_transitions := [], uc_lastPollTime := now, uc_hasPolled := True, uc_lastReceiveEventCount := 0\<rparr>"
  have "thenC (sendDueProbePackets env now) (receivePendingProbeReplies env now) ?v = (Inr (), t)"
    using inner[OF b] by (cases b) (auto simp: bindC_getC thenC_modifyC simp del: thenC_Inr_iff bindC_Inr_iff split: if_splits)
  then obtain a u where "sendDueProbePackets env now ?v = (Inr a, u)" "receivePendingProbeReplies env now u = (Inr (), t)"
    unfolding thenC_Inr_iff by blast
  moreover have "uc_probes ?v = uc_probes s" "uc_transitions ?v = []" by simp_all
  ultimately show ?thesis using trs by (metis (full_types) old.unit.exhaust)
qed

section \<open>Nonces\<close>

lemma be_bytes_nth: "i < 8 \<Longrightarrow> be_bytes w ! i = ucast (drop_bit (56 - 8 * i) w)"
  by (simp add: be_bytes_def)

lemma bit_be_bytes:
  assumes "n < 64"
  shows "bit (be_bytes w ! (7 - n div 8)) (n mod 8) \<longleftrightarrow> bit w n"
proof -
  have "n div 8 < 8" using assms by simp
  then have "56 - 8 * (7 - n div 8) = 8 * (n div 8)" by simp
  then show ?thesis
    by (simp add: be_bytes_nth bit_simps)
qed

lemma be_bytes_inject: "be_bytes w = be_bytes v \<longleftrightarrow> w = v"
proof
  assume same: "be_bytes w = be_bytes v"
  show "w = v"
  proof (rule bit_word_eqI)
    fix n assume "n < LENGTH(64)"
    then show "bit w n \<longleftrightarrow> bit v n" using bit_be_bytes[of n w] bit_be_bytes[of n v] same by simp
  qed
qed simp

lemma length_be_bytes [simp]: "length (be_bytes w) = 8"
  by (simp add: be_bytes_def)

text \<open>Drawing \<open>n\<close> packets one after the other.\<close>

fun draw_packets :: "nat \<Rightarrow> (ProbeNonceSequence, u8 list list) comp" where
  "draw_packets 0 = returnC []"
| "draw_packets (Suc n) = bindC generateProbePacket (\<lambda>p. bindC (draw_packets n) (\<lambda>ps. returnC (p # ps)))"

definition packet_of :: "u64 \<Rightarrow> u64 \<Rightarrow> u8 list" where
  "packet_of epoch number = probe_header @ be_bytes epoch @ be_bytes number"

lemma packet_of_inject: "packet_of e a = packet_of f b \<longleftrightarrow> e = f \<and> a = b"
  by (simp add: packet_of_def be_bytes_inject)

lemma length_packet_of: "length (packet_of e a) = 24"
  by (simp add: packet_of_def probe_header_def)

lemma generate_result:
  "generateProbePacket s = (if nq_lastSequence s = - 1 then (Inl (RuntimeError ''probe sequence exhausted''), s)
     else (Inr (packet_of (nq_epoch s) (nq_lastSequence s + 1)), s\<lparr>nq_lastSequence := nq_lastSequence s + 1\<rparr>))"
  by (simp add: generateProbePacket_def comp_defs packet_of_def)

lemma draw_results:
  "fst (draw_packets n s) =
    (if unat (nq_lastSequence s) + n < 2 ^ 64
     then Inr (map (\<lambda>k. packet_of (nq_epoch s) (word_of_nat k)) [Suc (unat (nq_lastSequence s))..<Suc (unat (nq_lastSequence s) + n)])
     else Inl (RuntimeError ''probe sequence exhausted''))"
proof (induction n arbitrary: s)
  case 0
  show ?case using unat_u64_less[of "nq_lastSequence s"] by (simp add: returnC_def)
next
  case (Suc n)
  let ?a = "nq_lastSequence s"
  show ?case
  proof (cases "?a = - 1")
    case True
    then show ?thesis by (simp add: bindC_def generate_result unat_max_u64)
  next
    case False
    define t where "t = s\<lparr>nq_lastSequence := ?a + 1\<rparr>"
    have t: "unat (nq_lastSequence t) = Suc (unat ?a)" "nq_epoch t = nq_epoch s"
      using False by (simp_all add: t_def unat_inc)
    have split: "[Suc (unat ?a)..<Suc (unat ?a + Suc n)] = Suc (unat ?a) # [Suc (Suc (unat ?a))..<Suc (Suc (unat ?a) + n)]"
      by (subst upt_conv_Cons) simp_all
    have "generateProbePacket s = (Inr (packet_of (nq_epoch s) (?a + 1)), t)"
      using False by (simp add: generate_result t_def)
    then have "fst (draw_packets (Suc n) s) = (case fst (draw_packets n t) of Inl e \<Rightarrow> Inl e
        | Inr ps \<Rightarrow> Inr (packet_of (nq_epoch s) (?a + 1) # ps))"
      by (simp add: bindC_def returnC_def split: prod.split sum.split)
    then show ?thesis unfolding Suc.IH[of t] t split by (simp add: add.commute[of 1] del: upt_Suc)
  qed
qed

lemma distinct_numbered: "b \<le> 2 ^ 64 \<Longrightarrow> distinct (map (\<lambda>k. packet_of e (word_of_nat k)) [a..<b])"
  by (auto simp: distinct_map inj_on_def packet_of_inject word_of_nat_eq_iff take_bit_nat_eq_self)

section \<open>Two echoing targets\<close>

text \<open>A transport that echoes every packet, half a millisecond after it was sent.\<close>

definition demo_probe_env :: "(ProbeNonceSequence \<times> (int \<times> u8 list) list) probe_env" where
  "demo_probe_env = \<lparr>pv_open = \<lambda>target w. (Inr (if pt_id target = ''a'' then 3 else 4), w), pv_close = \<lambda>handle w. w,
     pv_send = \<lambda>handle p (n, q). (Inr \<lparr>io_bytes = int (length p), io_error = 0\<rparr>, (n, (handle, p) # q)),
     pv_receive = \<lambda>handle k (n, q). (case map_of q handle of None \<Rightarrow> (Inr (\<lparr>io_bytes = - 1, io_error = EAGAIN\<rparr>, []), (n, q))
       | Some p \<Rightarrow> (Inr (\<lparr>io_bytes = int (length p), io_error = 0\<rparr>, take k p), (n, filter (\<lambda>(h, _). h \<noteq> handle) q))),
     pv_nonce = (\<lambda>(n, q). case generateProbePacket n of (r, n') \<Rightarrow> (r, (n', q))),
     pv_completed = \<lambda>now w. (Inr (now + 500000), w)\<rparr>"

definition demo_targets :: "ProbeTarget list" where
  "demo_targets = map (\<lambda>name. \<lparr>pt_id = name, pt_interfaceName = ''eth0'', pt_ifindex = 2, pt_sourceMac = (2, 0, 0, 0, 0, 1),
     pt_destinationMac = (2, 0, 0, 0, 0, 2), pt_probeAddress = 0x0A000001, pt_probePort = 7\<rparr>) [''a'', ''b'']"

definition demo_checker :: "(ProbeNonceSequence \<times> (int \<times> u8 list) list) UdpProbeChecker" where
  "demo_checker = snd (constructUdpProbeChecker demo_probe_env demo_targets []
     (emptyUdpProbeChecker (\<lparr>nq_epoch = 5, nq_lastSequence = 0\<rparr>, [])))"

lemma demo_constructed:
  "constructUdpProbeChecker demo_probe_env demo_targets [] (emptyUdpProbeChecker (\<lparr>nq_epoch = 5, nq_lastSequence = 0\<rparr>, []))
   = (Inr (), demo_checker)"
  by (rule prod_eqI) (code_simp, simp add: demo_checker_def)

definition demo_polled :: "time list \<Rightarrow> (ProbeNonceSequence \<times> (int \<times> u8 list) list) UdpProbeChecker" where
  "demo_polled moments = poll_all demo_probe_env moments demo_checker"

lemma demo_fuel_free: "probe_env_fuel_free demo_probe_env"
  by (auto simp: probe_env_fuel_free_def fuel_free_def demo_probe_env_def generate_result split: option.split)

definition demo_transitions :: "ProbeTransition list" where
  "demo_transitions = map (\<lambda>name. \<lparr>pr_id = name, pr_from = kUnknown, pr_to = kHealthy, pr_reason = ''success'', pr_error = 0\<rparr>)
     [''b'', ''a'']"

lemma demo_second_poll:
  "pollProbeTransitions demo_probe_env (seconds 1) (demo_polled [0]) = (Inr demo_transitions, demo_polled [0, seconds 1])"
  by (rule prod_eqI) (code_simp, simp add: demo_polled_def)

lemma demo_polled_length: "length (uc_probes (demo_polled [0])) = 2" "length (uc_probes (demo_polled [0, seconds 1])) = 2"
  by code_simp+

section \<open>Properties\<close>

text \<open>
  Claim C34. The prober stays sound through any number of polls, whatever the transport, the
  nonces and the clock do and whether polls return or throw: it probes the targets it was
  given, in their order; success and failure counters never run over their thresholds and are
  never both positive; a poll handles at most 256 receive events; and either every socket is
  open and every awaited reply has its deadline half an interval before the next probe, or
  every socket is closed and nothing is awaited.
\<close>

theorem udp_probes_stay_sound:
  assumes "constructUdpProbeChecker env targets previous (emptyUdpProbeChecker w) = (Inr (), s)"
  shows "sound_checker targets (poll_all env moments s)"
  using constructed_prepared[OF assms] by (intro sound_poll_all) (simp add: sound_checker_def prepared_def)

lemma udp_probes_stay_sound_witness:
  "sound_checker demo_targets (demo_polled [0, seconds 1, seconds 2]) \<and>
   map pt_id (copyHealthyProbeTargets (demo_polled [0, seconds 1, seconds 2])) = [''a'', ''b'']"
  unfolding demo_polled_def
  by (intro conjI udp_probes_stay_sound[OF demo_constructed]) code_simp



text \<open>
  Claim C36. The transitions a poll reports are exactly the changes of health it made: applied
  in order to the states known before the poll, each starting where the target's last one
  ended, they give the states after it.
\<close>

theorem udp_poll_reports_changes:
  assumes "distinct (map fst (statuses s))" and "pollProbeTransitions env now s = (Inr trs, t)"
  shows "replay trs (statuses s) = Some (statuses t)"
proof -
  from poll_finished[OF assms(2)] obtain v u where v: "uc_probes v = uc_probes s" "uc_transitions v = []"
    and run: "sendDueProbePackets env now v = (Inr (), u)" "receivePendingProbeReplies env now u = (Inr (), t)"
    and trs: "trs = uc_transitions t" by blast
  note steady = steady_told[OF assms(1)]
  have send: "preserves (told (statuses s)) (sendDueProbePackets env now)"
    using steady by (intro preserves_send[OF steady] preserves_send_neutral modProbe_told)
  have "told (statuses s) v" using v by (simp add: told_def statuses_def)
  then have "told (statuses s) u" using run(1) by (rule preservesD[OF send])
  then have "told (statuses s) t" using run(2) by (rule preservesD[OF preserves_receive[OF steady]])
  then show ?thesis by (simp add: told_def trs)
qed

lemma udp_poll_reports_changes_witness:
  "replay [\<lparr>pr_id = ''b'', pr_from = kUnknown, pr_to = kHealthy, pr_reason = ''success'', pr_error = 0\<rparr>,
           \<lparr>pr_id = ''a'', pr_from = kUnknown, pr_to = kHealthy, pr_reason = ''success'', pr_error = 0\<rparr>]
     (statuses (demo_polled [0])) = Some (statuses (demo_polled [0, seconds 1]))"
proof -
  have "distinct (map fst (statuses (demo_polled [0])))" by code_simp
  from udp_poll_reports_changes[OF this demo_second_poll] show ?thesis by (simp add: demo_transitions_def)
qed

text \<open>
  Claim C37. A poll always ends: the loop over the replies never needs more turns than the
  receive budget allows, so a poll returns or throws an exception of the code.
\<close>

theorem udp_poll_ends:
  assumes "probe_env_fuel_free env" and "uc_lastReceiveEventCount s \<le> 256"
  shows "fst (pollProbeTransitions env now s) \<noteq> Inl OutOfFuel"
proof (cases "pollProbeTransitions env now s")
  case (Pair r t)
  with triple_to_end[OF triple_poll_events, of s env now r t] triple_Inl[OF triple_poll_events, of s env now] assms
  show ?thesis by (cases r) (auto simp: faults_def within_budget_def kReceiveBudget_def)
qed

lemma udp_poll_ends_witness:
  "fst (pollProbeTransitions demo_probe_env (seconds 1) (demo_polled [0])) \<noteq> Inl OutOfFuel"
proof -
  have "uc_lastReceiveEventCount (demo_polled [0]) \<le> 256" by code_simp
  with demo_fuel_free show ?thesis by (rule udp_poll_ends)
qed

text \<open>
  Drawing packets from the nonce sequence gives a different 24-byte packet every
  time until the 64-bit sequence number is used up; from then on every draw throws instead of
  wrapping around to a number that was already used.
\<close>

theorem probe_packets_distinct:
  "fst (draw_packets n s) =
    (if unat (nq_lastSequence s) + n < 2 ^ 64
     then Inr (map (\<lambda>k. packet_of (nq_epoch s) (word_of_nat k)) [Suc (unat (nq_lastSequence s))..<Suc (unat (nq_lastSequence s) + n)])
     else Inl (RuntimeError ''probe sequence exhausted'')) \<and>
   distinct (case fst (draw_packets n s) of Inr ps \<Rightarrow> ps | Inl _ \<Rightarrow> [])"
  by (simp add: draw_results distinct_numbered del: upt_Suc)

end
