(* ===== verification/RuntimeMaps.thy ===== *)
theory RuntimeMaps
  imports XdpConfig
begin

text \<open>
  The store of the runtime program's maps: \<open>src/xdp/RuntimeMapStore.h\<close> and
  \<open>src/xdp/RuntimeMapStore.cpp\<close>. A snapshot is written to a fresh inner map, read back, frozen
  and published by one update of the outer map. The kernel is a parameter; what the store relies
  on is the locale \<open>runtime_kernel\<close>. A failed call is \<open>SystemError\<close>, the \<open>std::runtime_error\<close> of
  the source with its error number; other diagnostic texts are abbreviated.
\<close>

section \<open>Objects\<close>

record BpfMap =
  bm_spec :: MapSpec
  bm_inner :: "MapSpec option"
  bm_fd :: nat

record BpfProgram =
  bp_name :: string
  bp_section :: string
  bp_isXdp :: bool

record BpfObject =
  bo_maps :: "BpfMap list"
  bo_programs :: "BpfProgram list"

definition BPF_MAP_TYPE_ARRAY_OF_MAPS :: bpf_map_type where
  "BPF_MAP_TYPE_ARRAY_OF_MAPS = BPF_MAP_TYPE_OTHER 12"

definition outer_spec :: MapSpec where
  "outer_spec = map_spec ''l4lb_active_v3'' BPF_MAP_TYPE_ARRAY_OF_MAPS 4 1 0"

definition template_spec :: MapSpec where
  "template_spec = map_spec ''l4lb_tpl_v3'' BPF_MAP_TYPE_ARRAY 1048 1 BPF_F_RDONLY_PROG"

definition stats_spec :: MapSpec where
  "stats_spec = map_spec ''l4lb_stats_v3'' BPF_MAP_TYPE_PERCPU_ARRAY 64 1 0"

definition kRuntimeMapSpecs :: "MapSpec list" where
  "kRuntimeMapSpecs = [outer_spec, template_spec, stats_spec]"

definition matchesMapSpecification :: "MapSpec option \<Rightarrow> MapSpec \<Rightarrow> bool" where
  "matchesMapSpecification m spec = (case m of
     None \<Rightarrow> False
   | Some m \<Rightarrow> mapType m = mapType spec \<and> keySize m = 4 \<and> valueSize m = valueSize spec \<and>
       maxEntries m = 1 \<and> mapFlags m = mapFlags spec)"

definition find_bpf_map :: "BpfObject \<Rightarrow> string \<Rightarrow> BpfMap option" where
  "find_bpf_map object name = find (\<lambda>m. mapName (bm_spec m) = name) (bo_maps object)"

text \<open>The loop over the whitelist keeps the verdict of the last entry of that name.\<close>

definition accepted_map :: "BpfMap \<Rightarrow> bool" where
  "accepted_map m = fold (\<lambda>spec accepted.
     if mapName (bm_spec m) = mapName spec then matchesMapSpecification (Some (bm_spec m)) spec else accepted)
     kRuntimeMapSpecs False"

definition accepted_program :: "BpfProgram \<Rightarrow> bool" where
  "accepted_program p \<longleftrightarrow> \<not> (bp_name p \<noteq> ''xdp_udp_rt'' \<or> bp_section p \<noteq> ''xdp'' \<or> \<not> bp_isXdp p)"

definition validateRuntimeMapObject :: "BpfObject \<Rightarrow> exn + unit" where
  "validateRuntimeMapObject object =
     (if \<not> list_all accepted_map (bo_maps object) then Inl (RuntimeError ''runtime map whitelist mismatch'')
      else if length (bo_maps object) \<noteq> length kRuntimeMapSpecs
      then Inl (RuntimeError ''runtime mode needs exactly three maps'')
      else case find (\<lambda>spec. find_bpf_map object (mapName spec) = None) kRuntimeMapSpecs of
        Some spec \<Rightarrow> Inl (RuntimeError (''missing runtime map '' @ mapName spec))
      | None \<Rightarrow>
          if (case find_bpf_map object (mapName outer_spec) of
                None \<Rightarrow> True | Some outer \<Rightarrow> \<not> matchesMapSpecification (bm_inner outer) template_spec)
          then Inl (RuntimeError ''runtime inner template mismatch'')
          else if \<not> list_all accepted_program (bo_programs object)
          then Inl (RuntimeError ''runtime program whitelist mismatch'')
          else if length (bo_programs object) \<noteq> 1 then Inl (RuntimeError ''runtime mode needs one program'')
          else Inr ())"

section \<open>The kernel's maps\<close>

text \<open>
  The map calls over an abstract world: creating an inner map, the calls on a descriptor of one,
  the slot of the outer map (set to a descriptor, read as a map id), the per-CPU statistics.
\<close>

record 'w runtime_maps_env =
  rk_create :: "'w \<Rightarrow> (errno + nat) \<times> 'w"
  rk_update :: "nat \<Rightarrow> UdpRuntimeSnapshot \<Rightarrow> 'w \<Rightarrow> errno option \<times> 'w"
  rk_lookup :: "nat \<Rightarrow> 'w \<Rightarrow> (errno + UdpRuntimeSnapshot) \<times> 'w"
  rk_freeze :: "nat \<Rightarrow> 'w \<Rightarrow> errno option \<times> 'w"
  rk_info :: "nat \<Rightarrow> 'w \<Rightarrow> (errno + nat \<times> MapSpec) \<times> 'w"
  rk_publish :: "nat \<Rightarrow> nat \<Rightarrow> 'w \<Rightarrow> errno option \<times> 'w"
  rk_published :: "nat \<Rightarrow> 'w \<Rightarrow> (errno + nat) \<times> 'w"
  rk_cpus :: "'w \<Rightarrow> int \<times> 'w"
  rk_stats :: "nat \<Rightarrow> nat \<Rightarrow> 'w \<Rightarrow> (errno + UdpDsrStatsValue list) \<times> 'w"
  rk_close :: "nat \<Rightarrow> 'w \<Rightarrow> 'w"

record 'w RuntimeMapStore =
  rt_outerFd :: nat
  rt_statsFd :: nat
  rt_activeFd :: "nat option"
  rt_generation :: u64
  rt_world :: 'w

definition callR :: "('w \<Rightarrow> 'a \<times> 'w) \<Rightarrow> ('w RuntimeMapStore, 'a) comp" where
  "callR f s = (case f (rt_world s) of (a, w) \<Rightarrow> (Inr a, s\<lparr>rt_world := w\<rparr>))"

definition succeedR :: "string \<Rightarrow> ('w \<Rightarrow> errno option \<times> 'w) \<Rightarrow> ('w RuntimeMapStore, unit) comp" where
  "succeedR operation f = bindC (callR f) (\<lambda>r. case r of
     None \<Rightarrow> returnC () | Some e \<Rightarrow> throwC (SystemError operation e))"

definition valueR :: "string \<Rightarrow> ('w \<Rightarrow> (errno + 'a) \<times> 'w) \<Rightarrow> ('w RuntimeMapStore, 'a) comp" where
  "valueR operation f = bindC (callR f) (\<lambda>r. case r of
     Inr a \<Rightarrow> returnC a | Inl e \<Rightarrow> throwC (SystemError operation e))"

definition closeR :: "'w runtime_maps_env \<Rightarrow> nat \<Rightarrow> ('w RuntimeMapStore, unit) comp" where
  "closeR env fd = modifyC (\<lambda>s. s\<lparr>rt_world := rk_close env fd (rt_world s)\<rparr>)"

section \<open>Descriptors\<close>

definition validateMapMetadata ::
  "'w runtime_maps_env \<Rightarrow> nat \<Rightarrow> MapSpec \<Rightarrow> bool \<Rightarrow> ('w RuntimeMapStore, nat) comp" where
  "validateMapMetadata env fd spec checkName =
     bindC (valueR ''runtime map metadata'' (rk_info env fd)) (\<lambda>(i, info).
     if checkName \<and> mapName info \<noteq> mapName spec \<or> mapType info \<noteq> mapType spec \<or> keySize info \<noteq> 4 \<or>
        valueSize info \<noteq> valueSize spec \<or> maxEntries info \<noteq> 1 \<or> mapFlags info \<noteq> mapFlags spec
     then throwC (RuntimeError ''runtime map metadata mismatch'') else returnC i)"

definition validateRuntimeDescriptor ::
  "'w runtime_maps_env \<Rightarrow> BpfObject \<Rightarrow> MapSpec \<Rightarrow> ('w RuntimeMapStore, nat) comp" where
  "validateRuntimeDescriptor env object spec =
     (case find_bpf_map object (mapName spec) of
        None \<Rightarrow> throwC (RuntimeError ''missing runtime map'')
      | Some m \<Rightarrow> thenC (validateMapMetadata env (bm_fd m) spec True) (returnC (bm_fd m)))"

text \<open>A frozen map must refuse an update, for want of permission.\<close>

definition verifyFrozenSnapshot ::
  "'w runtime_maps_env \<Rightarrow> nat \<Rightarrow> UdpRuntimeSnapshot \<Rightarrow> ('w RuntimeMapStore, unit) comp" where
  "verifyFrozenSnapshot env fd snapshot =
     bindC (callR (rk_update env fd snapshot)) (\<lambda>r.
     if r = None \<or> (r \<noteq> Some EPERM \<and> r \<noteq> Some EACCES)
     then throwC (RuntimeError ''runtime inner map is not frozen'') else returnC ())"

definition empty_runtime_snapshot :: UdpRuntimeSnapshot where
  "empty_runtime_snapshot = \<lparr>rs_schemaVersion = 0, rs_backendCount = 0, rs_generation = 0, rs_vipAddress = 0,
     rs_vipPort = 0, rs_reserved = 0, rs_backends = replicate 64 zero_dsr_backend\<rparr>"

definition initialRuntimeMapStore :: "'w \<Rightarrow> 'w RuntimeMapStore" where
  "initialRuntimeMapStore w = \<lparr>rt_outerFd = 0, rt_statsFd = 0, rt_activeFd = None, rt_generation = 0, rt_world = w\<rparr>"

definition constructRuntimeMapStore :: "'w runtime_maps_env \<Rightarrow> BpfObject \<Rightarrow> ('w RuntimeMapStore, unit) comp" where
  "constructRuntimeMapStore env object =
     bindC (validateRuntimeDescriptor env object outer_spec) (\<lambda>outer.
     thenC (modifyC (\<lambda>s. s\<lparr>rt_outerFd := outer\<rparr>))
    (bindC (validateRuntimeDescriptor env object stats_spec) (\<lambda>stats.
     thenC (modifyC (\<lambda>s. s\<lparr>rt_statsFd := stats\<rparr>))
    (bindC (validateRuntimeDescriptor env object template_spec) (\<lambda>template.
     thenC (succeedR ''initialise runtime template'' (rk_update env template empty_runtime_snapshot))
    (bindC (valueR ''read back runtime template'' (rk_lookup env template)) (\<lambda>readback.
     if readback \<noteq> empty_runtime_snapshot then throwC (RuntimeError ''runtime template is not zero'') else
     thenC (succeedR ''freeze runtime template'' (rk_freeze env template))
       (verifyFrozenSnapshot env template empty_runtime_snapshot))))))))"

definition destroyRuntimeMapStore :: "'w runtime_maps_env \<Rightarrow> 'w RuntimeMapStore \<Rightarrow> 'w RuntimeMapStore" where
  "destroyRuntimeMapStore env s = (case rt_activeFd s of
     None \<Rightarrow> s | Some fd \<Rightarrow> s\<lparr>rt_world := rk_close env fd (rt_world s)\<rparr>)"

section \<open>Candidates\<close>

definition isNonzeroUnicastMac :: "mac \<Rightarrow> bool" where
  "isNonzeroUnicastMac m = (case m of (a, b, c, d, e, f) \<Rightarrow>
     a AND 1 = 0 \<and> a OR b OR c OR d OR e OR f \<noteq> 0)"

fun validate_slots :: "nat \<Rightarrow> u32 \<Rightarrow> UdpDsrBackendValue list \<Rightarrow> exn + unit" where
  "validate_slots index used [] = Inr ()"
| "validate_slots index used (backend # backends) =
     (if index < unat used then
        if db_ifindex backend = 0 \<or> \<not> isNonzeroUnicastMac (db_destinationMac backend) \<or>
           \<not> isNonzeroUnicastMac (db_sourceMac backend)
        then Inl (InvalidArgument ''invalid runtime backend'')
        else validate_slots (index + 1) used backends
      else if backend \<noteq> zero_dsr_backend then Inl (InvalidArgument ''unused runtime slot must be zero'')
      else validate_slots (index + 1) used backends)"

definition validateCandidateSnapshot :: "UdpRuntimeSnapshot \<Rightarrow> u64 \<Rightarrow> exn + unit" where
  "validateCandidateSnapshot snapshot generation =
     (if rs_schemaVersion snapshot \<noteq> 3 \<or> 64 < rs_backendCount snapshot \<or> rs_reserved snapshot \<noteq> 0 \<or>
         generation = - 1 \<or> rs_generation snapshot \<noteq> generation + 1 \<or> rs_vipAddress snapshot = 0 \<or>
         rs_vipPort snapshot = 0
      then Inl (InvalidArgument ''invalid runtime snapshot or generation'')
      else validate_slots 0 (rs_backendCount snapshot) (rs_backends snapshot))"

section \<open>Publishing\<close>

text \<open>While \<open>CandidateSnapshotFd\<close> owns the descriptor, an exception closes it.\<close>

definition owning_candidate ::
  "'w runtime_maps_env \<Rightarrow> nat \<Rightarrow> ('w RuntimeMapStore, 'a) comp \<Rightarrow> ('w RuntimeMapStore, 'a) comp" where
  "owning_candidate env fd m = catchC m (\<lambda>e. thenC (closeR env fd) (throwC e))"

definition prepareCandidate ::
  "'w runtime_maps_env \<Rightarrow> nat \<Rightarrow> UdpRuntimeSnapshot \<Rightarrow> ('w RuntimeMapStore, nat) comp" where
  "prepareCandidate env fd snapshot =
     thenC (succeedR ''write runtime snapshot'' (rk_update env fd snapshot))
    (bindC (valueR ''read back runtime snapshot'' (rk_lookup env fd)) (\<lambda>readback.
     if readback \<noteq> snapshot then throwC (RuntimeError ''runtime snapshot readback mismatch'') else
     thenC (succeedR ''freeze runtime snapshot'' (rk_freeze env fd))
    (bindC (validateMapMetadata env fd template_spec False) (\<lambda>info.
     thenC (verifyFrozenSnapshot env fd snapshot)
    (bindC (getC rt_outerFd) (\<lambda>outer.
     thenC (succeedR ''publish runtime outer'' (rk_publish env outer fd)) (returnC info)))))))"

text \<open>After the only commit point.\<close>

definition commitCandidate ::
  "'w runtime_maps_env \<Rightarrow> nat \<Rightarrow> nat \<Rightarrow> UdpRuntimeSnapshot \<Rightarrow> ('w RuntimeMapStore, unit) comp" where
  "commitCandidate env fd info snapshot =
     bindC (getC rt_activeFd) (\<lambda>previous.
     thenC (modifyC (\<lambda>s. s\<lparr>rt_activeFd := Some fd, rt_generation := rs_generation snapshot\<rparr>))
    (thenC (case previous of None \<Rightarrow> returnC () | Some p \<Rightarrow> closeR env p)
    (bindC (getC rt_outerFd) (\<lambda>outer.
     bindC (callR (rk_published env outer)) (\<lambda>r. case r of
       Inl e \<Rightarrow> throwC (RuntimePublishError ''published, then outer readback failed'' True)
     | Inr publishedId \<Rightarrow>
         if publishedId \<noteq> info then throwC (RuntimePublishError ''published, then outer map id mismatch'' True)
         else returnC ())))))"

definition publishSnapshot :: "'w runtime_maps_env \<Rightarrow> UdpRuntimeSnapshot \<Rightarrow> ('w RuntimeMapStore, unit) comp" where
  "publishSnapshot env snapshot =
     bindC (getC rt_generation) (\<lambda>generation.
     case validateCandidateSnapshot snapshot generation of
       Inl e \<Rightarrow> throwC e
     | Inr _ \<Rightarrow>
         bindC (valueR ''create runtime inner'' (rk_create env)) (\<lambda>fd.
         bindC (owning_candidate env fd (prepareCandidate env fd snapshot)) (\<lambda>info.
         commitCandidate env fd info snapshot)))"

definition readRuntimeStatistics :: "'w runtime_maps_env \<Rightarrow> ('w RuntimeMapStore, UdpDsrStatsValue) comp" where
  "readRuntimeStatistics env =
     bindC (callR (rk_cpus env)) (\<lambda>cpus.
     if cpus \<le> 0 \<or> size_max div 64 < nat cpus then throwC (RuntimeError ''invalid possible CPU count'') else
     bindC (getC rt_statsFd) (\<lambda>stats.
     bindC (valueR ''read runtime stats'' (rk_stats env stats (nat cpus))) (\<lambda>values.
     returnC (foldl add_stats zero_stats values))))"

end
