(* ===== verification/RuntimePublish.thy ===== *)
theory RuntimePublish
  imports RuntimeMaps
begin

unbundle bit_operations_syntax

text \<open>
  What publishing promises: exactly the committed publications change what the runtime program
  reads, no descriptor is lost however a publication fails, generations advance one by one, and
  a published snapshot never makes the program report an invalid configuration.
\<close>

lemma triple_getR: "(\<And>a. triple P (k a) Q E) \<Longrightarrow> triple P (bindC (getC f) k) Q E"
  by (auto simp: triple_def bindC_getC)

lemma triple_callR:
  "(\<And>s n w. P s \<Longrightarrow> f (rt_world s) = (n, w) \<Longrightarrow> Q n (s\<lparr>rt_world := w\<rparr>)) \<Longrightarrow> triple P (callR f) Q E"
  by (auto simp: triple_def callR_def split: prod.splits)

lemma triple_returnC: "triple P (returnC a) (\<lambda>_. P) E"
  by (auto simp: triple_def returnC_def)

lemma validate_slots_error: "validate_slots index used backends = Inl e \<Longrightarrow> \<exists>m. e = InvalidArgument m"
  by (induction backends arbitrary: index) (auto split: if_splits)

section \<open>What the store relies on\<close>

text \<open>
  \<open>opened w\<close> are the open descriptors, \<open>active w\<close> the snapshot the outer slot leads to and whether
  it is frozen, \<open>content w fd\<close> the same of an inner map, \<open>live w fd\<close> whether the outer slot leads to
  that map. Lookups and queries change nothing; a new map is not the active one; a publication that
  succeeds makes the map the active one.
\<close>

locale runtime_kernel =
  fixes env :: "'w runtime_maps_env"
    and opened :: "'w \<Rightarrow> nat set"
    and active :: "'w \<Rightarrow> (UdpRuntimeSnapshot \<times> bool) option"
    and content :: "'w \<Rightarrow> nat \<Rightarrow> UdpRuntimeSnapshot \<times> bool"
    and live :: "'w \<Rightarrow> nat \<Rightarrow> bool"
    and valid :: "'w \<Rightarrow> bool"
  assumes create: "rk_create env w = (n, w') \<Longrightarrow> valid w \<Longrightarrow> valid w' \<and> active w' = active w \<and> (case n of
      Inl e \<Rightarrow> opened w' = opened w
    | Inr fd \<Rightarrow> fd \<notin> opened w \<and> opened w' = insert fd (opened w) \<and> \<not> live w' fd)"
    and update: "rk_update env fd x w = (r, w') \<Longrightarrow> valid w \<Longrightarrow> \<not> live w fd \<Longrightarrow>
      valid w' \<and> opened w' = opened w \<and> active w' = active w \<and> \<not> live w' fd \<and> (r \<noteq> None \<longrightarrow> content w' fd = content w fd)"
    and lookup: "rk_lookup env fd w = (z, w') \<Longrightarrow> valid w \<Longrightarrow> valid w' \<and> opened w' = opened w \<and>
      active w' = active w \<and> live w' fd = live w fd \<and> content w' fd = content w fd \<and> (\<forall>x. z = Inr x \<longrightarrow> x = fst (content w fd))"
    and freeze: "rk_freeze env fd w = (r, w') \<Longrightarrow> valid w \<Longrightarrow> \<not> live w fd \<Longrightarrow> valid w' \<and> opened w' = opened w \<and>
      active w' = active w \<and> \<not> live w' fd \<and> (r = None \<longrightarrow> content w' fd = (fst (content w fd), True))"
    and info: "rk_info env fd w = (v, w') \<Longrightarrow> valid w \<Longrightarrow> valid w' \<and> opened w' = opened w \<and>
      active w' = active w \<and> live w' fd = live w fd \<and> content w' fd = content w fd"
    and publish: "rk_publish env outer fd w = (r, w') \<Longrightarrow> valid w \<Longrightarrow> fd \<in> opened w \<Longrightarrow> valid w' \<and> opened w' = opened w \<and>
      active w' = (if r = None then Some (content w fd) else active w)"
    and published: "rk_published env outer w = (u, w') \<Longrightarrow> valid w \<Longrightarrow>
      valid w' \<and> opened w' = opened w \<and> active w' = active w"
    and close: "valid w \<Longrightarrow> valid (rk_close env fd w) \<and> opened (rk_close env fd w) = opened w - {fd} \<and>
      active (rk_close env fd w) = active w"
begin

text \<open>
  The candidate is open besides what was open before, and nothing else has changed; while it is
  being prepared it is not the active map, and its content satisfies \<open>P\<close>.
\<close>

definition opened_candidate :: "'w RuntimeMapStore \<Rightarrow> nat \<Rightarrow> 'w RuntimeMapStore \<Rightarrow> bool" where
  "opened_candidate s fd t \<longleftrightarrow> rt_activeFd t = rt_activeFd s \<and> rt_generation t = rt_generation s \<and>
     valid (rt_world t) \<and> opened (rt_world t) = insert fd (opened (rt_world s))"

definition preparing ::
  "'w RuntimeMapStore \<Rightarrow> nat \<Rightarrow> (UdpRuntimeSnapshot \<times> bool \<Rightarrow> bool) \<Rightarrow> 'w RuntimeMapStore \<Rightarrow> bool" where
  "preparing s fd P t \<longleftrightarrow> opened_candidate s fd t \<and> active (rt_world t) = active (rt_world s) \<and>
     \<not> live (rt_world t) fd \<and> P (content (rt_world t) fd)"

definition refused :: "'w RuntimeMapStore \<Rightarrow> nat \<Rightarrow> exn \<Rightarrow> 'w RuntimeMapStore \<Rightarrow> bool" where
  "refused s fd e t \<longleftrightarrow> opened_candidate s fd t \<and> active (rt_world t) = active (rt_world s) \<and>
     (\<forall>m c. e \<noteq> RuntimePublishError m c)"

definition switched :: "'w RuntimeMapStore \<Rightarrow> nat \<Rightarrow> UdpRuntimeSnapshot \<Rightarrow> 'w RuntimeMapStore \<Rightarrow> bool" where
  "switched s fd x t \<longleftrightarrow> opened_candidate s fd t \<and> active (rt_world t) = Some (x, True)"

lemma preparing_refused: "preparing s fd P t \<Longrightarrow> (\<And>m c. e \<noteq> RuntimePublishError m c) \<Longrightarrow> refused s fd e t"
  by (simp add: preparing_def refused_def)

lemma preparing_weaken: "preparing s fd P t \<Longrightarrow> (\<And>c. P c \<Longrightarrow> Q c) \<Longrightarrow> preparing s fd Q t"
  by (simp add: preparing_def)

lemma call_update:
  "triple (preparing s fd P) (callR (rk_update env fd x)) (\<lambda>n. preparing s fd (\<lambda>c. n \<noteq> None \<longrightarrow> P c)) E"
proof (rule triple_callR)
  fix u n w
  assume u: "preparing s fd P u" and run: "rk_update env fd x (rt_world u) = (n, w)"
  from u update[OF run] show "preparing s fd (\<lambda>c. n \<noteq> None \<longrightarrow> P c) (u\<lparr>rt_world := w\<rparr>)"
    unfolding preparing_def opened_candidate_def by simp
qed

lemma call_lookup:
  "triple (preparing s fd P) (callR (rk_lookup env fd))
     (\<lambda>n. preparing s fd (\<lambda>c. P c \<and> (\<forall>x. n = Inr x \<longrightarrow> fst c = x))) E"
proof (rule triple_callR)
  fix u n w
  assume u: "preparing s fd P u" and run: "rk_lookup env fd (rt_world u) = (n, w)"
  from u lookup[OF run] show "preparing s fd (\<lambda>c. P c \<and> (\<forall>x. n = Inr x \<longrightarrow> fst c = x)) (u\<lparr>rt_world := w\<rparr>)"
    unfolding preparing_def opened_candidate_def by auto
qed

lemma call_freeze:
  "triple (preparing s fd (\<lambda>c. fst c = x)) (callR (rk_freeze env fd))
     (\<lambda>n. preparing s fd (\<lambda>c. n = None \<longrightarrow> c = (x, True))) E"
proof (rule triple_callR)
  fix u n w
  assume u: "preparing s fd (\<lambda>c. fst c = x) u" and run: "rk_freeze env fd (rt_world u) = (n, w)"
  from u freeze[OF run] show "preparing s fd (\<lambda>c. n = None \<longrightarrow> c = (x, True)) (u\<lparr>rt_world := w\<rparr>)"
    unfolding preparing_def opened_candidate_def by auto
qed

lemma call_info: "triple (preparing s fd P) (callR (rk_info env fd)) (\<lambda>_. preparing s fd P) E"
proof (rule triple_callR)
  fix u n w
  assume u: "preparing s fd P u" and run: "rk_info env fd (rt_world u) = (n, w)"
  from u info[OF run] show "preparing s fd P (u\<lparr>rt_world := w\<rparr>)"
    unfolding preparing_def opened_candidate_def by simp
qed

lemma call_publish:
  "triple (preparing s fd (\<lambda>c. c = (x, True))) (callR (rk_publish env outer fd))
     (\<lambda>n t. if n = None then switched s fd x t
            else opened_candidate s fd t \<and> active (rt_world t) = active (rt_world s)) E"
proof (rule triple_callR)
  fix u n w
  assume u: "preparing s fd (\<lambda>c. c = (x, True)) u" and run: "rk_publish env outer fd (rt_world u) = (n, w)"
  from u publish[OF run]
  show "if n = None then switched s fd x (u\<lparr>rt_world := w\<rparr>)
      else opened_candidate s fd (u\<lparr>rt_world := w\<rparr>) \<and> active (rt_world (u\<lparr>rt_world := w\<rparr>)) = active (rt_world s)"
    unfolding preparing_def opened_candidate_def switched_def by simp
qed

lemma refuse: "triple (preparing s fd P) (throwC e) Q (refused s fd)" if "\<And>m c. e \<noteq> RuntimePublishError m c"
  using that by (auto simp: triple_def throwC_def preparing_refused)

lemma proceed: "triple (preparing s fd P) (returnC a) (\<lambda>_. preparing s fd Q) E" if "\<And>c. P c \<Longrightarrow> Q c"
  using that by (auto simp: triple_def returnC_def preparing_def)

lemma triple_update:
  "triple (preparing s fd (\<lambda>_. True)) (succeedR m (rk_update env fd x)) (\<lambda>_. preparing s fd (\<lambda>_. True)) (refused s fd)"
  unfolding succeedR_def by (rule triple_bind[OF call_update]) (intro triple_case_option refuse proceed; simp)

lemma triple_lookup:
  "triple (preparing s fd (\<lambda>_. True)) (valueR m (rk_lookup env fd)) (\<lambda>x. preparing s fd (\<lambda>c. fst c = x)) (refused s fd)"
  unfolding valueR_def
proof (rule triple_bind[OF call_lookup])
  fix n
  show "triple (preparing s fd (\<lambda>c. True \<and> (\<forall>x. n = Inr x \<longrightarrow> fst c = x)))
      (case n of Inl e \<Rightarrow> throwC (SystemError m e) | Inr a \<Rightarrow> returnC a) (\<lambda>x. preparing s fd (\<lambda>c. fst c = x)) (refused s fd)"
    by (cases n) (simp_all add: refuse, simp add: triple_def returnC_def)
qed

lemma triple_freeze:
  "triple (preparing s fd (\<lambda>c. fst c = x)) (succeedR m (rk_freeze env fd)) (\<lambda>_. preparing s fd (\<lambda>c. c = (x, True)))
     (refused s fd)"
  unfolding succeedR_def by (rule triple_bind[OF call_freeze]) (intro triple_case_option refuse proceed; simp)

lemma triple_metadata:
  "triple (preparing s fd P) (validateMapMetadata env fd spec checkName) (\<lambda>_. preparing s fd P) (refused s fd)"
proof -
  have queried: "triple (preparing s fd P) (valueR ''runtime map metadata'' (rk_info env fd)) (\<lambda>_. preparing s fd P) (refused s fd)"
    unfolding valueR_def by (rule triple_bind[OF call_info]) (intro triple_case_sum refuse proceed; simp)
  show ?thesis
    unfolding validateMapMetadata_def case_prod_unfold
    by (rule triple_bind[OF queried]) (intro triple_if refuse proceed; simp)
qed

lemma triple_verify:
  "triple (preparing s fd P) (verifyFrozenSnapshot env fd x) (\<lambda>_. preparing s fd P) (refused s fd)"
  unfolding verifyFrozenSnapshot_def
  by (rule triple_bind[OF call_update]) (intro triple_if refuse proceed; simp)

lemma triple_publish:
  "triple (preparing s fd (\<lambda>c. c = (x, True))) (succeedR m (rk_publish env outer fd)) (\<lambda>_. switched s fd x) (refused s fd)"
  unfolding succeedR_def
  by (rule triple_bind[OF call_publish]) (auto simp: triple_def returnC_def throwC_def refused_def split: option.split)

lemma triple_prepareCandidate:
  "triple (preparing s fd (\<lambda>_. True)) (prepareCandidate env fd x) (\<lambda>_. switched s fd x) (refused s fd)"
  unfolding prepareCandidate_def
proof (rule triple_then[OF triple_update], rule triple_bind[OF triple_lookup])
  fix readback
  let ?rest = "thenC (succeedR ''freeze runtime snapshot'' (rk_freeze env fd))
    (bindC (validateMapMetadata env fd template_spec False) (\<lambda>info.
     thenC (verifyFrozenSnapshot env fd x)
    (bindC (getC rt_outerFd) (\<lambda>outer.
     thenC (succeedR ''publish runtime outer'' (rk_publish env outer fd)) (returnC info)))))"
  have "triple (preparing s fd (\<lambda>c. fst c = x)) ?rest (\<lambda>_. switched s fd x) (refused s fd)"
    by (intro triple_then[OF triple_freeze] triple_bind[OF triple_metadata] triple_then[OF triple_verify] triple_getR
        triple_then[OF triple_publish] triple_returnC)
  then show "triple (preparing s fd (\<lambda>c. fst c = readback))
      (if readback \<noteq> x then throwC (RuntimeError ''runtime snapshot readback mismatch'') else ?rest)
      (\<lambda>_. switched s fd x) (refused s fd)"
    by (auto simp: triple_def throwC_def preparing_refused)
qed

text \<open>A publication that failed without a commit, and one that was committed.\<close>

definition rolled_back :: "'w RuntimeMapStore \<Rightarrow> 'w RuntimeMapStore \<Rightarrow> bool" where
  "rolled_back s t \<longleftrightarrow> rt_activeFd t = rt_activeFd s \<and> rt_generation t = rt_generation s \<and> valid (rt_world t) \<and>
     opened (rt_world t) = opened (rt_world s) \<and> active (rt_world t) = active (rt_world s)"

definition published_now :: "'w RuntimeMapStore \<Rightarrow> UdpRuntimeSnapshot \<Rightarrow> 'w RuntimeMapStore \<Rightarrow> bool" where
  "published_now s x t \<longleftrightarrow> rt_generation t = rs_generation x \<and> valid (rt_world t) \<and>
     active (rt_world t) = Some (x, True) \<and> (\<exists>fd. fd \<notin> opened (rt_world s) \<and> rt_activeFd t = Some fd \<and>
       opened (rt_world t) = insert fd (opened (rt_world s) - set_option (rt_activeFd s)))"

lemma owning_ends:
  assumes "fd \<notin> opened (rt_world s)" and u: "preparing s fd (\<lambda>_. True) u"
    and run: "owning_candidate env fd (prepareCandidate env fd x) u = (r, t)"
  shows "case r of Inl e \<Rightarrow> rolled_back s t \<and> (\<forall>m c. e \<noteq> RuntimePublishError m c) | Inr _ \<Rightarrow> switched s fd x t"
proof -
  obtain q v where v: "prepareCandidate env fd x u = (q, v)" by fastforce
  show ?thesis
  proof (cases q)
    case (Inr info)
    with triple_Inr[OF triple_prepareCandidate u] v run show ?thesis by (auto simp: owning_candidate_def catchC_def)
  next
    case (Inl e)
    with triple_Inl[OF triple_prepareCandidate u] v have e: "refused s fd e v" by simp
    from Inl v run have "r = Inl e" "t = v\<lparr>rt_world := rk_close env fd (rt_world v)\<rparr>"
      by (auto simp: owning_candidate_def catchC_def closeR_def comp_defs)
    with e close[of "rt_world v" fd] assms(1) show ?thesis
      by (auto simp: refused_def opened_candidate_def rolled_back_def)
  qed
qed

lemma commit_ends:
  assumes "fd \<notin> opened (rt_world s)" and "rt_activeFd s \<noteq> Some fd"
    and u: "switched s fd x u" and run: "commitCandidate env fd i x u = (r, t)"
  shows "published_now s x t \<and> (r = Inr () \<or> (\<exists>m. r = Inl (RuntimePublishError m True)))"
proof -
  define w where "w = (case rt_activeFd s of None \<Rightarrow> rt_world u | Some p \<Rightarrow> rk_close env p (rt_world u))"
  obtain q w' where q: "rk_published env (rt_outerFd u) w = (q, w')" by fastforce
  have "valid w" "active w = Some (x, True)" "opened w = insert fd (opened (rt_world s) - set_option (rt_activeFd s))"
    using u close assms(1,2) by (auto simp: w_def switched_def opened_candidate_def split: option.splits)
  with published[OF q] have w': "valid w'" "active w' = Some (x, True)"
    "opened w' = insert fd (opened (rt_world s) - set_option (rt_activeFd s))" by auto
  have "t = u\<lparr>rt_activeFd := Some fd, rt_generation := rs_generation x, rt_world := w'\<rparr> \<and>
      (r = Inr () \<or> (\<exists>m. r = Inl (RuntimePublishError m True)))"
    using run q u unfolding commitCandidate_def
    by (auto simp: comp_defs closeR_def callR_def w_def switched_def opened_candidate_def
        split: option.splits sum.splits prod.splits if_splits)
  with w' assms(1) show ?thesis by (auto simp: published_now_def)
qed

lemma publish_atomic:
  assumes valid: "valid (rt_world s)" and active_fd: "set_option (rt_activeFd s) \<subseteq> opened (rt_world s)"
    and run: "publishSnapshot env x s = (r, t)"
  shows "(r = Inr () \<or> (\<exists>m. r = Inl (RuntimePublishError m True))) \<and> published_now s x t \<and>
       validateCandidateSnapshot x (rt_generation s) = Inr () \<or>
     (\<exists>e. r = Inl e \<and> (\<forall>m c. e \<noteq> RuntimePublishError m c)) \<and> rolled_back s t"
proof (cases "validateCandidateSnapshot x (rt_generation s)")
  case (Inl e)
  with run have "r = Inl e" "t = s" by (auto simp: publishSnapshot_def bindC_getC)
  with Inl valid show ?thesis
    by (auto simp: rolled_back_def validateCandidateSnapshot_def dest: validate_slots_error split: if_splits)
next
  case (Inr u)
  obtain q w where q: "rk_create env (rt_world s) = (q, w)" by fastforce
  show ?thesis
  proof (cases q)
    case (Inl e)
    with create[OF q valid] run Inr q show ?thesis
      by (auto simp: publishSnapshot_def bindC_getC valueR_def callR_def comp_defs rolled_back_def)
  next
    case (Inr fd)
    define v where "v = s\<lparr>rt_world := w\<rparr>"
    from create[OF q valid] Inr have fd: "fd \<notin> opened (rt_world s)" and v: "preparing s fd (\<lambda>_. True) v"
      by (auto simp: preparing_def opened_candidate_def v_def)
    obtain p z where z: "owning_candidate env fd (prepareCandidate env fd x) v = (p, z)" by fastforce
    have unfolded: "publishSnapshot env x s = (case p of Inl e \<Rightarrow> (Inl e, z) | Inr info \<Rightarrow> commitCandidate env fd info x z)"
      using \<open>validateCandidateSnapshot x (rt_generation s) = Inr u\<close> Inr q z
      by (simp add: publishSnapshot_def bindC_getC valueR_def callR_def comp_defs v_def split: sum.splits)
    show ?thesis
    proof (cases p)
      case (Inl e)
      with owning_ends[OF fd v z] unfolded run show ?thesis by auto
    next
      case (Inr i)
      with owning_ends[OF fd v z] have switched: "switched s fd x z" by simp
      have "rt_activeFd s \<noteq> Some fd" using fd active_fd by auto
      moreover have "commitCandidate env fd i x z = (r, t)" using unfolded run Inr by simp
      ultimately show ?thesis
        using commit_ends[OF fd _ switched] \<open>validateCandidateSnapshot x (rt_generation s) = Inr u\<close> by simp
    qed
  qed
qed

end

section \<open>The kernel's maps with injected failures\<close>

text \<open>
  Descriptors are handed out lowest first and name maps by their id; a map outlives its
  descriptor. Every call may fail with the next error of the list instead of taking effect; an
  update of a frozen map fails with \<open>EPERM\<close>.
\<close>

record runtime_host =
  rh_fds :: "nat option list"
  rh_maps :: "(UdpRuntimeSnapshot \<times> bool) list"
  rh_slot :: "nat option"
  rh_faults :: "errno option list"

fun open_lowest :: "nat \<Rightarrow> nat option list \<Rightarrow> nat \<times> nat option list" where
  "open_lowest i [] = (0, [Some i])"
| "open_lowest i (None # fds) = (0, Some i # fds)"
| "open_lowest i (Some j # fds) = (case open_lowest i fds of (fd, fds') \<Rightarrow> (Suc fd, Some j # fds'))"

definition fd_entry :: "nat option list \<Rightarrow> nat \<Rightarrow> nat option" where
  "fd_entry fds fd = (if fd < length fds then fds ! fd else None)"

definition map_at :: "runtime_host \<Rightarrow> nat \<Rightarrow> nat option" where
  "map_at w fd = fd_entry (rh_fds w) fd"

definition rh_call :: "(runtime_host \<Rightarrow> 'a \<times> runtime_host) \<Rightarrow> (errno \<Rightarrow> 'a) \<Rightarrow> runtime_host \<Rightarrow> 'a \<times> runtime_host" where
  "rh_call f fail w = (case rh_faults w of
     Some e # faults \<Rightarrow> (fail e, w\<lparr>rh_faults := faults\<rparr>)
   | None # faults \<Rightarrow> f (w\<lparr>rh_faults := faults\<rparr>)
   | [] \<Rightarrow> f w)"

definition runtime_host_env :: "runtime_host runtime_maps_env" where
  "runtime_host_env = \<lparr>
     rk_create = rh_call (\<lambda>w. case open_lowest (length (rh_maps w)) (rh_fds w) of (fd, fds) \<Rightarrow>
        (Inr fd, w\<lparr>rh_fds := fds, rh_maps := rh_maps w @ [(empty_runtime_snapshot, False)]\<rparr>)) Inl,
     rk_update = \<lambda>fd x. rh_call (\<lambda>w. case map_at w fd of None \<Rightarrow> (Some EBADF, w)
        | Some i \<Rightarrow> if snd (rh_maps w ! i) then (Some EPERM, w)
            else (None, w\<lparr>rh_maps := (rh_maps w)[i := (x, False)]\<rparr>)) Some,
     rk_lookup = \<lambda>fd. rh_call (\<lambda>w. case map_at w fd of None \<Rightarrow> (Inl EBADF, w)
        | Some i \<Rightarrow> (Inr (fst (rh_maps w ! i)), w)) Inl,
     rk_freeze = \<lambda>fd. rh_call (\<lambda>w. case map_at w fd of None \<Rightarrow> (Some EBADF, w)
        | Some i \<Rightarrow> (None, w\<lparr>rh_maps := (rh_maps w)[i := (fst (rh_maps w ! i), True)]\<rparr>)) Some,
     rk_info = \<lambda>fd. rh_call (\<lambda>w. case map_at w fd of None \<Rightarrow> (Inl EBADF, w)
        | Some i \<Rightarrow> (Inr (i, template_spec), w)) Inl,
     rk_publish = \<lambda>outer fd. rh_call (\<lambda>w. case map_at w fd of None \<Rightarrow> (Some EBADF, w)
        | Some i \<Rightarrow> (None, w\<lparr>rh_slot := Some i\<rparr>)) Some,
     rk_published = \<lambda>outer. rh_call (\<lambda>w. case rh_slot w of None \<Rightarrow> (Inl ENOENT, w) | Some i \<Rightarrow> (Inr i, w)) Inl,
     rk_cpus = \<lambda>w. (2, w),
     rk_stats = \<lambda>stats cpus. rh_call (\<lambda>w. (Inr (replicate cpus zero_stats), w)) Inl,
     rk_close = \<lambda>fd w. w\<lparr>rh_fds := (rh_fds w)[fd := None]\<rparr>\<rparr>"

definition host_open :: "runtime_host \<Rightarrow> nat set" where
  "host_open w = {fd. map_at w fd \<noteq> None}"

definition host_content :: "runtime_host \<Rightarrow> nat \<Rightarrow> UdpRuntimeSnapshot \<times> bool" where
  "host_content w fd = (case map_at w fd of None \<Rightarrow> (empty_runtime_snapshot, False) | Some i \<Rightarrow> rh_maps w ! i)"

definition host_active :: "runtime_host \<Rightarrow> (UdpRuntimeSnapshot \<times> bool) option" where
  "host_active w = map_option (\<lambda>i. rh_maps w ! i) (rh_slot w)"

definition host_live :: "runtime_host \<Rightarrow> nat \<Rightarrow> bool" where
  "host_live w fd \<longleftrightarrow> map_at w fd \<noteq> None \<and> map_at w fd = rh_slot w"

definition host_valid :: "runtime_host \<Rightarrow> bool" where
  "host_valid w \<longleftrightarrow> (\<forall>fd i. map_at w fd = Some i \<longrightarrow> i < length (rh_maps w)) \<and>
     (\<forall>i. rh_slot w = Some i \<longrightarrow> i < length (rh_maps w))"

lemma fd_entry_Cons: "fd_entry (x # fds) j = (case j of 0 \<Rightarrow> x | Suc k \<Rightarrow> fd_entry fds k)"
  by (simp add: fd_entry_def split: nat.split)

lemma open_lowest_spec:
  "open_lowest i fds = (fd, fds') \<Longrightarrow> fd_entry fds fd = None \<and> fd_entry fds' j = (if j = fd then Some i else fd_entry fds j)"
proof (induction i fds arbitrary: fd fds' j rule: open_lowest.induct)
  case (1 i)
  then show ?case by (auto simp: fd_entry_def)
next
  case (2 i fds)
  then show ?case by (auto simp: fd_entry_Cons split: nat.split)
next
  case (3 i k fds)
  then obtain n ns where n: "open_lowest i fds = (n, ns)" "fd = Suc n" "fds' = Some k # ns" by (auto split: prod.splits)
  from 3(1)[OF n(1)] show ?case by (cases j) (simp_all add: n fd_entry_Cons)
qed

lemma map_at_opened:
  assumes "open_lowest i (rh_fds w) = (fd, fds)"
  shows "map_at w fd = None" and "map_at (w\<lparr>rh_fds := fds, rh_maps := maps\<rparr>) j = (if j = fd then Some i else map_at w j)"
  using open_lowest_spec[OF assms] by (simp_all add: map_at_def)

lemma map_at_closed: "map_at (w\<lparr>rh_fds := (rh_fds w)[fd := None]\<rparr>) j = (if j = fd then None else map_at w j)"
  by (auto simp: map_at_def fd_entry_def nth_list_update_if)

lemma map_at_frame [simp]:
  "map_at (w\<lparr>rh_faults := f\<rparr>) = map_at w" "map_at (w\<lparr>rh_maps := maps\<rparr>) = map_at w" "map_at (w\<lparr>rh_slot := sl\<rparr>) = map_at w"
  by (auto simp: map_at_def fun_eq_iff)

lemmas host_defs = host_open_def host_content_def host_active_def host_live_def host_valid_def

lemma host_faults [simp]:
  "host_open (w\<lparr>rh_faults := f\<rparr>) = host_open w" "host_content (w\<lparr>rh_faults := f\<rparr>) = host_content w"
  "host_active (w\<lparr>rh_faults := f\<rparr>) = host_active w" "host_live (w\<lparr>rh_faults := f\<rparr>) = host_live w"
  "host_valid (w\<lparr>rh_faults := f\<rparr>) = host_valid w"
  by (auto simp: host_defs fun_eq_iff split: option.split)

lemma host_valid_at: "host_valid w \<Longrightarrow> map_at w fd = Some i \<Longrightarrow> i < length (rh_maps w)"
  by (simp add: host_valid_def)

lemma host_write:
  assumes "map_at w fd = Some i" and "\<not> host_live w fd" and "host_valid w"
  shows "host_valid (w\<lparr>rh_maps := (rh_maps w)[i := c]\<rparr>)" and "host_open (w\<lparr>rh_maps := (rh_maps w)[i := c]\<rparr>) = host_open w"
    and "host_active (w\<lparr>rh_maps := (rh_maps w)[i := c]\<rparr>) = host_active w"
    and "\<not> host_live (w\<lparr>rh_maps := (rh_maps w)[i := c]\<rparr>) fd"
    and "host_content (w\<lparr>rh_maps := (rh_maps w)[i := c]\<rparr>) fd = c"
  using assms by (cases "rh_slot w"; simp add: host_defs)+

lemma host_publish:
  assumes "map_at w fd = Some i" and "host_valid w"
  shows "host_valid (w\<lparr>rh_slot := Some i\<rparr>)" and "host_open (w\<lparr>rh_slot := Some i\<rparr>) = host_open w"
    and "host_active (w\<lparr>rh_slot := Some i\<rparr>) = Some (host_content w fd)"
  using assms by (auto simp: host_defs)

text \<open>A call either fails and changes nothing but the list of errors, or takes effect.\<close>

lemma rh_call_cases:
  assumes "rh_call f fail w = (r, w')"
  obtains (fault) e faults where "r = fail e" "w' = w\<lparr>rh_faults := faults\<rparr>"
    | (effect) v where "f v = (r, w')" "host_valid w = host_valid v" "host_open w = host_open v" "host_active w = host_active v"
        "host_content w = host_content v" "host_live w = host_live v"
proof (cases "rh_faults w")
  case Nil
  with assms have "f w = (r, w')" by (simp add: rh_call_def)
  then show thesis by (rule effect) simp_all
next
  case (Cons a faults)
  with assms fault effect[of "w\<lparr>rh_faults := faults\<rparr>"] show thesis by (cases a) (auto simp: rh_call_def)
qed

lemma host_content_at: "map_at w fd = Some i \<Longrightarrow> host_content w fd = rh_maps w ! i"
  by (simp add: host_content_def)

interpretation host: runtime_kernel runtime_host_env host_open host_active host_content host_live host_valid
proof unfold_locales
  fix n w w'
  assume "rk_create runtime_host_env w = (n, w')" and valid: "host_valid w"
  then show "host_valid w' \<and> host_active w' = host_active w \<and> (case n of Inl e \<Rightarrow> host_open w' = host_open w
    | Inr fd \<Rightarrow> fd \<notin> host_open w \<and> host_open w' = insert fd (host_open w) \<and> \<not> host_live w' fd)"
    unfolding runtime_host_env_def runtime_maps_env.simps
  proof (elim rh_call_cases)
    fix v :: runtime_host
    let ?w = v
    assume same: "host_valid w = host_valid v" "host_open w = host_open v" "host_active w = host_active v"
    assume "(case open_lowest (length (rh_maps ?w)) (rh_fds ?w) of (fd, fds) \<Rightarrow>
        (Inr fd, ?w\<lparr>rh_fds := fds, rh_maps := rh_maps ?w @ [(empty_runtime_snapshot, False)]\<rparr>)) = (n, w')"
    then obtain fd fds where opened: "open_lowest (length (rh_maps ?w)) (rh_fds ?w) = (fd, fds)"
      and n: "n = Inr fd" and w': "w' = ?w\<lparr>rh_fds := fds, rh_maps := rh_maps ?w @ [(empty_runtime_snapshot, False)]\<rparr>"
      by (auto split: prod.splits)
    note fds = map_at_opened[OF opened]
    have "host_valid ?w" using valid same by simp
    then have "host_valid w' \<and> host_active w' = host_active ?w \<and> fd \<notin> host_open ?w \<and>
        host_open w' = insert fd (host_open ?w) \<and> \<not> host_live w' fd"
      using fds unfolding w' by (cases "rh_slot ?w") (auto simp: host_defs nth_append less_Suc_eq split: if_splits)
    with n same show ?thesis by simp
  qed simp
next
  fix fd x w r w'
  assume "rk_update runtime_host_env fd x w = (r, w')" and valid: "host_valid w" and "\<not> host_live w fd"
  then show "host_valid w' \<and> host_open w' = host_open w \<and> host_active w' = host_active w \<and> \<not> host_live w' fd \<and>
      (r \<noteq> None \<longrightarrow> host_content w' fd = host_content w fd)"
    unfolding runtime_host_env_def runtime_maps_env.simps
    by (elim rh_call_cases, simp, clarsimp split: option.splits if_splits) (simp_all add: host_write host_content_at host_valid_at)
next
  fix fd w z w'
  assume "rk_lookup runtime_host_env fd w = (z, w')" and valid: "host_valid w"
  then show "host_valid w' \<and> host_open w' = host_open w \<and> host_active w' = host_active w \<and>
      host_live w' fd = host_live w fd \<and> host_content w' fd = host_content w fd \<and> (\<forall>x. z = Inr x \<longrightarrow> x = fst (host_content w fd))"
    unfolding runtime_host_env_def runtime_maps_env.simps
    by (elim rh_call_cases, simp, clarsimp split: option.splits) (simp_all add: host_content_at)
next
  fix fd w and r :: "errno option" and w'
  assume "rk_freeze runtime_host_env fd w = (r, w')" and valid: "host_valid w" and "\<not> host_live w fd"
  then show "host_valid w' \<and> host_open w' = host_open w \<and> host_active w' = host_active w \<and> \<not> host_live w' fd \<and>
      (r = None \<longrightarrow> host_content w' fd = (fst (host_content w fd), True))"
    unfolding runtime_host_env_def runtime_maps_env.simps
    by (elim rh_call_cases, simp, clarsimp split: option.splits if_splits) (simp_all add: host_write host_content_at host_valid_at)
next
  fix fd w v w'
  assume "rk_info runtime_host_env fd w = (v, w')" and valid: "host_valid w"
  then show "host_valid w' \<and> host_open w' = host_open w \<and> host_active w' = host_active w \<and>
      host_live w' fd = host_live w fd \<and> host_content w' fd = host_content w fd"
    unfolding runtime_host_env_def runtime_maps_env.simps
    by (elim rh_call_cases, simp, clarsimp split: option.splits) simp_all?
next
  fix outer fd w r w'
  assume "rk_publish runtime_host_env outer fd w = (r, w')" and valid: "host_valid w" and "fd \<in> host_open w"
  then show "host_valid w' \<and> host_open w' = host_open w \<and>
      host_active w' = (if r = None then Some (host_content w fd) else host_active w)"
    unfolding runtime_host_env_def runtime_maps_env.simps
    by (elim rh_call_cases, simp, clarsimp split: option.splits) (simp_all add: host_publish)
next
  fix outer w u w'
  assume "rk_published runtime_host_env outer w = (u, w')" and valid: "host_valid w"
  then show "host_valid w' \<and> host_open w' = host_open w \<and> host_active w' = host_active w"
    unfolding runtime_host_env_def runtime_maps_env.simps
    by (elim rh_call_cases, simp, clarsimp split: option.splits) simp_all?
next
  fix fd w
  assume "host_valid w"
  then show "host_valid (rk_close runtime_host_env fd w) \<and> host_open (rk_close runtime_host_env fd w) = host_open w - {fd} \<and>
      host_active (rk_close runtime_host_env fd w) = host_active w"
    by (auto simp: runtime_host_env_def host_defs map_at_closed split: if_splits)
qed

section \<open>Publishing any number of snapshots\<close>

fun publish_all :: "UdpRuntimeSnapshot list \<Rightarrow> runtime_host RuntimeMapStore \<Rightarrow> runtime_host RuntimeMapStore" where
  "publish_all [] s = s"
| "publish_all (x # xs) s = publish_all xs (snd (publishSnapshot runtime_host_env x s))"

text \<open>
  What holds between publications: besides the descriptors open at first only the active one is
  open, and the snapshot the program reads is frozen, has passed the checks and carries the
  generation of the store.
\<close>

definition store_sound :: "nat set \<Rightarrow> runtime_host RuntimeMapStore \<Rightarrow> bool" where
  "store_sound base s \<longleftrightarrow> host_valid (rt_world s) \<and>
     host_open (rt_world s) = base \<union> set_option (rt_activeFd s) \<and> set_option (rt_activeFd s) \<inter> base = {} \<and>
     (case host_active (rt_world s) of
        None \<Rightarrow> rt_activeFd s = None \<and> rt_generation s = 0
      | Some (x, frozen) \<Rightarrow> frozen \<and> rt_activeFd s \<noteq> None \<and> rs_generation x = rt_generation s \<and>
          length (rs_backends x) = 64 \<and> (\<exists>g. validateCandidateSnapshot x g = Inr ()))"

lemma publish_sound:
  assumes s: "store_sound base s" and "length (rs_backends x) = 64"
    and run: "publishSnapshot runtime_host_env x s = (r, t)"
  shows "store_sound base t"
proof -
  from s have "host_valid (rt_world s)" "set_option (rt_activeFd s) \<subseteq> host_open (rt_world s)"
    by (auto simp: store_sound_def)
  from host.publish_atomic[OF this run]
  consider "host.published_now s x t" "validateCandidateSnapshot x (rt_generation s) = Inr ()" | "host.rolled_back s t"
    by blast
  then show ?thesis
  proof cases
    case 1
    then obtain fd where "fd \<notin> host_open (rt_world s)" "rt_activeFd t = Some fd"
      "host_open (rt_world t) = insert fd (host_open (rt_world s) - set_option (rt_activeFd s))"
      by (auto simp: host.published_now_def)
    moreover have "host_valid (rt_world t)" "rt_generation t = rs_generation x" "host_active (rt_world t) = Some (x, True)"
      using 1 by (simp_all add: host.published_now_def)
    ultimately show ?thesis using s assms(2) 1(2) by (auto simp: store_sound_def)
  next
    case 2
    with s show ?thesis unfolding store_sound_def host.rolled_back_def by (cases "host_active (rt_world s)") auto
  qed
qed

lemma publish_all_sound:
  "store_sound base s \<Longrightarrow> list_all (\<lambda>x. length (rs_backends x) = 64) xs \<Longrightarrow> store_sound base (publish_all xs s)"
proof (induction xs arbitrary: s)
  case (Cons x xs)
  obtain r t where t: "publishSnapshot runtime_host_env x s = (r, t)" by fastforce
  with publish_sound[OF Cons.prems(1) _ t] Cons show ?case by simp
qed simp

text \<open>A snapshot the store accepts never makes the program report an invalid configuration.\<close>

lemma validate_slots_ok:
  "validate_slots i used bs = Inr () \<Longrightarrow> j < length bs \<Longrightarrow> i + j < unat used \<Longrightarrow> dsr_backend_ok (bs ! j)"
proof (induction bs arbitrary: i j)
  case (Cons b bs)
  then show ?case
    by (cases j) (auto simp: dsr_backend_ok_def isNonzeroUnicastMac_def validMac_def split: if_splits)
qed simp

lemma accepted_never_invalid:
  assumes ok: "validateCandidateSnapshot x g = Inr ()" and len: "length (rs_backends x) = 64"
  shows "rt_outcome_of (Some x) redirectPacket p \<noteq> InvalidConfig"
proof -
  have x: "rs_schemaVersion x = 3" "rs_backendCount x \<le> 64" "rs_reserved x = 0" "rs_generation x \<noteq> 0"
    "validate_slots 0 (rs_backendCount x) (rs_backends x) = Inr ()"
    using ok word_inc_neq_0 by (auto simp: validateCandidateSnapshot_def split: if_splits)
  let ?i = "frame_hash p mod rs_backendCount x"
  have "backend_outcome redirectPacket (array_lookup (rs_backends x) ?i) \<noteq> InvalidConfig" if "rs_backendCount x \<noteq> 0"
  proof -
    have i: "unat ?i < unat (rs_backendCount x)" using that by (simp add: unat_mod_distrib flip: unat_gt_0)
    moreover have "unat (rs_backendCount x) \<le> 64" using x(2) by (simp add: word_le_nat_alt)
    ultimately have "dsr_backend_ok (rs_backends x ! unat ?i)" "unat ?i < 64"
      using validate_slots_ok[OF x(5)] len by auto
    then show ?thesis by (simp add: array_lookup_def len backend_outcome_def dsr_backend_ok_def)
  qed
  with x show ?thesis by (auto simp: rt_outcome_of_def)
qed

definition fresh_runtime_host :: "errno option list \<Rightarrow> runtime_host" where
  "fresh_runtime_host faults = \<lparr>rh_fds = [], rh_maps = [], rh_slot = None, rh_faults = faults\<rparr>"

definition sample_snapshot :: "u64 \<Rightarrow> UdpRuntimeSnapshot" where
  "sample_snapshot generation = \<lparr>rs_schemaVersion = 3, rs_backendCount = 2, rs_generation = generation,
     rs_vipAddress = 16777226, rs_vipPort = 13568, rs_reserved = 0,
     rs_backends = sample_backends @ replicate 62 zero_dsr_backend\<rparr>"

section \<open>Properties\<close>

text \<open>
  Claim C5. Publishing is atomic, whatever call fails: either the outer slot now leads to the
  frozen new snapshot, the store has its generation, its map is the active one and the previous
  descriptor is closed, and the call returned or threw the error marked as committed; or the
  program still reads what it read, store and open descriptors are as before, and the call
  threw an error that is not marked as committed.
\<close>

theorem runtime_publish_atomic:
  assumes "host_valid (rt_world s)" and "set_option (rt_activeFd s) \<subseteq> host_open (rt_world s)"
    and "publishSnapshot runtime_host_env x s = (r, t)"
  shows "(r = Inr () \<or> (\<exists>m. r = Inl (RuntimePublishError m True))) \<and>
       host_active (rt_world t) = Some (x, True) \<and> rt_generation t = rs_generation x \<and>
       rs_generation x = rt_generation s + 1 \<and> (\<exists>fd. fd \<notin> host_open (rt_world s) \<and> rt_activeFd t = Some fd \<and>
         host_open (rt_world t) = insert fd (host_open (rt_world s) - set_option (rt_activeFd s))) \<or>
     (\<exists>e. r = Inl e \<and> (\<forall>m c. e \<noteq> RuntimePublishError m c)) \<and>
       host_active (rt_world t) = host_active (rt_world s) \<and> rt_generation t = rt_generation s \<and>
       rt_activeFd t = rt_activeFd s \<and> host_open (rt_world t) = host_open (rt_world s)"
proof -
  have "rs_generation x = rt_generation s + 1" if "validateCandidateSnapshot x (rt_generation s) = Inr ()"
    using that by (simp add: validateCandidateSnapshot_def split: if_splits)
  with host.publish_atomic[OF assms] show ?thesis
    unfolding host.published_now_def host.rolled_back_def by blast
qed

lemma runtime_publish_atomic_witness:
  "let s = initialRuntimeMapStore (fresh_runtime_host (replicate 6 None @ [Some EIO]));
       t = snd (publishSnapshot runtime_host_env (sample_snapshot 1) s)
   in host_active (rt_world t) = None \<and> host_open (rt_world t) = {}"
proof -
  define s where "s = initialRuntimeMapStore (fresh_runtime_host (replicate 6 None @ [Some EIO]))"
  obtain r t where run: "publishSnapshot runtime_host_env (sample_snapshot 1) s = (r, t)" by fastforce
  have "host_valid (rt_world s)" and active: "set_option (rt_activeFd s) \<subseteq> host_open (rt_world s)"
    by (simp_all add: s_def initialRuntimeMapStore_def fresh_runtime_host_def host_defs map_at_def fd_entry_def)
  note atomic = runtime_publish_atomic[OF this run]
  have "fst (publishSnapshot runtime_host_env (sample_snapshot 1) s) = Inl (SystemError ''publish runtime outer'' EIO)"
    unfolding s_def by code_simp
  with run have "r = Inl (SystemError ''publish runtime outer'' EIO)" by simp
  with atomic run show ?thesis
    unfolding s_def[symmetric]
    by (simp add: s_def initialRuntimeMapStore_def fresh_runtime_host_def host_defs map_at_def fd_entry_def)
qed

text \<open>
  Claim C6. After any number of attempted publications with any failures, only the active
  descriptor is open besides those open at first; what the runtime program reads is either still
  nothing, with generation 0, or a frozen snapshot whose generation is the store's; and with such
  a snapshot no packet is ever counted as an invalid configuration.
\<close>

theorem runtime_store_stays_sound:
  assumes "list_all (\<lambda>x. length (rs_backends x) = 64) xs"
    and "s = publish_all xs (initialRuntimeMapStore (fresh_runtime_host faults))"
  shows "host_open (rt_world s) = set_option (rt_activeFd s) \<and>
    (case host_active (rt_world s) of
       None \<Rightarrow> rt_generation s = 0
     | Some (x, frozen) \<Rightarrow> frozen \<and> rs_generation x = rt_generation s \<and>
         ds_invalidConfigPackets (px_stats (snd (xdp_udp_rt True (Some x) redirectPacket packet))) =
           ds_invalidConfigPackets (px_stats packet))"
proof -
  have "store_sound {} (initialRuntimeMapStore (fresh_runtime_host faults))"
    by (simp add: store_sound_def initialRuntimeMapStore_def fresh_runtime_host_def host_defs map_at_def fd_entry_def)
  from publish_all_sound[OF this assms(1)] have s: "store_sound {} s" by (simp add: assms(2))
  have counted: "ds_invalidConfigPackets (px_stats (snd (xdp_udp_rt True (Some x) redirectPacket packet))) =
      ds_invalidConfigPackets (px_stats packet)"
    if "validateCandidateSnapshot x g = Inr ()" "length (rs_backends x) = 64" for x g
    using accepted_never_invalid[OF that]
    by (cases "rt_outcome_of (Some x) redirectPacket (px_data packet)")
       (simp_all add: xdp_udp_rt_run Let_def outcome_state_def outcome_stats_def)
  from s show ?thesis
    by (cases "host_active (rt_world s)") (auto simp: store_sound_def counted)
qed

lemma runtime_store_stays_sound_witness:
  "let s = publish_all [sample_snapshot 1, sample_snapshot 7, sample_snapshot 2]
         (initialRuntimeMapStore (fresh_runtime_host []))
   in host_open (rt_world s) = {1} \<and> rt_generation s = 2"
proof -
  have len: "list_all (\<lambda>x. length (rs_backends x) = 64) [sample_snapshot 1, sample_snapshot 7, sample_snapshot 2]"
    by (simp add: sample_snapshot_def sample_backends_def)
  define s where "s = publish_all [sample_snapshot 1, sample_snapshot 7, sample_snapshot 2]
         (initialRuntimeMapStore (fresh_runtime_host []))"
  from runtime_store_stays_sound[OF len s_def] have "host_open (rt_world s) = set_option (rt_activeFd s)" by blast
  moreover have "rt_activeFd s = Some 1" "rt_generation s = 2" unfolding s_def by code_simp+
  ultimately show ?thesis unfolding s_def Let_def by simp
qed

end
