(* ===== verification/RuntimeConfig.thy ===== *)
theory RuntimeConfig
  imports XdpConfig "HOL-Library.Sublist"
begin

unbundle bit_operations_syntax

text \<open>
  The configuration file of the runtime mode: \<open>src/control/RuntimeDsrConfig.h\<close> and
  \<open>src/control/RuntimeDsrConfig.cpp\<close>. The text is parsed without touching interfaces or
  sockets; loading reads the file whole and unchanged, then inspects the interfaces. Diagnostic
  texts of exceptions are abbreviated.
\<close>

section \<open>Data\<close>

record RuntimeTargetText =
  rx_id :: string
  rx_egress :: string
  rx_destinationMac :: string
  rx_probeEndpoint :: string

record RuntimeTarget =
  rg_id :: string
  rg_egress :: string
  rg_backend :: UdpDsrBackendValue
  rg_probeAddress :: u32
  rg_probePort :: u16

record RuntimeDsrConfiguration =
  rc_vipAddress :: u32
  rc_vipPort :: u16
  rc_targets :: "RuntimeTarget list"

definition kMaxFileBytes :: nat where "kMaxFileBytes = 65536"

section \<open>Literals\<close>

definition isRuntimeTargetIdCharacter :: "char \<Rightarrow> bool" where
  "isRuntimeTargetIdCharacter character = (let n = of_char character :: nat in
     of_char CHR ''A'' \<le> n \<and> n \<le> of_char CHR ''Z'' \<or> of_char CHR ''a'' \<le> n \<and> n \<le> of_char CHR ''z'' \<or>
     of_char CHR ''0'' \<le> n \<and> n \<le> of_char CHR ''9'' \<or> character = CHR ''_'' \<or> character = CHR ''-'')"

definition isValidRuntimeTargetId :: "string \<Rightarrow> bool" where
  "isValidRuntimeTargetId name \<longleftrightarrow> name \<noteq> [] \<and> length name \<le> 32 \<and> list_all isRuntimeTargetIdCharacter name"

text \<open>One group of the destination MAC; the first must not have the multicast bit.\<close>

definition literal_mac_group :: "string \<Rightarrow> nat \<Rightarrow> nat option" where
  "literal_mac_group txt i =
     (let begin = drop (3 * i) txt; (ok, used, byte) = from_chars hex_digit 16 (take 2 begin)
      in if \<not> ok \<or> used \<noteq> 2 \<or> (i < 5 \<and> begin ! 2 \<noteq> CHR '':'') \<or> (i = 0 \<and> odd byte) then None else Some byte)"

fun literal_mac_groups :: "string \<Rightarrow> nat list \<Rightarrow> nat \<Rightarrow> nat option" where
  "literal_mac_groups txt [] combined = Some combined"
| "literal_mac_groups txt (i # is) combined = (case literal_mac_group txt i of
     None \<Rightarrow> None | Some byte \<Rightarrow> literal_mac_groups txt is (combined OR byte))"

definition validateRuntimeTargetLiteral :: "(string \<Rightarrow> u32 option) \<Rightarrow> RuntimeTargetText \<Rightarrow> exn + unit" where
  "validateRuntimeTargetLiteral inet_pton target =
     (if \<not> isValidRuntimeTargetId (rx_id target) then Inl (InvalidArgument ''invalid target ID'')
      else if rx_egress target = [] \<or> 16 \<le> length (rx_egress target) \<or>
          (\<exists>c \<in> set (rx_egress target). c \<in> set ''/ :@'' \<or> c \<in> {CHR 0x09, CHR 0x0D, CHR 0x0A})
      then Inl (InvalidArgument ''invalid target egress'')
      else if length (rx_destinationMac target) \<noteq> 17 then Inl (InvalidArgument ''invalid target MAC'')
      else case literal_mac_groups (rx_destinationMac target) [0, 1, 2, 3, 4, 5] 0 of
        None \<Rightarrow> Inl (InvalidArgument ''target MAC must be unicast'')
      | Some combined \<Rightarrow>
          if combined = 0 then Inl (InvalidArgument ''target MAC must not be zero'')
          else case parseXdpBackends inet_pton [rx_probeEndpoint target] of Inl e \<Rightarrow> Inl e | Inr _ \<Rightarrow> Inr ())"

section \<open>The text\<close>

text \<open>\<open>std::getline\<close> until it fails: a final newline does not start another line.\<close>

function getlines :: "string \<Rightarrow> string list" where
  "getlines txt = (if txt = [] then [] else
     takeWhile (\<lambda>c. c \<noteq> CHR 0x0A) txt # getlines (drop 1 (dropWhile (\<lambda>c. c \<noteq> CHR 0x0A) txt)))"
  by pat_completeness auto
termination
  by (relation "measure length") (auto simp: length_dropWhile_le less_Suc_eq_le le_SucI diff_less_Suc
      intro!: le_less_trans[OF diff_le_mono[OF length_dropWhile_le]])

declare getlines.simps [simp del]

text \<open>\<open>std::isspace\<close>, and the fields \<open>operator>>\<close> extracts one after the other.\<close>

definition is_space :: "char \<Rightarrow> bool" where
  "is_space c \<longleftrightarrow> c \<in> {CHR '' '', CHR 0x09, CHR 0x0A, CHR 0x0B, CHR 0x0C, CHR 0x0D}"

function split_words :: "string \<Rightarrow> string list" where
  "split_words txt = (let rest = dropWhile is_space txt in if rest = [] then [] else
     takeWhile (\<lambda>c. \<not> is_space c) rest # split_words (dropWhile (\<lambda>c. \<not> is_space c) rest))"
  by pat_completeness auto
termination
proof (relation "measure length")
  fix cs rest :: string
  assume rest: "rest = dropWhile is_space cs" "rest \<noteq> []"
  then have "\<not> is_space (hd rest)" by (simp add: hd_dropWhile)
  then have "dropWhile (\<lambda>c. \<not> is_space c) rest = dropWhile (\<lambda>c. \<not> is_space c) (tl rest)"
    using rest(2) by (cases rest) auto
  then have "length (dropWhile (\<lambda>c. \<not> is_space c) rest) \<le> length (tl rest)" by (metis length_dropWhile_le)
  moreover have "length rest \<le> length cs" by (simp add: rest(1) length_dropWhile_le)
  ultimately show "(dropWhile (\<lambda>c. \<not> is_space c) rest, cs) \<in> measure length"
    using rest(2) by (cases rest) auto
qed simp

declare split_words.simps [simp del]

definition text_character_ok :: "char \<Rightarrow> bool" where
  "text_character_ok character = (let n = of_char character :: nat in
     \<not> (n = 0 \<or> 127 < n \<or> n < 32 \<and> character \<noteq> CHR 0x0A \<and> character \<noteq> CHR 0x0D \<and> character \<noteq> CHR 0x09))"

type_synonym runtime_scan = "bool \<times> RuntimeTargetText list"

definition parse_target_words ::
  "(string \<Rightarrow> u32 option) \<Rightarrow> string list \<Rightarrow> RuntimeTargetText list \<Rightarrow> exn + RuntimeTargetText list" where
  "parse_target_words inet_pton parts targets =
     (case parts of
        [first, link, probe] \<Rightarrow>
          if \<not> prefix ''target='' first then Inl (InvalidArgument ''unknown or incomplete line'')
          else (case find_char CHR ''@'' link of
            None \<Rightarrow> Inl (InvalidArgument ''target lacks EGRESS@MAC'')
          | Some separator \<Rightarrow>
              let target = \<lparr>rx_id = drop 7 first, rx_egress = take separator link,
                    rx_destinationMac = drop (separator + 1) link, rx_probeEndpoint = probe\<rparr>
              in case validateRuntimeTargetLiteral inet_pton target of
                Inl e \<Rightarrow> Inl e
              | Inr _ \<Rightarrow>
                  if rx_id target \<in> set (map rx_id targets) then Inl (InvalidArgument ''duplicate target ID'')
                  else if 64 < length (targets @ [target]) then Inl (InvalidArgument ''more than 64 targets'')
                  else Inr (targets @ [target]))
      | _ \<Rightarrow> Inl (InvalidArgument ''unknown or incomplete line''))"

definition parse_runtime_line ::
  "(string \<Rightarrow> u32 option) \<Rightarrow> string \<Rightarrow> runtime_scan \<Rightarrow> exn + runtime_scan" where
  "parse_runtime_line inet_pton raw scan = (case scan of (schemaSeen, targets) \<Rightarrow>
     let line = (if raw \<noteq> [] \<and> last raw = CHR 0x0D then butlast raw else raw) in
     if 1024 < length line \<or> CHR 0x0D \<in> set line then Inl (InvalidArgument ''line too long or bare CR'')
     else let rest = dropWhile (\<lambda>c. c = CHR '' '' \<or> c = CHR 0x09) line in
     if rest = [] \<or> hd rest = CHR ''#'' then Inr scan
     else let parts = split_words rest in
     if parts \<noteq> [] \<and> hd parts = ''schema=1'' then
       (if schemaSeen \<or> tl parts \<noteq> [] then Inl (InvalidArgument ''schema repeated or with extra fields'')
        else Inr (True, targets))
     else map_sum (\<lambda>e. e) (Pair schemaSeen) (parse_target_words inet_pton parts targets))"

fun parse_runtime_lines ::
  "(string \<Rightarrow> u32 option) \<Rightarrow> nat \<Rightarrow> string list \<Rightarrow> runtime_scan \<Rightarrow> exn + runtime_scan" where
  "parse_runtime_lines inet_pton seen [] scan = Inr scan"
| "parse_runtime_lines inet_pton seen (line # rest) scan =
     (if 256 < seen + 1 then Inl (InvalidArgument ''more than 256 lines'')
      else case parse_runtime_line inet_pton line scan of
        Inl e \<Rightarrow> Inl e | Inr scan' \<Rightarrow> parse_runtime_lines inet_pton (seen + 1) rest scan')"

definition parseRuntimeConfigText :: "(string \<Rightarrow> u32 option) \<Rightarrow> string \<Rightarrow> exn + RuntimeTargetText list" where
  "parseRuntimeConfigText inet_pton txt =
     (if kMaxFileBytes < length txt then Inl (InvalidArgument ''configuration exceeds 64 KiB'')
      else if \<not> list_all text_character_ok txt then Inl (InvalidArgument ''configuration must be ASCII text'')
      else case parse_runtime_lines inet_pton 0 (getlines txt) (False, []) of
        Inl e \<Rightarrow> Inl e
      | Inr (schemaSeen, targets) \<Rightarrow>
          if \<not> schemaSeen then Inl (InvalidArgument ''missing schema=1'') else Inr targets)"

section \<open>The file\<close>

text \<open>The fields of \<open>struct stat\<close> the reader compares; times are seconds and nanoseconds.\<close>

record file_stat =
  st_regular :: bool
  st_dev :: nat
  st_ino :: nat
  st_size :: int
  st_mtim :: "int \<times> int"
  st_ctim :: "int \<times> int"

record 'w runtime_file_ops =
  rf_open :: "string \<Rightarrow> 'w \<Rightarrow> (errno + nat) \<times> 'w"
  rf_stat :: "nat \<Rightarrow> 'w \<Rightarrow> file_stat option \<times> 'w"
  rf_read :: "nat \<Rightarrow> nat \<Rightarrow> 'w \<Rightarrow> (errno + string) \<times> 'w"
  rf_close :: "nat \<Rightarrow> 'w \<Rightarrow> 'w"

definition callF :: "('w \<Rightarrow> 'a \<times> 'w) \<Rightarrow> ('w, 'a) comp" where
  "callF f w = (case f w of (a, w') \<Rightarrow> (Inr a, w'))"

definition sameFileVersion :: "file_stat \<Rightarrow> file_stat \<Rightarrow> bool" where
  "sameFileVersion before after \<longleftrightarrow> st_dev before = st_dev after \<and> st_ino before = st_ino after \<and>
     st_size before = st_size after \<and> st_mtim before = st_mtim after \<and> st_ctim before = st_ctim after"

text \<open>The read loop: data is bounded by the limit, and only interrupted reads use up fuel.\<close>

function read_runtime_bytes :: "'w runtime_file_ops \<Rightarrow> nat \<Rightarrow> nat \<Rightarrow> string \<Rightarrow> ('w, string) comp" where
  "read_runtime_bytes ops fuel fd bytes = bindC (callF (rf_read ops fd 4096)) (\<lambda>r.
     case r of
       Inl e \<Rightarrow>
         if e = EINTR then (case fuel of 0 \<Rightarrow> throwC OutOfFuel | Suc k \<Rightarrow> read_runtime_bytes ops k fd bytes)
         else throwC (InvalidArgument ''reading the configuration failed'')
     | Inr chunk \<Rightarrow>
         if chunk = [] then returnC bytes
         else if kMaxFileBytes < length (bytes @ chunk)
         then throwC (InvalidArgument ''configuration exceeds 64 KiB while reading'')
         else read_runtime_bytes ops fuel fd (bytes @ chunk))"
  by pat_completeness auto

termination
  by (relation "measures [\<lambda>(ops, fuel, fd, bytes). kMaxFileBytes - length bytes, \<lambda>(ops, fuel, fd, bytes). fuel]")
     (auto simp: length_greater_0_conv[symmetric] simp del: length_greater_0_conv)

declare read_runtime_bytes.simps [simp del]

definition readRuntimeConfigFile :: "'w runtime_file_ops \<Rightarrow> nat \<Rightarrow> string \<Rightarrow> ('w, string) comp" where
  "readRuntimeConfigFile ops fuel path =
     bindC (callF (rf_open ops path)) (\<lambda>opened. case opened of
       Inl e \<Rightarrow> throwC (InvalidArgument ''cannot open the configuration'')
     | Inr fd \<Rightarrow> finallyC
        (bindC (callF (rf_stat ops fd)) (\<lambda>before. case before of
           None \<Rightarrow> throwC (InvalidArgument ''configuration must be a regular file'')
         | Some b \<Rightarrow>
             if \<not> st_regular b \<or> st_size b < 0 \<or> int kMaxFileBytes < st_size b
             then throwC (InvalidArgument ''configuration must be a regular file'')
             else bindC (read_runtime_bytes ops fuel fd []) (\<lambda>bytes.
               bindC (callF (rf_stat ops fd)) (\<lambda>after. case after of
                 None \<Rightarrow> throwC (InvalidArgument ''configuration changed while reading'')
               | Some a \<Rightarrow>
                   if \<not> sameFileVersion b a \<or> length bytes \<noteq> nat (st_size b)
                   then throwC (InvalidArgument ''configuration changed while reading'')
                   else returnC bytes))))
        (rf_close ops fd))"

section \<open>Loading\<close>

fun resolve_probes ::
  "(string \<Rightarrow> u32 option) \<Rightarrow> u32 \<Rightarrow> UdpDsrBackendValue list \<Rightarrow> nat \<Rightarrow> RuntimeTargetText list \<Rightarrow>
   RuntimeTarget list \<Rightarrow> exn + RuntimeTarget list" where
  "resolve_probes inet_pton vip backends index [] targets = Inr targets"
| "resolve_probes inet_pton vip backends index (entry # entries) targets =
     (case parseXdpBackends inet_pton [rx_probeEndpoint entry] of
        Inl e \<Rightarrow> Inl e
      | Inr endpoints \<Rightarrow>
          let endpoint = hd endpoints; backend = backends ! index in
          if xb_address endpoint = vip then Inl (InvalidArgument ''probe must not use the VIP'')
          else if (db_ifindex backend, xb_address endpoint, xb_port endpoint) \<in>
              (\<lambda>t. (db_ifindex (rg_backend t), rg_probeAddress t, rg_probePort t)) ` set targets
          then Inl (InvalidArgument ''duplicate probe endpoint of an egress'')
          else resolve_probes inet_pton vip backends (index + 1) entries (targets @
            [\<lparr>rg_id = rx_id entry, rg_egress = rx_egress entry, rg_backend = backend,
              rg_probeAddress = xb_address endpoint, rg_probePort = xb_port endpoint\<rparr>]))"

definition loadRuntimeConfig ::
  "'w runtime_file_ops \<Rightarrow> nat \<Rightarrow> (string \<Rightarrow> u32 option) \<Rightarrow> 'w interface_env \<Rightarrow> string \<Rightarrow> string \<Rightarrow> string \<Rightarrow>
   ('w, RuntimeDsrConfiguration) comp" where
  "loadRuntimeConfig ops fuel inet_pton env path ingress vip =
     bindC (readRuntimeConfigFile ops fuel path) (\<lambda>txt.
     case parseRuntimeConfigText inet_pton txt of
       Inl e \<Rightarrow> throwC e
     | Inr entries \<Rightarrow>
         bindC (parseDsrConfiguration inet_pton env ingress vip
                  (map (\<lambda>entry. rx_egress entry @ ''@'' @ rx_destinationMac entry) entries)) (\<lambda>dsr.
         case resolve_probes inet_pton (dc_vipAddress (dsr_config dsr)) (dsr_backends dsr) 0 entries [] of
           Inl e \<Rightarrow> throwC e
         | Inr targets \<Rightarrow> returnC \<lparr>rc_vipAddress = dc_vipAddress (dsr_config dsr),
             rc_vipPort = dc_vipPort (dsr_config dsr), rc_targets = targets\<rparr>))"

definition sameRuntimeTarget :: "RuntimeTarget \<Rightarrow> RuntimeTarget \<Rightarrow> bool" where
  "sameRuntimeTarget left right \<longleftrightarrow> rg_id left = rg_id right \<and> rg_backend left = rg_backend right \<and>
     rg_probeAddress left = rg_probeAddress right \<and> rg_probePort left = rg_probePort right"

definition sameRuntimeConfig :: "RuntimeDsrConfiguration \<Rightarrow> RuntimeDsrConfiguration \<Rightarrow> bool" where
  "sameRuntimeConfig left right \<longleftrightarrow> rc_vipAddress left = rc_vipAddress right \<and> rc_vipPort left = rc_vipPort right \<and>
     length (rc_targets left) = length (rc_targets right) \<and>
     list_all2 sameRuntimeTarget (rc_targets left) (rc_targets right)"

end
