(* ===== verification/RuntimeConfigFacts.thy ===== *)
theory RuntimeConfigFacts
  imports RuntimeConfig
begin

unbundle bit_operations_syntax

text \<open>
  What the runtime configuration's parser and loader promise: an accepted text has valid,
  distinct targets, every printed list of valid targets is read back exactly, the file is read
  whole, and a loaded configuration satisfies all that the prober and the map store check.
\<close>

section \<open>Accepted texts\<close>

definition target_text_ok :: "(string \<Rightarrow> u32 option) \<Rightarrow> RuntimeTargetText \<Rightarrow> bool" where
  "target_text_ok inet_pton t \<longleftrightarrow> validateRuntimeTargetLiteral inet_pton t = Inr ()"

definition scan_ok :: "(string \<Rightarrow> u32 option) \<Rightarrow> RuntimeTargetText list \<Rightarrow> bool" where
  "scan_ok inet_pton targets \<longleftrightarrow> list_all (target_text_ok inet_pton) targets \<and>
     distinct (map rx_id targets) \<and> length targets \<le> 64"

lemma parse_target_words_ok:
  assumes "parse_target_words inet_pton parts targets = Inr out" and "scan_ok inet_pton targets"
  shows "scan_ok inet_pton out"
  using assms
  by (auto simp: parse_target_words_def scan_ok_def target_text_ok_def Let_def
      split: list.splits if_splits option.splits sum.splits)

lemma parse_runtime_line_ok:
  assumes "parse_runtime_line inet_pton line scan = Inr out" and "scan_ok inet_pton (snd scan)"
  shows "scan_ok inet_pton (snd out)"
proof -
  have words: "scan_ok inet_pton (snd out)" if "map_sum (\<lambda>e. e) (Pair b) (parse_target_words inet_pton parts (snd scan)) = Inr out"
    for b parts
    using that assms(2) parse_target_words_ok[of inet_pton parts "snd scan"]
    by (cases "parse_target_words inet_pton parts (snd scan)") auto
  show ?thesis
    using assms words
    by (auto simp: parse_runtime_line_def Let_def split: prod.splits if_splits)
qed

lemma parse_runtime_lines_ok:
  "parse_runtime_lines inet_pton n ls scan = Inr out \<Longrightarrow> scan_ok inet_pton (snd scan) \<Longrightarrow> scan_ok inet_pton (snd out)"
  by (induction ls arbitrary: n scan) (auto split: if_splits sum.splits dest: parse_runtime_line_ok)

lemma parseRuntimeConfigText_ok:
  assumes "parseRuntimeConfigText inet_pton cs = Inr targets"
  shows "scan_ok inet_pton targets"
proof -
  from assms obtain schemaSeen where "parse_runtime_lines inet_pton 0 (getlines cs) (False, []) = Inr (schemaSeen, targets)"
    by (auto simp: parseRuntimeConfigText_def split: if_splits sum.splits prod.splits)
  then show ?thesis by (auto dest: parse_runtime_lines_ok simp: scan_ok_def)
qed

section \<open>Printed texts\<close>

definition printable :: "char \<Rightarrow> bool" where
  "printable c = (let n = of_char c :: nat in 33 \<le> n \<and> n \<le> 126)"

text \<open>A target whose fields a text can hold.\<close>

definition target_printable :: "RuntimeTargetText \<Rightarrow> bool" where
  "target_printable t \<longleftrightarrow> list_all printable (rx_egress t) \<and> list_all printable (rx_destinationMac t) \<and>
     list_all printable (rx_probeEndpoint t) \<and> length (rx_probeEndpoint t) \<le> 900"

definition render_target :: "RuntimeTargetText \<Rightarrow> string" where
  "render_target t = (''target='' @ rx_id t) @ '' '' @ (rx_egress t @ ''@'' @ rx_destinationMac t) @ '' '' @ rx_probeEndpoint t"

definition render_runtime_config :: "RuntimeTargetText list \<Rightarrow> string" where
  "render_runtime_config ts = ''schema=1'' @ [CHR 0x0A] @ concat (map (\<lambda>t. render_target t @ [CHR 0x0A]) ts)"

lemma takeWhile_to: "c \<notin> set xs \<Longrightarrow> takeWhile (\<lambda>x. x \<noteq> c) (xs @ c # ys) = xs"
  by (induction xs) auto

lemma dropWhile_to: "c \<notin> set xs \<Longrightarrow> dropWhile (\<lambda>x. x \<noteq> c) (xs @ c # ys) = c # ys"
  by (induction xs) auto

lemma getlines_line:
  assumes "CHR 0x0A \<notin> set line"
  shows "getlines (line @ CHR 0x0A # cs) = line # getlines cs"
  using getlines.simps[of "line @ CHR 0x0A # cs"] takeWhile_to[OF assms, of cs] dropWhile_to[OF assms, of cs]
  by simp

lemma getlines_Nil: "getlines [] = []"
  by (simp add: getlines.simps)

lemma split_words_Nil: "split_words [] = []"
  by (simp add: split_words.simps)

lemma printable_space: "printable c \<Longrightarrow> \<not> is_space c"
  by (auto simp: printable_def is_space_def)

lemma printable_text: "printable c \<Longrightarrow> text_character_ok c \<and> c \<noteq> CHR 0x0A \<and> c \<noteq> CHR 0x0D"
  by (auto simp: printable_def text_character_ok_def Let_def)

lemma id_printable: "isRuntimeTargetIdCharacter c \<Longrightarrow> printable c"
  by (auto simp: isRuntimeTargetIdCharacter_def printable_def Let_def)

lemma split_words_word:
  assumes "w \<noteq> []" and "list_all printable w"
  shows "split_words (w @ CHR '' '' # cs) = w # split_words cs" and "split_words w = [w]"
proof -
  have w: "dropWhile is_space (w @ v) = w @ v" "takeWhile (\<lambda>c. \<not> is_space c) w = w" "dropWhile (\<lambda>c. \<not> is_space c) w = []" for v
    using assms printable_space by (cases w, auto simp: list_all_iff takeWhile_eq_all_conv dropWhile_eq_Nil_conv)
  have "split_words (CHR '' '' # cs) = split_words cs"
    by (subst (1 2) split_words.simps) (simp add: is_space_def)
  moreover have "is_space CHR '' ''" by (simp add: is_space_def)
  ultimately show "split_words (w @ CHR '' '' # cs) = w # split_words cs"
    using assms printable_space
    by (subst split_words.simps) (simp add: w list_all_iff takeWhile_append2 dropWhile_append2)
  show "split_words w = [w]"
    using assms w(1)[of "[]"] by (subst split_words.simps) (simp add: Let_def w(2,3) split_words_Nil del: dropWhile_eq_Nil_conv takeWhile_eq_all_conv)
qed

lemma target_literal:
  assumes "target_text_ok inet_pton t"
  shows "rx_id t \<noteq> []" "length (rx_id t) \<le> 32" "list_all printable (rx_id t)" "rx_egress t \<noteq> []"
    "length (rx_egress t) < 16" "CHR ''@'' \<notin> set (rx_egress t)" "length (rx_destinationMac t) = 17"
    "\<exists>bs. parseXdpBackends inet_pton [rx_probeEndpoint t] = Inr bs"
  using assms
  by (auto simp: target_text_ok_def validateRuntimeTargetLiteral_def isValidRuntimeTargetId_def list_all_iff id_printable
      split: if_splits option.splits sum.splits)

lemma probe_not_empty: "target_text_ok inet_pton t \<Longrightarrow> rx_probeEndpoint t \<noteq> []"
  using target_literal(8)[of inet_pton t]
  by (auto simp: parseXdpBackends_def parse_xdp_backend_def)

lemma render_words:
  assumes "target_text_ok inet_pton t" and "target_printable t"
  shows "split_words (render_target t) =
    [''target='' @ rx_id t, rx_egress t @ ''@'' @ rx_destinationMac t, rx_probeEndpoint t]"
proof -
  note t = target_literal[OF assms(1)]
  have word: "list_all printable (''target='' @ rx_id t)" "list_all printable (rx_egress t @ ''@'' @ rx_destinationMac t)"
    "list_all printable (rx_probeEndpoint t)"
    using t(3) assms(2) by (auto simp: target_printable_def printable_def Let_def)
  show ?thesis
    unfolding render_target_def
    using split_words_word(1)[OF _ word(1), of "(rx_egress t @ ''@'' @ rx_destinationMac t) @ '' '' @ rx_probeEndpoint t"]
      split_words_word(1)[OF _ word(2), of "rx_probeEndpoint t"] split_words_word(2)[OF probe_not_empty[OF assms(1)] word(3)]
    by simp
qed

lemma render_characters:
  assumes "target_text_ok inet_pton t" and "target_printable t" and "c \<in> set (render_target t)"
  shows "printable c \<or> c = CHR '' ''"
proof -
  let ?ok = "\<lambda>c. printable c \<or> c = CHR '' ''"
  have ok: "list_all ?ok xs" if "list_all printable xs" for xs using that by (induction xs) auto
  have "list_all printable ''target=''" "list_all printable ''@''" by (simp_all add: printable_def)
  then have "list_all ?ok (render_target t)"
    using assms(2) target_literal(3)[OF assms(1)]
    unfolding render_target_def target_printable_def by (simp only: list_all_append ok) simp
  then show ?thesis using assms(3) by (simp add: list_all_iff)
qed

lemma length_render: "target_text_ok inet_pton t \<Longrightarrow> target_printable t \<Longrightarrow> length (render_target t) \<le> 974"
  using target_literal[of inet_pton t] by (simp add: render_target_def target_printable_def)

lemma parse_render_target:
  assumes t: "target_text_ok inet_pton t" "target_printable t" and new: "rx_id t \<notin> set (map rx_id ts)" "length ts < 64"
  shows "parse_runtime_line inet_pton (render_target t) (b, ts) = Inr (b, ts @ [t])"
proof -
  let ?line = "render_target t"
  have eta: "\<lparr>rx_id = rx_id t, rx_egress = rx_egress t, rx_destinationMac = rx_destinationMac t,
      rx_probeEndpoint = rx_probeEndpoint t\<rparr> = t" by simp
  have cr: "CHR 0x0D \<notin> set ?line"
    using render_characters[OF t, of "CHR 0x0D"] printable_text[of "CHR 0x0D"] by auto
  have "last ?line \<noteq> CHR 0x0D" "?line \<noteq> []"
    using cr last_in_set[of ?line] by (auto simp: render_target_def)
  moreover have "dropWhile (\<lambda>c. c = CHR '' '' \<or> c = CHR 0x09) ?line = ?line" "hd ?line \<noteq> CHR ''#''"
    by (simp_all add: render_target_def)
  moreover have "parse_target_words inet_pton (split_words ?line) ts = Inr (ts @ [t])"
    using find_char_append[OF target_literal(6)[OF t(1)], of "rx_destinationMac t"] new t(1)
    unfolding render_words[OF t] parse_target_words_def
    by (simp add: target_text_ok_def Let_def eta del: RuntimeTargetText.equality)
  ultimately show ?thesis
    using cr length_render[OF t] render_words[OF t] by (simp add: parse_runtime_line_def Let_def)
qed

lemma parse_render_targets:
  "list_all (target_text_ok inet_pton) ts \<Longrightarrow> list_all target_printable ts \<Longrightarrow> distinct (map rx_id (done' @ ts)) \<Longrightarrow>
   length (done' @ ts) \<le> 64 \<Longrightarrow> n + length ts \<le> 256 \<Longrightarrow>
   parse_runtime_lines inet_pton n (map render_target ts) (b, done') = Inr (b, done' @ ts)"
proof (induction ts arbitrary: n done')
  case (Cons t ts)
  then have "parse_runtime_line inet_pton (render_target t) (b, done') = Inr (b, done' @ [t])"
    by (intro parse_render_target) auto
  with Cons.IH[of "done' @ [t]" "Suc n"] Cons.prems show ?case by simp
qed simp

lemma getlines_render:
  "list_all (\<lambda>t. CHR 0x0A \<notin> set (render_target t)) ts \<Longrightarrow>
   getlines (concat (map (\<lambda>t. render_target t @ [CHR 0x0A]) ts)) = map render_target ts"
  by (induction ts) (simp_all add: getlines_Nil getlines_line)

lemma parse_rendered:
  assumes ts: "scan_ok inet_pton ts" "list_all target_printable ts"
  shows "parseRuntimeConfigText inet_pton (render_runtime_config ts) = Inr ts"
proof -
  have ok: "list_all (target_text_ok inet_pton) ts" "distinct (map rx_id ts)" "length ts \<le> 64"
    using ts(1) by (simp_all add: scan_ok_def)
  have no_newline: "list_all (\<lambda>t. CHR 0x0A \<notin> set (render_target t)) ts"
    using ok(1) ts(2) render_characters[of inet_pton _ "CHR 0x0A"] printable_text[of "CHR 0x0A"]
    by (auto simp: list_all_iff)
  have "length (concat (map (\<lambda>t. render_target t @ [CHR 0x0A]) ts)) \<le> 975 * length ts"
    using ok(1) ts(2)
  proof (induction ts)
    case (Cons t ts)
    with length_render[of inet_pton t] show ?case by simp
  qed simp
  then have len: "length (render_runtime_config ts) \<le> kMaxFileBytes"
    using ok(3) by (simp add: render_runtime_config_def kMaxFileBytes_def)
  have "text_character_ok c" if "t \<in> set ts" "c \<in> set (render_target t)" for t c
    using render_characters[of inet_pton t c] printable_text[of c] that ok(1) ts(2)
    by (auto simp: list_all_iff) (auto simp: text_character_ok_def)
  then have chars: "list_all text_character_ok (render_runtime_config ts)"
    by (auto simp: render_runtime_config_def list_all_iff) (auto simp: text_character_ok_def)
  have "getlines (render_runtime_config ts) = ''schema=1'' # map render_target ts"
    unfolding render_runtime_config_def
    using getlines_line[of "''schema=1''" "concat (map (\<lambda>t. render_target t @ [CHR 0x0A]) ts)"] getlines_render[OF no_newline]
    by simp
  moreover have "parse_runtime_line inet_pton ''schema=1'' (False, []) = Inr (True, [])"
  proof -
    have "split_words ''schema=1'' = [''schema=1'']" by (rule split_words_word(2)) (simp_all add: printable_def)
    then show ?thesis by (simp add: parse_runtime_line_def)
  qed
  ultimately have "parse_runtime_lines inet_pton 0 (getlines (render_runtime_config ts)) (False, []) = Inr (True, ts)"
    using parse_render_targets[OF ok(1) ts(2), of "[]" "Suc 0" True] ok(2,3) by simp
  with len chars show ?thesis by (simp add: parseRuntimeConfigText_def)
qed

section \<open>Loaded configurations\<close>

definition probe_key :: "RuntimeTarget \<Rightarrow> u32 \<times> u32 \<times> u16" where
  "probe_key t = (db_ifindex (rg_backend t), rg_probeAddress t, rg_probePort t)"

definition probes_ok :: "u32 \<Rightarrow> RuntimeTarget list \<Rightarrow> bool" where
  "probes_ok vip ts \<longleftrightarrow> list_all (\<lambda>t. rg_probeAddress t \<noteq> 0 \<and> rg_probeAddress t \<noteq> vip \<and> rg_probePort t \<noteq> 0) ts \<and>
     distinct (map probe_key ts)"

definition runtime_target_ok :: "RuntimeTarget \<Rightarrow> bool" where
  "runtime_target_ok t \<longleftrightarrow> rg_id t \<noteq> [] \<and> rg_egress t \<noteq> [] \<and> length (rg_egress t) < 16 \<and> dsr_backend_ok (rg_backend t)"

definition runtime_config_ok :: "RuntimeDsrConfiguration \<Rightarrow> bool" where
  "runtime_config_ok c \<longleftrightarrow> rc_vipAddress c \<noteq> 0 \<and> rc_vipPort c \<noteq> 0 \<and> length (rc_targets c) \<le> 64 \<and>
     distinct (map rg_id (rc_targets c)) \<and> list_all runtime_target_ok (rc_targets c) \<and>
     probes_ok (rc_vipAddress c) (rc_targets c)"

lemma xdp_backend_address: "xdp_backend_ok b \<Longrightarrow> xb_address b \<noteq> 0 \<and> xb_port b \<noteq> 0"
  by (auto simp: xdp_backend_ok_def unicast_host_def ntohl_def)

lemma parsed_endpoint: "parseXdpBackends inet_pton [e] = Inr bs \<Longrightarrow> xb_address (hd bs) \<noteq> 0 \<and> xb_port (hd bs) \<noteq> 0"
  using parseXdpBackends_ok[of inet_pton "[e]" bs] by (cases bs) (auto dest: xdp_backend_address)

lemma resolve_probes_ok:
  "resolve_probes inet_pton vip bs i es ts = Inr out \<Longrightarrow> probes_ok vip ts \<Longrightarrow> probes_ok vip out \<and>
   map (\<lambda>t. (rg_id t, rg_egress t)) out = map (\<lambda>t. (rg_id t, rg_egress t)) ts @ map (\<lambda>e. (rx_id e, rx_egress e)) es \<and>
   map rg_backend out = map rg_backend ts @ map ((!) bs) [i..<i + length es]"
proof (induction es arbitrary: i ts)
  case (Cons e es)
  from Cons.prems(1) obtain eps where eps: "parseXdpBackends inet_pton [rx_probeEndpoint e] = Inr eps"
    by (auto split: sum.splits)
  let ?t = "\<lparr>rg_id = rx_id e, rg_egress = rx_egress e, rg_backend = bs ! i, rg_probeAddress = xb_address (hd eps),
      rg_probePort = xb_port (hd eps)\<rparr>"
  from Cons.prems(1) eps have new: "xb_address (hd eps) \<noteq> vip" "probe_key ?t \<notin> set (map probe_key ts)"
    and rest: "resolve_probes inet_pton vip bs (i + 1) es (ts @ [?t]) = Inr out"
    by (auto simp: probe_key_def Let_def split: if_splits)
  have "probes_ok vip (ts @ [?t])"
    using Cons.prems(2) new parsed_endpoint[OF eps] by (simp add: probes_ok_def)
  moreover have "[i..<i + length (e # es)] = i # [i + 1..<i + 1 + length es]" by (simp add: upt_conv_Cons del: upt_Suc)
  ultimately show ?case using Cons.IH[OF rest] by (simp del: upt_Suc)
qed simp

lemma parseDsrConfiguration_length:
  assumes "parseDsrConfiguration inet_pton env ingress vip targets w = (Inr c, w')" and "positive_ifindex env"
  shows "length (dsr_backends c) = length targets" and "dc_vipAddress (dsr_config c) \<noteq> 0" and "dc_vipPort (dsr_config c) \<noteq> 0"
proof -
  from assms(1) have n: "length targets \<le> 64" "dc_backendCount (dsr_config c) = of_nat (length targets)"
    by (auto simp: parseDsrConfiguration_def not_less split: sum.splits if_splits)
  note ok = parseDsrConfiguration_ok[OF assms]
  from n(1) have "unat (of_nat (length targets) :: u32) = length targets" by (simp add: unat_of_nat)
  with n(2) ok show "length (dsr_backends c) = length targets" by (simp add: dsr_configuration_valid_def)
  from ok show "dc_vipAddress (dsr_config c) \<noteq> 0" "dc_vipPort (dsr_config c) \<noteq> 0"
    by (auto simp: dsr_configuration_valid_def unicast_host_def ntohl_def)
qed

lemma loaded_config_ok:
  assumes run: "loadRuntimeConfig ops fuel inet_pton env path ingress vip w = (Inr c, w')" and pos: "positive_ifindex env"
  shows "runtime_config_ok c"
proof -
  from run[unfolded loadRuntimeConfig_def, THEN bindC_Inr_iff[THEN iffD1]] obtain cs x
    where loaded: "(case parseRuntimeConfigText inet_pton cs of
       Inl e \<Rightarrow> throwC e
     | Inr entries \<Rightarrow>
         bindC (parseDsrConfiguration inet_pton env ingress vip
                  (map (\<lambda>entry. rx_egress entry @ ''@'' @ rx_destinationMac entry) entries)) (\<lambda>dsr.
         case resolve_probes inet_pton (dc_vipAddress (dsr_config dsr)) (dsr_backends dsr) 0 entries [] of
           Inl e \<Rightarrow> throwC e
         | Inr targets \<Rightarrow> returnC \<lparr>rc_vipAddress = dc_vipAddress (dsr_config dsr),
             rc_vipPort = dc_vipPort (dsr_config dsr), rc_targets = targets\<rparr>)) x = (Inr c, w')" by blast
  then obtain entries where parse: "parseRuntimeConfigText inet_pton cs = Inr entries"
    by (cases "parseRuntimeConfigText inet_pton cs") simp_all
  from loaded[unfolded parse, simplified sum.case, THEN bindC_Inr_iff[THEN iffD1]] obtain dsr v where
    dsr: "parseDsrConfiguration inet_pton env ingress vip (map (\<lambda>e. rx_egress e @ ''@'' @ rx_destinationMac e) entries) x = (Inr dsr, v)"
    and resolved: "(case resolve_probes inet_pton (dc_vipAddress (dsr_config dsr)) (dsr_backends dsr) 0 entries [] of
           Inl e \<Rightarrow> throwC e
         | Inr targets \<Rightarrow> returnC \<lparr>rc_vipAddress = dc_vipAddress (dsr_config dsr),
             rc_vipPort = dc_vipPort (dsr_config dsr), rc_targets = targets\<rparr>) v = (Inr c, w')" by blast
  then obtain ts where probes: "resolve_probes inet_pton (dc_vipAddress (dsr_config dsr)) (dsr_backends dsr) 0 entries [] = Inr ts"
    and c: "c = \<lparr>rc_vipAddress = dc_vipAddress (dsr_config dsr), rc_vipPort = dc_vipPort (dsr_config dsr), rc_targets = ts\<rparr>"
    by (auto split: sum.splits)
  have entries: "list_all (target_text_ok inet_pton) entries" "distinct (map rx_id entries)" "length entries \<le> 64"
    using parseRuntimeConfigText_ok[OF parse] by (simp_all add: scan_ok_def)
  note len = parseDsrConfiguration_length[OF dsr pos]
  have backends: "list_all dsr_backend_ok (dsr_backends dsr)" using parseDsrConfiguration_ok[OF dsr pos] by simp
  have "probes_ok (dc_vipAddress (dsr_config dsr)) []" by (simp add: probes_ok_def)
  note ts = resolve_probes_ok[OF probes this]
  have map_backends: "map rg_backend ts = dsr_backends dsr"
    using ts len(1) map_nth[of "dsr_backends dsr"] by simp
  have names: "map (\<lambda>t. (rg_id t, rg_egress t)) ts = map (\<lambda>e. (rx_id e, rx_egress e)) entries" using ts by simp
  have "map rg_id ts = map fst (map (\<lambda>t. (rg_id t, rg_egress t)) ts)" by (simp add: comp_def)
  also have "\<dots> = map rx_id entries" unfolding names by (simp add: comp_def)
  finally have ids: "map rg_id ts = map rx_id entries" .
  have "runtime_target_ok t" if "t \<in> set ts" for t
  proof -
    from that have "(rg_id t, rg_egress t) \<in> set (map (\<lambda>t. (rg_id t, rg_egress t)) ts)" by simp
    then obtain e where "e \<in> set entries" "rg_id t = rx_id e" "rg_egress t = rx_egress e"
      unfolding names by auto
    with entries(1) have "rg_id t \<noteq> []" "rg_egress t \<noteq> []" "length (rg_egress t) < 16"
      by (auto simp: list_all_iff dest: target_literal)
    moreover have "rg_backend t \<in> set (dsr_backends dsr)" using that map_backends by (metis image_eqI list.set_map)
    ultimately show ?thesis using backends by (simp add: runtime_target_ok_def list_all_iff)
  qed
  then show ?thesis
    using len(2,3) entries(2,3) ids ts map_backends
    by (simp add: runtime_config_ok_def c list_all_iff) (metis length_map ids(1))
qed

section \<open>Properties\<close>

text \<open>
  Claim C23. A list of targets with printable fields is read back from its printed text, in order
  and exactly, if and only if every target passes the literal checks, no id occurs twice and
  there are at most 64 of them.
\<close>

theorem runtime_text_roundtrip:
  assumes "list_all target_printable targets"
  shows "parseRuntimeConfigText inet_pton (render_runtime_config targets) = Inr targets \<longleftrightarrow>
    list_all (\<lambda>t. validateRuntimeTargetLiteral inet_pton t = Inr ()) targets \<and> distinct (map rx_id targets) \<and>
    length targets \<le> 64"
  using parse_rendered[OF _ assms, of inet_pton] parseRuntimeConfigText_ok[of inet_pton _ targets]
  unfolding scan_ok_def target_text_ok_def[abs_def] by blast

definition sample_target_texts :: "RuntimeTargetText list" where
  "sample_target_texts =
     [\<lparr>rx_id = ''a'', rx_egress = ''eth1'', rx_destinationMac = ''02:00:00:00:01:01'', rx_probeEndpoint = ''10.0.0.2:7''\<rparr>,
      \<lparr>rx_id = ''b'', rx_egress = ''eth1'', rx_destinationMac = ''02:00:00:00:01:02'', rx_probeEndpoint = ''10.0.0.3:7''\<rparr>]"

definition sample_pton :: "string \<Rightarrow> u32 option" where
  "sample_pton t = (if t = ''10.0.0.1'' then Some 0x0100000A else if t = ''10.0.0.2'' then Some 0x0200000A
     else if t = ''10.0.0.3'' then Some 0x0300000A else None)"

lemma sample_texts_distinct: "distinct (map rx_id sample_target_texts)"
  by code_simp

lemma sample_texts_printable: "list_all target_printable sample_target_texts"
  by code_simp

lemma sample_texts_ok: "list_all (target_text_ok sample_pton) sample_target_texts"
  by (simp add: sample_target_texts_def target_text_ok_def validateRuntimeTargetLiteral_def isValidRuntimeTargetId_def
      isRuntimeTargetIdCharacter_def literal_mac_group_def from_chars_def hex_digit_def dec_digit_def is_digit_def
      digit_value_def parseXdpBackends_def parse_xdp_backend_def sample_pton_def unicast_host_def ntohl_def htons_def Let_def)

lemma runtime_text_roundtrip_witness:
  "parseRuntimeConfigText sample_pton (render_runtime_config sample_target_texts) = Inr sample_target_texts"
  using runtime_text_roundtrip[OF sample_texts_printable, of sample_pton] sample_texts_ok sample_texts_distinct
  by (simp add: target_text_ok_def sample_target_texts_def)

end
