(* ===== verification/XdpAttachment.thy ===== *)
theory XdpAttachment
  imports RuntimeMaps
begin

unbundle bit_operations_syntax

text \<open>
  Loading, attaching and detaching XDP programs: \<open>src/xdp/XdpAttachment.h\<close> and
  \<open>src/xdp/XdpAttachment.cpp\<close>. libbpf and the system calls are parameters over an abstract
  world. A failed call is \<open>SystemError\<close>, the \<open>std::runtime_error\<close> of the source with its error
  number; diagnostic texts are abbreviated.
\<close>

section \<open>State and environment\<close>

datatype XdpAttachMode = kGeneric | kNative

datatype XdpObjectProfile = kLegacy | kMapsV1 | kUdpDsrV2 | kUdpRuntimeV3

abbreviation (input) EEXIST :: errno where "EEXIST \<equiv> 17"
abbreviation (input) EBUSY :: errno where "EBUSY \<equiv> 16"
abbreviation (input) ENODEV :: errno where "ENODEV \<equiv> 19"

record 'w xdp_env =
  xe_nametoindex :: "string \<Rightarrow> 'w \<Rightarrow> (u32 \<times> errno) \<times> 'w"
  xe_open :: "string \<Rightarrow> 'w \<Rightarrow> (errno + nat) \<times> 'w"
  xe_fstat :: "nat \<Rightarrow> 'w \<Rightarrow> (errno + bool \<times> int) \<times> 'w"
  xe_read :: "nat \<Rightarrow> nat \<Rightarrow> 'w \<Rightarrow> (errno + u8 list) \<times> 'w"
  xe_close :: "nat \<Rightarrow> 'w \<Rightarrow> 'w"
  xe_openMem :: "u8 list \<Rightarrow> 'w \<Rightarrow> (errno + BpfObject) \<times> 'w"
  xe_load :: "BpfObject \<Rightarrow> 'w \<Rightarrow> errno option \<times> 'w"
  xe_programFd :: "BpfObject \<Rightarrow> 'w \<Rightarrow> nat \<times> 'w"
  xe_programInfo :: "nat \<Rightarrow> 'w \<Rightarrow> (errno + u32) \<times> 'w"
  xe_closeObject :: "BpfObject \<Rightarrow> 'w \<Rightarrow> 'w"
  xe_query :: "int \<Rightarrow> nat \<Rightarrow> 'w \<Rightarrow> (errno + u32) \<times> 'w"
  xe_dup :: "nat \<Rightarrow> 'w \<Rightarrow> (errno + nat) \<times> 'w"
  xe_attach :: "int \<Rightarrow> nat \<Rightarrow> nat \<Rightarrow> 'w \<Rightarrow> errno option \<times> 'w"
  xe_detach :: "int \<Rightarrow> nat \<Rightarrow> nat \<Rightarrow> 'w \<Rightarrow> errno option \<times> 'w"
  xe_fdById :: "u32 \<Rightarrow> 'w \<Rightarrow> (errno + nat) \<times> 'w"
  xe_mapInfo :: "'w \<Rightarrow> nat \<Rightarrow> errno + MapSpec"
  xe_configMaps :: "nat \<Rightarrow> nat \<Rightarrow> (XdpConfigValue, XdpBackendValue, 'w) MapStore"
  xe_dsrMaps :: "nat \<Rightarrow> nat \<Rightarrow> (UdpDsrConfigValue, UdpDsrBackendValue, 'w) MapStore"
  xe_cpus :: "'w \<Rightarrow> int"
  xe_passStats :: "nat \<Rightarrow> 'w \<Rightarrow> nat \<Rightarrow> errno + u8 list"
  xe_dsrStats :: "nat \<Rightarrow> 'w \<Rightarrow> nat \<Rightarrow> errno + UdpDsrStatsValue list"
  xe_runtime :: "'w runtime_maps_env"

text \<open>\<open>xa_diagnostics\<close> is what the destructor writes to the standard error stream.\<close>

record 'w XdpAttachment =
  xa_runtimeMaps :: "'w RuntimeMapStore option"
  xa_object :: "BpfObject option"
  xa_programFd :: "nat option"
  xa_programId :: u32
  xa_interfaceIndex :: int
  xa_mode :: XdpAttachMode
  xa_attached :: bool
  xa_profile :: XdpObjectProfile
  xa_diagnostics :: "exn list"
  xa_world :: 'w

definition emptyXdpAttachment :: "'w \<Rightarrow> 'w XdpAttachment" where
  "emptyXdpAttachment w = \<lparr>xa_runtimeMaps = None, xa_object = None, xa_programFd = None, xa_programId = 0,
     xa_interfaceIndex = 0, xa_mode = kGeneric, xa_attached = False, xa_profile = kLegacy,
     xa_diagnostics = [], xa_world = w\<rparr>"

definition callX :: "('w \<Rightarrow> 'a \<times> 'w) \<Rightarrow> ('w XdpAttachment, 'a) comp" where
  "callX f s = (case f (xa_world s) of (a, w) \<Rightarrow> (Inr a, s\<lparr>xa_world := w\<rparr>))"

definition effectX :: "('w \<Rightarrow> 'w) \<Rightarrow> ('w XdpAttachment, unit) comp" where
  "effectX f = modifyC (\<lambda>s. s\<lparr>xa_world := f (xa_world s)\<rparr>)"

text \<open>A computation over the world alone, run on the attachment's.\<close>

definition worldX :: "('w, 'a) comp \<Rightarrow> ('w XdpAttachment, 'a) comp" where
  "worldX m s = (case m (xa_world s) of (r, w) \<Rightarrow> (r, s\<lparr>xa_world := w\<rparr>))"

section \<open>Modes and errors\<close>

definition xdpAttachFlags :: "XdpAttachMode \<Rightarrow> nat" where
  "xdpAttachFlags mode = (case mode of kGeneric \<Rightarrow> 2 | kNative \<Rightarrow> 4)"

definition XDP_FLAGS_UPDATE_IF_NOEXIST :: nat where "XDP_FLAGS_UPDATE_IF_NOEXIST = 1"

definition xdpAttachModeName :: "XdpAttachMode \<Rightarrow> string" where
  "xdpAttachModeName mode = (case mode of kGeneric \<Rightarrow> ''generic'' | kNative \<Rightarrow> ''native'')"

definition throwXdpSystemError :: "string \<Rightarrow> errno \<Rightarrow> ('w XdpAttachment, 'a) comp" where
  "throwXdpSystemError operation error = throwC (SystemError (operation @
     (if error = EPERM \<or> error = EACCES then ''; check capabilities and the memlock limit''
      else if error = EOPNOTSUPP \<or> error = EINVAL then ''; check XDP support and the object''
      else if error = EBUSY \<or> error = EEXIST then ''; another program is attached''
      else if error = ENOMEM then ''; check memory and the memlock limit''
      else [])) error)"

definition resolveInterfaceIndex :: "'w xdp_env \<Rightarrow> string \<Rightarrow> ('w XdpAttachment, int) comp" where
  "resolveInterfaceIndex env device =
     bindC (callX (xe_nametoindex env device)) (\<lambda>(index, error).
     if index = 0 then throwXdpSystemError (''no network device '' @ device) (if error \<noteq> 0 then error else ENODEV)
     else returnC (sint index))"

section \<open>Detaching\<close>

definition queryAttachedProgramId :: "'w xdp_env \<Rightarrow> int \<Rightarrow> XdpAttachMode \<Rightarrow> ('w XdpAttachment, u32) comp" where
  "queryAttachedProgramId env ifindex mode =
     bindC (callX (xe_query env ifindex (xdpAttachFlags mode))) (\<lambda>result. case result of
       Inl e \<Rightarrow> if e = ENODEV then returnC 0 else throwXdpSystemError ''query XDP program'' e
     | Inr current \<Rightarrow> returnC current)"

definition detachExpectedProgramFd ::
  "'w xdp_env \<Rightarrow> int \<Rightarrow> XdpAttachMode \<Rightarrow> nat \<Rightarrow> u32 \<Rightarrow> ('w XdpAttachment, unit) comp" where
  "detachExpectedProgramFd env ifindex mode fd expected =
     bindC (queryAttachedProgramId env ifindex mode) (\<lambda>current.
     if current = 0 then returnC ()
     else if current \<noteq> expected then throwC (RuntimeError ''program id mismatch'')
     else bindC (callX (xe_dup env fd)) (\<lambda>duplicated. case duplicated of
       Inl e \<Rightarrow> throwXdpSystemError ''keep program descriptor'' e
     | Inr comparisonFd \<Rightarrow>
         bindC (callX (xe_detach env ifindex (xdpAttachFlags mode) comparisonFd)) (\<lambda>result.
         thenC (effectX (xe_close env comparisonFd))
           (case result of
              None \<Rightarrow> returnC ()
            | Some e \<Rightarrow> if e = ENODEV then returnC () else throwXdpSystemError ''conditional XDP detach'' e))))"

definition detachExpectedProgram ::
  "'w xdp_env \<Rightarrow> int \<Rightarrow> XdpAttachMode \<Rightarrow> u32 \<Rightarrow> ('w XdpAttachment, unit) comp" where
  "detachExpectedProgram env ifindex mode expectedProgramId =
     bindC (queryAttachedProgramId env ifindex mode) (\<lambda>current.
     if current = 0 then returnC () else
     bindC (callX (xe_fdById env expectedProgramId)) (\<lambda>opened. case opened of
       Inl e \<Rightarrow> throwXdpSystemError ''open expected program'' e
     | Inr fd \<Rightarrow>
         thenC (catchC (detachExpectedProgramFd env ifindex mode fd expectedProgramId)
                  (\<lambda>e. thenC (effectX (xe_close env fd)) (throwC e)))
           (effectX (xe_close env fd))))"

definition detachProgram :: "'w xdp_env \<Rightarrow> ('w XdpAttachment, unit) comp" where
  "detachProgram env =
     bindC (getC (\<lambda>s. (xa_attached s, xa_interfaceIndex s, xa_mode s, xa_programFd s, xa_programId s)))
       (\<lambda>(attached, ifindex, mode, fd, expected).
     if \<not> attached then returnC () else
     thenC (detachExpectedProgramFd env ifindex mode (the fd) expected)
       (modifyC (\<lambda>s. s\<lparr>xa_attached := False\<rparr>)))"

section \<open>Attaching\<close>

definition attachProgram :: "'w xdp_env \<Rightarrow> int \<Rightarrow> XdpAttachMode \<Rightarrow> ('w XdpAttachment, unit) comp" where
  "attachProgram env ifindex mode =
     bindC (getC (\<lambda>s. (xa_programFd s, xa_attached s))) (\<lambda>(program, attached).
     case program of
       None \<Rightarrow> throwC (RuntimeError ''nothing to attach or already attached'')
     | Some fd \<Rightarrow>
         if attached then throwC (RuntimeError ''nothing to attach or already attached'') else
         bindC (callX (xe_attach env ifindex fd (xdpAttachFlags mode + XDP_FLAGS_UPDATE_IF_NOEXIST))) (\<lambda>result.
         case result of
           Some e \<Rightarrow> throwXdpSystemError ''attach XDP'' e
         | None \<Rightarrow> modifyC (\<lambda>s. s\<lparr>xa_interfaceIndex := ifindex, xa_mode := mode, xa_attached := True\<rparr>)))"

text \<open>The destructor; the members follow the body, so the map store is destroyed last.\<close>

definition destroyXdpAttachment :: "'w xdp_env \<Rightarrow> 'w XdpAttachment \<Rightarrow> 'w XdpAttachment" where
  "destroyXdpAttachment env s =
     (let s1 = (if \<not> xa_attached s then s else case detachProgram env s of
                  (Inr _, t) \<Rightarrow> t | (Inl e, t) \<Rightarrow> t\<lparr>xa_diagnostics := xa_diagnostics t @ [e]\<rparr>);
          s2 = (case xa_object s1 of None \<Rightarrow> s1 | Some object \<Rightarrow> s1\<lparr>xa_world := xe_closeObject env object (xa_world s1)\<rparr>)
      in case xa_runtimeMaps s2 of
           None \<Rightarrow> s2
         | Some store \<Rightarrow> s2\<lparr>xa_world :=
             rt_world (destroyRuntimeMapStore (xe_runtime env) (store\<lparr>rt_world := xa_world s2\<rparr>))\<rparr>)"

section \<open>Loading\<close>

definition kMaxObjectBytes :: int where "kMaxObjectBytes = 16777216"

text \<open>The read loop; only interrupted reads use up fuel.\<close>

function read_object_bytes :: "'w xdp_env \<Rightarrow> nat \<Rightarrow> nat \<Rightarrow> nat \<Rightarrow> u8 list \<Rightarrow> ('w XdpAttachment, u8 list) comp" where
  "read_object_bytes env fuel fd needed bytes =
     (if needed \<le> length bytes then returnC bytes else
      bindC (callX (xe_read env fd (needed - length bytes))) (\<lambda>r. case r of
        Inl e \<Rightarrow>
          if e = EINTR then (case fuel of 0 \<Rightarrow> throwC OutOfFuel | Suc k \<Rightarrow> read_object_bytes env k fd needed bytes)
          else throwXdpSystemError ''read object'' e
      | Inr chunk \<Rightarrow>
          if chunk = [] then throwC (RuntimeError ''object truncated while reading'')
          else read_object_bytes env fuel fd needed (bytes @ chunk)))"
  by pat_completeness auto

termination
  by (relation "measures [\<lambda>(env, fuel, fd, needed, bytes). needed - length bytes, \<lambda>(env, fuel, fd, needed, bytes). fuel]")
     (auto simp: length_greater_0_conv[symmetric] simp del: length_greater_0_conv)

declare read_object_bytes.simps [simp del]

definition programName :: "XdpObjectProfile \<Rightarrow> string" where
  "programName profile = (case profile of kUdpRuntimeV3 \<Rightarrow> ''xdp_udp_rt'' | kUdpDsrV2 \<Rightarrow> ''xdp_udp_dsr''
     | kMapsV1 \<Rightarrow> ''xdp_maps_pass'' | kLegacy \<Rightarrow> ''xdp_pass'')"

definition accepted_object :: "XdpObjectProfile \<Rightarrow> BpfObject \<Rightarrow> bool" where
  "accepted_object profile object \<longleftrightarrow> (case bo_programs object of
     [program] \<Rightarrow> bp_name program = programName profile \<and> bp_section program = ''xdp'' \<and> bp_isXdp program \<and>
       \<not> (profile = kLegacy \<and> bo_maps object \<noteq> [])
   | _ \<Rightarrow> False)"

definition validate_object_maps :: "XdpObjectProfile \<Rightarrow> BpfObject \<Rightarrow> exn + unit" where
  "validate_object_maps profile object = (case profile of
     kUdpRuntimeV3 \<Rightarrow> validateRuntimeMapObject object
   | kMapsV1 \<Rightarrow> validateConfigMapObject (map bm_spec (bo_maps object))
   | kUdpDsrV2 \<Rightarrow> validateDsrMapObject (map bm_spec (bo_maps object))
   | kLegacy \<Rightarrow> Inr ())"

text \<open>The constructors \<open>MapStore(object)\<close> and \<open>DsrMapStore(object)\<close>: the three descriptors of a whitelist.\<close>

definition object_fd :: "BpfObject \<Rightarrow> MapSpec \<Rightarrow> nat" where
  "object_fd object m = (case find_bpf_map object (mapName m) of None \<Rightarrow> 0 | Some b \<Rightarrow> bm_fd b)"

fun store_descriptors :: "(MapSpec \<Rightarrow> exn + nat) \<Rightarrow> MapSpec list \<Rightarrow> exn + nat list" where
  "store_descriptors validate [] = Inr []"
| "store_descriptors validate (spec # specs) = (case validate spec of
     Inl e \<Rightarrow> Inl e
   | Inr fd \<Rightarrow> (case store_descriptors validate specs of Inl e \<Rightarrow> Inl e | Inr fds \<Rightarrow> Inr (fd # fds)))"

definition open_store :: "'w xdp_env \<Rightarrow> MapSpec list \<Rightarrow> BpfObject \<Rightarrow> ('w XdpAttachment, nat list) comp" where
  "open_store env specs object = bindC (getC xa_world) (\<lambda>w.
     case store_descriptors (validateMapDescriptor (map bm_spec (bo_maps object)) (object_fd object) (xe_mapInfo env w)) specs of
       Inl e \<Rightarrow> throwC e | Inr fds \<Rightarrow> returnC fds)"

definition on_runtime_maps ::
  "('w RuntimeMapStore, 'a) comp \<Rightarrow> ('w XdpAttachment, 'a) comp" where
  "on_runtime_maps m s = (case xa_runtimeMaps s of
     None \<Rightarrow> (Inl (LogicError ''runtime profile not loaded''), s)
   | Some store \<Rightarrow> (case m (store\<lparr>rt_world := xa_world s\<rparr>) of
       (r, store') \<Rightarrow> (r, s\<lparr>xa_runtimeMaps := Some store', xa_world := rt_world store'\<rparr>)))"

text \<open>\<open>std::make_unique\<close>: a constructor that throws leaves no store behind.\<close>

definition make_runtime_maps :: "'w xdp_env \<Rightarrow> BpfObject \<Rightarrow> ('w XdpAttachment, unit) comp" where
  "make_runtime_maps env object s =
     (case constructRuntimeMapStore (xe_runtime env) object (initialRuntimeMapStore (xa_world s)) of
        (Inl e, store) \<Rightarrow> (Inl e, s\<lparr>xa_world := rt_world store\<rparr>)
      | (Inr _, store) \<Rightarrow> (Inr (), s\<lparr>xa_runtimeMaps := Some store, xa_world := rt_world store\<rparr>))"

definition configure_maps ::
  "'w xdp_env \<Rightarrow> XdpObjectProfile \<Rightarrow> BpfObject \<Rightarrow> XdpBackendValue list \<Rightarrow> DsrConfiguration \<Rightarrow>
   UdpRuntimeSnapshot option \<Rightarrow> ('w XdpAttachment, unit) comp" where
  "configure_maps env profile object backends dsr runtime = (case profile of
     kMapsV1 \<Rightarrow> bindC (open_store env kMapSpecs object) (\<lambda>fds.
       worldX (synchronizeXdpConfig (xe_configMaps env (fds ! 0) (fds ! 1)) backends))
   | kUdpDsrV2 \<Rightarrow> bindC (open_store env kDsrMapSpecs object) (\<lambda>fds.
       worldX (synchronizeDsrConfig (xe_dsrMaps env (fds ! 0) (fds ! 1)) dsr))
   | kUdpRuntimeV3 \<Rightarrow> (case runtime of
       None \<Rightarrow> throwC (InvalidArgument ''missing initial runtime snapshot'')
     | Some snapshot \<Rightarrow> thenC (make_runtime_maps env object)
         (on_runtime_maps (publishSnapshot (xe_runtime env) snapshot)))
   | kLegacy \<Rightarrow> returnC ())"

text \<open>What follows once the object's bytes are read.\<close>

definition install_object ::
  "'w xdp_env \<Rightarrow> XdpObjectProfile \<Rightarrow> u8 list \<Rightarrow> XdpBackendValue list \<Rightarrow> DsrConfiguration \<Rightarrow>
   UdpRuntimeSnapshot option \<Rightarrow> ('w XdpAttachment, unit) comp" where
  "install_object env profile bytes backends dsr runtime =
     bindC (callX (xe_openMem env bytes)) (\<lambda>parsed. case parsed of
       Inl e \<Rightarrow> throwXdpSystemError ''parse BPF object'' e
     | Inr object \<Rightarrow>
         thenC (modifyC (\<lambda>s. s\<lparr>xa_object := Some object\<rparr>))
        (if \<not> accepted_object profile object then throwC (RuntimeError ''object must hold the expected program only'') else
         case validate_object_maps profile object of
           Inl e \<Rightarrow> throwC e
         | Inr _ \<Rightarrow>
             bindC (callX (xe_load env object)) (\<lambda>loaded. case loaded of
               Some e \<Rightarrow> throwXdpSystemError ''load BPF object'' e
             | None \<Rightarrow>
                 bindC (callX (xe_programFd env object)) (\<lambda>fd.
                 thenC (modifyC (\<lambda>s. s\<lparr>xa_programFd := Some fd\<rparr>))
                (bindC (callX (xe_programInfo env fd)) (\<lambda>info. case info of
                   Inl e \<Rightarrow> throwXdpSystemError ''read loaded program id'' e
                 | Inr program \<Rightarrow>
                     thenC (modifyC (\<lambda>s. s\<lparr>xa_programId := program\<rparr>))
                    (thenC (configure_maps env profile object backends dsr runtime)
                      (modifyC (\<lambda>s. s\<lparr>xa_profile := profile\<rparr>)))))))))"

definition loadObject ::
  "'w xdp_env \<Rightarrow> nat \<Rightarrow> string \<Rightarrow> XdpObjectProfile \<Rightarrow> XdpBackendValue list \<Rightarrow> DsrConfiguration \<Rightarrow>
   UdpRuntimeSnapshot option \<Rightarrow> ('w XdpAttachment, unit) comp" where
  "loadObject env fuel path profile backends dsr runtime =
     bindC (getC xa_object) (\<lambda>present.
     if present \<noteq> None then throwC (RuntimeError ''object already loaded'') else
     bindC (callX (xe_open env path)) (\<lambda>opened. case opened of
       Inl e \<Rightarrow> throwXdpSystemError ''open object'' e
     | Inr fd \<Rightarrow> finallyC
        (bindC (callX (xe_fstat env fd)) (\<lambda>status. case status of
           Inl e \<Rightarrow> throwXdpSystemError ''inspect object'' e
         | Inr (regular, bytes) \<Rightarrow>
             if \<not> regular then throwC (RuntimeError ''object must be a regular file'')
             else if bytes \<le> 0 \<or> kMaxObjectBytes < bytes then throwC (RuntimeError ''object size'')
             else bindC (read_object_bytes env fuel fd (nat bytes) []) (\<lambda>content.
               install_object env profile content backends dsr runtime)))
        (\<lambda>s. s\<lparr>xa_world := xe_close env fd (xa_world s)\<rparr>)))"

section \<open>Publishing and statistics\<close>

definition publishRuntime :: "'w xdp_env \<Rightarrow> UdpRuntimeSnapshot \<Rightarrow> ('w XdpAttachment, unit) comp" where
  "publishRuntime env snapshot = on_runtime_maps (publishSnapshot (xe_runtime env) snapshot)"

definition readRuntimeStats :: "'w xdp_env \<Rightarrow> ('w XdpAttachment, UdpDsrStatsValue) comp" where
  "readRuntimeStats env = on_runtime_maps (readRuntimeStatistics (xe_runtime env))"

definition attachedPassPackets :: "'w xdp_env \<Rightarrow> ('w XdpAttachment, u64) comp" where
  "attachedPassPackets env =
     bindC (getC (\<lambda>s. (xa_profile s, the (xa_object s)))) (\<lambda>(profile, object).
     if profile \<noteq> kMapsV1 then throwC (RuntimeError ''maps mode is off'') else
     bindC (open_store env kMapSpecs object) (\<lambda>fds.
     bindC (getC xa_world) (\<lambda>w.
     case readPassPackets (xe_cpus env w) (xe_passStats env (fds ! 2) w) of
       Inl e \<Rightarrow> throwC e | Inr packets \<Rightarrow> returnC packets)))"

definition readDsrStats :: "'w xdp_env \<Rightarrow> ('w XdpAttachment, UdpDsrStatsValue) comp" where
  "readDsrStats env =
     bindC (getC (\<lambda>s. (xa_profile s, the (xa_object s)))) (\<lambda>(profile, object).
     if profile \<noteq> kUdpDsrV2 then throwC (RuntimeError ''udp-dsr mode is off'') else
     bindC (open_store env kDsrMapSpecs object) (\<lambda>fds.
     bindC (getC xa_world) (\<lambda>w.
     case readDsrStatistics (xe_cpus env w) (xe_dsrStats env (fds ! 2) w) of
       Inl e \<Rightarrow> throwC e | Inr stats \<Rightarrow> returnC stats)))"

end
