(* ===== verification/XdpDetach.thy ===== *)
theory XdpDetach
  imports XdpAttachment
begin

text \<open>
  Detaching never removes another program: whatever others do to the interface between the
  calls, all that a detach, the destructor or the detach command can remove is the program it was
  meant for.
\<close>

section \<open>What detaching relies on\<close>

text \<open>
  \<open>removed w\<close> are the programs this process has removed so far, \<open>program_of w fd\<close> the program a
  descriptor stands for. A removal compares the program with that of the descriptor, unless the
  descriptor is 0; a duplicate stands for the same program and is not a standard descriptor.
\<close>

locale xdp_hook_calls =
  fixes env :: "'w xdp_env"
    and removed :: "'w \<Rightarrow> u32 list"
    and program_of :: "'w \<Rightarrow> nat \<Rightarrow> u32 option"
  assumes query: "xe_query env i flags w = (q, w') \<Longrightarrow> removed w' = removed w \<and> program_of w' = program_of w"
    and dup: "xe_dup env fd w = (d, w') \<Longrightarrow> removed w' = removed w \<and>
      (\<forall>new. d = Inr new \<longrightarrow> 3 \<le> new \<and> program_of w' new = program_of w fd)"
    and detach: "xe_detach env i flags fd w = (z, w') \<Longrightarrow> fd \<noteq> 0 \<Longrightarrow>
      removed w' = removed w \<or> (\<exists>p. program_of w fd = Some p \<and> removed w' = removed w @ [p])"
    and close: "removed (xe_close env fd w) = removed w"
    and by_id: "xe_fdById env p w = (o', w') \<Longrightarrow> removed w' = removed w \<and>
      (\<forall>fd. o' = Inr fd \<longrightarrow> program_of w' fd = Some p)"
begin

text \<open>At most one program has been removed since \<open>s\<close>, and it is \<open>p\<close>.\<close>

definition removed_only :: "u32 \<Rightarrow> 'w XdpAttachment \<Rightarrow> 'w XdpAttachment \<Rightarrow> bool" where
  "removed_only p s t \<longleftrightarrow> removed (xa_world t) = removed (xa_world s) \<or>
     removed (xa_world t) = removed (xa_world s) @ [p]"

definition holding :: "nat \<Rightarrow> u32 \<Rightarrow> 'w XdpAttachment \<Rightarrow> 'w XdpAttachment \<Rightarrow> bool" where
  "holding fd p s t \<longleftrightarrow> removed (xa_world t) = removed (xa_world s) \<and> program_of (xa_world t) fd = Some p"

lemma triple_callX:
  "(\<And>t n w. P t \<Longrightarrow> f (xa_world t) = (n, w) \<Longrightarrow> Q n (t\<lparr>xa_world := w\<rparr>)) \<Longrightarrow> triple P (callX f) Q E"
  by (auto simp: triple_def callX_def split: prod.splits)

lemma throw_only: "triple (removed_only p s) (throwXdpSystemError m e) Q (\<lambda>_. removed_only p s)"
  by (simp add: triple_def throwXdpSystemError_def throwC_def)

lemma holding_throw: "triple (holding fd p s) (throwXdpSystemError m e) Q (\<lambda>_. removed_only p s)"
  by (simp add: triple_def throwXdpSystemError_def throwC_def holding_def removed_only_def)

lemma triple_query:
  "triple (holding fd p s) (queryAttachedProgramId env i mode) (\<lambda>_. holding fd p s) (\<lambda>_. removed_only p s)"
proof -
  have call: "triple (holding fd p s) (callX (xe_query env i flags)) (\<lambda>_. holding fd p s) (\<lambda>_. removed_only p s)" for flags
  proof (rule triple_callX)
    fix t n w
    assume t: "holding fd p s t" and run: "xe_query env i flags (xa_world t) = (n, w)"
    from t query[OF run] show "holding fd p s (t\<lparr>xa_world := w\<rparr>)" by (simp add: holding_def)
  qed
  show ?thesis
    unfolding queryAttachedProgramId_def
    by (rule triple_bind[OF call]) (intro triple_case_sum triple_if holding_throw, auto simp: triple_def returnC_def)
qed

lemma triple_close: "triple (removed_only p s) (effectX (xe_close env fd)) (\<lambda>_. removed_only p s) E"
  by (simp add: triple_def effectX_def modifyC_def removed_only_def close)

lemma triple_detachFd:
  "triple (holding fd p s) (detachExpectedProgramFd env i mode fd expected) (\<lambda>_. removed_only p s) (\<lambda>_. removed_only p s)"
proof -
  have dup: "triple (holding fd p s) (callX (xe_dup env fd))
      (\<lambda>n. case n of Inl _ \<Rightarrow> removed_only p s | Inr new \<Rightarrow> (\<lambda>t. holding new p s t \<and> 0 < new)) (\<lambda>_. removed_only p s)"
  proof (rule triple_callX)
    fix t n w
    assume t: "holding fd p s t" and run: "xe_dup env fd (xa_world t) = (n, w)"
    from t dup[OF run] show "(case n of Inl _ \<Rightarrow> removed_only p s | Inr new \<Rightarrow> (\<lambda>t. holding new p s t \<and> 0 < new)) (t\<lparr>xa_world := w\<rparr>)"
      by (cases n) (auto simp: holding_def removed_only_def)
  qed
  have detach: "triple (\<lambda>t. holding new p s t \<and> 0 < new) (callX (xe_detach env i flags new)) (\<lambda>_. removed_only p s) (\<lambda>_. removed_only p s)"
    for new flags
  proof (rule triple_callX)
    fix t n w
    assume t: "holding new p s t \<and> 0 < new" and run: "xe_detach env i flags new (xa_world t) = (n, w)"
    from t detach[OF run] show "removed_only p s (t\<lparr>xa_world := w\<rparr>)" by (auto simp: holding_def removed_only_def)
  qed
  have finish: "triple (removed_only p s) (case r of None \<Rightarrow> returnC () | Some e \<Rightarrow>
      if e = ENODEV then returnC () else throwXdpSystemError m e) (\<lambda>_. removed_only p s) (\<lambda>_. removed_only p s)" for r m
    by (intro triple_case_option triple_if throw_only) (simp_all add: triple_def returnC_def)
  have rest: "triple (case n of Inl _ \<Rightarrow> removed_only p s | Inr new \<Rightarrow> (\<lambda>t. holding new p s t \<and> 0 < new))
      (case n of Inl e \<Rightarrow> throwXdpSystemError ''keep program descriptor'' e
       | Inr comparisonFd \<Rightarrow>
         bindC (callX (xe_detach env i (xdpAttachFlags mode) comparisonFd)) (\<lambda>result.
         thenC (effectX (xe_close env comparisonFd))
           (case result of None \<Rightarrow> returnC ()
            | Some e \<Rightarrow> if e = ENODEV then returnC () else throwXdpSystemError ''conditional XDP detach'' e)))
      (\<lambda>_. removed_only p s) (\<lambda>_. removed_only p s)" for n
    by (cases n) (auto intro: throw_only triple_bind[OF detach] triple_then[OF triple_close] finish)
  have skip: "triple (holding fd p s) (returnC ()) (\<lambda>_. removed_only p s) (\<lambda>_. removed_only p s)"
    "triple (holding fd p s) (throwC e) Q (\<lambda>_. removed_only p s)" for e and Q :: "unit \<Rightarrow> 'w XdpAttachment \<Rightarrow> bool"
    by (simp_all add: triple_def returnC_def throwC_def holding_def removed_only_def)
  show ?thesis
    unfolding detachExpectedProgramFd_def
    by (rule triple_bind[OF triple_query]) (intro triple_if skip triple_bind[OF dup rest])
qed

lemma detach_removes_own:
  assumes "program_of (xa_world s) (the (xa_programFd s)) = Some (xa_programId s)"
    and "detachProgram env s = (r, t)"
  shows "removed_only (xa_programId s) s t"
proof (cases "xa_attached s")
  case False
  with assms(2) show ?thesis by (simp add: detachProgram_def bindC_getC removed_only_def)
next
  case True
  obtain q u where u: "detachExpectedProgramFd env (xa_interfaceIndex s) (xa_mode s) (the (xa_programFd s)) (xa_programId s) s = (q, u)"
    by fastforce
  have "holding (the (xa_programFd s)) (xa_programId s) s s" using assms(1) by (simp add: holding_def)
  with u have "removed_only (xa_programId s) s u"
    using triple_Inr[OF triple_detachFd] triple_Inl[OF triple_detachFd] by (cases q) blast+
  moreover have "xa_world t = xa_world u"
    using True assms(2) u by (cases q) (auto simp: detachProgram_def bindC_getC comp_defs)
  ultimately show ?thesis by (simp add: removed_only_def)
qed

lemma command_removes_expected:
  assumes "detachExpectedProgram env i mode p s = (r, t)"
  shows "removed_only p s t"
proof -
  have query: "triple (\<lambda>t. removed (xa_world t) = removed (xa_world s)) (callX (xe_query env i flags))
      (\<lambda>_ t. removed (xa_world t) = removed (xa_world s)) E" for flags E
    by (rule triple_callX) (auto dest: query)
  have current: "triple (\<lambda>t. removed (xa_world t) = removed (xa_world s)) (queryAttachedProgramId env i mode)
      (\<lambda>_ t. removed (xa_world t) = removed (xa_world s)) (\<lambda>_. removed_only p s)"
    unfolding queryAttachedProgramId_def
    by (rule triple_bind[OF query]) (auto simp: triple_def returnC_def throwXdpSystemError_def throwC_def removed_only_def split: sum.split)
  have opened: "triple (\<lambda>t. removed (xa_world t) = removed (xa_world s)) (callX (xe_fdById env p))
      (\<lambda>n. case n of Inl _ \<Rightarrow> removed_only p s | Inr fd \<Rightarrow> holding fd p s) (\<lambda>_. removed_only p s)"
  proof (rule triple_callX)
    fix t :: "'w XdpAttachment" and n w
    assume t: "removed (xa_world t) = removed (xa_world s)" and run: "xe_fdById env p (xa_world t) = (n, w)"
    from t by_id[OF run] show "(case n of Inl _ \<Rightarrow> removed_only p s | Inr fd \<Rightarrow> holding fd p s) (t\<lparr>xa_world := w\<rparr>)"
      by (cases n) (auto simp: holding_def removed_only_def)
  qed
  have rethrow: "triple (removed_only p s) (thenC (effectX (xe_close env fd)) (throwC e)) (\<lambda>_. removed_only p s) (\<lambda>_. removed_only p s)"
    for fd e by (rule triple_then[OF triple_close]) (simp add: triple_def throwC_def)
  have rest: "triple (case n of Inl _ \<Rightarrow> removed_only p s | Inr fd \<Rightarrow> holding fd p s)
      (case n of Inl e \<Rightarrow> throwXdpSystemError ''open expected program'' e
       | Inr fd \<Rightarrow> thenC (catchC (detachExpectedProgramFd env i mode fd p)
            (\<lambda>e. thenC (effectX (xe_close env fd)) (throwC e))) (effectX (xe_close env fd)))
      (\<lambda>_. removed_only p s) (\<lambda>_. removed_only p s)" for n
    by (cases n) (auto intro: throw_only triple_then[OF triple_catch[OF triple_detachFd rethrow] triple_close])
  have "triple (\<lambda>t. removed (xa_world t) = removed (xa_world s)) (detachExpectedProgram env i mode p)
      (\<lambda>_. removed_only p s) (\<lambda>_. removed_only p s)"
    unfolding detachExpectedProgram_def
    by (rule triple_bind[OF current]) (intro triple_if triple_bind[OF opened rest], simp add: triple_def returnC_def removed_only_def)
  from triple_Inr[OF this, of s] triple_Inl[OF this, of s] assms show ?thesis by (cases r) auto
qed

end

section \<open>An interface others use too\<close>

text \<open>
  One hook of one interface. Before every call the next entry of the list says what others do:
  attach a program, or remove the one there (0). A descriptor 0 disables the comparison.
\<close>

record xdp_hook =
  hk_program :: u32
  hk_fds :: "(nat \<times> u32) list"
  hk_others :: "u32 option list"
  hk_removed :: "u32 list"

definition others_step :: "xdp_hook \<Rightarrow> xdp_hook" where
  "others_step w = (case hk_others w of
     [] \<Rightarrow> w | None # later \<Rightarrow> w\<lparr>hk_others := later\<rparr> | Some p # later \<Rightarrow> w\<lparr>hk_others := later, hk_program := p\<rparr>)"

definition fresh_fd :: "xdp_hook \<Rightarrow> nat" where
  "fresh_fd w = Suc (fold max (map fst (hk_fds w)) 2)"

definition hook_dup :: "nat \<Rightarrow> xdp_hook \<Rightarrow> (errno + nat) \<times> xdp_hook" where
  "hook_dup fd w0 = (let w = others_step w0 in case map_of (hk_fds w) fd of
     None \<Rightarrow> (Inl EBADF, w) | Some p \<Rightarrow> (Inr (fresh_fd w), w\<lparr>hk_fds := (fresh_fd w, p) # hk_fds w\<rparr>))"

definition hook_detach :: "nat \<Rightarrow> xdp_hook \<Rightarrow> errno option \<times> xdp_hook" where
  "hook_detach fd w0 = (let w = others_step w0; gone = w\<lparr>hk_program := 0, hk_removed := hk_removed w @ [hk_program w]\<rparr> in
     if fd = 0 then (None, gone)
     else if map_of (hk_fds w) fd = Some (hk_program w) then (None, gone) else (Some EEXIST, w))"

definition hook_env :: "xdp_hook xdp_env" where
  "hook_env = \<lparr>xe_nametoindex = \<lambda>_ w. ((2, 0), w), xe_open = \<lambda>_ w. (Inl ENOENT, w), xe_fstat = \<lambda>_ w. (Inl EBADF, w),
     xe_read = \<lambda>_ _ w. (Inl EBADF, w), xe_close = \<lambda>fd w. w\<lparr>hk_fds := filter (\<lambda>(f, _). f \<noteq> fd) (hk_fds w)\<rparr>,
     xe_openMem = \<lambda>_ w. (Inl EINVAL, w), xe_load = \<lambda>_ w. (Some EINVAL, w), xe_programFd = \<lambda>_ w. (0, w),
     xe_programInfo = \<lambda>_ w. (Inl EBADF, w), xe_closeObject = \<lambda>_ w. w,
     xe_query = \<lambda>_ _ w. let w = others_step w in (Inr (hk_program w), w), xe_dup = hook_dup,
     xe_attach = \<lambda>_ _ _ w. (Some EBUSY, w), xe_detach = \<lambda>_ _. hook_detach,
     xe_fdById = \<lambda>p w. (Inr (fresh_fd w), w\<lparr>hk_fds := (fresh_fd w, p) # hk_fds w\<rparr>),
     xe_mapInfo = \<lambda>_ _. Inl EBADF,
     xe_configMaps = \<lambda>_ _. \<lparr>configFd = \<lparr>ba_update = \<lambda>_ _ w. (Some EBADF, w), ba_lookup = \<lambda>_ w. (Inl EBADF, w), ba_freeze = \<lambda>w. (Some EBADF, w)\<rparr>,
       backendFd = \<lparr>ba_update = \<lambda>_ _ w. (Some EBADF, w), ba_lookup = \<lambda>_ w. (Inl EBADF, w), ba_freeze = \<lambda>w. (Some EBADF, w)\<rparr>\<rparr>,
     xe_dsrMaps = \<lambda>_ _. \<lparr>configFd = \<lparr>ba_update = \<lambda>_ _ w. (Some EBADF, w), ba_lookup = \<lambda>_ w. (Inl EBADF, w), ba_freeze = \<lambda>w. (Some EBADF, w)\<rparr>,
       backendFd = \<lparr>ba_update = \<lambda>_ _ w. (Some EBADF, w), ba_lookup = \<lambda>_ w. (Inl EBADF, w), ba_freeze = \<lambda>w. (Some EBADF, w)\<rparr>\<rparr>,
     xe_cpus = \<lambda>_. 1, xe_passStats = \<lambda>_ _ _. Inl EBADF, xe_dsrStats = \<lambda>_ _ _. Inl EBADF,
     xe_runtime = \<lparr>rk_create = \<lambda>w. (Inl EPERM, w), rk_update = \<lambda>_ _ w. (Some EBADF, w), rk_lookup = \<lambda>_ w. (Inl EBADF, w),
       rk_freeze = \<lambda>_ w. (Some EBADF, w), rk_info = \<lambda>_ w. (Inl EBADF, w), rk_publish = \<lambda>_ _ w. (Some EBADF, w),
       rk_published = \<lambda>_ w. (Inl EBADF, w), rk_cpus = \<lambda>w. (1, w), rk_stats = \<lambda>_ _ w. (Inl EBADF, w), rk_close = \<lambda>_ w. w\<rparr>\<rparr>"

lemma others_step_frame [simp]: "hk_removed (others_step w) = hk_removed w" "hk_fds (others_step w) = hk_fds w"
  by (auto simp: others_step_def split: list.split option.split)

lemma fresh_fd_ge: "3 \<le> fresh_fd w"
proof -
  have "2 \<le> fold max xs (2 :: nat)" for xs
    using fold_invariant[of xs "\<lambda>_. True" "\<lambda>m. 2 \<le> m" 2 max] by auto
  then show ?thesis by (simp add: fresh_fd_def)
qed

interpretation hook: xdp_hook_calls hook_env hk_removed "\<lambda>w. map_of (hk_fds w)"
  by unfold_locales
     (auto simp: hook_env_def Let_def hook_dup_def hook_detach_def fresh_fd_ge split: option.splits if_splits)

definition attached_to :: "u32 \<Rightarrow> nat \<Rightarrow> xdp_hook \<Rightarrow> xdp_hook XdpAttachment" where
  "attached_to p fd w = (emptyXdpAttachment w)\<lparr>xa_programFd := Some fd, xa_programId := p, xa_interfaceIndex := 2, xa_attached := True\<rparr>"

section \<open>Properties\<close>

text \<open>
  Claim C22. Whatever other processes attach or remove between its calls, detaching removes at
  most the program this process loaded, even when its descriptor is 0; if nobody interferes and
  the program is still there, it is removed.
\<close>

theorem detach_removes_only_own_program:
  assumes "map_of (hk_fds (xa_world s)) (the (xa_programFd s)) = Some (xa_programId s)"
    and "detachProgram hook_env s = (r, t)"
  shows "(hk_removed (xa_world t) = hk_removed (xa_world s) \<or>
          hk_removed (xa_world t) = hk_removed (xa_world s) @ [xa_programId s]) \<and>
    (xa_attached s \<and> hk_others (xa_world s) = [] \<and> hk_program (xa_world s) = xa_programId s \<and> xa_programId s \<noteq> 0 \<longrightarrow>
       r = Inr () \<and> hk_program (xa_world t) = 0 \<and> \<not> xa_attached t)"
proof -
  have quiet: "others_step w = w" if "hk_others w = []" for w using that by (simp add: others_step_def)
  have "r = Inr () \<and> hk_program (xa_world t) = 0 \<and> \<not> xa_attached t"
    if "xa_attached s" "hk_others (xa_world s) = []" "hk_program (xa_world s) = xa_programId s" "xa_programId s \<noteq> 0"
    using assms that fresh_fd_ge[of "xa_world s"]
    by (auto simp: detachProgram_def detachExpectedProgramFd_def queryAttachedProgramId_def comp_defs callX_def effectX_def
        hook_env_def Let_def quiet hook_dup_def hook_detach_def split: prod.splits)
  with hook.detach_removes_own[OF assms] show ?thesis by (auto simp: hook.removed_only_def)
qed

lemma detach_removes_only_own_program_witness:
  "hk_removed (xa_world (snd (detachProgram hook_env (attached_to 7 0
      \<lparr>hk_program = 7, hk_fds = [(0, 7)], hk_others = [None, None, Some 9], hk_removed = []\<rparr>)))) = []"
proof -
  let ?s = "attached_to 7 0 \<lparr>hk_program = 7, hk_fds = [(0, 7)], hk_others = [None, None, Some 9], hk_removed = []\<rparr>"
  obtain r t where run: "detachProgram hook_env ?s = (r, t)" by fastforce
  have "map_of (hk_fds (xa_world ?s)) (the (xa_programFd ?s)) = Some (xa_programId ?s)"
    by (simp add: attached_to_def emptyXdpAttachment_def)
  from detach_removes_only_own_program[OF this run] have "hk_removed (xa_world t) \<in> {[], [7]}"
    by (auto simp: attached_to_def emptyXdpAttachment_def)
  moreover have "length (hk_removed (xa_world (snd (detachProgram hook_env ?s)))) = 0" by code_simp
  ultimately show ?thesis using run by auto
qed

end
