(* ===== verification/RuntimeService.thy ===== *)
theory RuntimeService
  imports RuntimeConfig XdpAttachment UdpProbeChecker
begin

unbundle bit_operations_syntax

text \<open>
  The control loop of the runtime mode: \<open>src/control/RuntimeDsrService.cpp\<close>. One thread probes
  the targets, reloads the configuration on a signal, publishes snapshots of the healthy targets
  and reports through a bounded queue on the standard output. Its locals are the fields of
  \<open>runtime_service\<close>; the attachment and the checkers run on the world of that state. The texts
  of exceptions are abbreviated, so \<open>what()\<close> is a parameter.
\<close>

section \<open>State and environment\<close>

record 'w runtime_service_env =
  sv_file :: "'w runtime_file_ops"
  sv_pton :: "string \<Rightarrow> u32 option"
  sv_interfaces :: "'w interface_env"
  sv_xdp :: "'w xdp_env"
  sv_probe :: "'w probe_env"
  sv_absolute :: "string \<Rightarrow> string"
  sv_what :: "exn \<Rightarrow> string"
  sv_signalfd :: "'w \<Rightarrow> (errno + nat) \<times> 'w"
  sv_closeSignals :: "nat \<Rightarrow> 'w \<Rightarrow> 'w"
  sv_getFlags :: "'w \<Rightarrow> (errno + nat) \<times> 'w"
  sv_setFlags :: "nat \<Rightarrow> 'w \<Rightarrow> errno option \<times> 'w"
  sv_write :: "string \<Rightarrow> 'w \<Rightarrow> (errno + nat) \<times> 'w"
  sv_pollOutput :: "'w \<Rightarrow> errno option \<times> 'w"
  sv_pollBoth :: "bool \<Rightarrow> 'w \<Rightarrow> errno option \<times> u32 \<times> 'w"
  sv_clock :: "'w \<Rightarrow> time \<times> 'w"
  sv_sigtimedwait :: "'w \<Rightarrow> (errno + nat) \<times> 'w"
  sv_readSignal :: "'w \<Rightarrow> (errno + nat option) \<times> 'w"

record 'w runtime_service =
  vs_attachment :: "'w XdpAttachment"
  vs_checker :: "'w UdpProbeChecker"
  vs_candidate :: "'w UdpProbeChecker option"
  vs_configuration :: RuntimeDsrConfiguration
  vs_applied :: UdpRuntimeSnapshot
  vs_pendingOutput :: string
  vs_reload :: bool
  vs_stop :: bool
  vs_brokenPipe :: bool
  vs_nextPublish :: time
  vs_committed :: bool
  vs_publishAttempted :: bool
  vs_world :: 'w

definition callV :: "('w \<Rightarrow> 'a \<times> 'w) \<Rightarrow> ('w runtime_service, 'a) comp" where
  "callV f s = (case f (vs_world s) of (a, w) \<Rightarrow> (Inr a, s\<lparr>vs_world := w\<rparr>))"

definition worldV :: "('w, 'a) comp \<Rightarrow> ('w runtime_service, 'a) comp" where
  "worldV m s = (case m (vs_world s) of (r, w) \<Rightarrow> (r, s\<lparr>vs_world := w\<rparr>))"

definition on_attachment :: "('w XdpAttachment, 'a) comp \<Rightarrow> ('w runtime_service, 'a) comp" where
  "on_attachment m s = (case m ((vs_attachment s)\<lparr>xa_world := vs_world s\<rparr>) of
     (r, attachment) \<Rightarrow> (r, s\<lparr>vs_attachment := attachment, vs_world := xa_world attachment\<rparr>))"

definition on_checker :: "('w UdpProbeChecker, 'a) comp \<Rightarrow> ('w runtime_service, 'a) comp" where
  "on_checker m s = (case m ((vs_checker s)\<lparr>uc_world := vs_world s\<rparr>) of
     (r, checker) \<Rightarrow> (r, s\<lparr>vs_checker := checker, vs_world := uc_world checker\<rparr>))"

definition SIGHUP :: nat where "SIGHUP = 1"

definition SIGPIPE :: nat where "SIGPIPE = 13"

section \<open>Output\<close>

text \<open>\<open>kOutputLimit\<close> names the literal of \<open>appendOutputLine\<close>.\<close>

definition kOutputLimit :: nat where "kOutputLimit = 65536"

fun flush_attempts :: "'w runtime_service_env \<Rightarrow> nat \<Rightarrow> ('w runtime_service, unit) comp" where
  "flush_attempts env 0 = returnC ()"
| "flush_attempts env (Suc attempts) = bindC (getC vs_pendingOutput) (\<lambda>pendingOutput.
     if pendingOutput = [] then returnC () else
     bindC (callV (sv_write env pendingOutput)) (\<lambda>count. case count of
       Inl e \<Rightarrow>
         if e = EINTR then flush_attempts env attempts
         else if e = EAGAIN \<or> e = EWOULDBLOCK then returnC ()
         else throwC (RuntimeControlError ''runtime output failed'')
     | Inr n \<Rightarrow>
         if n = 0 then throwC (RuntimeControlError ''runtime output failed'')
         else thenC (modifyC (\<lambda>s. s\<lparr>vs_pendingOutput := drop n (vs_pendingOutput s)\<rparr>))
                (flush_attempts env attempts)))"

definition flushPendingOutput :: "'w runtime_service_env \<Rightarrow> ('w runtime_service, unit) comp" where
  "flushPendingOutput env = flush_attempts env 64"

definition appendOutputLine :: "'w runtime_service_env \<Rightarrow> string \<Rightarrow> ('w runtime_service, unit) comp" where
  "appendOutputLine env line = bindC (getC vs_pendingOutput) (\<lambda>pendingOutput.
     if kOutputLimit < length pendingOutput + length line + 1
     then throwC (RuntimeControlError ''runtime output queue exceeds 64 KiB'')
     else thenC (modifyC (\<lambda>s. s\<lparr>vs_pendingOutput := vs_pendingOutput s @ line @ [CHR 0x0A]\<rparr>))
            (flushPendingOutput env))"

definition hasPendingOutput :: "'w runtime_service \<Rightarrow> bool" where
  "hasPendingOutput s \<longleftrightarrow> vs_pendingOutput s \<noteq> []"

text \<open>The loop ends with the queue or the clock, so its length is bounded by fuel here.\<close>

fun drain_loop :: "'w runtime_service_env \<Rightarrow> nat \<Rightarrow> time \<Rightarrow> ('w runtime_service, unit) comp" where
  "drain_loop env 0 deadline = throwC OutOfFuel"
| "drain_loop env (Suc fuel) deadline = bindC (getC hasPendingOutput) (\<lambda>pending.
     if \<not> pending then returnC () else
     thenC (flushPendingOutput env)
    (bindC (getC hasPendingOutput) (\<lambda>pending.
     if \<not> pending then returnC () else
     bindC (callV (sv_clock env)) (\<lambda>now.
     if deadline \<le> now then throwC (RuntimeControlError ''output back-pressure timeout'') else
     bindC (callV (sv_pollOutput env)) (\<lambda>r.
     if r \<noteq> None \<and> r \<noteq> Some EINTR then throwC (RuntimeControlError ''waiting for output failed'')
     else drain_loop env fuel deadline)))))"

definition drainOutputOnStop :: "'w runtime_service_env \<Rightarrow> nat \<Rightarrow> ('w runtime_service, unit) comp" where
  "drainOutputOnStop env fuel = bindC (callV (sv_clock env)) (\<lambda>now. drain_loop env fuel (now + seconds 1))"

section \<open>Signals\<close>

fun read_signals :: "'w runtime_service_env \<Rightarrow> nat \<Rightarrow> ('w runtime_service, unit) comp" where
  "read_signals env 0 = returnC ()"
| "read_signals env (Suc budget) = bindC (callV (sv_readSignal env)) (\<lambda>r. case r of
     Inl e \<Rightarrow>
       if e = EINTR then read_signals env budget
       else if e = EAGAIN then returnC ()
       else throwC (RuntimeControlError ''reading a signal failed'')
   | Inr None \<Rightarrow> throwC (RuntimeControlError ''reading a signal failed'')
   | Inr (Some signo) \<Rightarrow>
       thenC (modifyC (\<lambda>s. if signo = SIGHUP then s\<lparr>vs_reload := True\<rparr>
                else s\<lparr>vs_stop := True, vs_brokenPipe := vs_brokenPipe s \<or> signo = SIGPIPE\<rparr>))
         (read_signals env budget))"

definition consumeRuntimeSignals :: "'w runtime_service_env \<Rightarrow> ('w runtime_service, unit) comp" where
  "consumeRuntimeSignals env = bindC (callV (sv_sigtimedwait env)) (\<lambda>stopped. case stopped of
     Inr signo \<Rightarrow> modifyC (\<lambda>s. s\<lparr>vs_stop := True, vs_brokenPipe := vs_brokenPipe s \<or> signo = SIGPIPE\<rparr>)
   | Inl e \<Rightarrow>
       if e \<noteq> EAGAIN \<and> e \<noteq> EINTR then throwC (RuntimeControlError ''checking stop signals failed'')
       else read_signals env 64)"

section \<open>Targets and snapshots\<close>

definition probe_target :: "RuntimeTarget \<Rightarrow> ProbeTarget" where
  "probe_target t = \<lparr>pt_id = rg_id t, pt_interfaceName = rg_egress t, pt_ifindex = db_ifindex (rg_backend t),
     pt_sourceMac = db_sourceMac (rg_backend t), pt_destinationMac = db_destinationMac (rg_backend t),
     pt_probeAddress = rg_probeAddress t, pt_probePort = rg_probePort t\<rparr>"

definition buildProbeTargets :: "RuntimeDsrConfiguration \<Rightarrow> ProbeTarget list" where
  "buildProbeTargets configuration = map probe_target (rc_targets configuration)"

definition active_backend :: "ProbeTarget \<Rightarrow> UdpDsrBackendValue" where
  "active_backend t = \<lparr>db_ifindex = pt_ifindex t, db_destinationMac = pt_destinationMac t, db_sourceMac = pt_sourceMac t\<rparr>"

fun fill_backends :: "ProbeTarget list \<Rightarrow> UdpRuntimeSnapshot \<Rightarrow> exn + UdpRuntimeSnapshot" where
  "fill_backends [] snapshot = Inr snapshot"
| "fill_backends (t # ts) snapshot =
     (if L4LB_DSR_MAX_BACKENDS \<le> rs_backendCount snapshot then Inl (LogicError ''too many healthy targets'')
      else fill_backends ts (snapshot\<lparr>rs_backendCount := rs_backendCount snapshot + 1,
             rs_backends := (rs_backends snapshot)[unat (rs_backendCount snapshot) := active_backend t]\<rparr>))"

definition buildRuntimeSnapshot ::
  "RuntimeDsrConfiguration \<Rightarrow> 'w UdpProbeChecker \<Rightarrow> u64 \<Rightarrow> exn + UdpRuntimeSnapshot" where
  "buildRuntimeSnapshot configuration checker generation =
     fill_backends (copyHealthyProbeTargets checker)
       (empty_runtime_snapshot\<lparr>rs_schemaVersion := 3, rs_generation := generation,
          rs_vipAddress := rc_vipAddress configuration, rs_vipPort := rc_vipPort configuration\<rparr>)"

definition liftV :: "exn + 'a \<Rightarrow> ('s, 'a) comp" where
  "liftV r = (case r of Inl e \<Rightarrow> throwC e | Inr a \<Rightarrow> returnC a)"

definition nextRuntimeGeneration :: "UdpRuntimeSnapshot \<Rightarrow> exn + u64" where
  "nextRuntimeGeneration applied =
     (if rs_generation applied = - 1 then Inl (RuntimeControlError ''runtime generation exhausted'')
      else Inr (rs_generation applied + 1))"

definition haveSameActiveTargets :: "UdpRuntimeSnapshot \<Rightarrow> UdpRuntimeSnapshot \<Rightarrow> bool" where
  "haveSameActiveTargets first second \<longleftrightarrow>
     rs_backendCount first = rs_backendCount second \<and> rs_backends first = rs_backends second"

section \<open>Lines\<close>

definition formatAppliedSnapshotFields :: "UdpRuntimeSnapshot \<Rightarrow> string" where
  "formatAppliedSnapshotFields applied = '' generation='' @ dec_string (unat (rs_generation applied)) @
     '' active_backends='' @ dec_string (unat (rs_backendCount applied))"

definition sanitizeErrorReason :: "string \<Rightarrow> string" where
  "sanitizeErrorReason reason =
     take 512 (map (\<lambda>character. if (of_char character :: nat) \<le> 32 then CHR ''_'' else character) reason)"

definition formatRuntimeStatisticsLine :: "UdpDsrStatsValue \<Rightarrow> string" where
  "formatRuntimeStatisticsLine stats = ''XDP_STATS schema=3 total_packets='' @ dec_string (unat (ds_totalPackets stats)) @
     '' pass_packets='' @ dec_string (unat (ds_passPackets stats)) @
     '' redirect_requests='' @ dec_string (unat (ds_redirectRequests stats)) @
     '' drop_packets='' @ dec_string (unat (ds_dropPackets stats)) @
     '' unsupported_packets='' @ dec_string (unat (ds_unsupportedPackets stats)) @
     '' no_backend_packets='' @ dec_string (unat (ds_noBackendPackets stats)) @
     '' invalid_config_packets='' @ dec_string (unat (ds_invalidConfigPackets stats)) @
     '' helper_error_packets='' @ dec_string (unat (ds_helperErrorPackets stats))"

definition transition_line :: "ProbeTransition \<Rightarrow> string" where
  "transition_line t = ''XDP_HEALTH target='' @ pr_id t @ '' from='' @ probeStateName (pr_from t) @
     '' to='' @ probeStateName (pr_to t) @ '' reason='' @ pr_reason t"

text \<open>A line that ends with the fields of the applied snapshot.\<close>

definition appendStatus :: "'w runtime_service_env \<Rightarrow> string \<Rightarrow> ('w runtime_service, unit) comp" where
  "appendStatus env status = bindC (getC vs_applied) (\<lambda>applied.
     appendOutputLine env (status @ formatAppliedSnapshotFields applied))"

section \<open>Publishing changed health\<close>

definition publish_committed :: "'w runtime_service_env \<Rightarrow> UdpRuntimeSnapshot \<Rightarrow> ('w runtime_service, unit) comp" where
  "publish_committed env snapshot =
     thenC (on_attachment (publishRuntime (sv_xdp env) snapshot))
       (modifyC (\<lambda>s. s\<lparr>vs_committed := True, vs_applied := snapshot\<rparr>))"

text \<open>The handlers of the three \<open>catch\<close> clauses; only \<open>std::exception\<close>s reach the last.\<close>

definition health_failure :: "'w runtime_service_env \<Rightarrow> exn \<Rightarrow> ('w runtime_service, unit) comp" where
  "health_failure env e = (case e of
     RuntimePublishError _ committed \<Rightarrow>
       if committed then throwC e else appendStatus env ''XDP_PUBLISH status=failed reason=health''
   | RuntimeControlError _ \<Rightarrow> throwC e
   | OutOfFuel \<Rightarrow> throwC e
   | _ \<Rightarrow> bindC (getC vs_committed) (\<lambda>committed.
       if committed then throwC e else appendStatus env ''XDP_PUBLISH status=failed reason=health''))"

definition publishChangedHealthySnapshot :: "'w runtime_service_env \<Rightarrow> ('w runtime_service, bool) comp" where
  "publishChangedHealthySnapshot env =
     bindC (callV (sv_clock env)) (\<lambda>now.
     bindC (getC vs_nextPublish) (\<lambda>nextPublish.
     if now < nextPublish then returnC True else
     bindC (getC vs_applied) (\<lambda>applied.
     bindC (liftV (nextRuntimeGeneration applied)) (\<lambda>generation.
     bindC (getC (\<lambda>s. buildRuntimeSnapshot (vs_configuration s) (vs_checker s) generation)) (\<lambda>built.
     bindC (liftV built) (\<lambda>snapshot.
     if haveSameActiveTargets snapshot applied then returnC True else
     thenC (consumeRuntimeSignals env)
    (bindC (getC vs_stop) (\<lambda>stop.
     if stop then returnC False else
     bindC (callV (sv_clock env)) (\<lambda>later.
     thenC (modifyC (\<lambda>s. s\<lparr>vs_nextPublish := later + seconds 1, vs_committed := False\<rparr>))
    (thenC (catchC
       (thenC (publish_committed env snapshot) (appendStatus env ''XDP_PUBLISH status=applied reason=health''))
       (health_failure env))
     (returnC True)))))))))))"

section \<open>Reloading\<close>

text \<open>\<open>std::make_unique<UdpProbeChecker>\<close>: a constructor that throws has closed what it opened.\<close>

definition make_checker ::
  "'w runtime_service_env \<Rightarrow> ProbeTarget list \<Rightarrow> ProbeSnapshot list \<Rightarrow> ('w runtime_service, 'w UdpProbeChecker) comp" where
  "make_checker env targets previous s =
     (case constructUdpProbeChecker (sv_probe env) targets previous (emptyUdpProbeChecker (vs_world s)) of
        (Inl e, checker) \<Rightarrow> (Inl e, s\<lparr>vs_world := uc_world checker\<rparr>)
      | (Inr _, checker) \<Rightarrow> (Inr checker, s\<lparr>vs_world := uc_world checker\<rparr>))"

definition destroy_checker :: "'w runtime_service_env \<Rightarrow> 'w UdpProbeChecker \<Rightarrow> 'w \<Rightarrow> 'w UdpProbeChecker" where
  "destroy_checker env checker w = destroyUdpProbeChecker (sv_probe env) (checker\<lparr>uc_world := w\<rparr>)"

text \<open>The end of the scope of \<open>candidateChecker\<close>, unless it was moved from.\<close>

definition drop_candidate :: "'w runtime_service_env \<Rightarrow> 'w runtime_service \<Rightarrow> 'w runtime_service" where
  "drop_candidate env s = (case vs_candidate s of
     None \<Rightarrow> s
   | Some checker \<Rightarrow> s\<lparr>vs_candidate := None, vs_world := uc_world (destroy_checker env checker (vs_world s))\<rparr>)"

text \<open>\<open>checker = std::move(candidateChecker)\<close> destroys the old checker.\<close>

definition adopt_candidate ::
  "'w runtime_service_env \<Rightarrow> RuntimeDsrConfiguration \<Rightarrow> 'w runtime_service \<Rightarrow> 'w runtime_service" where
  "adopt_candidate env candidate s = (case vs_candidate s of
     None \<Rightarrow> s
   | Some checker \<Rightarrow> s\<lparr>vs_configuration := candidate, vs_checker := checker, vs_candidate := None,
       vs_world := uc_world (destroy_checker env (vs_checker s) (vs_world s))\<rparr>)"

text \<open>The replacement of a changed configuration; True is \<open>break\<close>.\<close>

definition replaceConfiguration ::
  "'w runtime_service_env \<Rightarrow> RuntimeDsrConfiguration \<Rightarrow> ('w runtime_service, bool) comp" where
  "replaceConfiguration env candidate =
     bindC (getC (\<lambda>s. copyProbeSnapshots (vs_checker s))) (\<lambda>previous.
     bindC (make_checker env (buildProbeTargets candidate) previous) (\<lambda>candidateChecker.
     thenC (modifyC (\<lambda>s. s\<lparr>vs_candidate := Some candidateChecker\<rparr>))
    (bindC (getC vs_applied) (\<lambda>applied.
     bindC (liftV (nextRuntimeGeneration applied)) (\<lambda>generation.
     bindC (liftV (buildRuntimeSnapshot candidate candidateChecker generation)) (\<lambda>snapshot.
     thenC (consumeRuntimeSignals env)
    (bindC (getC vs_stop) (\<lambda>stop.
     if stop then returnC True else
     bindC (callV (sv_clock env)) (\<lambda>later.
     thenC (modifyC (\<lambda>s. s\<lparr>vs_nextPublish := later + seconds 1, vs_publishAttempted := True\<rparr>))
    (thenC (publish_committed env snapshot)
    (thenC (modifyC (adopt_candidate env candidate))
    (thenC (appendStatus env ''XDP_PUBLISH status=applied reason=reload'')
    (thenC (appendStatus env (''XDP_RELOAD status=applied configured_backends='' @
              dec_string (length (rc_targets candidate))))
     (returnC False))))))))))))))"

definition reload_rejected :: "'w runtime_service_env \<Rightarrow> exn \<Rightarrow> ('w runtime_service, unit) comp" where
  "reload_rejected env e =
     appendStatus env (''XDP_RELOAD status=rejected reason='' @ sanitizeErrorReason (sv_what env e))"

definition reload_failure :: "'w runtime_service_env \<Rightarrow> exn \<Rightarrow> ('w runtime_service, bool) comp" where
  "reload_failure env e = (case e of
     RuntimePublishError _ committed \<Rightarrow>
       if committed then throwC e
       else thenC (appendStatus env ''XDP_PUBLISH status=failed reason=reload'')
           (thenC (reload_rejected env e) (returnC False))
   | RuntimeControlError _ \<Rightarrow> throwC e
   | OutOfFuel \<Rightarrow> throwC e
   | _ \<Rightarrow> bindC (getC (\<lambda>s. (vs_committed s, vs_publishAttempted s))) (\<lambda>(committed, publishAttempted).
       if committed then throwC e
       else thenC (whenC publishAttempted (appendStatus env ''XDP_PUBLISH status=failed reason=reload''))
           (thenC (reload_rejected env e) (returnC False))))"

definition reloadConfiguration ::
  "'w runtime_service_env \<Rightarrow> nat \<Rightarrow> string \<Rightarrow> string \<Rightarrow> string \<Rightarrow> ('w runtime_service, bool) comp" where
  "reloadConfiguration env fuel path ingress vip =
     thenC (modifyC (\<lambda>s. s\<lparr>vs_reload := False, vs_committed := False, vs_publishAttempted := False\<rparr>))
       (catchC
         (finallyC
           (bindC (worldV (loadRuntimeConfig (sv_file env) fuel (sv_pton env) (sv_interfaces env) path ingress vip)) (\<lambda>candidate.
            bindC (getC vs_configuration) (\<lambda>configuration.
            if sameRuntimeConfig candidate configuration
            then thenC (appendStatus env ''XDP_RELOAD status=unchanged'') (returnC False)
            else replaceConfiguration env candidate)))
           (drop_candidate env))
         (reload_failure env))"

section \<open>The loop\<close>

definition POLL_BROKEN :: u32 where "POLL_BROKEN = 0x38"

definition waitForRuntimeSignalsOrOutput :: "'w runtime_service_env \<Rightarrow> ('w runtime_service, unit) comp" where
  "waitForRuntimeSignalsOrOutput env =
     bindC (getC hasPendingOutput) (\<lambda>pending.
     bindC (callV (\<lambda>w. case sv_pollBoth env pending w of (r, revents, w') \<Rightarrow> ((r, revents), w'))) (\<lambda>(r, revents).
     if r \<noteq> None \<and> r \<noteq> Some EINTR then throwC (RuntimeControlError ''runtime poll failed'')
     else if revents AND POLL_BROKEN \<noteq> 0 then throwC (RuntimeControlError ''output or signal descriptor broken'')
     else returnC ()))"

text \<open>One turn; True is \<open>break\<close>.\<close>

definition control_turn ::
  "'w runtime_service_env \<Rightarrow> nat \<Rightarrow> string \<Rightarrow> string \<Rightarrow> string \<Rightarrow> ('w runtime_service, bool) comp" where
  "control_turn env fuel path ingress vip =
     thenC (consumeRuntimeSignals env)
    (bindC (getC vs_stop) (\<lambda>stop.
     if stop then returnC True else
     bindC (callV (sv_clock env)) (\<lambda>now.
     bindC (on_checker (pollProbeTransitions (sv_probe env) now)) (\<lambda>transitions.
     thenC (forC transitions (\<lambda>t. appendOutputLine env (transition_line t)))
    (thenC (consumeRuntimeSignals env)
    (bindC (getC vs_stop) (\<lambda>stop.
     if stop then returnC True else
     bindC (getC (\<lambda>s. vs_reload s \<and> vs_nextPublish s \<le> now)) (\<lambda>reloadNow.
     bindC (if reloadNow then reloadConfiguration env fuel path ingress vip else returnC False) (\<lambda>broken.
     if broken then returnC True else
     bindC (publishChangedHealthySnapshot env) (\<lambda>continue.
     if \<not> continue then returnC True else
     thenC (flushPendingOutput env)
    (thenC (waitForRuntimeSignalsOrOutput env) (returnC False))))))))))))"

fun control_loop ::
  "'w runtime_service_env \<Rightarrow> nat \<Rightarrow> nat \<Rightarrow> string \<Rightarrow> string \<Rightarrow> string \<Rightarrow> ('w runtime_service, unit) comp" where
  "control_loop env fuel 0 path ingress vip = throwC OutOfFuel"
| "control_loop env fuel (Suc turns) path ingress vip = bindC (getC vs_stop) (\<lambda>stop.
     if stop then returnC () else
     bindC (control_turn env fuel path ingress vip) (\<lambda>broken.
     if broken then returnC () else control_loop env fuel turns path ingress vip))"

section \<open>The run\<close>

text \<open>The constructor of the output queue; its destructor puts the flags back.\<close>

definition openOutput :: "'w runtime_service_env \<Rightarrow> ('w runtime_service, nat) comp" where
  "openOutput env = bindC (callV (sv_getFlags env)) (\<lambda>flags. case flags of
     Inl e \<Rightarrow> throwC (RuntimeError ''cannot make the output non-blocking'')
   | Inr originalFlags \<Rightarrow> bindC (callV (sv_setFlags env (originalFlags OR 2048))) (\<lambda>r.
       if r \<noteq> None then throwC (RuntimeError ''cannot make the output non-blocking'') else returnC originalFlags))"

definition restoreOutput :: "'w runtime_service_env \<Rightarrow> nat \<Rightarrow> 'w runtime_service \<Rightarrow> 'w runtime_service" where
  "restoreOutput env originalFlags s = s\<lparr>vs_world := snd (sv_setFlags env originalFlags (vs_world s))\<rparr>"

definition resetChecker :: "'w runtime_service_env \<Rightarrow> 'w runtime_service \<Rightarrow> 'w runtime_service" where
  "resetChecker env s = (let checker = destroy_checker env (vs_checker s) (vs_world s)
     in s\<lparr>vs_checker := checker, vs_world := uc_world checker\<rparr>)"

definition status_tail :: "'w runtime_service \<Rightarrow> string \<Rightarrow> XdpAttachMode \<Rightarrow> string" where
  "status_tail s ingress mode = '' dev='' @ ingress @ '' mode='' @ xdpAttachModeName mode @ '' prog_id='' @
     dec_string (unat (xa_programId (vs_attachment s)))"

text \<open>The body of the \<open>try\<close> block, and its handler.\<close>

definition runAttached ::
  "'w runtime_service_env \<Rightarrow> nat \<Rightarrow> nat \<Rightarrow> string \<Rightarrow> string \<Rightarrow> string \<Rightarrow> XdpAttachMode \<Rightarrow> ('w runtime_service, int) comp" where
  "runAttached env fuel turns path ingress vip mode =
     bindC (getC (\<lambda>s. ''READY'' @ status_tail s ingress mode @ '' schema=3 profile=udp-dsr-runtime configured_backends='' @
         dec_string (length (rc_targets (vs_configuration s))))) (\<lambda>ready.
     thenC (appendStatus env ready)
    (bindC (callV (sv_clock env)) (\<lambda>now.
     thenC (modifyC (\<lambda>s. s\<lparr>vs_reload := False, vs_stop := False, vs_brokenPipe := False, vs_nextPublish := now + seconds 1\<rparr>))
    (thenC (control_loop env fuel turns path ingress vip)
    (thenC (on_attachment (detachProgram (sv_xdp env)))
    (thenC (modifyC (resetChecker env))
    (bindC (on_attachment (readRuntimeStats (sv_xdp env))) (\<lambda>stats.
     thenC (appendOutputLine env (formatRuntimeStatisticsLine stats))
    (bindC (getC (\<lambda>s. ''DETACHED'' @ status_tail s ingress mode)) (\<lambda>line.
     thenC (appendOutputLine env line)
    (thenC (drainOutputOnStop env fuel)
    (getC (\<lambda>s. if vs_brokenPipe s then 1 else 0)))))))))))))"

definition detach_and_rethrow :: "'w runtime_service_env \<Rightarrow> exn \<Rightarrow> ('w runtime_service, 'a) comp" where
  "detach_and_rethrow env e =
     thenC (catchC (on_attachment (detachProgram (sv_xdp env))) (\<lambda>_. returnC ())) (throwC e)"

definition initialService :: "'w XdpAttachment \<Rightarrow> 'w runtime_service" where
  "initialService attachment = \<lparr>vs_attachment = attachment, vs_checker = emptyUdpProbeChecker (xa_world attachment),
     vs_candidate = None, vs_configuration = \<lparr>rc_vipAddress = 0, rc_vipPort = 0, rc_targets = []\<rparr>,
     vs_applied = empty_runtime_snapshot, vs_pendingOutput = [], vs_reload = False, vs_stop = False,
     vs_brokenPipe = False, vs_nextPublish = 0, vs_committed = False, vs_publishAttempted = False,
     vs_world = xa_world attachment\<rparr>"

text \<open>What follows the output queue's constructor, and what follows the checker's.\<close>

definition runLoaded ::
  "'w runtime_service_env \<Rightarrow> nat \<Rightarrow> nat \<Rightarrow> string \<Rightarrow> string \<Rightarrow> string \<Rightarrow> string \<Rightarrow> XdpAttachMode \<Rightarrow> UdpRuntimeSnapshot \<Rightarrow>
   ('w runtime_service, int) comp" where
  "runLoaded env fuel turns object ingress vip path mode applied =
     thenC (on_attachment (loadObject (sv_xdp env) fuel object kUdpRuntimeV3 []
         \<lparr>dsr_config = \<lparr>dc_schemaVersion = 0, dc_backendCount = 0, dc_vipAddress = 0, dc_vipPort = 0, dc_reserved = 0\<rparr>,
           dsr_backends = []\<rparr> (Some applied)))
    (bindC (on_attachment (resolveInterfaceIndex (sv_xdp env) ingress)) (\<lambda>ifindex.
     thenC (on_attachment (attachProgram (sv_xdp env) ifindex mode))
       (catchC (runAttached env fuel turns path ingress vip mode) (detach_and_rethrow env))))"

definition runProbed ::
  "'w runtime_service_env \<Rightarrow> nat \<Rightarrow> nat \<Rightarrow> string \<Rightarrow> string \<Rightarrow> string \<Rightarrow> string \<Rightarrow> XdpAttachMode \<Rightarrow> RuntimeDsrConfiguration \<Rightarrow>
   'w UdpProbeChecker \<Rightarrow> ('w runtime_service, int) comp" where
  "runProbed env fuel turns object ingress vip path mode configuration checker =
     bindC (liftV (buildRuntimeSnapshot configuration checker 1)) (\<lambda>applied.
     thenC (modifyC (\<lambda>s. s\<lparr>vs_applied := applied\<rparr>))
    (bindC (callV (sv_signalfd env)) (\<lambda>opened. case opened of
       Inl e \<Rightarrow> throwC (RuntimeError ''cannot create the signal descriptor'')
     | Inr signalFd \<Rightarrow> finallyC
        (bindC (openOutput env) (\<lambda>originalFlags. finallyC
          (runLoaded env fuel turns object ingress vip path mode applied)
          (restoreOutput env originalFlags)))
        (\<lambda>s. s\<lparr>vs_world := sv_closeSignals env signalFd (vs_world s)\<rparr>))))"

definition runRuntimeDsrControlLoop ::
  "'w runtime_service_env \<Rightarrow> nat \<Rightarrow> nat \<Rightarrow> string \<Rightarrow> string \<Rightarrow> string \<Rightarrow> string \<Rightarrow> XdpAttachMode \<Rightarrow>
   ('w runtime_service, int) comp" where
  "runRuntimeDsrControlLoop env fuel turns object ingress vip configurationPath mode =
     (let path = sv_absolute env configurationPath in
      bindC (worldV (loadRuntimeConfig (sv_file env) fuel (sv_pton env) (sv_interfaces env) path ingress vip)) (\<lambda>configuration.
      thenC (modifyC (\<lambda>s. s\<lparr>vs_configuration := configuration\<rparr>))
     (bindC (make_checker env (buildProbeTargets configuration) []) (\<lambda>checker.
      thenC (modifyC (\<lambda>s. s\<lparr>vs_checker := checker\<rparr>))
       (finallyC (runProbed env fuel turns object ingress vip path mode configuration checker) (resetChecker env))))))"

end
