(* ===== verification/RuntimeRuns.thy ===== *)
theory RuntimeRuns
  imports RuntimeService RuntimeConfigFacts RuntimePublish UdpProbes
begin

unbundle bit_operations_syntax

text \<open>
  What the control loop of the runtime mode keeps: configuration, prober, applied snapshot and
  map store stay in step however reloads and publications end, every snapshot it submits passes
  the store's checks, and when it ends nothing is left open.
\<close>

section \<open>Snapshots of a sound service\<close>

lemma fill_backends_run:
  "unat (rs_backendCount x) + length ts \<le> 64 \<Longrightarrow> length (rs_backends x) = 64 \<Longrightarrow>
   fill_backends ts x = Inr (x\<lparr>rs_backendCount := rs_backendCount x + word_of_nat (length ts),
     rs_backends := take (unat (rs_backendCount x)) (rs_backends x) @ map active_backend ts @
       drop (unat (rs_backendCount x) + length ts) (rs_backends x)\<rparr>)"
proof (induction ts arbitrary: x)
  case (Cons t ts)
  let ?n = "unat (rs_backendCount x)"
  define y where "y = x\<lparr>rs_backendCount := rs_backendCount x + 1, rs_backends := (rs_backends x)[?n := active_backend t]\<rparr>"
  have n: "?n < 64" using Cons.prems(1) by simp
  then have "rs_backendCount x \<noteq> - 1" by (auto simp: unsigned_minus_1_eq_mask mask_eq_exp_minus_1)
  then have y: "unat (rs_backendCount y) = Suc ?n" "length (rs_backends y) = 64"
    using Cons.prems(2) by (simp_all add: y_def unat_inc)
  have "\<not> L4LB_DSR_MAX_BACKENDS \<le> rs_backendCount x" using n by (simp add: L4LB_DSR_MAX_BACKENDS_def word_le_nat_alt)
  then have "fill_backends (t # ts) x = fill_backends ts y" by (simp add: y_def)
  also have "\<dots> = Inr (y\<lparr>rs_backendCount := rs_backendCount y + word_of_nat (length ts),
     rs_backends := take (Suc ?n) (rs_backends y) @ map active_backend ts @ drop (Suc ?n + length ts) (rs_backends y)\<rparr>)"
    using Cons.IH[of y] Cons.prems(1) y by simp
  also have "take (Suc ?n) (rs_backends y) = take ?n (rs_backends x) @ [active_backend t]"
    using n Cons.prems(2) by (simp add: y_def take_Suc_conv_app_nth)
  finally show ?case using n by (simp add: y_def algebra_simps)
qed simp

definition snapshot_of :: "RuntimeDsrConfiguration \<Rightarrow> ProbeTarget list \<Rightarrow> u64 \<Rightarrow> UdpRuntimeSnapshot" where
  "snapshot_of c healthy generation = \<lparr>rs_schemaVersion = 3, rs_backendCount = word_of_nat (length healthy),
     rs_generation = generation, rs_vipAddress = rc_vipAddress c, rs_vipPort = rc_vipPort c, rs_reserved = 0,
     rs_backends = map active_backend healthy @ replicate (64 - length healthy) zero_dsr_backend\<rparr>"

lemma buildRuntimeSnapshot_run:
  assumes "length (copyHealthyProbeTargets checker) \<le> 64"
  shows "buildRuntimeSnapshot c checker g = Inr (snapshot_of c (copyHealthyProbeTargets checker) g)"
  using fill_backends_run[of "empty_runtime_snapshot\<lparr>rs_schemaVersion := 3, rs_generation := g,
          rs_vipAddress := rc_vipAddress c, rs_vipPort := rc_vipPort c\<rparr>" "copyHealthyProbeTargets checker"] assms
  by (simp add: buildRuntimeSnapshot_def snapshot_of_def empty_runtime_snapshot_def)

lemma validate_slots_zero: "unat used \<le> i \<Longrightarrow> validate_slots i used (replicate n zero_dsr_backend) = Inr ()"
  by (induction n arbitrary: i) auto

lemma validate_slots_filled:
  "list_all dsr_backend_ok bs \<Longrightarrow> i + length bs = unat used \<Longrightarrow>
   validate_slots i used (bs @ replicate n zero_dsr_backend) = Inr ()"
proof (induction bs arbitrary: i)
  case (Cons b bs)
  then show ?case by (simp add: dsr_backend_ok_def isNonzeroUnicastMac_def validMac_def split: prod.splits)
qed (simp add: validate_slots_zero)

text \<open>The probes of a checker for a configuration, and what holds of them.\<close>

definition probes_of :: "RuntimeDsrConfiguration \<Rightarrow> ProbeSnapshot list \<Rightarrow> bool" where
  "probes_of c snaps \<longleftrightarrow> map sn_target snaps = buildProbeTargets c \<and> list_all counters_valid snaps"

lemma snapshots_probes: "snapshots_ok (buildProbeTargets c) checker \<longleftrightarrow> probes_of c (copyProbeSnapshots checker)"
  by (simp add: snapshots_ok_def probes_of_def copyProbeSnapshots_def comp_def list.pred_map)

lemma healthy_targets: "set (copyHealthyProbeTargets checker) \<subseteq> set (map sn_target (copyProbeSnapshots checker))"
  "length (copyHealthyProbeTargets checker) \<le> length (copyProbeSnapshots checker)"
  by (auto simp: copyHealthyProbeTargets_def copyProbeSnapshots_def)

lemma built_snapshot_valid:
  assumes c: "runtime_config_ok c" and probes: "probes_of c (copyProbeSnapshots checker)" and g: "g \<noteq> - 1"
  shows "buildRuntimeSnapshot c checker (g + 1) = Inr (snapshot_of c (copyHealthyProbeTargets checker) (g + 1))"
    and "validateCandidateSnapshot (snapshot_of c (copyHealthyProbeTargets checker) (g + 1)) g = Inr ()"
proof -
  let ?healthy = "copyHealthyProbeTargets checker"
  have "length (copyProbeSnapshots checker) = length (rc_targets c)"
    using probes by (metis probes_of_def length_map buildProbeTargets_def)
  then have n: "length ?healthy \<le> 64" using healthy_targets(2)[of checker] c by (simp add: runtime_config_ok_def)
  then show "buildRuntimeSnapshot c checker (g + 1) = Inr (snapshot_of c ?healthy (g + 1))"
    by (rule buildRuntimeSnapshot_run)
  have "dsr_backend_ok (active_backend t)" if "t \<in> set ?healthy" for t
  proof -
    have "map sn_target (copyProbeSnapshots checker) = buildProbeTargets c" using probes by (simp only: probes_of_def)
    with that healthy_targets(1)[of checker] have "t \<in> set (buildProbeTargets c)" by (metis subsetD)
    then obtain r where "r \<in> set (rc_targets c)" "t = probe_target r" by (auto simp: buildProbeTargets_def)
    with c show ?thesis
      by (auto simp: runtime_config_ok_def list_all_iff runtime_target_ok_def active_backend_def probe_target_def dsr_backend_ok_def)
  qed
  then have "validate_slots 0 (word_of_nat (length ?healthy)) (rs_backends (snapshot_of c ?healthy (g + 1))) = Inr ()"
    using n by (simp add: snapshot_of_def validate_slots_filled list_all_iff unat_of_nat)
  moreover have "(word_of_nat (length ?healthy) :: u32) \<le> 64" using n by (simp add: word_le_nat_alt unat_of_nat)
  ultimately show "validateCandidateSnapshot (snapshot_of c ?healthy (g + 1)) g = Inr ()"
    using c g by (simp add: validateCandidateSnapshot_def runtime_config_ok_def snapshot_of_def not_less)
qed

text \<open>A loaded configuration gives targets the prober accepts.\<close>

lemma targets_valid_iff:
  "targets_valid ts ids \<longleftrightarrow> list_all (\<lambda>t. pt_id t \<noteq> [] \<and> pt_id t \<notin> ids \<and> pt_ifindex t \<noteq> 0 \<and> pt_interfaceName t \<noteq> [] \<and>
     length (pt_interfaceName t) < 16 \<and> pt_probeAddress t \<noteq> 0 \<and> pt_probePort t \<noteq> 0) ts \<and> distinct (map pt_id ts)"
proof (induction ts arbitrary: ids)
  case (Cons t ts)
  have "pt_id t \<in> pt_id ` set ts \<longleftrightarrow> (\<exists>u \<in> set ts. pt_id u = pt_id t)" by (metis imageE imageI)
  then show ?case by (simp add: Cons.IH list_all_iff not_le) blast
qed simp

lemma config_targets_valid:
  assumes "runtime_config_ok c"
  shows "targets_valid (buildProbeTargets c) {}" and "length (buildProbeTargets c) \<le> 64"
proof -
  have "map pt_id (buildProbeTargets c) = map rg_id (rc_targets c)"
    by (simp add: buildProbeTargets_def probe_target_def)
  then have "distinct (map pt_id (buildProbeTargets c))" using assms by (simp only: runtime_config_ok_def)
  moreover have "list_all (\<lambda>t. pt_id t \<noteq> [] \<and> pt_id t \<notin> {} \<and> pt_ifindex t \<noteq> 0 \<and> pt_interfaceName t \<noteq> [] \<and>
     length (pt_interfaceName t) < 16 \<and> pt_probeAddress t \<noteq> 0 \<and> pt_probePort t \<noteq> 0) (buildProbeTargets c)"
    using assms by (auto simp: runtime_config_ok_def list_all_iff buildProbeTargets_def probe_target_def
        runtime_target_ok_def probes_ok_def dsr_backend_ok_def)
  ultimately show "targets_valid (buildProbeTargets c) {}" by (simp only: targets_valid_iff)
  show "length (buildProbeTargets c) \<le> 64" using assms by (simp add: buildProbeTargets_def runtime_config_ok_def)
qed

section \<open>Configuration, prober, store and queue in step\<close>

text \<open>
  \<open>in_step c\<close>: the configuration is a loaded one, the checker probes exactly its targets, the map
  store is at the generation of the applied snapshot, the output queue is within its limit and
  \<open>c\<close> is the candidate checker.
\<close>

definition at_generation :: "u64 \<Rightarrow> 'w XdpAttachment \<Rightarrow> bool" where
  "at_generation g a \<longleftrightarrow> map_option rt_generation (xa_runtimeMaps a) = Some g"

definition in_step :: "'w UdpProbeChecker option \<Rightarrow> 'w runtime_service \<Rightarrow> bool" where
  "in_step c s \<longleftrightarrow> runtime_config_ok (vs_configuration s) \<and>
     sound_checker (buildProbeTargets (vs_configuration s)) (vs_checker s) \<and> vs_candidate s = c \<and>
     at_generation (rs_generation (vs_applied s)) (vs_attachment s) \<and> length (vs_pendingOutput s) \<le> kOutputLimit"

text \<open>Only a publication that was committed and then could not be confirmed leaves them apart.\<close>

definition unconfirmed :: "exn \<Rightarrow> bool" where
  "unconfirmed e \<longleftrightarrow> (\<exists>m. e = RuntimePublishError m True)"

definition stays :: "('w runtime_service \<Rightarrow> bool) \<Rightarrow> ('w runtime_service, 'a) comp \<Rightarrow> bool" where
  "stays P m \<longleftrightarrow> triple P m (\<lambda>_. P) (\<lambda>e s. unconfirmed e \<or> P s)"

abbreviation keeps :: "'w UdpProbeChecker option \<Rightarrow> ('w runtime_service, 'a) comp \<Rightarrow> bool" where
  "keeps c \<equiv> stays (in_step c)"

lemma triple_weaken:
  assumes "triple P m Q E" and "\<And>a s. Q a s \<Longrightarrow> Q' a s" and "\<And>e s. E e s \<Longrightarrow> E' e s"
  shows "triple P m Q' E'"
  by (rule tripleI) (auto intro: assms(2,3) triple_Inr[OF assms(1)] triple_Inl[OF assms(1)])

named_theorems stays_rules

lemma stays_preserved: "preserves P m \<Longrightarrow> stays P m"
  unfolding stays_def by (rule triple_preserves_weaken[of P]) auto

lemma stays_bind [stays_rules]: "stays P m \<Longrightarrow> (\<And>a. stays P (f a)) \<Longrightarrow> stays P (bindC m f)"
  unfolding stays_def by (rule triple_bind)

lemma stays_then [stays_rules]: "stays P m \<Longrightarrow> stays P k \<Longrightarrow> stays P (thenC m k)"
  unfolding thenC_def by (rule stays_bind)

lemma stays_if [stays_rules]:
  "(b \<Longrightarrow> stays P m) \<Longrightarrow> (\<not> b \<Longrightarrow> stays P k) \<Longrightarrow> stays P (if b then m else k)"
  by simp

lemma stays_simple [stays_rules]: "stays P (returnC a)" "stays P (throwC e)" "stays P (getC f)"
  by (rule stays_preserved, rule preserves_rules)+

lemma stays_when [stays_rules]: "stays P m \<Longrightarrow> stays P (whenC b m)"
  by (simp add: whenC_def stays_simple)

lemma stays_modify: "(\<And>s. P s \<Longrightarrow> P (f s)) \<Longrightarrow> stays P (modifyC f)"
  by (rule stays_preserved) (rule preserves_modify)

text \<open>A handler that passes an unconfirmed publication on.\<close>

lemma stays_catch [stays_rules]:
  assumes "stays P m" and "\<And>e. stays P (h e)" and "\<And>e s. unconfirmed e \<Longrightarrow> h e s = (Inl e, s)"
  shows "stays P (catchC m h)"
  unfolding stays_def
proof (rule triple_catch[OF assms(1)[unfolded stays_def]])
  fix e
  show "triple (\<lambda>s. unconfirmed e \<or> P s) (h e) (\<lambda>_. P) (\<lambda>e s. unconfirmed e \<or> P s)"
    using assms(2)[of e] assms(3)[of e] by (cases "unconfirmed e") (simp_all add: triple_def stays_def)
qed

subsection \<open>Quiet operations\<close>

text \<open>Output, signals and the clock touch none of this: they leave \<open>core\<close> alone and keep the queue bounded.\<close>

definition core ::
  "'w runtime_service \<Rightarrow> 'w XdpAttachment \<times> 'w UdpProbeChecker \<times> 'w UdpProbeChecker option \<times> RuntimeDsrConfiguration \<times>
     UdpRuntimeSnapshot" where
  "core s = (vs_attachment s, vs_checker s, vs_candidate s, vs_configuration s, vs_applied s)"

definition queued ::
  "'w XdpAttachment \<times> 'w UdpProbeChecker \<times> 'w UdpProbeChecker option \<times> RuntimeDsrConfiguration \<times> UdpRuntimeSnapshot \<Rightarrow>
   'w runtime_service \<Rightarrow> bool" where
  "queued v s \<longleftrightarrow> core s = v \<and> length (vs_pendingOutput s) \<le> kOutputLimit"

lemma queued_frame [simp]:
  "queued v (s\<lparr>vs_world := w\<rparr>) = queued v s" "queued v (s\<lparr>vs_reload := b\<rparr>) = queued v s"
  "queued v (s\<lparr>vs_stop := b\<rparr>) = queued v s" "queued v (s\<lparr>vs_brokenPipe := b\<rparr>) = queued v s"
  by (simp_all add: queued_def core_def)

lemma queued_drop: "queued v s \<Longrightarrow> queued v (s\<lparr>vs_pendingOutput := drop n (vs_pendingOutput s)\<rparr>)"
  by (auto simp: queued_def core_def)

lemma callV_quiet [preserves_rules]: "preserves (queued v) (callV f)"
  by (rule preservesI) (auto simp: callV_def split: prod.splits)

lemma worldV_quiet [preserves_rules]: "preserves (queued v) (worldV m)"
  by (rule preservesI) (auto simp: worldV_def split: prod.splits)

lemma liftV_quiet [preserves_rules]: "preserves I (liftV r)"
  unfolding liftV_def by (intro preserves_rules)

lemma flush_quiet: "preserves (queued v) (flush_attempts env n)"
  by (induction n) (auto intro!: preserves_rules preserves_modify queued_drop)

lemma append_quiet [preserves_rules]: "preserves (queued v) (appendOutputLine env line)"
proof (rule preservesI)
  fix s r t
  assume s: "queued v s" and run: "appendOutputLine env line s = (r, t)"
  let ?s = "s\<lparr>vs_pendingOutput := vs_pendingOutput s @ line @ [CHR 0x0A]\<rparr>"
  show "queued v t"
  proof (cases "kOutputLimit < length (vs_pendingOutput s) + length line + 1")
    case True
    with s run show ?thesis by (simp add: appendOutputLine_def bindC_getC)
  next
    case False
    with s have "queued v ?s" by (simp add: queued_def core_def)
    moreover from False run have "flush_attempts env 64 ?s = (r, t)"
      by (simp add: appendOutputLine_def bindC_getC thenC_modifyC flushPendingOutput_def)
    ultimately show ?thesis by (rule preservesD[OF flush_quiet])
  qed
qed

lemma flushPending_quiet [preserves_rules]: "preserves (queued v) (flushPendingOutput env)"
  unfolding flushPendingOutput_def by (rule flush_quiet)

lemma appendStatus_quiet [preserves_rules]: "preserves (queued v) (appendStatus env line)"
  unfolding appendStatus_def by (intro preserves_rules)

lemma read_signals_quiet: "preserves (queued v) (read_signals env n)"
  by (induction n) (auto intro!: preserves_rules preserves_modify)

lemma consume_quiet [preserves_rules]: "preserves (queued v) (consumeRuntimeSignals env)"
  unfolding consumeRuntimeSignals_def by (intro preserves_rules preserves_modify read_signals_quiet) simp_all

lemma wait_quiet [preserves_rules]: "preserves (queued v) (waitForRuntimeSignalsOrOutput env)"
  unfolding waitForRuntimeSignalsOrOutput_def by (intro preserves_rules)

lemma drain_quiet [preserves_rules]: "preserves (queued v) (drainOutputOnStop env n)"
proof -
  have "preserves (queued v) (drain_loop env n deadline)" for deadline
    by (induction n) (auto intro!: preserves_rules)
  then show ?thesis unfolding drainOutputOnStop_def by (intro preserves_rules)
qed

text \<open>A property of \<open>core\<close> and the bound of the queue is kept.\<close>

definition core_property :: "('w runtime_service \<Rightarrow> bool) \<Rightarrow> bool" where
  "core_property P \<longleftrightarrow> (\<forall>s. P s \<longrightarrow> length (vs_pendingOutput s) \<le> kOutputLimit \<and> (\<forall>t. queued (core s) t \<longrightarrow> P t))"

lemma quiet_core:
  assumes P: "core_property P" and quiet: "\<And>v. preserves (queued v) m"
  shows "preserves P m"
proof (rule preservesI)
  fix s r t
  assume s: "P s" and run: "m s = (r, t)"
  then have "queued (core s) s" using P by (simp add: queued_def core_property_def)
  from preservesD[OF quiet this run] s show "P t" using P by (simp add: core_property_def)
qed

lemma stays_quiet: "core_property P \<Longrightarrow> (\<And>v. preserves (queued v) m) \<Longrightarrow> stays P m"
  by (rule stays_preserved, rule quiet_core)

lemma in_step_core [simp]: "core_property (in_step c)"
  by (auto simp: core_property_def in_step_def queued_def core_def)

lemma in_step_frame [simp]:
  "in_step c (s\<lparr>vs_world := w\<rparr>) = in_step c s" "in_step c (s\<lparr>vs_reload := b\<rparr>) = in_step c s"
  "in_step c (s\<lparr>vs_stop := b\<rparr>) = in_step c s" "in_step c (s\<lparr>vs_brokenPipe := b\<rparr>) = in_step c s"
  "in_step c (s\<lparr>vs_nextPublish := n\<rparr>) = in_step c s" "in_step c (s\<lparr>vs_committed := b\<rparr>) = in_step c s"
  "in_step c (s\<lparr>vs_publishAttempted := b\<rparr>) = in_step c s"
  by (simp_all add: in_step_def)

subsection \<open>Publishing\<close>

lemma generation_kept [preserves_rules]:
  "preserves (\<lambda>s. rt_generation s = g) (callR f)" "preserves (\<lambda>s. rt_generation s = g) (closeR env fd)"
  by (rule preservesI, auto simp: callR_def closeR_def split: prod.splits)+

lemma prepare_generation: "preserves (\<lambda>s. rt_generation s = g) (owning_candidate env fd (prepareCandidate env fd x))"
  unfolding owning_candidate_def prepareCandidate_def succeedR_def valueR_def validateMapMetadata_def verifyFrozenSnapshot_def
  by (intro preserves_rules)

lemma commit_generation:
  "triple (\<lambda>_. True) (commitCandidate env fd info x) (\<lambda>_ s. rt_generation s = rs_generation x) (\<lambda>e _. unconfirmed e)"
proof -
  have "triple (\<lambda>_. True) (modifyC (\<lambda>s. s\<lparr>rt_activeFd := Some fd, rt_generation := rs_generation x\<rparr>))
      (\<lambda>_ s. rt_generation s = rs_generation x) (\<lambda>e _. unconfirmed e)"
    by (simp add: triple_def modifyC_def)
  moreover have "triple (\<lambda>s. rt_generation s = g) (case previous of None \<Rightarrow> returnC () | Some p \<Rightarrow> closeR env p)
      (\<lambda>_ s. rt_generation s = g) (\<lambda>e _. unconfirmed e)" for g previous
    by (cases previous) (simp_all add: triple_def returnC_def closeR_def modifyC_def)
  moreover have "triple (\<lambda>s. rt_generation s = g) (callR f) (\<lambda>_ s. rt_generation s = g) (\<lambda>e _. unconfirmed e)"
    for g and f :: "'a \<Rightarrow> 'b \<times> 'a"
    by (auto simp: triple_def callR_def split: prod.split)
  moreover have "triple (\<lambda>s. rt_generation s = g) (case r of
       Inl e \<Rightarrow> throwC (RuntimePublishError ''published, then outer readback failed'' True)
     | Inr publishedId \<Rightarrow>
         if publishedId \<noteq> info then throwC (RuntimePublishError ''published, then outer map id mismatch'' True)
         else returnC ()) (\<lambda>_ s. rt_generation s = g) (\<lambda>e _. unconfirmed e)" for g and r :: "errno + nat"
    by (cases r) (simp_all add: triple_def throwC_def returnC_def unconfirmed_def)
  ultimately show ?thesis
    unfolding commitCandidate_def by (intro triple_getR triple_then[where B = "\<lambda>s. rt_generation s = rs_generation x"] triple_bind)
qed

lemma publish_generation:
  "triple (\<lambda>s. rt_generation s = g) (publishSnapshot env x) (\<lambda>_ s. rt_generation s = rs_generation x)
     (\<lambda>e s. unconfirmed e \<or> rt_generation s = g)"
proof -
  let ?same = "\<lambda>s. rt_generation s = g"
  have same: "triple ?same m (\<lambda>_. ?same) (\<lambda>e s. unconfirmed e \<or> ?same s)" if "preserves ?same m"
    for m :: "('b RuntimeMapStore, 'c) comp"
    using that by (rule triple_preserves_weaken) simp_all
  have create: "preserves ?same (valueR ''create runtime inner'' (rk_create env))"
    unfolding valueR_def by (intro preserves_rules)
  have commit: "triple ?same (commitCandidate env fd info x) (\<lambda>_ s. rt_generation s = rs_generation x)
      (\<lambda>e s. unconfirmed e \<or> ?same s)" for fd info
    using commit_generation by (fastforce simp: triple_def split: prod.splits sum.splits)
  show ?thesis
    unfolding publishSnapshot_def
    by (intro triple_getR triple_case_sum triple_bind[OF same[OF create]] triple_bind[OF same[OF prepare_generation]] commit)
      (simp add: triple_def throwC_def)
qed

lemma publish_committed_run:
  assumes gen: "at_generation g (vs_attachment s)" and run: "publish_committed env x s = (r, t)"
  shows "case r of
      Inr _ \<Rightarrow> \<exists>a w. at_generation (rs_generation x) a \<and>
        t = s\<lparr>vs_attachment := a, vs_world := w, vs_committed := True, vs_applied := x\<rparr>
    | Inl e \<Rightarrow> unconfirmed e \<or> (\<exists>a w. at_generation g a \<and> t = s\<lparr>vs_attachment := a, vs_world := w\<rparr>)"
proof -
  from gen obtain store where store: "xa_runtimeMaps (vs_attachment s) = Some store" "rt_generation store = g"
    by (auto simp: at_generation_def)
  obtain q store' where p: "publishSnapshot (xe_runtime (sv_xdp env)) x (store\<lparr>rt_world := vs_world s\<rparr>) = (q, store')"
    by fastforce
  define u where "u = s\<lparr>vs_attachment := (vs_attachment s)\<lparr>xa_runtimeMaps := Some store', xa_world := rt_world store'\<rparr>,
      vs_world := rt_world store'\<rparr>"
  have on: "on_attachment (publishRuntime (sv_xdp env) x) s = (q, u)"
    using store(1) p by (simp add: on_attachment_def publishRuntime_def on_runtime_maps_def u_def)
  show ?thesis
  proof (cases q)
    case (Inl e)
    with on run have "r = Inl e" "t = u" by (simp_all add: publish_committed_def thenC_def bindC_def)
    moreover have "unconfirmed e \<or> rt_generation store' = g"
      using triple_Inl[OF publish_generation _ p[unfolded Inl]] store(2) by simp
    then have "unconfirmed e \<or> at_generation g ((vs_attachment s)\<lparr>xa_runtimeMaps := Some store', xa_world := rt_world store'\<rparr>)"
      by (simp add: at_generation_def)
    ultimately show ?thesis unfolding u_def by auto
  next
    case (Inr v)
    with on run have "r = Inr ()" "t = u\<lparr>vs_committed := True, vs_applied := x\<rparr>"
      by (simp_all add: publish_committed_def thenC_def bindC_def modifyC_def)
    moreover have "at_generation (rs_generation x) ((vs_attachment s)\<lparr>xa_runtimeMaps := Some store', xa_world := rt_world store'\<rparr>)"
      using triple_Inr[OF publish_generation _ p[unfolded Inr]] by (simp add: at_generation_def)
    ultimately show ?thesis unfolding u_def by auto
  qed
qed

lemma publish_committed_keeps: "keeps c (publish_committed env x)"
  unfolding stays_def
  by (rule tripleI; drule publish_committed_run[rotated], force simp: in_step_def) (auto simp: in_step_def)

lemma failure_stays:
  "core_property P \<Longrightarrow> stays P (health_failure env e)" "unconfirmed e \<Longrightarrow> health_failure env e s = (Inl e, s)"
  unfolding health_failure_def
  by (cases e; auto intro!: stays_rules stays_quiet[OF _ appendStatus_quiet])
     (auto simp: unconfirmed_def throwC_def)

lemmas quiet_stays = stays_quiet[OF _ callV_quiet] stays_quiet[OF _ liftV_quiet] stays_quiet[OF _ appendStatus_quiet]
  stays_quiet[OF _ append_quiet] stays_quiet[OF _ consume_quiet] stays_quiet[OF _ flushPending_quiet]
  stays_quiet[OF _ wait_quiet] stays_quiet[OF _ drain_quiet] stays_quiet[OF _ worldV_quiet]

lemma publishChanged_keeps: "keeps c (publishChangedHealthySnapshot env)"
  unfolding publishChangedHealthySnapshot_def
  by (intro stays_rules quiet_stays publish_committed_keeps failure_stays stays_modify) simp_all

subsection \<open>Reloading\<close>

text \<open>Nothing happened since \<open>s0\<close>; or configuration, checker and applied snapshot were replaced together.\<close>

definition untouched :: "'w runtime_service \<Rightarrow> 'w UdpProbeChecker option \<Rightarrow> 'w runtime_service \<Rightarrow> bool" where
  "untouched s0 c s \<longleftrightarrow> vs_configuration s = vs_configuration s0 \<and> vs_checker s = vs_checker s0 \<and>
     vs_applied s = vs_applied s0 \<and> at_generation (rs_generation (vs_applied s0)) (vs_attachment s) \<and>
     vs_candidate s = c \<and> length (vs_pendingOutput s) \<le> kOutputLimit"

definition replaced :: "'w runtime_service \<Rightarrow> 'w runtime_service \<Rightarrow> bool" where
  "replaced s0 s \<longleftrightarrow> runtime_config_ok (vs_configuration s) \<and>
     sound_checker (buildProbeTargets (vs_configuration s)) (vs_checker s) \<and>
     vs_applied s = snapshot_of (vs_configuration s) (copyHealthyProbeTargets (vs_checker s)) (rs_generation (vs_applied s0) + 1) \<and>
     at_generation (rs_generation (vs_applied s0) + 1) (vs_attachment s) \<and>
     vs_candidate s = None \<and> length (vs_pendingOutput s) \<le> kOutputLimit"

definition reached :: "'w runtime_service \<Rightarrow> 'w runtime_service \<Rightarrow> bool" where
  "reached s0 s \<longleftrightarrow> (\<exists>c. untouched s0 c s) \<or> replaced s0 s"

definition reloaded :: "'w runtime_service \<Rightarrow> 'w runtime_service \<Rightarrow> bool" where
  "reloaded s0 s \<longleftrightarrow> untouched s0 None s \<or> replaced s0 s"

lemma reload_core [simp]: "core_property (untouched s0 c)" "core_property (replaced s0)" "core_property (reloaded s0)"
  by (auto simp: core_property_def untouched_def replaced_def reloaded_def queued_def core_def)

lemma reloaded_in_step: "reloaded s0 s \<Longrightarrow> in_step None s0 \<Longrightarrow> in_step None s"
  by (auto simp: reloaded_def untouched_def replaced_def in_step_def snapshot_of_def)

lemma reload_frame:
  "untouched s0 c s \<Longrightarrow> untouched s0 c (s\<lparr>vs_nextPublish := n, vs_publishAttempted := b\<rparr>)"
  "untouched s0 c s \<Longrightarrow> untouched s0 d (s\<lparr>vs_candidate := d\<rparr>)"
  "untouched s0 c s \<Longrightarrow> untouched s0 c (s\<lparr>vs_reload := b, vs_committed := b', vs_publishAttempted := b''\<rparr>)"
  by (simp_all add: untouched_def)

lemma reached_dropped: "reached s0 s \<Longrightarrow> reloaded s0 (drop_candidate env s)"
  by (auto simp: reached_def reloaded_def untouched_def replaced_def drop_candidate_def split: option.splits)

definition reaches :: "'w runtime_service \<Rightarrow> ('w runtime_service \<Rightarrow> bool) \<Rightarrow> ('w runtime_service, 'a) comp \<Rightarrow> bool" where
  "reaches s0 P m \<longleftrightarrow> triple P m (\<lambda>_. reached s0) (\<lambda>e s. unconfirmed e \<or> reached s0 s)"

lemma stays_reaches: "stays P m \<Longrightarrow> (\<And>s. P s \<Longrightarrow> reached s0 s) \<Longrightarrow> reaches s0 P m"
  unfolding stays_def reaches_def by (erule triple_weaken) auto

lemma reaches_bind:
  assumes "stays P m" and "\<And>s. P s \<Longrightarrow> reached s0 s" and "\<And>a. reaches s0 P (f a)"
  shows "reaches s0 P (bindC m f)"
  unfolding reaches_def
proof (rule triple_bind[where B = "\<lambda>_. P"])
  show "triple P m (\<lambda>_. P) (\<lambda>e s. unconfirmed e \<or> reached s0 s)"
    using assms(1) unfolding stays_def by (rule triple_weaken) (auto intro: assms(2))
qed (simp add: assms(3)[unfolded reaches_def])

lemma untouched_reached: "untouched s0 c s \<Longrightarrow> reached s0 s"
  by (auto simp: reached_def)

lemma reload_bind:
  "stays (untouched s0 c) m \<Longrightarrow> (\<And>a. reaches s0 (untouched s0 c) (f a)) \<Longrightarrow> reaches s0 (untouched s0 c) (bindC m f)"
  by (rule reaches_bind) (auto intro: untouched_reached)

lemma reload_stays: "stays (untouched s0 c) m \<Longrightarrow> reaches s0 (untouched s0 c) m"
  by (rule stays_reaches) (auto intro: untouched_reached)

lemma reload_then: "stays (untouched s0 c) m \<Longrightarrow> reaches s0 (untouched s0 c) k \<Longrightarrow> reaches s0 (untouched s0 c) (thenC m k)"
  unfolding thenC_def by (rule reload_bind)

lemma reaches_if: "reaches s0 P m \<Longrightarrow> reaches s0 P k \<Longrightarrow> reaches s0 P (if b then m else k)"
  by simp

lemma constructed_sound:
  "constructUdpProbeChecker env targets previous (emptyUdpProbeChecker w) = (Inr u, checker) \<Longrightarrow> sound_checker targets checker"
  using constructed_prepared[of env targets previous w checker] by (simp add: prepared_def sound_checker_def)

lemma make_checker_run:
  assumes "make_checker env targets previous s = (r, t)"
  shows "(case r of Inr checker \<Rightarrow> sound_checker targets checker | Inl _ \<Rightarrow> True) \<and> (\<exists>w. t = s\<lparr>vs_world := w\<rparr>)"
  using assms constructed_sound[of "sv_probe env" targets previous "vs_world s"]
  by (auto simp: make_checker_def split: prod.splits sum.splits)

text \<open>A step whose result satisfies \<open>R\<close> and that changes the world only.\<close>

lemma reload_world_bind:
  assumes "\<And>s r t. m s = (r, t) \<Longrightarrow> (case r of Inr a \<Rightarrow> R a | Inl _ \<Rightarrow> True) \<and> (\<exists>w. t = s\<lparr>vs_world := w\<rparr>)"
    and "\<And>a. R a \<Longrightarrow> reaches s0 (untouched s0 c) (k a)"
  shows "reaches s0 (untouched s0 c) (bindC m k)"
proof -
  have world: "untouched s0 c (s\<lparr>vs_world := w\<rparr>) = untouched s0 c s" for s w by (simp add: untouched_def)
  have "triple (untouched s0 c) m (\<lambda>a s. R a \<and> untouched s0 c s) (\<lambda>e s. unconfirmed e \<or> reached s0 s)"
    by (rule tripleI) (auto dest!: assms(1) simp: world intro: untouched_reached[of s0 c])
  then show ?thesis
    unfolding reaches_def
  proof (rule triple_bind)
    fix a
    show "triple (\<lambda>s. R a \<and> untouched s0 c s) (k a) (\<lambda>_. reached s0) (\<lambda>e s. unconfirmed e \<or> reached s0 s)"
      using assms(2)[of a] by (cases "R a") (simp_all add: reaches_def triple_def)
  qed
qed

lemma commit_replaces:
  assumes ok: "runtime_config_ok candidate" and sound: "sound_checker (buildProbeTargets candidate) checker"
    and x: "x = snapshot_of candidate (copyHealthyProbeTargets checker) (rs_generation (vs_applied s0) + 1)"
    and k: "stays (replaced s0) k"
  shows "reaches s0 (untouched s0 (Some checker)) (thenC (publish_committed env x) (thenC (modifyC (adopt_candidate env candidate)) k))"
proof -
  have "triple (untouched s0 (Some checker)) (thenC (publish_committed env x) (modifyC (adopt_candidate env candidate)))
      (\<lambda>_. replaced s0) (\<lambda>e s. unconfirmed e \<or> reached s0 s)"
    (is "triple _ (thenC ?publish ?adopt) _ _")
  proof (rule tripleI)
    fix s u t
    assume s: "untouched s0 (Some checker) s" and run: "thenC ?publish ?adopt s = (Inr u, t)"
    from run obtain v where v: "?publish s = (Inr (), v)" and t: "t = adopt_candidate env candidate v" by auto
    from s have "at_generation (rs_generation (vs_applied s0)) (vs_attachment s)" by (simp add: untouched_def)
    from publish_committed_run[OF this v] s show "replaced s0 t"
      by (auto simp: t adopt_candidate_def untouched_def replaced_def ok sound x snapshot_of_def)
  next
    fix s e t
    assume s: "untouched s0 (Some checker) s" and run: "thenC ?publish ?adopt s = (Inl e, t)"
    then have v: "?publish s = (Inl e, t)" by (auto simp: thenC_def bindC_def modifyC_def split: prod.splits sum.splits)
    from s have "at_generation (rs_generation (vs_applied s0)) (vs_attachment s)" by (simp add: untouched_def)
    from publish_committed_run[OF this v] s show "unconfirmed e \<or> reached s0 t"
      by (auto simp: untouched_def reached_def)
  qed
  then show ?thesis
    unfolding reaches_def thenC_assoc
  proof (rule triple_then)
    show "triple (replaced s0) k (\<lambda>_. reached s0) (\<lambda>e s. unconfirmed e \<or> reached s0 s)"
      using k unfolding stays_def by (rule triple_weaken) (auto simp: reached_def)
  qed
qed

lemma built_bind:
  assumes "runtime_config_ok candidate" and "sound_checker (buildProbeTargets candidate) checker" and "g \<noteq> - 1"
  shows "buildRuntimeSnapshot candidate checker (g + 1) = Inr (snapshot_of candidate (copyHealthyProbeTargets checker) (g + 1))"
  using built_snapshot_valid(1)[OF assms(1) _ assms(3), of checker] assms(2) by (simp add: sound_checker_def snapshots_probes)

lemma replace_reaches:
  assumes ok: "runtime_config_ok candidate"
  shows "reaches s0 (untouched s0 None) (replaceConfiguration env candidate)"
proof -
  have make: "reaches s0 (untouched s0 None) (bindC (make_checker env (buildProbeTargets candidate) previous) k)"
    if "\<And>checker. sound_checker (buildProbeTargets candidate) checker \<Longrightarrow> reaches s0 (untouched s0 None) (k checker)"
    for previous and k :: "'a UdpProbeChecker \<Rightarrow> ('a runtime_service, 'b) comp"
    using make_checker_run that by (rule reload_world_bind)
  have hold: "reaches s0 (untouched s0 None) (thenC (modifyC (\<lambda>s. s\<lparr>vs_candidate := Some checker\<rparr>)) k)"
    if "reaches s0 (untouched s0 (Some checker)) k" for checker and k :: "('a runtime_service, 'b) comp"
    using that reload_frame(2) unfolding reaches_def by (fastforce simp: triple_def thenC_modifyC)
  have applied: "reaches s0 (untouched s0 c) (bindC (getC vs_applied) k)" if "reaches s0 (untouched s0 c) (k (vs_applied s0))"
    for c and k :: "UdpRuntimeSnapshot \<Rightarrow> ('a runtime_service, 'b) comp"
    using that unfolding reaches_def triple_def by (simp add: bindC_getC untouched_def)
  have generation: "reaches s0 (untouched s0 c) (bindC (liftV (nextRuntimeGeneration (vs_applied s0)))
      (\<lambda>g. bindC (liftV (buildRuntimeSnapshot candidate checker g)) k))"
    if "sound_checker (buildProbeTargets candidate) checker" and
      k: "\<And>x. x = snapshot_of candidate (copyHealthyProbeTargets checker) (rs_generation (vs_applied s0) + 1) \<Longrightarrow>
        reaches s0 (untouched s0 c) (k x)"
    for checker :: "'a UdpProbeChecker" and c and k :: "UdpRuntimeSnapshot \<Rightarrow> ('a runtime_service, 'b) comp"
    using built_bind[OF ok that(1)] k[OF refl]
    by (auto simp: nextRuntimeGeneration_def liftV_def bindC_returnC reaches_def triple_def bindC_throwC reached_def)
  show ?thesis
    unfolding replaceConfiguration_def
    by (rule reload_bind[OF stays_simple(3)], rule make, rule hold, rule applied, rule generation, assumption)
      (intro commit_replaces[OF ok] reload_then reload_bind reaches_if quiet_stays stays_simple stays_rules stays_modify
        reload_stays[OF stays_simple(1)] reload_frame; simp)
qed

lemma reload_failure_stays:
  "core_property P \<Longrightarrow> stays P (reload_failure env e)" "unconfirmed e \<Longrightarrow> reload_failure env e s = (Inl e, s)"
proof -
  assume "core_property P"
  then show "stays P (reload_failure env e)"
    unfolding reload_failure_def reload_rejected_def
    by (cases e; auto intro!: stays_rules stays_quiet[OF _ appendStatus_quiet])
qed (auto simp: reload_failure_def unconfirmed_def throwC_def)

lemma reaches_finally:
  assumes "reaches s0 P m"
  shows "triple P (finallyC m (drop_candidate env)) (\<lambda>_. reloaded s0) (\<lambda>e s. unconfirmed e \<or> reloaded s0 s)"
proof (rule tripleI)
  fix s a t
  assume s: "P s" and "finallyC m (drop_candidate env) s = (Inr a, t)"
  then obtain u where "m s = (Inr a, u)" and t: "t = drop_candidate env u" by (auto simp: finallyC_def split: prod.splits)
  from triple_Inr[OF assms[unfolded reaches_def] s this(1)] t show "reloaded s0 t" by (auto dest: reached_dropped)
next
  fix s e t
  assume s: "P s" and "finallyC m (drop_candidate env) s = (Inl e, t)"
  then obtain u where "m s = (Inl e, u)" and t: "t = drop_candidate env u" by (auto simp: finallyC_def split: prod.splits)
  from triple_Inl[OF assms[unfolded reaches_def] s this(1)] t show "unconfirmed e \<or> reloaded s0 t" by (auto dest: reached_dropped)
qed

lemma reload_all:
  assumes pos: "positive_ifindex (sv_interfaces env)"
  shows "triple (untouched s0 None) (reloadConfiguration env fuel path ingress vip) (\<lambda>_. reloaded s0)
    (\<lambda>e s. unconfirmed e \<or> reloaded s0 s)"
proof -
  let ?load = "worldV (loadRuntimeConfig (sv_file env) fuel (sv_pton env) (sv_interfaces env) path ingress vip)"
  let ?body = "bindC ?load (\<lambda>candidate.
            bindC (getC vs_configuration) (\<lambda>configuration.
            if sameRuntimeConfig candidate configuration
            then thenC (appendStatus env ''XDP_RELOAD status=unchanged'') (returnC False)
            else replaceConfiguration env candidate))"
  have load: "(case r of Inr c \<Rightarrow> runtime_config_ok c | Inl _ \<Rightarrow> True) \<and> (\<exists>w. t = s\<lparr>vs_world := w\<rparr>)"
    if "?load s = (r, t)" for s r t
    using that by (cases r) (auto simp: worldV_def split: prod.splits dest: loaded_config_ok[OF _ pos])
  have "reaches s0 (untouched s0 None) ?body"
    by (rule reload_world_bind[OF load], assumption)
      (intro reload_bind reaches_if replace_reaches stays_simple reload_stays stays_rules quiet_stays; simp)
  note body = reaches_finally[OF this]
  have reset: "triple (untouched s0 None) (modifyC (\<lambda>s. s\<lparr>vs_reload := False, vs_committed := False, vs_publishAttempted := False\<rparr>))
      (\<lambda>_. untouched s0 None) E" for E
    by (simp add: triple_def modifyC_def reload_frame)
  have handler: "triple (\<lambda>s. unconfirmed e \<or> reloaded s0 s) (reload_failure env e) (\<lambda>_. reloaded s0)
      (\<lambda>e s. unconfirmed e \<or> reloaded s0 s)" for e
    using reload_failure_stays(1)[OF reload_core(3), of s0 env e]
    by (cases "unconfirmed e") (simp_all add: triple_def stays_def reload_failure_stays(2))
  show ?thesis
    unfolding reloadConfiguration_def by (rule triple_then[OF reset], rule triple_catch[OF body handler])
qed

lemma reload_keeps:
  assumes "positive_ifindex (sv_interfaces env)"
  shows "keeps None (reloadConfiguration env fuel path ingress vip)"
proof -
  have start: "untouched s0 None s0" if "in_step None s0" for s0 :: "'a runtime_service"
    using that by (simp add: untouched_def in_step_def)
  show ?thesis
    unfolding stays_def
    by (rule tripleI; frule start, drule (1) reload_all[OF assms, THEN triple_Inr] reload_all[OF assms, THEN triple_Inl])
      (auto dest: reloaded_in_step)
qed

subsection \<open>Turns\<close>

lemma poll_keeps: "keeps c (on_checker (pollProbeTransitions env now))"
proof (rule stays_preserved, rule preservesI)
  fix s r t
  assume s: "in_step c s" and run: "on_checker (pollProbeTransitions env now) s = (r, t)"
  then obtain checker where poll: "pollProbeTransitions env now ((vs_checker s)\<lparr>uc_world := vs_world s\<rparr>) = (r, checker)"
    and t: "t = s\<lparr>vs_checker := checker, vs_world := uc_world checker\<rparr>"
    by (auto simp: on_checker_def split: prod.splits)
  have "sound_checker (buildProbeTargets (vs_configuration s)) ((vs_checker s)\<lparr>uc_world := vs_world s\<rparr>)"
    using s by (simp add: in_step_def sound_checker_def snapshots_ok_def within_budget_def all_open_def all_closed_def)
  from sound_poll(1)[OF this poll] s show "in_step c t" by (simp add: in_step_def t)
qed

lemma lines_quiet: "preserves (queued v) (forC ts (\<lambda>t. appendOutputLine env (f t)))"
  by (intro preserves_rules)

lemma turn_keeps:
  assumes "positive_ifindex (sv_interfaces env)"
  shows "keeps None (control_turn env fuel path ingress vip)"
  unfolding control_turn_def
  by (intro stays_rules quiet_stays stays_quiet[OF _ lines_quiet] poll_keeps reload_keeps[OF assms] publishChanged_keeps; simp)

lemma loop_keeps:
  assumes "positive_ifindex (sv_interfaces env)"
  shows "keeps None (control_loop env fuel turns path ingress vip)"
  by (induction turns) (auto intro!: stays_rules turn_keeps[OF assms])

subsection \<open>The whole run\<close>

text \<open>What the attachment's other operations leave of the map store.\<close>

lemma callX_generation [preserves_rules]:
  "preserves (at_generation g) (callX f)" "preserves (at_generation g) (effectX h)"
  "preserves (at_generation g) (throwXdpSystemError operation e)"
  by (rule preservesI, auto simp: callX_def effectX_def throwXdpSystemError_def at_generation_def split: prod.splits)+

lemma attachment_generation:
  "preserves (at_generation g) (resolveInterfaceIndex env device)"
  "preserves (at_generation g) (attachProgram env ifindex mode)"
  "preserves (at_generation g) (detachProgram env)"
  unfolding resolveInterfaceIndex_def attachProgram_def detachProgram_def detachExpectedProgramFd_def queryAttachedProgramId_def
  by (intro preserves_rules preserves_modify; simp add: at_generation_def)+

lemma statistics_generation: "preserves (at_generation g) (readRuntimeStats env)"
proof -
  have "preserves (\<lambda>s. rt_generation s = g) (readRuntimeStatistics (xe_runtime env))"
    unfolding readRuntimeStatistics_def valueR_def by (intro preserves_rules)
  then show ?thesis
    unfolding preserves_def readRuntimeStats_def on_runtime_maps_def at_generation_def
    by (auto split: option.splits prod.splits) (metis RuntimeMapStore.ext_inject RuntimeMapStore.surjective
      RuntimeMapStore.update_convs(5) snd_conv)
qed

lemma ends_bind: "(\<And>a. triple (\<lambda>_. True) (f a) Q (\<lambda>_ _. True)) \<Longrightarrow> triple (\<lambda>_. True) (bindC m f) Q (\<lambda>_ _. True)"
  by (rule tripleI) (auto intro: triple_Inr)

lemma ends_then: "triple (\<lambda>_. True) k Q (\<lambda>_ _. True) \<Longrightarrow> triple (\<lambda>_. True) (thenC m k) Q (\<lambda>_ _. True)"
  unfolding thenC_def by (rule ends_bind)

lemma ends_case_prod:
  "(\<And>a b. triple (\<lambda>_. True) (f a b) Q E) \<Longrightarrow> triple (\<lambda>_. True) (case x of (a, b) \<Rightarrow> f a b) Q E"
  by (cases x) simp

lemma ends_throw: "triple P (throwC e) Q (\<lambda>_ _. True)"
  by (simp add: triple_def throwC_def)

lemma loaded_generation:
  assumes "loadObject env fuel path kUdpRuntimeV3 backends dsr (Some x) a = (Inr u, b)"
  shows "at_generation (rs_generation x) b"
proof -
  have configured: "at_generation (rs_generation x) t"
    if maps: "configure_maps env kUdpRuntimeV3 object backends dsr (Some x) s = (Inr (), t)" for object s t
  proof -
    from maps obtain store where "on_runtime_maps (publishSnapshot (xe_runtime env) x)
        (s\<lparr>xa_runtimeMaps := Some store, xa_world := rt_world store\<rparr>) = (Inr (), t)"
      by (auto simp: configure_maps_def make_runtime_maps_def split: prod.splits sum.splits)
    then obtain store' where "publishSnapshot (xe_runtime env) x store = (Inr (), store')"
      "xa_runtimeMaps t = Some store'" by (auto simp: on_runtime_maps_def split: prod.splits)
    with triple_Inr[OF publish_generation refl this(1)] show ?thesis by (simp add: at_generation_def)
  qed
  have finish: "triple (\<lambda>_. True) (thenC (configure_maps env kUdpRuntimeV3 object backends dsr (Some x))
      (modifyC (\<lambda>s. s\<lparr>xa_profile := kUdpRuntimeV3\<rparr>))) (\<lambda>_. at_generation (rs_generation x)) (\<lambda>_ _. True)" for object
    by (rule tripleI) (auto simp: at_generation_def dest!: configured)
  have final: "triple (\<lambda>_. True) (finallyC m (\<lambda>s. s\<lparr>xa_world := f (xa_world s)\<rparr>)) (\<lambda>_. at_generation g) (\<lambda>_ _. True)"
    if "triple (\<lambda>_. True) m (\<lambda>_. at_generation g) (\<lambda>_ _. True)" for m :: "('a XdpAttachment, unit) comp" and f g
    using that by (fastforce simp: triple_def finallyC_def at_generation_def split: prod.splits sum.splits)
  have "triple (\<lambda>_. True) (loadObject env fuel path kUdpRuntimeV3 backends dsr (Some x))
      (\<lambda>_. at_generation (rs_generation x)) (\<lambda>_ _. True)"
    unfolding loadObject_def install_object_def throwXdpSystemError_def
    by (intro final finish ends_bind ends_then ends_throw ends_case_prod triple_rules)
  from triple_Inr[OF this _ assms] show ?thesis by simp
qed

lemma on_attachment_keeps:
  assumes "\<And>g. preserves (at_generation g) m"
  shows "keeps c (on_attachment m)"
proof (rule stays_preserved, rule preservesI)
  fix s r t
  assume s: "in_step c s" and run: "on_attachment m s = (r, t)"
  then obtain a where a: "m ((vs_attachment s)\<lparr>xa_world := vs_world s\<rparr>) = (r, a)"
    and t: "t = s\<lparr>vs_attachment := a, vs_world := xa_world a\<rparr>" by (auto simp: on_attachment_def split: prod.splits)
  have "at_generation (rs_generation (vs_applied s)) ((vs_attachment s)\<lparr>xa_world := vs_world s\<rparr>)"
    using s by (simp add: in_step_def at_generation_def)
  from preservesD[OF assms this a] s show "in_step c t" by (simp add: in_step_def at_generation_def t)
qed

lemma sound_world: "sound_checker targets (checker\<lparr>uc_world := w\<rparr>) = sound_checker targets checker"
  by (simp add: sound_checker_def snapshots_ok_def within_budget_def all_open_def all_closed_def)

lemma sound_cancel: "sound_checker targets checker \<Longrightarrow> sound_checker targets (cancelAllProbes env checker)"
  using snapshots_cancel[of targets checker env]
  by (simp add: sound_checker_def closed_cancel within_budget_def) (simp add: cancelAllProbes_def)

lemma reset_in_step: "in_step c s \<Longrightarrow> in_step c (resetChecker env s)" "all_closed (vs_checker (resetChecker env s))"
  "vs_attachment (resetChecker env s) = vs_attachment s"
  by (simp_all add: in_step_def resetChecker_def destroy_checker_def destroyUdpProbeChecker_def Let_def sound_cancel
      sound_world closed_cancel)

text \<open>What is left when the run has returned.\<close>

definition stopped :: "'w runtime_service \<Rightarrow> bool" where
  "stopped s \<longleftrightarrow> in_step None s \<and> \<not> xa_attached (vs_attachment s) \<and> all_closed (vs_checker s)"

lemma stopped_core: "core_property stopped"
  by (auto simp: core_property_def stopped_def core_def queued_def in_step_def)

lemma detach_detaches: "triple (in_step None) (on_attachment (detachProgram env))
    (\<lambda>_ s. in_step None s \<and> \<not> xa_attached (vs_attachment s)) (\<lambda>_ _. True)"
proof (rule tripleI)
  fix s u t
  assume s: "in_step None s" and run: "on_attachment (detachProgram env) s = (Inr u, t)"
  then obtain a where "detachProgram env ((vs_attachment s)\<lparr>xa_world := vs_world s\<rparr>) = (Inr u, a)" "vs_attachment t = a"
    by (auto simp: on_attachment_def split: prod.splits)
  then have "\<not> xa_attached (vs_attachment t)"
    by (cases "xa_attached (vs_attachment s)") (auto simp: detachProgram_def)
  with triple_Inr[OF on_attachment_keeps[unfolded stays_def] s run] attachment_generation(3)
  show "in_step None t \<and> \<not> xa_attached (vs_attachment t)" by blast
qed simp

lemma statistics_stopped: "triple stopped (on_attachment (readRuntimeStats env)) (\<lambda>_. stopped) (\<lambda>_ _. True)"
proof (rule tripleI)
  fix s u t
  assume s: "stopped s" and run: "on_attachment (readRuntimeStats env) s = (Inr u, t)"
  then have "in_step None t"
    using triple_Inr[OF on_attachment_keeps[OF statistics_generation, unfolded stays_def] _ run] by (simp add: stopped_def)
  moreover from run have "xa_attached (vs_attachment t) = xa_attached (vs_attachment s)" "vs_checker t = vs_checker s"
    by (auto simp: on_attachment_def readRuntimeStats_def on_runtime_maps_def split: prod.splits option.splits)
  ultimately show "stopped t" using s by (simp add: stopped_def)
qed simp

lemma triple_quiet:
  "(\<And>v. preserves (queued v) m) \<Longrightarrow> triple stopped m (\<lambda>_. stopped) (\<lambda>_ _. True)"
  by (rule triple_preserves_weaken[OF quiet_core[OF stopped_core]]) simp_all

lemma triple_keeps: "keeps c m \<Longrightarrow> triple (in_step c) m (\<lambda>_. in_step c) (\<lambda>_ _. True)"
  unfolding stays_def triple_def by (auto split: prod.splits sum.splits)

lemma reset_stops: "triple (\<lambda>s. in_step None s \<and> \<not> xa_attached (vs_attachment s)) (modifyC (resetChecker env))
    (\<lambda>_. stopped) (\<lambda>_ _. True)"
  by (simp add: triple_def modifyC_def stopped_def reset_in_step)

lemma runAttached_stops:
  assumes "positive_ifindex (sv_interfaces env)"
  shows "triple (in_step None) (runAttached env fuel turns path ingress vip mode) (\<lambda>_. stopped) (\<lambda>_ _. True)"
proof -
  have start: "keeps None (modifyC (\<lambda>s. s\<lparr>vs_reload := False, vs_stop := False, vs_brokenPipe := False, vs_nextPublish := n\<rparr>))"
    for n by (rule stays_modify) simp
  note quiet = append_quiet appendStatus_quiet drain_quiet callV_quiet
  note keeps = triple_keeps[OF stays_quiet[OF in_step_core quiet(2)]] triple_keeps[OF stays_quiet[OF in_step_core quiet(4)]]
    triple_keeps[OF start] triple_keeps[OF loop_keeps[OF assms]]
  show ?thesis
    unfolding runAttached_def
    by (rule triple_bind[OF triple_keeps[OF stays_simple(3)]], rule triple_then[OF keeps(1)], rule triple_bind[OF keeps(2)],
        rule triple_then[OF keeps(3)], rule triple_then[OF keeps(4)], rule triple_then[OF detach_detaches],
        rule triple_then[OF reset_stops], rule triple_bind[OF statistics_stopped], rule triple_then[OF triple_quiet[OF quiet(1)]],
        rule triple_bind[OF triple_quiet[OF preserves_get]], rule triple_then[OF triple_quiet[OF quiet(1)]],
        rule triple_then[OF triple_quiet[OF quiet(3)]], rule triple_quiet[OF preserves_get])
qed

text \<open>Before the object is loaded there is no map store yet.\<close>

definition prepared_service :: "UdpRuntimeSnapshot \<Rightarrow> 'w runtime_service \<Rightarrow> bool" where
  "prepared_service x s \<longleftrightarrow> runtime_config_ok (vs_configuration s) \<and>
     sound_checker (buildProbeTargets (vs_configuration s)) (vs_checker s) \<and> vs_candidate s = None \<and> vs_applied s = x \<and>
     length (vs_pendingOutput s) \<le> kOutputLimit"

lemma prepared_quiet: "(\<And>v. preserves (queued v) m) \<Longrightarrow> triple (prepared_service x) m (\<lambda>_. prepared_service x) (\<lambda>_ _. True)"
  by (rule triple_preserves_weaken[OF quiet_core[where P = "prepared_service x"]])
    (auto simp: core_property_def prepared_service_def core_def queued_def)

lemma load_in_step:
  "triple (prepared_service x) (on_attachment (loadObject env fuel object kUdpRuntimeV3 backends dsr (Some x)))
     (\<lambda>_. in_step None) (\<lambda>_ _. True)"
  by (rule tripleI)
    (auto simp: on_attachment_def prepared_service_def in_step_def at_generation_def split: prod.splits dest!: loaded_generation)

lemma final_stopped: "triple P m (\<lambda>_. stopped) (\<lambda>_ _. True) \<Longrightarrow> (\<And>s. stopped s \<Longrightarrow> stopped (f s)) \<Longrightarrow>
   triple P (finallyC m f) (\<lambda>_. stopped) (\<lambda>_ _. True)"
  by (fastforce simp: triple_def finallyC_def split: prod.splits sum.splits)

lemma stopped_world: "stopped (s\<lparr>vs_world := w\<rparr>) = stopped s"
  by (simp add: stopped_def)

lemma stopped_reset: "stopped s \<Longrightarrow> stopped (resetChecker env s)"
  by (simp add: stopped_def reset_in_step)

lemma openOutput_quiet [preserves_rules]: "preserves (queued v) (openOutput env)"
  unfolding openOutput_def by (intro preserves_rules)

lemma loaded_run_stops:
  assumes "positive_ifindex (sv_interfaces env)"
  shows "triple (prepared_service x) (runLoaded env fuel turns object ingress vip path mode x) (\<lambda>_. stopped) (\<lambda>_ _. True)"
proof -
  have rethrown: "triple (\<lambda>_. True) (detach_and_rethrow env e) (\<lambda>_. stopped) (\<lambda>_ _. True)" for e
    unfolding detach_and_rethrow_def by (intro ends_then ends_throw)
  show ?thesis
    unfolding runLoaded_def
    by (rule triple_then[OF load_in_step],
        rule triple_bind[OF triple_keeps[OF on_attachment_keeps[OF attachment_generation(1)]]],
        rule triple_then[OF triple_keeps[OF on_attachment_keeps[OF attachment_generation(2)]]],
        rule triple_catch[OF runAttached_stops[OF assms] rethrown])
qed

lemma probed_run_stops:
  assumes pos: "positive_ifindex (sv_interfaces env)" and ready: "\<And>x. prepared_service x (s\<lparr>vs_applied := x\<rparr>)"
  shows "triple (\<lambda>u. u = s) (runProbed env fuel turns object ingress vip path mode configuration checker) (\<lambda>_. stopped) (\<lambda>_ _. True)"
proof -
  have lift: "triple (\<lambda>u. u = s) (liftV (buildRuntimeSnapshot configuration checker 1)) (\<lambda>_ u. u = s) (\<lambda>_ _. True)"
    by (simp add: triple_def liftV_def throwC_def returnC_def split: sum.split)
  have assign: "triple (\<lambda>u. u = s) (modifyC (\<lambda>s. s\<lparr>vs_applied := x\<rparr>)) (\<lambda>_. prepared_service x) (\<lambda>_ _. True)" for x
    using ready by (simp add: triple_def modifyC_def)
  show ?thesis
    unfolding runProbed_def
    by (rule triple_bind[OF lift], rule triple_then[OF assign], rule triple_bind[OF prepared_quiet[OF callV_quiet]],
        rule triple_case_sum, rule ends_throw, rule final_stopped, rule triple_bind[OF prepared_quiet[OF openOutput_quiet]],
        rule final_stopped, rule loaded_run_stops[OF pos])
      (simp_all add: stopped_world restoreOutput_def)
qed

lemma run_stops:
  assumes pos: "positive_ifindex (sv_interfaces env)"
    and run: "runRuntimeDsrControlLoop env fuel turns object ingress vip path mode (initialService a) = (Inr code, t)"
  shows "stopped t"
proof -
  let ?path = "sv_absolute env path"
  from run[unfolded runRuntimeDsrControlLoop_def Let_def, THEN bindC_Inr_iff[THEN iffD1]] obtain configuration s1 where
    load: "worldV (loadRuntimeConfig (sv_file env) fuel (sv_pton env) (sv_interfaces env) ?path ingress vip) (initialService a)
      = (Inr configuration, s1)"
    and rest: "thenC (modifyC (\<lambda>s. s\<lparr>vs_configuration := configuration\<rparr>))
     (bindC (make_checker env (buildProbeTargets configuration) []) (\<lambda>checker.
      thenC (modifyC (\<lambda>s. s\<lparr>vs_checker := checker\<rparr>))
       (finallyC (runProbed env fuel turns object ingress vip ?path mode configuration checker) (resetChecker env)))) s1
      = (Inr code, t)" by blast
  from load obtain w where config: "runtime_config_ok configuration" and s1: "s1 = (initialService a)\<lparr>vs_world := w\<rparr>"
    by (auto simp: worldV_def split: prod.splits dest: loaded_config_ok[OF _ pos])
  from rest obtain checker s2 where make: "make_checker env (buildProbeTargets configuration) [] (s1\<lparr>vs_configuration := configuration\<rparr>)
      = (Inr checker, s2)"
    and final: "finallyC (runProbed env fuel turns object ingress vip ?path mode configuration checker) (resetChecker env)
      (s2\<lparr>vs_checker := checker\<rparr>) = (Inr code, t)"
    by (simp only: thenC_modifyC bindC_Inr_iff) blast
  have "prepared_service x (s2\<lparr>vs_checker := checker, vs_applied := x\<rparr>)" for x
    using make_checker_run[OF make] config by (auto simp: s1 prepared_service_def initialService_def)
  then have "triple (\<lambda>u. u = s2\<lparr>vs_checker := checker\<rparr>)
      (finallyC (runProbed env fuel turns object ingress vip ?path mode configuration checker) (resetChecker env))
      (\<lambda>_. stopped) (\<lambda>_ _. True)"
    by (intro final_stopped[OF probed_run_stops[OF pos]] stopped_reset) simp
  with final show ?thesis by (simp add: triple_def)
qed

end
