(* ===== verification/RuntimeControl.thy ===== *)
theory RuntimeControl
  imports RuntimeRuns
begin

text \<open>
  What holds of the runtime mode's control loop as a whole, with a concrete environment to apply
  it to: one configuration file, two interfaces, a BPF object with its three maps, echoing
  targets, a clock that moves by a second, and a list of signals.
\<close>

section \<open>The world\<close>

record control_world =
  cw_host :: runtime_host
  cw_template :: "UdpRuntimeSnapshot \<times> bool"
  cw_program :: u32
  cw_file :: string
  cw_unread :: string
  cw_clock :: time
  cw_probes :: "(ProbeNonceSequence \<times> (int \<times> u8 list) list)"
  cw_sockets :: "int list"
  cw_signals :: "nat list"
  cw_output :: string

definition host_call :: "(runtime_host \<Rightarrow> 'a \<times> runtime_host) \<Rightarrow> control_world \<Rightarrow> 'a \<times> control_world" where
  "host_call f w = (case f (cw_host w) of (a, host) \<Rightarrow> (a, w\<lparr>cw_host := host\<rparr>))"

text \<open>The object's maps are the descriptors 100, 101 (the template) and 102.\<close>

definition world_object :: BpfObject where
  "world_object = \<lparr>bo_maps = [\<lparr>bm_spec = outer_spec, bm_inner = Some template_spec, bm_fd = 100\<rparr>,
       \<lparr>bm_spec = template_spec, bm_inner = None, bm_fd = 101\<rparr>, \<lparr>bm_spec = stats_spec, bm_inner = None, bm_fd = 102\<rparr>],
     bo_programs = [\<lparr>bp_name = ''xdp_udp_rt'', bp_section = ''xdp'', bp_isXdp = True\<rparr>]\<rparr>"

definition world_maps :: "control_world runtime_maps_env" where
  "world_maps = \<lparr>rk_create = host_call (rk_create runtime_host_env),
     rk_update = \<lambda>fd x w. if fd = 101 then (if snd (cw_template w) then (Some EPERM, w) else (None, w\<lparr>cw_template := (x, False)\<rparr>))
       else host_call (rk_update runtime_host_env fd x) w,
     rk_lookup = \<lambda>fd w. if fd = 101 then (Inr (fst (cw_template w)), w) else host_call (rk_lookup runtime_host_env fd) w,
     rk_freeze = \<lambda>fd w. if fd = 101 then (None, w\<lparr>cw_template := (fst (cw_template w), True)\<rparr>)
       else host_call (rk_freeze runtime_host_env fd) w,
     rk_info = \<lambda>fd w. if fd = 100 then (Inr (100, outer_spec), w) else if fd = 101 then (Inr (101, template_spec), w)
       else if fd = 102 then (Inr (102, stats_spec), w) else host_call (rk_info runtime_host_env fd) w,
     rk_publish = \<lambda>outer fd. host_call (rk_publish runtime_host_env outer fd),
     rk_published = \<lambda>outer. host_call (rk_published runtime_host_env outer),
     rk_cpus = \<lambda>w. (2, w), rk_stats = \<lambda>fd cpus. host_call (rk_stats runtime_host_env fd cpus),
     rk_close = \<lambda>fd w. snd (host_call (\<lambda>h. ((), rk_close runtime_host_env fd h)) w)\<rparr>"

definition world_xdp :: "control_world xdp_env" where
  "world_xdp = \<lparr>xe_nametoindex = \<lambda>_ w. ((1, 0), w), xe_open = \<lambda>_ w. (Inr 8, w), xe_fstat = \<lambda>_ w. (Inr (True, 4), w),
     xe_read = \<lambda>_ n w. (Inr (replicate n 0), w), xe_close = \<lambda>_ w. w,
     xe_openMem = \<lambda>_ w. (Inr world_object, w), xe_load = \<lambda>_ w. (None, w), xe_programFd = \<lambda>_ w. (90, w),
     xe_programInfo = \<lambda>_ w. (Inr 7, w), xe_closeObject = \<lambda>_ w. w,
     xe_query = \<lambda>_ _ w. (Inr (cw_program w), w), xe_dup = \<lambda>_ w. (Inr 91, w),
     xe_attach = \<lambda>_ _ _ w. if cw_program w = 0 then (None, w\<lparr>cw_program := 7\<rparr>) else (Some EEXIST, w),
     xe_detach = \<lambda>_ _ fd w. if cw_program w = 7 then (None, w\<lparr>cw_program := 0\<rparr>) else (Some EEXIST, w),
     xe_fdById = \<lambda>_ w. (Inr 92, w), xe_mapInfo = \<lambda>_ _. Inl EBADF,
     xe_configMaps = \<lambda>_ _. \<lparr>configFd = \<lparr>ba_update = \<lambda>_ _ w. (Some EBADF, w), ba_lookup = \<lambda>_ w. (Inl EBADF, w), ba_freeze = \<lambda>w. (Some EBADF, w)\<rparr>,
       backendFd = \<lparr>ba_update = \<lambda>_ _ w. (Some EBADF, w), ba_lookup = \<lambda>_ w. (Inl EBADF, w), ba_freeze = \<lambda>w. (Some EBADF, w)\<rparr>\<rparr>,
     xe_dsrMaps = \<lambda>_ _. \<lparr>configFd = \<lparr>ba_update = \<lambda>_ _ w. (Some EBADF, w), ba_lookup = \<lambda>_ w. (Inl EBADF, w), ba_freeze = \<lambda>w. (Some EBADF, w)\<rparr>,
       backendFd = \<lparr>ba_update = \<lambda>_ _ w. (Some EBADF, w), ba_lookup = \<lambda>_ w. (Inl EBADF, w), ba_freeze = \<lambda>w. (Some EBADF, w)\<rparr>\<rparr>,
     xe_cpus = \<lambda>_. 1, xe_passStats = \<lambda>_ _ _. Inl EBADF, xe_dsrStats = \<lambda>_ _ _. Inl EBADF, xe_runtime = world_maps\<rparr>"

definition probe_call ::
  "(ProbeNonceSequence \<times> (int \<times> u8 list) list \<Rightarrow> 'a \<times> (ProbeNonceSequence \<times> (int \<times> u8 list) list)) \<Rightarrow> control_world \<Rightarrow> 'a \<times> control_world" where
  "probe_call f w = (case f (cw_probes w) of (a, p) \<Rightarrow> (a, w\<lparr>cw_probes := p\<rparr>))"

text \<open>Sockets are numbered upwards and recorded while they are open.\<close>

definition world_probes :: "control_world probe_env" where
  "world_probes = \<lparr>pv_open = \<lambda>target w. let h = foldl max 2 (cw_sockets w) + 1 in (Inr h, w\<lparr>cw_sockets := h # cw_sockets w\<rparr>),
     pv_close = \<lambda>h w. w\<lparr>cw_sockets := remove1 h (cw_sockets w)\<rparr>,
     pv_send = \<lambda>h p. probe_call (pv_send demo_probe_env h p), pv_receive = \<lambda>h k. probe_call (pv_receive demo_probe_env h k),
     pv_nonce = probe_call (pv_nonce demo_probe_env), pv_completed = \<lambda>now. probe_call (pv_completed demo_probe_env now)\<rparr>"

definition world_interfaces :: "control_world interface_env" where
  "world_interfaces = \<lparr>ie_socket = returnC True, ie_index = \<lambda>name. returnC (Some (if name = ''eth0'' then 1 else 2)),
     ie_flags = \<lambda>_. returnC (Some 1), ie_mtu = \<lambda>_. returnC (Some 1500),
     ie_hwaddr = \<lambda>_. returnC (Some (1, (2, 0, 0, 0, 0, 1)))\<rparr>"

definition world_files :: "control_world runtime_file_ops" where
  "world_files = \<lparr>rf_open = \<lambda>_ w. (Inr 9, w\<lparr>cw_unread := cw_file w\<rparr>),
     rf_stat = \<lambda>_ w. (Some \<lparr>st_regular = True, st_dev = 1, st_ino = 1, st_size = int (length (cw_file w)),
        st_mtim = (0, 0), st_ctim = (0, 0)\<rparr>, w),
     rf_read = \<lambda>_ n w. (Inr (take n (cw_unread w)), w\<lparr>cw_unread := drop n (cw_unread w)\<rparr>), rf_close = \<lambda>_ w. w\<rparr>"

text \<open>A signal number 0 means that none is pending; after the list comes \<open>SIGTERM\<close>.\<close>

definition world_env :: "control_world runtime_service_env" where
  "world_env = \<lparr>sv_file = world_files, sv_pton = sample_pton, sv_interfaces = world_interfaces, sv_xdp = world_xdp,
     sv_probe = world_probes, sv_absolute = (\<lambda>path. path), sv_what = (\<lambda>_. ''error''),
     sv_signalfd = \<lambda>w. (Inr 5, w), sv_closeSignals = \<lambda>_ w. w, sv_getFlags = \<lambda>w. (Inr 2, w), sv_setFlags = \<lambda>_ w. (None, w),
     sv_write = \<lambda>txt w. (Inr (length txt), w\<lparr>cw_output := cw_output w @ txt\<rparr>), sv_pollOutput = \<lambda>w. (None, w),
     sv_pollBoth = \<lambda>_ w. (None, 0, w), sv_clock = \<lambda>w. (cw_clock w, w\<lparr>cw_clock := cw_clock w + seconds 1\<rparr>),
     sv_sigtimedwait = \<lambda>w. (Inl EAGAIN, w),
     sv_readSignal = \<lambda>w. (case cw_signals w of [] \<Rightarrow> (Inr (Some 15), w)
       | n # later \<Rightarrow> (if n = 0 then Inl EAGAIN else Inr (Some n), w\<lparr>cw_signals := later\<rparr>))\<rparr>"

definition initial_world :: "string \<Rightarrow> nat list \<Rightarrow> control_world" where
  "initial_world file signals = \<lparr>cw_host = fresh_runtime_host [], cw_template = (empty_runtime_snapshot, False),
     cw_program = 0, cw_file = file, cw_unread = [], cw_clock = 0,
     cw_probes = (\<lparr>nq_epoch = 5, nq_lastSequence = 0\<rparr>, []), cw_sockets = [], cw_signals = signals, cw_output = []\<rparr>"

lemma world_positive: "positive_ifindex (sv_interfaces world_env)"
  by (auto simp: positive_ifindex_def world_env_def world_interfaces_def returnC_def)

definition world_target :: "string \<Rightarrow> u8 \<Rightarrow> u32 \<Rightarrow> RuntimeTarget" where
  "world_target name m address = \<lparr>rg_id = name, rg_egress = ''eth1'', rg_backend = \<lparr>db_ifindex = 2,
     db_destinationMac = (2, 0, 0, 0, 1, m), db_sourceMac = (2, 0, 0, 0, 0, 1)\<rparr>, rg_probeAddress = address, rg_probePort = 7\<rparr>"

definition world_config :: RuntimeDsrConfiguration where
  "world_config = \<lparr>rc_vipAddress = 0x0100000A, rc_vipPort = 13568,
     rc_targets = [world_target ''a'' 1 0x0200000A, world_target ''b'' 2 0x0300000A]\<rparr>"

lemma world_config_ok: "runtime_config_ok world_config"
  by (simp add: runtime_config_ok_def world_config_def world_target_def runtime_target_ok_def probes_ok_def probe_key_def
      dsr_backend_ok_def validMac_def)

text \<open>A service whose checker has polled twice: both targets are healthy, nothing is published yet.\<close>

definition world_checker :: "control_world UdpProbeChecker" where
  "world_checker = poll_all world_probes [0, seconds 1]
     (snd (constructUdpProbeChecker world_probes (buildProbeTargets world_config) []
       (emptyUdpProbeChecker (initial_world [] []))))"

definition world_service :: "control_world runtime_service" where
  "world_service = (initialService ((emptyXdpAttachment (uc_world world_checker))\<lparr>xa_runtimeMaps :=
     Some (initialRuntimeMapStore (uc_world world_checker))\<rparr>))\<lparr>vs_configuration := world_config, vs_checker := world_checker\<rparr>"

lemma world_constructed: "\<exists>checker. constructUdpProbeChecker world_probes (buildProbeTargets world_config) []
    (emptyUdpProbeChecker (initial_world [] [])) = (Inr (), checker)"
  using config_targets_valid[OF world_config_ok]
  by (simp add: constructUdpProbeChecker_def or_cancel_def catchC_def world_config_def buildProbeTargets_def prepareProbe_def
      import_probe_def callP_def world_probes_def comp_defs Let_def emptyUdpProbeChecker_def initial_world_def)

lemma world_in_step: "in_step None world_service"
proof -
  obtain checker where "constructUdpProbeChecker world_probes (buildProbeTargets world_config) []
      (emptyUdpProbeChecker (initial_world [] [])) = (Inr (), checker)"
    using world_constructed by blast
  note c = this
  have "sound_checker (buildProbeTargets world_config) world_checker"
    unfolding world_checker_def c snd_conv by (rule sound_poll_all[OF constructed_sound[OF c]])
  then show ?thesis
    using world_config_ok
    by (simp add: in_step_def world_service_def initialService_def at_generation_def emptyXdpAttachment_def
        initialRuntimeMapStore_def empty_runtime_snapshot_def)
qed

lemma world_healthy: "map pt_id (copyHealthyProbeTargets world_checker) = [''a'', ''b'']"
  by code_simp

section \<open>Properties\<close>

text \<open>
  Claim C7. From a service in step, whose configuration passed the loader's checks, whose checker
  probes exactly its targets and whose map store is at the generation of the applied snapshot,
  any number of turns of the control loop, with any signals, reloads, probe results and failures,
  ends in step again and with at most 64 KiB of pending output; the only exception is a
  publication reported as committed but not confirmed.
\<close>

theorem runtime_loop_keeps_step:
  assumes "positive_ifindex (sv_interfaces env)" and "in_step None s"
    and "control_loop env fuel turns path ingress vip s = (r, t)"
  shows "in_step None t \<or> (\<exists>m. r = Inl (RuntimePublishError m True))"
  using triple_to_end[OF loop_keeps[OF assms(1), unfolded stays_def] assms(2,3)] by (auto simp: unconfirmed_def)

lemma runtime_loop_keeps_step_witness:
  "case control_loop world_env 9 4 ''f'' ''eth0'' ''10.0.0.1:53'' world_service of
     (r, t) \<Rightarrow> in_step None t \<or> (\<exists>m. r = Inl (RuntimePublishError m True))"
  using runtime_loop_keeps_step[OF world_positive world_in_step] by (simp split: prod.split)

text \<open>
  Claim C9. A service in step whose generations are not used up always has a next snapshot: it lists
  exactly the healthy targets, in the checker's order, and the map store accepts it as the
  successor of what it published last.
\<close>

theorem sound_service_snapshot_accepted:
  assumes "in_step c s" and "rs_generation (vs_applied s) \<noteq> - 1"
  shows "\<exists>x store. nextRuntimeGeneration (vs_applied s) = Inr (rs_generation x) \<and>
    buildRuntimeSnapshot (vs_configuration s) (vs_checker s) (rs_generation x) = Inr x \<and>
    xa_runtimeMaps (vs_attachment s) = Some store \<and> validateCandidateSnapshot x (rt_generation store) = Inr () \<and>
    unat (rs_backendCount x) = length (copyHealthyProbeTargets (vs_checker s)) \<and>
    take (unat (rs_backendCount x)) (rs_backends x) = map active_backend (copyHealthyProbeTargets (vs_checker s))"
proof -
  let ?healthy = "copyHealthyProbeTargets (vs_checker s)"
  let ?x = "snapshot_of (vs_configuration s) ?healthy (rs_generation (vs_applied s) + 1)"
  from assms(1) obtain store where store: "xa_runtimeMaps (vs_attachment s) = Some store"
    "rt_generation store = rs_generation (vs_applied s)" by (auto simp: in_step_def at_generation_def)
  have ok: "runtime_config_ok (vs_configuration s)" and probes: "probes_of (vs_configuration s) (copyProbeSnapshots (vs_checker s))"
    using assms(1) by (simp_all add: in_step_def sound_checker_def snapshots_probes)
  have "length ?healthy \<le> 64"
    using healthy_targets(2)[of "vs_checker s"] ok probes
    by (metis probes_of_def length_map buildProbeTargets_def runtime_config_ok_def order_trans)
  then have count: "unat (rs_backendCount ?x) = length ?healthy" by (simp add: snapshot_of_def unat_of_nat)
  note built = built_snapshot_valid[OF ok probes assms(2)]
  show ?thesis
    by (rule exI[of _ ?x], rule exI[of _ store])
      (use built store assms(2) count in \<open>simp add: nextRuntimeGeneration_def, simp add: snapshot_of_def\<close>)
qed

lemma sound_service_snapshot_accepted_witness:
  "\<exists>x. buildRuntimeSnapshot world_config world_checker 1 = Inr x \<and> rs_backendCount x = 2"
proof -
  have "vs_configuration world_service = world_config" "vs_checker world_service = world_checker"
    "rs_generation (vs_applied world_service) = 0"
    by (simp_all add: world_service_def initialService_def empty_runtime_snapshot_def)
  moreover have "length (copyHealthyProbeTargets world_checker) = 2" using world_healthy by (metis length_map length_Cons list.size(3) numeral_2_eq_2)
  ultimately obtain x where "buildRuntimeSnapshot world_config world_checker (rs_generation x) = Inr x"
    "Inr (rs_generation x) = nextRuntimeGeneration (vs_applied world_service)" "unat (rs_backendCount x) = 2"
    using sound_service_snapshot_accepted[OF world_in_step] by auto
  moreover from this(2) have "rs_generation x = 1"
    using \<open>rs_generation (vs_applied world_service) = 0\<close> by (simp add: nextRuntimeGeneration_def)
  moreover from calculation(3) have "rs_backendCount x = 2" by (simp add: word_unat_eq_iff)
  ultimately show ?thesis by auto
qed

text \<open>
  Claim C8. A reload is all or nothing: however it ends, either configuration, checker, applied
  snapshot and the store's generation are what they were, or all four were replaced together: a
  configuration that passed the loader's checks, a checker of exactly its targets, and the next
  generation's snapshot of those of them that are healthy; the candidate checker is gone in both
  cases. The only exception is a publication reported as committed but not confirmed.
\<close>

theorem runtime_reload_all_or_nothing:
  assumes "positive_ifindex (sv_interfaces env)" and "in_step None s"
    and "reloadConfiguration env fuel path ingress vip s = (r, t)"
  shows "(\<exists>m. r = Inl (RuntimePublishError m True)) \<or> vs_candidate t = None \<and>
    (vs_configuration t = vs_configuration s \<and> vs_checker t = vs_checker s \<and> vs_applied t = vs_applied s \<and>
       at_generation (rs_generation (vs_applied s)) (vs_attachment t) \<or>
     runtime_config_ok (vs_configuration t) \<and> sound_checker (buildProbeTargets (vs_configuration t)) (vs_checker t) \<and>
       vs_applied t = snapshot_of (vs_configuration t) (copyHealthyProbeTargets (vs_checker t)) (rs_generation (vs_applied s) + 1) \<and>
       at_generation (rs_generation (vs_applied s) + 1) (vs_attachment t))"
proof -
  have "untouched s None s" using assms(2) by (simp add: untouched_def in_step_def)
  from triple_to_end[OF reload_all[OF assms(1)] this assms(3)] show ?thesis
    by (auto simp: unconfirmed_def reloaded_def untouched_def replaced_def)
qed

lemma runtime_reload_all_or_nothing_witness:
  "vs_candidate (snd (reloadConfiguration world_env 9 ''f'' ''eth0'' ''10.0.0.1:53'' world_service)) = None \<or>
   (\<exists>m. fst (reloadConfiguration world_env 9 ''f'' ''eth0'' ''10.0.0.1:53'' world_service) = Inl (RuntimePublishError m True))"
  using runtime_reload_all_or_nothing[OF world_positive world_in_step prod.collapse[symmetric]] by blast



end
