(* ===== verification/XdpMain.thy ===== *)
theory XdpMain
  imports RuntimeService
begin

text \<open>
  The program \<open>l4lb-xdp\<close>: \<open>src/xdp/main.cpp\<close>. First its command line, then its run over the
  attachment, the configuration parsers and the runtime control loop. What it writes to the
  standard error stream, its help text and the remark after the detach command's line are left out.
\<close>

section \<open>Options\<close>

record XdpOptions =
  xo_attach :: bool
  xo_profile :: XdpObjectProfile
  xo_vip :: string
  xo_runtimeConfig :: string
  xo_targets :: "string list"
  xo_dsr :: DsrConfiguration
  xo_endpoints :: "string list"
  xo_backends :: "XdpBackendValue list"
  xo_device :: string
  xo_object :: string
  xo_mode :: XdpAttachMode
  xo_programId :: u32

definition no_dsr :: DsrConfiguration where
  "no_dsr = \<lparr>dsr_config = \<lparr>dc_schemaVersion = 0, dc_backendCount = 0, dc_vipAddress = 0, dc_vipPort = 0, dc_reserved = 0\<rparr>,
     dsr_backends = []\<rparr>"

definition defaultXdpOptions :: XdpOptions where
  "defaultXdpOptions = \<lparr>xo_attach = False, xo_profile = kLegacy, xo_vip = [], xo_runtimeConfig = [], xo_targets = [],
     xo_dsr = no_dsr, xo_endpoints = [], xo_backends = [], xo_device = [], xo_object = [], xo_mode = kGeneric,
     xo_programId = 0\<rparr>"

text \<open>The locals of \<open>parseXdpOptions\<close>.\<close>

record options_scan =
  os_options :: XdpOptions
  os_modeSeen :: bool
  os_programIdSeen :: bool

definition profile_flag :: "string \<Rightarrow> XdpObjectProfile option" where
  "profile_flag key =
     (if key = ''--maps'' \<or> key = ''--udp-dsr'' \<or> key = ''--udp-dsr-runtime''
      then Some (if key = ''--udp-dsr-runtime'' then kUdpRuntimeV3 else if key = ''--maps'' then kMapsV1 else kUdpDsrV2)
      else None)"

text \<open>The chain of conditions on one option and its value.\<close>

definition apply_option :: "string \<Rightarrow> string \<Rightarrow> options_scan \<Rightarrow> exn + options_scan" where
  "apply_option key val scan = (let opts = os_options scan in
     if key = ''--backend'' \<and> xo_attach opts
     then Inr (scan\<lparr>os_options := opts\<lparr>xo_endpoints := xo_endpoints opts @ [val]\<rparr>\<rparr>)
     else if key = ''--vip'' \<and> xo_attach opts \<and> xo_vip opts = [] then Inr (scan\<lparr>os_options := opts\<lparr>xo_vip := val\<rparr>\<rparr>)
     else if key = ''--runtime-config'' \<and> xo_attach opts \<and> xo_runtimeConfig opts = []
     then Inr (scan\<lparr>os_options := opts\<lparr>xo_runtimeConfig := val\<rparr>\<rparr>)
     else if key = ''--target'' \<and> xo_attach opts then Inr (scan\<lparr>os_options := opts\<lparr>xo_targets := xo_targets opts @ [val]\<rparr>\<rparr>)
     else if key = ''--dev'' \<and> xo_device opts = [] then Inr (scan\<lparr>os_options := opts\<lparr>xo_device := val\<rparr>\<rparr>)
     else if key = ''--object'' \<and> xo_attach opts \<and> xo_object opts = [] then Inr (scan\<lparr>os_options := opts\<lparr>xo_object := val\<rparr>\<rparr>)
     else if key = ''--mode'' \<and> \<not> os_modeSeen scan then
       (if val \<noteq> ''generic'' \<and> val \<noteq> ''native'' then Inl (InvalidArgument ''mode must be generic or native'')
        else Inr (scan\<lparr>os_options := opts\<lparr>xo_mode := (if val = ''generic'' then kGeneric else kNative)\<rparr>, os_modeSeen := True\<rparr>))
     else if key = ''--prog-id'' \<and> \<not> xo_attach opts \<and> \<not> os_programIdSeen scan then
       (let (ok, used, number) = from_chars dec_digit 10 val in
        if \<not> ok \<or> used \<noteq> length val \<or> number = 0 then Inl (InvalidArgument ''prog-id must be a positive uint32'')
        else Inr (scan\<lparr>os_options := opts\<lparr>xo_programId := of_nat number\<rparr>, os_programIdSeen := True\<rparr>))
     else Inl (InvalidArgument (''unknown, repeated or unsuitable option '' @ key)))"

text \<open>The loop over the arguments: a profile flag takes one of them, everything else two.\<close>

fun parse_arguments :: "string list \<Rightarrow> options_scan \<Rightarrow> exn + options_scan" where
  "parse_arguments [] scan = Inr scan"
| "parse_arguments (key # rest) scan =
     (if profile_flag key \<noteq> None \<and> xo_attach (os_options scan) \<and> xo_profile (os_options scan) = kLegacy
      then parse_arguments rest (scan\<lparr>os_options := (os_options scan)\<lparr>xo_profile := the (profile_flag key)\<rparr>\<rparr>)
      else case rest of
        [] \<Rightarrow> Inl (InvalidArgument (''option without a value '' @ key))
      | val # rest' \<Rightarrow>
          if val = [] then Inl (InvalidArgument (''option without a value '' @ key))
          else case apply_option key val scan of
            Inl e \<Rightarrow> Inl e
          | Inr scan' \<Rightarrow> parse_arguments rest' scan')"

definition device_ok :: "string \<Rightarrow> bool" where
  "device_ok device \<longleftrightarrow> \<not> (device = [] \<or> 16 \<le> length device \<or>
     (\<exists>c \<in> set device. c \<in> set ''/ :'' \<or> c \<in> {CHR 0x09, CHR 0x0D, CHR 0x0A}))"

text \<open>The checks after the loop.\<close>

definition check_options :: "(string \<Rightarrow> u32 option) \<Rightarrow> options_scan \<Rightarrow> exn + XdpOptions" where
  "check_options inet_pton scan = (let opts = os_options scan in
     if \<not> device_ok (xo_device opts) then Inl (InvalidArgument ''a valid --dev is required'')
     else if xo_attach opts \<and> xo_object opts = [] then Inl (InvalidArgument ''missing --object'')
     else if \<not> xo_attach opts \<and> \<not> os_programIdSeen scan then Inl (InvalidArgument ''missing --prog-id'')
     else if xo_profile opts \<noteq> kMapsV1 \<and> xo_endpoints opts \<noteq> [] then Inl (InvalidArgument ''--backend needs --maps'')
     else case parseXdpBackends inet_pton (xo_endpoints opts) of
       Inl e \<Rightarrow> Inl e
     | Inr backends \<Rightarrow> (case
         (if xo_profile opts = kUdpRuntimeV3 then
            (if xo_vip opts = [] \<or> xo_runtimeConfig opts = [] \<or> xo_targets opts \<noteq> []
             then Inl (InvalidArgument ''runtime mode needs --vip and --runtime-config'')
             else parseXdpBackends inet_pton [xo_vip opts])
          else if xo_profile opts = kUdpDsrV2 then
            (if xo_vip opts = [] then Inl (InvalidArgument ''--udp-dsr needs --vip'') else parseXdpBackends inet_pton [xo_vip opts])
          else if xo_vip opts \<noteq> [] \<or> xo_targets opts \<noteq> [] then Inl (InvalidArgument ''--vip and --target need --udp-dsr'')
          else Inr []) of
         Inl e \<Rightarrow> Inl e
       | Inr _ \<Rightarrow>
           if xo_profile opts \<noteq> kUdpRuntimeV3 \<and> xo_runtimeConfig opts \<noteq> []
           then Inl (InvalidArgument ''--runtime-config needs --udp-dsr-runtime'')
           else Inr (opts\<lparr>xo_backends := backends\<rparr>)))"

text \<open>\<open>args\<close> is the command line without the program's name.\<close>

definition parseXdpOptions :: "(string \<Rightarrow> u32 option) \<Rightarrow> string list \<Rightarrow> exn + XdpOptions" where
  "parseXdpOptions inet_pton args = (case args of
     [] \<Rightarrow> Inl (InvalidArgument ''missing subcommand'')
   | command # rest \<Rightarrow>
       if command \<noteq> ''attach'' \<and> command \<noteq> ''detach'' then Inl (InvalidArgument (''unknown subcommand '' @ command))
       else case parse_arguments rest \<lparr>os_options = defaultXdpOptions\<lparr>xo_attach := (command = ''attach'')\<rparr>,
                 os_modeSeen = False, os_programIdSeen = False\<rparr> of
         Inl e \<Rightarrow> Inl e
       | Inr scan \<Rightarrow> check_options inet_pton scan)"

section \<open>The program\<close>

text \<open>
  \<open>mn_mask\<close> blocks the signals, with \<open>SIGHUP\<close> or without; \<open>mn_print\<close> writes to the standard output
  and tells whether the stream is still good.
\<close>

record 'w main_env =
  mn_service :: "'w runtime_service_env"
  mn_mask :: "bool \<Rightarrow> 'w \<Rightarrow> bool \<times> 'w"
  mn_print :: "string \<Rightarrow> 'w \<Rightarrow> bool \<times> 'w"
  mn_sigwait :: "'w \<Rightarrow> (errno + nat) \<times> 'w"

definition mode_fields :: "XdpOptions \<Rightarrow> u32 \<Rightarrow> string" where
  "mode_fields options program = '' dev='' @ xo_device options @ '' mode='' @ xdpAttachModeName (xo_mode options) @
     '' prog_id='' @ dec_string (unat program)"

definition ready_line :: "XdpOptions \<Rightarrow> u32 \<Rightarrow> string" where
  "ready_line options program = ''READY'' @ mode_fields options program @
     (if xo_profile options = kMapsV1 then '' schema=1 backend_count='' @ dec_string (length (xo_backends options)) else []) @
     (if xo_profile options = kUdpDsrV2
      then '' schema=2 profile=udp-dsr backend_count='' @ dec_string (length (dsr_backends (xo_dsr options))) else [])"

definition dsr_stats_line :: "UdpDsrStatsValue \<Rightarrow> string" where
  "dsr_stats_line stats = ''XDP_STATS schema=2 total_packets='' @ dec_string (unat (ds_totalPackets stats)) @
     '' pass_packets='' @ dec_string (unat (ds_passPackets stats)) @
     '' redirect_requests='' @ dec_string (unat (ds_redirectRequests stats)) @
     '' drop_packets='' @ dec_string (unat (ds_dropPackets stats)) @
     '' unsupported_packets='' @ dec_string (unat (ds_unsupportedPackets stats)) @
     '' no_backend_packets='' @ dec_string (unat (ds_noBackendPackets stats)) @
     '' invalid_config_packets='' @ dec_string (unat (ds_invalidConfigPackets stats)) @
     '' helper_error_packets='' @ dec_string (unat (ds_helperErrorPackets stats))"

text \<open>\<open>try { m } catch (const std::exception&) { cleanupFailed = true; }\<close>\<close>

definition cleanup :: "('s, unit) comp \<Rightarrow> ('s, bool) comp" where
  "cleanup m = catchC (thenC m (returnC False)) (\<lambda>_. returnC True)"

definition print_line :: "'w main_env \<Rightarrow> string \<Rightarrow> ('w XdpAttachment, bool) comp" where
  "print_line env line = callX (mn_print env (line @ [CHR 0x0A]))"

definition detach_command :: "'w main_env \<Rightarrow> int \<Rightarrow> XdpOptions \<Rightarrow> ('w XdpAttachment, int) comp" where
  "detach_command env ifindex options =
     thenC (detachExpectedProgram (sv_xdp (mn_service env)) ifindex (xo_mode options) (xo_programId options))
    (bindC (print_line env (''DETACHED'' @ mode_fields options (xo_programId options))) (\<lambda>good.
     returnC (if good then 0 else 1)))"

definition runtime_command :: "'w main_env \<Rightarrow> nat \<Rightarrow> nat \<Rightarrow> XdpOptions \<Rightarrow> ('w XdpAttachment, int) comp" where
  "runtime_command env fuel turns options a =
     (case runRuntimeDsrControlLoop (mn_service env) fuel turns (xo_object options) (xo_device options) (xo_vip options)
        (xo_runtimeConfig options) (xo_mode options) (initialService a) of
       (r, s) \<Rightarrow> (r, (vs_attachment s)\<lparr>xa_world := vs_world s\<rparr>))"

text \<open>The end of the foreground attachment: everything is attempted, and any failure is remembered.\<close>

definition finish_attach :: "'w main_env \<Rightarrow> XdpOptions \<Rightarrow> nat \<Rightarrow> ('w XdpAttachment, int) comp" where
  "finish_attach env options received =
     bindC (cleanup (detachProgram (sv_xdp (mn_service env)))) (\<lambda>detachFailed.
     bindC (if xo_profile options = kMapsV1
       then cleanup (bindC (attachedPassPackets (sv_xdp (mn_service env))) (\<lambda>packets.
              thenC (print_line env (''XDP_STATS schema=1 pass_packets='' @ dec_string (unat packets))) (returnC ())))
       else returnC False) (\<lambda>passFailed.
     bindC (if xo_profile options = kUdpDsrV2
       then cleanup (bindC (readDsrStats (sv_xdp (mn_service env))) (\<lambda>stats.
              thenC (print_line env (dsr_stats_line stats)) (returnC ())))
       else returnC False) (\<lambda>dsrFailed.
     if detachFailed \<or> passFailed \<or> dsrFailed then returnC 1 else
     bindC (getC xa_programId) (\<lambda>program.
     bindC (print_line env (''DETACHED'' @ mode_fields options program)) (\<lambda>good.
     returnC (if good \<and> received \<noteq> SIGPIPE then 0 else 1))))))"

definition attach_command :: "'w main_env \<Rightarrow> nat \<Rightarrow> int \<Rightarrow> XdpOptions \<Rightarrow> ('w XdpAttachment, int) comp" where
  "attach_command env fuel ifindex options =
     thenC (loadObject (sv_xdp (mn_service env)) fuel (xo_object options) (xo_profile options) (xo_backends options)
              (xo_dsr options) None)
    (thenC (attachProgram (sv_xdp (mn_service env)) ifindex (xo_mode options))
    (bindC (getC xa_programId) (\<lambda>program.
     bindC (print_line env (ready_line options program)) (\<lambda>good.
     if \<not> good then throwC (RuntimeError ''READY output failed'') else
     bindC (callX (mn_sigwait env)) (\<lambda>waited. case waited of
       Inl e \<Rightarrow> throwC (RuntimeError ''waiting for a signal failed'')
     | Inr received \<Rightarrow> finish_attach env options received)))))"

text \<open>The body of the \<open>try\<close> block and its handlers; an exception that is no \<open>std::exception\<close> gets through.\<close>

definition main_body :: "'w main_env \<Rightarrow> nat \<Rightarrow> nat \<Rightarrow> XdpOptions \<Rightarrow> ('w XdpAttachment, int) comp" where
  "main_body env fuel turns options =
     bindC (callX (mn_mask env (xo_profile options = kUdpRuntimeV3))) (\<lambda>blocked.
     if \<not> blocked then throwC (RuntimeError ''cannot block the exit signals'') else
     bindC (resolveInterfaceIndex (sv_xdp (mn_service env)) (xo_device options)) (\<lambda>ifindex.
     if \<not> xo_attach options then detach_command env ifindex options else
     bindC (if xo_profile options = kUdpDsrV2
       then worldX (parseDsrConfiguration (sv_pton (mn_service env)) (sv_interfaces (mn_service env)) (xo_device options)
                     (xo_vip options) (xo_targets options))
       else returnC (xo_dsr options)) (\<lambda>dsr.
     finallyC
       (if xo_profile options = kUdpRuntimeV3 then runtime_command env fuel turns options
        else attach_command env fuel ifindex (options\<lparr>xo_dsr := dsr\<rparr>))
       (destroyXdpAttachment (sv_xdp (mn_service env))))))"

definition main_failure :: "exn \<Rightarrow> ('w XdpAttachment, int) comp" where
  "main_failure e = (case e of
     InvalidArgument _ \<Rightarrow> returnC 2 | OutOfFuel \<Rightarrow> throwC e | ForeignException _ \<Rightarrow> throwC e | _ \<Rightarrow> returnC 1)"

definition xdp_main :: "'w main_env \<Rightarrow> nat \<Rightarrow> nat \<Rightarrow> string list \<Rightarrow> ('w XdpAttachment, int) comp" where
  "xdp_main env fuel turns args =
     (if args = [''--help'']
      then bindC (print_line env ''usage'') (\<lambda>good. returnC (if good then 0 else 1))
      else case parseXdpOptions (sv_pton (mn_service env)) args of
        Inl e \<Rightarrow> (case e of InvalidArgument _ \<Rightarrow> bindC (print_line env ''usage'') (\<lambda>_. returnC 2) | _ \<Rightarrow> throwC e)
      | Inr options \<Rightarrow> catchC (main_body env fuel turns options) main_failure)"

end
