(* ===== verification/XdpProgram.thy ===== *)
theory XdpProgram
  imports XdpMain RuntimeControl
begin

text \<open>
  What the command line of \<open>l4lb-xdp\<close> accepts, and how the program ends.
\<close>

section \<open>Accepted command lines\<close>

text \<open>The options a command line can give.\<close>

definition attach_options_ok :: "(string \<Rightarrow> u32 option) \<Rightarrow> XdpOptions \<Rightarrow> bool" where
  "attach_options_ok inet_pton opts \<longleftrightarrow> xo_object opts \<noteq> [] \<and> xo_programId opts = 0 \<and>
     (xo_endpoints opts = [] \<or> xo_profile opts = kMapsV1) \<and>
     (case xo_profile opts of
        kUdpRuntimeV3 \<Rightarrow> xo_vip opts \<noteq> [] \<and> xo_runtimeConfig opts \<noteq> [] \<and> xo_targets opts = [] \<and> \<not> isl (parseXdpBackends inet_pton [xo_vip opts])
      | kUdpDsrV2 \<Rightarrow> xo_vip opts \<noteq> [] \<and> xo_runtimeConfig opts = [] \<and> \<not> isl (parseXdpBackends inet_pton [xo_vip opts])
      | _ \<Rightarrow> xo_vip opts = [] \<and> xo_runtimeConfig opts = [] \<and> xo_targets opts = [])"

definition detach_options_ok :: "XdpOptions \<Rightarrow> bool" where
  "detach_options_ok opts \<longleftrightarrow> xo_programId opts \<noteq> 0 \<and> xo_profile opts = kLegacy \<and> xo_vip opts = [] \<and> xo_runtimeConfig opts = [] \<and>
     xo_targets opts = [] \<and> xo_endpoints opts = [] \<and> xo_object opts = []"

definition xdp_options_ok :: "(string \<Rightarrow> u32 option) \<Rightarrow> XdpOptions \<Rightarrow> bool" where
  "xdp_options_ok inet_pton opts \<longleftrightarrow> device_ok (xo_device opts) \<and> xo_dsr opts = no_dsr \<and>
     list_all (\<lambda>v. v \<noteq> []) (xo_targets opts @ xo_endpoints opts) \<and> parseXdpBackends inet_pton (xo_endpoints opts) = Inr (xo_backends opts) \<and>
     (if xo_attach opts then attach_options_ok inet_pton opts else detach_options_ok opts)"

text \<open>A command line that gives them.\<close>

definition profile_args :: "XdpObjectProfile \<Rightarrow> string list" where
  "profile_args profile = (case profile of kLegacy \<Rightarrow> [] | kMapsV1 \<Rightarrow> [''--maps''] | kUdpDsrV2 \<Rightarrow> [''--udp-dsr'']
     | kUdpRuntimeV3 \<Rightarrow> [''--udp-dsr-runtime''])"

definition optional_args :: "string \<Rightarrow> string \<Rightarrow> string list" where
  "optional_args key val = (if val = [] then [] else [key, val])"

definition repeated_args :: "string \<Rightarrow> string list \<Rightarrow> string list" where
  "repeated_args key vals = concat (map (\<lambda>val. [key, val]) vals)"

definition render_options :: "XdpOptions \<Rightarrow> string list" where
  "render_options opts = (if xo_attach opts then ''attach'' else ''detach'') #
     [''--dev'', xo_device opts, ''--mode'', xdpAttachModeName (xo_mode opts)] @
     (if xo_attach opts
      then profile_args (xo_profile opts) @ [''--object'', xo_object opts] @ optional_args ''--vip'' (xo_vip opts) @
        optional_args ''--runtime-config'' (xo_runtimeConfig opts) @ repeated_args ''--target'' (xo_targets opts) @
        repeated_args ''--backend'' (xo_endpoints opts)
      else [''--prog-id'', dec_string (unat (xo_programId opts))])"

text \<open>What the loop keeps.\<close>

definition scan_wf :: "options_scan \<Rightarrow> bool" where
  "scan_wf scan \<longleftrightarrow> (let opts = os_options scan in xo_dsr opts = no_dsr \<and> xo_backends opts = [] \<and>
     list_all (\<lambda>v. v \<noteq> []) (xo_targets opts @ xo_endpoints opts) \<and>
     (os_programIdSeen scan \<longleftrightarrow> xo_programId opts \<noteq> 0) \<and>
     (if xo_attach opts then xo_programId opts = 0
      else xo_profile opts = kLegacy \<and> xo_vip opts = [] \<and> xo_runtimeConfig opts = [] \<and> xo_targets opts = [] \<and>
        xo_endpoints opts = [] \<and> xo_object opts = []))"

lemma from_chars_bound: "from_chars digit base txt = (True, used, n) \<Longrightarrow> n < 4294967296"
  by (auto simp: from_chars_def Let_def split: if_splits)

lemma apply_option_wf:
  assumes "scan_wf scan" and "val \<noteq> []" and "apply_option key val scan = Inr scan'"
  shows "scan_wf scan' \<and> xo_attach (os_options scan') = xo_attach (os_options scan)"
proof -
  have number: "(of_nat n :: u32) \<noteq> 0" if "from_chars dec_digit 10 val = (True, used, n)" "n \<noteq> 0" for used n
    using from_chars_bound[OF that(1)] that(2) by (simp add: word_unat_eq_iff unat_of_nat)
  from assms show ?thesis
    by (auto simp: apply_option_def scan_wf_def Let_def number split: if_splits prod.splits)
qed

lemma parse_arguments_wf:
  "parse_arguments args scan = Inr scan' \<Longrightarrow> scan_wf scan \<Longrightarrow>
   scan_wf scan' \<and> xo_attach (os_options scan') = xo_attach (os_options scan)"
proof (induction args scan rule: parse_arguments.induct)
  case (2 key rest scan)
  show ?case
  proof (cases "profile_flag key \<noteq> None \<and> xo_attach (os_options scan) \<and> xo_profile (os_options scan) = kLegacy")
    case True
    moreover have "scan_wf (scan\<lparr>os_options := (os_options scan)\<lparr>xo_profile := the (profile_flag key)\<rparr>\<rparr>)"
      using "2.prems"(2) True by (simp add: scan_wf_def Let_def)
    ultimately show ?thesis using "2.IH"(1)[OF True] "2.prems"(1) by simp
  next
    case False
    with "2.prems"(1) obtain val rest' scan1 where "rest = val # rest'" "val \<noteq> []" "apply_option key val scan = Inr scan1"
      "parse_arguments rest' scan1 = Inr scan'" by (auto split: list.splits if_splits sum.splits)
    with "2.IH"(2)[OF False this(1,2,3)] apply_option_wf[OF "2.prems"(2) this(2,3)] show ?thesis by simp
  qed
qed simp

lemma parsed_options_ok:
  assumes "parseXdpOptions inet_pton args = Inr opts'"
  shows "xdp_options_ok inet_pton opts'"
proof -
  from assms obtain command rest scan where
    run: "parse_arguments rest \<lparr>os_options = defaultXdpOptions\<lparr>xo_attach := (command = ''attach'')\<rparr>, os_modeSeen = False,
      os_programIdSeen = False\<rparr> = Inr scan" and check: "check_options inet_pton scan = Inr opts'"
    by (auto simp: parseXdpOptions_def split: list.splits if_splits sum.splits)
  have "scan_wf scan" using parse_arguments_wf[OF run] by (simp add: scan_wf_def defaultXdpOptions_def)
  with check show ?thesis
    unfolding check_options_def Let_def xdp_options_ok_def
    by (cases "xo_profile (os_options scan)")
       (auto simp: scan_wf_def attach_options_ok_def detach_options_ok_def Let_def split: if_splits sum.splits)
qed

lemma from_chars_dec_string:
  assumes "n < 4294967296"
  shows "from_chars dec_digit 10 (dec_string n) = (True, length (dec_string n), n)"
proof -
  have digits: "list_all is_digit (dec_string n)" by (rule dec_string_digits)
  then have take: "takeWhile (\<lambda>c. dec_digit c \<noteq> None) (dec_string n) = dec_string n"
    by (simp add: takeWhile_eq_all_conv list_all_iff dec_digit_def)
  have "list_all is_digit s \<Longrightarrow> foldl (\<lambda>acc c. acc * 10 + the (dec_digit c)) r s = dec_acc r s" for r s
    by (induction s arbitrary: r) (simp_all add: dec_digit_def)
  from this[OF digits] have "foldl (\<lambda>acc c. acc * 10 + the (dec_digit c)) 0 (dec_string n) = n"
    by (simp add: dec_acc_dec_string)
  with assms show ?thesis unfolding from_chars_def Let_def take by simp
qed

lemma parse_repeated:
  assumes "list_all (\<lambda>v. v \<noteq> []) vals" and "xo_attach (os_options scan)"
  shows "parse_arguments (repeated_args ''--target'' vals @ rest) scan =
      parse_arguments rest (scan\<lparr>os_options := (os_options scan)\<lparr>xo_targets := xo_targets (os_options scan) @ vals\<rparr>\<rparr>)"
    and "parse_arguments (repeated_args ''--backend'' vals @ rest) scan =
      parse_arguments rest (scan\<lparr>os_options := (os_options scan)\<lparr>xo_endpoints := xo_endpoints (os_options scan) @ vals\<rparr>\<rparr>)"
  using assms
  by (induction vals arbitrary: scan) (simp_all add: repeated_args_def profile_flag_def apply_option_def Let_def)

text \<open>What one option does to the scan.\<close>

abbreviation (input) with_options :: "(XdpOptions \<Rightarrow> XdpOptions) \<Rightarrow> options_scan \<Rightarrow> options_scan" where
  "with_options f scan \<equiv> scan\<lparr>os_options := f (os_options scan)\<rparr>"

lemma parse_dev: "xo_device (os_options scan) = [] \<Longrightarrow> val \<noteq> [] \<Longrightarrow> parse_arguments (''--dev'' # val # rest) scan =
    parse_arguments rest (with_options (xo_device_update (\<lambda>_. val)) scan)"
  by (simp add: profile_flag_def apply_option_def Let_def)

lemma parse_mode: "\<not> os_modeSeen scan \<Longrightarrow> parse_arguments (''--mode'' # xdpAttachModeName m # rest) scan =
    parse_arguments rest (with_options (xo_mode_update (\<lambda>_. m)) scan\<lparr>os_modeSeen := True\<rparr>)"
  by (cases m) (simp_all add: profile_flag_def apply_option_def Let_def xdpAttachModeName_def)

lemma parse_profile: "xo_attach (os_options scan) \<Longrightarrow> xo_profile (os_options scan) = kLegacy \<Longrightarrow>
    parse_arguments (profile_args profile @ rest) scan = parse_arguments rest (with_options (xo_profile_update (\<lambda>_. profile)) scan)"
  by (cases scan; cases "os_options scan"; cases profile) (simp_all add: profile_flag_def profile_args_def)

lemma parse_object: "xo_attach (os_options scan) \<Longrightarrow> xo_object (os_options scan) = [] \<Longrightarrow> val \<noteq> [] \<Longrightarrow>
    parse_arguments (''--object'' # val # rest) scan = parse_arguments rest (with_options (xo_object_update (\<lambda>_. val)) scan)"
  by (simp add: profile_flag_def apply_option_def Let_def)

lemma parse_vip: "xo_attach (os_options scan) \<Longrightarrow> xo_vip (os_options scan) = [] \<Longrightarrow>
    parse_arguments (optional_args ''--vip'' val @ rest) scan = parse_arguments rest (with_options (xo_vip_update (\<lambda>_. val)) scan)"
  by (cases scan; cases "os_options scan"; cases "val = []") (simp_all add: optional_args_def profile_flag_def apply_option_def Let_def)

lemma parse_runtime_config: "xo_attach (os_options scan) \<Longrightarrow> xo_runtimeConfig (os_options scan) = [] \<Longrightarrow>
    parse_arguments (optional_args ''--runtime-config'' val @ rest) scan =
    parse_arguments rest (with_options (xo_runtimeConfig_update (\<lambda>_. val)) scan)"
  by (cases scan; cases "os_options scan"; cases "val = []") (simp_all add: optional_args_def profile_flag_def apply_option_def Let_def)

lemma parse_prog_id: "\<not> xo_attach (os_options scan) \<Longrightarrow> \<not> os_programIdSeen scan \<Longrightarrow> program \<noteq> 0 \<Longrightarrow>
    parse_arguments [''--prog-id'', dec_string (unat program)] scan =
    Inr (with_options (xo_programId_update (\<lambda>_. program)) scan\<lparr>os_programIdSeen := True\<rparr>)"
  by (simp add: profile_flag_def apply_option_def Let_def from_chars_dec_string unat_u32_less unat_eq_zero)

lemma render_options_parse:
  assumes ok: "xdp_options_ok inet_pton opts'"
  shows "parseXdpOptions inet_pton (render_options opts') = Inr opts'"
proof -
  let ?start = "\<lparr>os_options = defaultXdpOptions\<lparr>xo_attach := xo_attach opts'\<rparr>, os_modeSeen = False, os_programIdSeen = False\<rparr>"
  have fields: "xo_device opts' \<noteq> []" "xo_dsr opts' = no_dsr" "list_all (\<lambda>v. v \<noteq> []) (xo_targets opts')"
    "list_all (\<lambda>v. v \<noteq> []) (xo_endpoints opts')" "device_ok (xo_device opts')"
    "parseXdpBackends inet_pton (xo_endpoints opts') = Inr (xo_backends opts')"
    using ok by (simp_all add: xdp_options_ok_def device_ok_def)
  have scan: "parse_arguments (tl (render_options opts')) ?start =
      Inr \<lparr>os_options = opts'\<lparr>xo_backends := []\<rparr>, os_modeSeen = True, os_programIdSeen = \<not> xo_attach opts'\<rparr>"
  proof (cases "xo_attach opts'")
    case True
    with ok have "xo_object opts' \<noteq> []" "xo_programId opts' = 0" by (simp_all add: xdp_options_ok_def attach_options_ok_def)
    with True fields(1-4) show ?thesis
      using parse_repeated(2)[OF fields(4), where rest = "[]"]
      by (simp add: render_options_def defaultXdpOptions_def parse_dev parse_mode parse_profile parse_object parse_vip
          parse_runtime_config parse_repeated(1) del: parse_arguments.simps(2))
  next
    case False
    with ok have "detach_options_ok opts'" by (simp add: xdp_options_ok_def)
    with False fields(1,2) show ?thesis
      by (simp add: render_options_def defaultXdpOptions_def parse_dev parse_mode parse_prog_id detach_options_ok_def
          del: parse_arguments.simps(2))
  qed
  have check: "check_options inet_pton \<lparr>os_options = opts'\<lparr>xo_backends := []\<rparr>, os_modeSeen = True,
      os_programIdSeen = \<not> xo_attach opts'\<rparr> = Inr opts'"
  proof (cases "xo_attach opts'")
    case True
    with ok have "attach_options_ok inet_pton opts'" by (simp add: xdp_options_ok_def)
    with True fields(5,6) show ?thesis
      by (cases "xo_profile opts'"; cases "parseXdpBackends inet_pton [xo_vip opts']")
        (simp_all add: check_options_def attach_options_ok_def Let_def)
  next
    case False
    with ok have "detach_options_ok opts'" by (simp add: xdp_options_ok_def)
    with False fields(5,6) show ?thesis by (simp add: check_options_def detach_options_ok_def Let_def)
  qed
  have "render_options opts' = (if xo_attach opts' then ''attach'' else ''detach'') # tl (render_options opts')"
    by (simp add: render_options_def)
  then obtain rest where "render_options opts' = (if xo_attach opts' then ''attach'' else ''detach'') # rest" by blast
  with scan check show ?thesis
    by (cases "xo_attach opts'") (simp_all add: parseXdpOptions_def del: parse_arguments.simps)
qed

section \<open>How the program ends\<close>

text \<open>A result whose only errors are \<open>std::invalid_argument\<close>.\<close>

definition invalid_only :: "exn + 'a \<Rightarrow> bool" where
  "invalid_only r \<longleftrightarrow> (\<forall>e. r = Inl e \<longrightarrow> (\<exists>m. e = InvalidArgument m))"

lemma invalid_only_rules:
  "invalid_only (Inr a)" "invalid_only (Inl (InvalidArgument m))"
  "(b \<Longrightarrow> invalid_only r) \<Longrightarrow> (\<not> b \<Longrightarrow> invalid_only q) \<Longrightarrow> invalid_only (if b then r else q)"
  "invalid_only x \<Longrightarrow> (\<And>a. x = Inr a \<Longrightarrow> invalid_only (f a)) \<Longrightarrow> invalid_only (case x of Inl e \<Rightarrow> Inl e | Inr a \<Rightarrow> f a)"
  "invalid_only r \<Longrightarrow> (\<And>a. invalid_only (g a)) \<Longrightarrow> invalid_only (case y of None \<Rightarrow> r | Some a \<Rightarrow> g a)"
  "invalid_only r \<Longrightarrow> (\<And>a as. l = a # as \<Longrightarrow> invalid_only (h a as)) \<Longrightarrow> invalid_only (case l of [] \<Rightarrow> r | a # as \<Rightarrow> h a as)"
  "(\<And>a b. invalid_only (k a b)) \<Longrightarrow> invalid_only (case p of (a, b) \<Rightarrow> k a b)"
  by (auto simp: invalid_only_def split: sum.split option.split list.split prod.split)

lemma apply_option_error: "invalid_only (apply_option key val scan)"
  unfolding apply_option_def Let_def by (intro invalid_only_rules)

lemma parse_arguments_error: "invalid_only (parse_arguments args scan)"
proof (induction args scan rule: parse_arguments.induct)
  case (2 key rest scan)
  then show ?case
    by (simp del: not_None_eq) (intro conjI impI invalid_only_rules apply_option_error; simp add: invalid_only_rules)
qed (simp add: invalid_only_rules)

lemma parse_backends_error: "invalid_only (parseXdpBackends inet_pton es)"
proof -
  have "invalid_only (parse_xdp_backend inet_pton bs endpoint)" for bs endpoint
    unfolding parse_xdp_backend_def Let_def by (intro invalid_only_rules)
  then have "invalid_only (parse_xdp_loop inet_pton es bs)" for bs
    by (induction es arbitrary: bs) (auto intro!: invalid_only_rules)
  then show ?thesis by (auto simp: parseXdpBackends_def intro: invalid_only_rules)
qed

lemma parse_error: "invalid_only (parseXdpOptions inet_pton args)"
  unfolding parseXdpOptions_def check_options_def Let_def
  by (intro invalid_only_rules parse_arguments_error parse_backends_error)

definition detached :: "'w XdpAttachment \<Rightarrow> bool" where
  "detached s \<longleftrightarrow> \<not> xa_attached s"

text \<open>An attachment that outlives the program has been reported.\<close>

definition reported :: "'w XdpAttachment \<Rightarrow> bool" where
  "reported s \<longleftrightarrow> (xa_attached s \<longrightarrow> xa_diagnostics s \<noteq> [])"

lemma destroyed_reports: "reported (destroyXdpAttachment env s)"
proof -
  have "reported (case detachProgram env s of (Inr _, t) \<Rightarrow> t | (Inl e, t) \<Rightarrow> t\<lparr>xa_diagnostics := xa_diagnostics t @ [e]\<rparr>)"
    if "xa_attached s"
    using that by (auto simp: reported_def detachProgram_def split: prod.split sum.split)
  then show ?thesis
    by (auto simp: destroyXdpAttachment_def Let_def reported_def split: option.split)
qed

lemma destroyed_detached: "detached s \<Longrightarrow> detached (destroyXdpAttachment env s)"
  by (auto simp: destroyXdpAttachment_def Let_def detached_def split: option.split)

lemma callX_detached [preserves_rules]:
  "preserves detached (callX f)" "preserves detached (effectX h)" "preserves detached (worldX m)"
  "preserves detached (throwXdpSystemError operation e)"
  by (rule preservesI, auto simp: callX_def effectX_def worldX_def throwXdpSystemError_def detached_def split: prod.splits)+

lemma quiet_detached:
  "preserves detached (print_line env line)" "preserves detached (resolveInterfaceIndex xdp device)"
  "preserves detached (detachExpectedProgramFd xdp ifindex mode fd expected)"
  "preserves detached (attachedPassPackets xdp)" "preserves detached (readDsrStats xdp)"
  unfolding print_line_def resolveInterfaceIndex_def detachExpectedProgramFd_def queryAttachedProgramId_def
    attachedPassPackets_def readDsrStats_def open_store_def
  by (intro preserves_rules)+

lemma cleanup_detached: "preserves detached m \<Longrightarrow> preserves detached (cleanup m)"
  unfolding cleanup_def by (intro preserves_rules)

definition exits :: "int \<Rightarrow> 'w XdpAttachment \<Rightarrow> bool" where
  "exits code s \<longleftrightarrow> (code = 0 \<or> code = 1) \<and> (code = 0 \<longrightarrow> detached s)"

lemma ends_finally:
  assumes "triple (\<lambda>_. True) m Q (\<lambda>_ _. True)" and "\<And>a s. Q a s \<Longrightarrow> Q' a (f s)"
  shows "triple P (finallyC m f) Q' (\<lambda>_ s. \<exists>u. s = f u)"
proof (rule tripleI)
  fix s a t
  assume "finallyC m f s = (Inr a, t)"
  then obtain u where "m s = (Inr a, u)" "t = f u" by (auto simp: finallyC_def split: prod.splits)
  with triple_Inr[OF assms(1) _ this(1)] assms(2) show "Q' a t" by simp
qed (auto simp: finallyC_def split: prod.splits)

lemma finish_exits: "triple (\<lambda>_. True) (finish_attach env options received) exits (\<lambda>_ _. True)"
proof -
  let ?D = "\<lambda>failed s. \<not> failed \<longrightarrow> detached s"
  have detach: "triple (\<lambda>_. True) (cleanup (detachProgram xdp)) ?D (\<lambda>_ _. True)" for xdp :: "'a xdp_env"
    by (rule tripleI) (auto simp: cleanup_def catchC_def detached_def detachProgram_def split: prod.splits sum.splits if_splits)
  have keep: "triple (?D failed) m (\<lambda>_. ?D failed) (\<lambda>_ _. True)" if "preserves detached m"
    for failed and m :: "('a XdpAttachment, 'b) comp"
  proof (rule tripleI)
    fix s a t
    assume "?D failed s" "m s = (Inr a, t)"
    with that show "?D failed t" by (cases failed) (auto dest: preservesD)
  qed simp
  have stats: "preserves detached (if b then cleanup (bindC (attachedPassPackets xdp) (\<lambda>p. thenC (print_line env (f p)) (returnC ()))) else returnC False)"
    "preserves detached (if b then cleanup (bindC (readDsrStats xdp) (\<lambda>p. thenC (print_line env (g p)) (returnC ()))) else returnC False)"
    for b f g and xdp :: "'a xdp_env"
    by (intro preserves_rules cleanup_detached quiet_detached)+
  have code: "triple (?D failed) (returnC (if good then 0 else 1)) exits (\<lambda>_ _. True)" if "\<not> failed" for failed good
    using that by (simp add: triple_def returnC_def exits_def)
  show ?thesis
    unfolding finish_attach_def
    by (rule triple_bind[OF detach], rule triple_bind[OF keep[OF stats(1)]], rule triple_bind[OF keep[OF stats(2)]],
        rule triple_if, simp add: triple_def returnC_def exits_def,
        rule triple_bind[OF keep[OF preserves_get]], rule triple_bind[OF keep[OF quiet_detached(1)]], rule code, simp)
qed

lemma attach_exits: "triple (\<lambda>_. True) (attach_command env fuel ifindex options) exits (\<lambda>_ _. True)"
  unfolding attach_command_def
  by (intro ends_bind ends_then ends_throw triple_rules finish_exits)

lemma run_code:
  "triple (\<lambda>_. True) (runRuntimeDsrControlLoop env fuel turns object ingress vip path mode) (\<lambda>code _. code = 0 \<or> code = 1) (\<lambda>_ _. True)"
proof -
  have final: "triple (\<lambda>_. True) (finallyC m f) (\<lambda>code _. code = 0 \<or> code = 1) (\<lambda>_ _. True)"
    if "triple (\<lambda>_. True) m (\<lambda>code _. code = 0 \<or> code = 1) (\<lambda>_ _. True)" for m :: "('a runtime_service, int) comp" and f
    by (rule triple_weaken[OF ends_finally[OF that]]) auto
  have last: "triple (\<lambda>_. True) (getC (\<lambda>s. if vs_brokenPipe s then 1 else 0)) (\<lambda>code _. code = 0 \<or> code = (1 :: int)) (\<lambda>_ _. True)"
    by (simp add: triple_def getC_def)
  have attached: "triple (\<lambda>_. True) (runAttached env fuel turns path ingress vip mode) (\<lambda>code _. code = 0 \<or> code = 1) (\<lambda>_ _. True)"
    for path unfolding runAttached_def by (intro ends_bind ends_then last)
  have rethrown: "triple P (detach_and_rethrow env e) Q (\<lambda>_ _. True)" for P Q e
    by (auto simp: triple_def detach_and_rethrow_def thenC_def bindC_def throwC_def split: prod.split sum.split)
  have loaded: "triple (\<lambda>_. True) (runLoaded env fuel turns object ingress vip path mode x) (\<lambda>code _. code = 0 \<or> code = 1) (\<lambda>_ _. True)"
    for path x unfolding runLoaded_def by (intro ends_bind ends_then triple_catch[OF attached rethrown])
  show ?thesis
    unfolding runRuntimeDsrControlLoop_def runProbed_def Let_def
    by (intro ends_bind ends_then final ends_throw triple_rules loaded)
qed

lemma runtime_exits:
  assumes pos: "positive_ifindex (sv_interfaces (mn_service env))"
  shows "triple (\<lambda>_. True) (runtime_command env fuel turns options) exits (\<lambda>_ _. True)"
proof (rule tripleI)
  fix a code t
  assume "runtime_command env fuel turns options a = (Inr code, t)"
  then obtain s where run: "runRuntimeDsrControlLoop (mn_service env) fuel turns (xo_object options) (xo_device options)
        (xo_vip options) (xo_runtimeConfig options) (xo_mode options) (initialService a) = (Inr code, s)"
    and t: "t = (vs_attachment s)\<lparr>xa_world := vs_world s\<rparr>" by (auto simp: runtime_command_def split: prod.splits)
  from triple_Inr[OF run_code _ run] run_stops[OF pos run] show "exits code t"
    by (auto simp: exits_def detached_def stopped_def t)
qed simp

lemma main_body_exits:
  assumes pos: "positive_ifindex (sv_interfaces (mn_service env))"
  shows "triple detached (main_body env fuel turns options) (\<lambda>code s. exits code s \<and> reported s) (\<lambda>_. reported)"
proof -
  have quiet: "triple detached m (\<lambda>_. detached) (\<lambda>_. reported)" if "preserves detached m" for m :: "('a XdpAttachment, 'b) comp"
    using that by (rule triple_preserves_weaken) (simp_all add: detached_def reported_def)
  have thrown: "triple detached (throwC e) Q (\<lambda>_. reported)" for e and Q :: "'b \<Rightarrow> 'a XdpAttachment \<Rightarrow> bool"
    by (simp add: triple_def throwC_def detached_def reported_def)
  have mask: "triple detached (callX f) (\<lambda>_. detached) (\<lambda>_. reported)" for f :: "'a \<Rightarrow> bool \<times> 'a"
    by (rule quiet) (rule preserves_rules)
  have index: "triple detached (resolveInterfaceIndex xdp device) (\<lambda>_. detached) (\<lambda>_. reported)" for xdp :: "'a xdp_env" and device
    by (rule quiet) (rule quiet_detached)
  have command: "preserves detached (detachExpectedProgram xdp ifindex mode p)" for xdp :: "'a xdp_env" and ifindex mode p
    unfolding detachExpectedProgram_def queryAttachedProgramId_def by (intro preserves_rules quiet_detached)
  have code: "triple detached (returnC (if good then 0 else 1)) (\<lambda>code s. exits code s \<and> reported s) (\<lambda>_. reported)" for good
    by (simp add: triple_def returnC_def exits_def detached_def reported_def)
  have detach: "triple detached (detach_command env ifindex options) (\<lambda>code s. exits code s \<and> reported s) (\<lambda>_. reported)" for ifindex
    unfolding detach_command_def
    by (rule triple_then[OF quiet[OF command]], rule triple_bind[OF quiet[OF quiet_detached(1)]], rule code)
  have final: "triple detached (finallyC m (destroyXdpAttachment xdp)) (\<lambda>code s. exits code s \<and> reported s) (\<lambda>_. reported)"
    if "triple (\<lambda>_. True) m exits (\<lambda>_ _. True)" for m and xdp :: "'a xdp_env"
    by (rule triple_weaken[OF ends_finally[OF that, where Q' = "\<lambda>code s. exits code s \<and> reported s"]])
      (auto simp: exits_def destroyed_reports destroyed_detached)
  have dsr: "triple detached (if b then worldX m else returnC d) (\<lambda>_. detached) (\<lambda>_. reported)"
    for b d and m :: "('a, DsrConfiguration) comp"
    by (rule quiet) (intro preserves_rules)
  show ?thesis
    unfolding main_body_def
    by (rule triple_bind[OF mask], rule triple_if, rule thrown, rule triple_bind[OF index], rule triple_if, rule detach,
        rule triple_bind[OF dsr], rule final, rule triple_if, rule runtime_exits[OF pos], rule attach_exits)
qed

section \<open>Properties\<close>

text \<open>
  Exactly the consistent options can be given on a command line: for attaching an object
  and, by profile, only the options that profile allows, with all addresses valid; for detaching
  a program id that is not 0 and nothing else; and always a device name of 1 to 15 bytes.
\<close>

theorem xdp_options_exact:
  "(\<exists>args. parseXdpOptions inet_pton args = Inr opts) \<longleftrightarrow> xdp_options_ok inet_pton opts"
  using parsed_options_ok render_options_parse by blast

text \<open>
  Claim C24. Whatever fails, the program ends with code 0, 1 or 2, unless an exception that is no
  \<open>std::exception\<close> comes from outside; with code 0 its program is detached, and a program that is
  still attached at the end has been reported.
\<close>

theorem xdp_main_ends:
  assumes "positive_ifindex (sv_interfaces (mn_service env))"
    and "xdp_main env fuel turns args (emptyXdpAttachment w) = (r, t)"
  shows "(xa_attached t \<longrightarrow> xa_diagnostics t \<noteq> []) \<and>
    (case r of
       Inr code \<Rightarrow> (code = 0 \<or> code = 1 \<or> code = 2) \<and> (code = 0 \<longrightarrow> \<not> xa_attached t)
     | Inl e \<Rightarrow> e = OutOfFuel \<or> (\<exists>n. e = ForeignException n))"
proof -
  have start: "detached (emptyXdpAttachment w)" by (simp add: detached_def emptyXdpAttachment_def)
  have usage: ?thesis if "bindC (print_line env line) (\<lambda>good. returnC (f good)) (emptyXdpAttachment w) = (r, t)"
      "\<And>good. f good \<in> {0, 1, 2}" for line f
  proof -
    from that(1) have "r = Inr (f True) \<or> r = Inr (f False)" "\<not> xa_attached t"
      by (auto simp: print_line_def callX_def bindC_def returnC_def emptyXdpAttachment_def split: prod.splits)
         (metis (full_types))
    with that(2) show ?thesis by (auto split: sum.split)
  qed
  show ?thesis
  proof (cases "args = [''--help'']")
    case True
    with assms(2) show ?thesis by (intro usage[of _ "\<lambda>good. if good then 0 else 1"]) (auto simp: xdp_main_def)
  next
    case False
    show ?thesis
    proof (cases "parseXdpOptions (sv_pton (mn_service env)) args")
      case (Inl e)
      with parse_error[of "sv_pton (mn_service env)" args] obtain m where "e = InvalidArgument m"
        by (auto simp: invalid_only_def)
      with False assms(2) Inl show ?thesis
        by (intro usage[of _ "\<lambda>_. 2"]) (auto simp: xdp_main_def)
    next
      case (Inr options)
      with False assms(2) have "catchC (main_body env fuel turns options) main_failure (emptyXdpAttachment w) = (r, t)"
        by (simp add: xdp_main_def)
      then show ?thesis
        using triple_Inr[OF main_body_exits[OF assms(1)] start] triple_Inl[OF main_body_exits[OF assms(1)] start]
        by (fastforce simp: catchC_def main_failure_def exits_def reported_def detached_def returnC_def throwC_def
            split: prod.splits sum.splits exn.splits)
    qed
  qed
qed

definition main_world :: "control_world main_env" where
  "main_world = \<lparr>mn_service = world_env, mn_mask = \<lambda>_ w. (True, w),
     mn_print = \<lambda>line w. (True, w\<lparr>cw_output := cw_output w @ line\<rparr>), mn_sigwait = \<lambda>w. (Inr 15, w)\<rparr>"

definition runtime_args :: "string list" where
  "runtime_args = [''attach'', ''--udp-dsr-runtime'', ''--dev'', ''eth0'', ''--object'', ''o'', ''--vip'', ''10.0.0.1:53'',
     ''--runtime-config'', ''f'']"

lemma xdp_main_ends_witness:
  "case xdp_main main_world 9 20 runtime_args
      (emptyXdpAttachment (initial_world (render_runtime_config sample_target_texts) [0, 0, 1])) of
     (r, t) \<Rightarrow> xa_attached t \<longrightarrow> xa_diagnostics t \<noteq> []"
proof -
  have "positive_ifindex (sv_interfaces (mn_service main_world))" by (simp add: main_world_def world_positive)
  from xdp_main_ends[OF this] show ?thesis by (simp split: prod.split)
qed

end
