(* ===== verification/Spec2Isabelle.thy ===== *)
theory Spec2Isabelle
  imports Cli MetricsBounds XdpConfig UdpProbes RuntimePublish RuntimeConfigFacts XdpDetach RuntimeControl XdpProgram
begin

text \<open>
  Verification of the L4 load balancer under \<open>src/\<close>: two user-space proxies with health checks and
  metrics (program \<open>l4lb\<close>), and XDP programs with the control plane that loads, configures and feeds them
  (program \<open>l4lb-xdp\<close>). Every theory imports \<open>L4_Prelude\<close>, directly or through another.

  \<^bold>\<open>How the code is modelled.\<close> A stateful operation is a computation \<open>'s \<Rightarrow> (exn + 'a) \<times> 's\<close>: a throw is
  a value of \<open>exn\<close> and keeps the changes made before it, \<open>catchC\<close>, \<open>attemptC\<close> and \<open>finallyC\<close> are \<open>catch\<close>,
  a \<open>catch\<close> that remembers the first exception, and a destructor at the end of a scope. Classes are records;
  machine integers are words of their width, sizes are naturals, times are integers in nanoseconds.
  \<open>std::unordered_map\<close> is an association list (\<open>Alists\<close>) and the order of a walk over it a parameter. System
  calls, clocks, BPF and libbpf calls and callbacks are fields of an environment record (\<open>tcp_env\<close>,
  \<open>udp_env\<close>, \<open>probe_env\<close>, \<open>runtime_maps_env\<close>, \<open>xdp_env\<close> and others) over an abstract world, which they read and
  change; what a theorem needs of them is among its hypotheses, and every such theorem has a witness
  that applies it to a concrete environment. Texts of exceptions are shortened.

  \<^bold>\<open>The proxies.\<close>
  \<^item> \<open>Config\<close>: \<open>src/config\<close>, the line parser and the bounded file reader. Accepted configurations are
    well formed, well-formed configurations have a text that is read back, the first bad line decides.
  \<^item> \<open>Scheduler\<close>, \<open>HealthState\<close>, \<open>TcpHealthChecker\<close>, \<open>HealthSelection\<close>: \<open>src/core\<close>, \<open>src/health\<close> and
    \<open>src/control/HealthSelection.cpp\<close>. Round robin over the eligible backends, the rule of consecutive
    results as a verdict on the whole history, a poll specified probe by probe, the ownership of tokens and sockets.
  \<^item> \<open>Statistics\<close>, \<open>Metrics\<close>, \<open>MetricsBounds\<close>, \<open>MetricsService\<close>: \<open>src/net/Statistics.h\<close>, \<open>src/metrics\<close> and
    \<open>src/control/MetricsService.cpp\<close>. Counters are saturated exact totals, an output writes at most one first
    and one last line, a line always fits.
  \<^item> \<open>TcpState\<close>, \<open>TcpReactor\<close>: \<open>src/net/TcpState.h\<close>, \<open>src/net/TcpReactor.cpp\<close>. \<open>TcpSessions\<close> holds the
    invariant of the tables, \<open>TcpRelay\<close> the bytes, \<open>TcpRuns\<close> whole runs and stopping, \<open>TcpServed\<close> what a
    world shared with the callbacks keeps (locale \<open>tcp_world\<close>).
  \<^item> \<open>UdpReactor\<close>, \<open>UdpFlowTable\<close>, \<open>UdpServed\<close>: \<open>src/core/UdpFlow.h\<close>, \<open>src/net/UdpReactor.cpp\<close>, in the same way.
  \<^item> \<open>TcpHost\<close>, \<open>UdpHost\<close>, \<open>ServiceWorld\<close>, \<open>TcpService\<close>, \<open>UdpService\<close>, \<open>Services\<close>, \<open>Cli\<close>: the callback
    interfaces of the reactors, \<open>src/control/TcpService.cpp\<close>, \<open>UdpService.cpp\<close>, \<open>Service.cpp\<close> and
    \<open>src/cli/main.cpp\<close>. The services interpret \<open>tcp_world\<close> and \<open>udp_world\<close> with selection and metrics in the
    world: that is where backends, sessions and counters are tied together.

  \<^bold>\<open>The XDP side.\<close>
  \<^item> \<open>XdpDsr\<close>: the four BPF programs \<open>src/xdp/*.bpf.c\<close> over packet bytes with explicit faults, refined to a
    specification of verdict, packet and counters.
  \<^item> \<open>XdpMaps\<close>, \<open>XdpConfig\<close>: \<open>src/xdp/MapStore.cpp\<close>, \<open>DsrMapStore.cpp\<close>, \<open>src/control/XdpConfigSync.cpp\<close>,
    \<open>DsrConfigSync.cpp\<close>. The two stores and the two synchronizations are one definition each, for any value types;
    the contract of the kernel's maps is the locale \<open>config_maps\<close>, interpreted on a model of them with faults.
  \<^item> \<open>RuntimeMaps\<close>, \<open>RuntimePublish\<close>: \<open>src/xdp/RuntimeMapStore.cpp\<close>, publications that commit or change nothing.
  \<^item> \<open>UdpProbeChecker\<close>, \<open>UdpProbes\<close>: \<open>src/health/UdpProbeChecker.cpp\<close>, the echo prober.
  \<^item> \<open>RuntimeConfig\<close>, \<open>RuntimeConfigFacts\<close>: \<open>src/control/RuntimeDsrConfig.cpp\<close>.
  \<^item> \<open>XdpAttachment\<close>, \<open>XdpDetach\<close>: \<open>src/xdp/XdpAttachment.cpp\<close>, and that a detach removes only its own program
    whatever others do to the interface in between.
  \<^item> \<open>RuntimeService\<close>, \<open>RuntimeRuns\<close>, \<open>RuntimeControl\<close>: \<open>src/control/RuntimeDsrService.cpp\<close>, the loop that probes,
    reloads and publishes, with configuration, prober, snapshot and store in step.
  \<^item> \<open>XdpMain\<close>, \<open>XdpProgram\<close>: \<open>src/xdp/main.cpp\<close>, options and exit codes.

  \<^bold>\<open>Fuel and bounds.\<close> Loops whose length the code bounds are structural or carry exactly that bound: the attempts
  of a pass over a socket, the receive budget of the prober, the length of the session table while it is emptied.
  Loops that repeat an interrupted call, and the event loops, carry fuel, and running out of it is the value
  \<open>OutOfFuel\<close>, which no handler of the code mentions; it stands for a run that has not ended, and in a
  service it passes through \<open>catch (...)\<close> like any exception. Safety and invariants hold for every fuel, so for
  every prefix of a run. That fuel is enough is proved where the code promises an end: a pass of input and output
  needs no retry when no call is interrupted, a poll of the prober ends within its budget, a turn after
  the drain deadline returns. Session identifiers are 64 bits wide; \<open>8192 * fuel < 2 ^ 64 - 1\<close> says that a
  run is too short to use them up (a turn of the loop accepts at most 64 clients for each of 128 events).

  \<^bold>\<open>Not modelled.\<close> Exhausted memory; \<open>errno\<close> changing between a failing call and its report; the fault
  injection of \<open>TcpReactorOptions\<close> and \<open>UdpReactorOptions\<close>, which tests use; what \<open>l4lb-xdp\<close> writes to its standard
  error stream and its help text; the size and alignment assertions of the schema headers, which hold at
  compile time. libbpf, the kernel and the C library are not under \<open>src/\<close>; what is used of them is a parameter.
\<close>

end
